(* ===== verification/Prelude.thy ===== *)
theory Prelude
  imports Main "HOL-Library.Sublist" "HOL-Library.Code_Target_Nat"
begin

text \<open>
  What every component of the development shares: the errors a handler of the control API can
  raise, the combinators that mirror its guards (\<open>need\<close> of \<open>errors.ts\<close>), tables as lists of rows
  with their lookup and update, decimal rendering of integers, and the lemma collections the
  component proofs use.

  A handler that runs in a database transaction is a function from its arguments and the database
  to \<open>error + ('a \<times> db)\<close>: \<open>Inl\<close> is the exception it throws (the transaction rolls back and the
  database keeps its old value), \<open>Inr\<close> the value it returns with the committed database.
\<close>

section \<open>Errors and guards\<close>

datatype error =
    AppError nat string      \<comment> \<open>\<open>AppError(status, code, ..)\<close> of \<open>errors.ts\<close>; the message is display text\<close>
  | ZodError                 \<comment> \<open>a request body refused by its schema (HTTP 400, \<open>invalid_request\<close>)\<close>
  | TypeError                \<comment> \<open>reading a property of \<open>undefined\<close>\<close>
  | RangeError               \<comment> \<open>\<open>throw new RangeError(..)\<close> of \<open>contracts\<close>\<close>
  | DbError string           \<comment> \<open>an SQLSTATE raised by a constraint or a trigger\<close>

type_synonym 'a result = "error + 'a"

named_theorems res_Inr \<open>inversion of a computation that returned\<close>
named_theorems acct_neq \<open>account identifiers of different kinds are different\<close>
named_theorems key_neq \<open>business keys of different kinds are different\<close>

text \<open>\<open>need(condition, status, code, message)\<close>, with the rest of the handler as the last argument.\<close>

definition need :: "bool \<Rightarrow> nat \<Rightarrow> string \<Rightarrow> 'a result \<Rightarrow> 'a result" where
  "need c status code rest = (if c then rest else Inl (AppError status code))"

definition zod :: "bool \<Rightarrow> 'a result \<Rightarrow> 'a result" where
  "zod c rest = (if c then rest else Inl ZodError)"

text \<open>\<open>need(row, ..)\<close> on a row that may be missing, with the row bound in the rest.\<close>

definition need_row :: "'r option \<Rightarrow> nat \<Rightarrow> string \<Rightarrow> ('r \<Rightarrow> 'a result) \<Rightarrow> 'a result" where
  "need_row o1 status code rest =
     (case o1 of None \<Rightarrow> Inl (AppError status code) | Some r \<Rightarrow> rest r)"

text \<open>Sequencing: an exception of the first computation skips the rest.\<close>

definition and_then :: "'a result \<Rightarrow> ('a \<Rightarrow> 'b result) \<Rightarrow> 'b result" where
  "and_then m f = (case m of Inl e \<Rightarrow> Inl e | Inr a \<Rightarrow> f a)"

lemma need_simps [simp]:
  "need True st c k = k" "need False st c k = Inl (AppError st c)"
  by (simp_all add: need_def)

lemma need_Inr [res_Inr]: "need c st code k = Inr r \<longleftrightarrow> c \<and> k = Inr r"
  by (simp add: need_def)

lemma zod_simps [simp]: "zod True k = k" "zod False k = Inl ZodError"
  by (simp_all add: zod_def)

lemma zod_Inr [res_Inr]: "zod c k = Inr r \<longleftrightarrow> c \<and> k = Inr r"
  by (simp add: zod_def)

lemma need_row_simps [simp]:
  "need_row None st c k = Inl (AppError st c)" "need_row (Some x) st c k = k x"
  by (simp_all add: need_row_def)

lemma need_row_Inr [res_Inr]: "need_row ro st code k = Inr r \<longleftrightarrow> (\<exists>x. ro = Some x \<and> k x = Inr r)"
  by (simp add: need_row_def split: option.splits)

lemma and_then_simps [simp]:
  "and_then (Inl e) f = Inl e" "and_then (Inr a) f = f a"
  by (simp_all add: and_then_def)

lemma and_then_Inr [res_Inr]:
  "and_then m f = Inr r \<longleftrightarrow> (\<exists>a. m = Inr a \<and> f a = Inr r)"
  by (simp add: and_then_def split: sum.splits)

lemma if_Inr [res_Inr]:
  "(if c then a else b) = Inr r \<longleftrightarrow> (c \<and> a = Inr r) \<or> (\<not> c \<and> b = Inr r)"
  by simp

text \<open>
  A loop of awaited statements over a list, and \<open>map\<close> with a callback that may throw.
\<close>

fun each :: "('a \<Rightarrow> 's \<Rightarrow> 's result) \<Rightarrow> 'a list \<Rightarrow> 's \<Rightarrow> 's result" where
  "each f [] s = Inr s"
| "each f (x # xs) s = and_then (f x s) (each f xs)"

fun traverse :: "('a \<Rightarrow> 'b result) \<Rightarrow> 'a list \<Rightarrow> 'b list result" where
  "traverse f [] = Inr []"
| "traverse f (x # xs) = and_then (f x) (\<lambda>y. and_then (traverse f xs) (\<lambda>ys. Inr (y # ys)))"

text \<open>A loop keeps what each of its statements keeps.\<close>

lemma each_keeps:
  assumes "each f xs s = Inr s'" and "I s"
    and "\<And>x t t'. x \<in> set xs \<Longrightarrow> f x t = Inr t' \<Longrightarrow> I t \<Longrightarrow> I t'"
  shows "I s'"
  using assms by (induction xs arbitrary: s) (auto simp: res_Inr)

lemma traverse_length: "traverse f xs = Inr ys \<Longrightarrow> length ys = length xs"
  by (induction xs arbitrary: ys) (auto simp: res_Inr)

text \<open>\<open>returns m P\<close>: the computation returned, with a value that satisfies \<open>P\<close>.\<close>

definition returns :: "'a result \<Rightarrow> ('a \<Rightarrow> bool) \<Rightarrow> bool" where
  "returns m P = (case m of Inl e \<Rightarrow> False | Inr a \<Rightarrow> P a)"

lemma returns_iff: "returns m P \<longleftrightarrow> (\<exists>a. m = Inr a \<and> P a)"
  by (simp add: returns_def split: sum.splits)

lemma returns_Inr [simp]: "returns (Inr a) P = P a" "returns (Inl e) P = False"
  by (simp_all add: returns_def)

lemma rtranclp_keeps:
  assumes "step\<^sup>*\<^sup>* x y" and "I x" and "\<And>a b. step a b \<Longrightarrow> I a \<Longrightarrow> I b"
  shows "I y"
  using assms by (induction rule: rtranclp_induct) auto

section \<open>Tables\<close>

text \<open>
  A table is the list of its rows in insertion order. \<open>lookup key k t\<close> is
  \<open>SELECT * FROM t WHERE key = k\<close> for a primary or unique key, \<open>update_row\<close> an \<open>UPDATE\<close> by key,
  \<open>insert_row\<close> an \<open>INSERT\<close> with the primary key's unique index (SQLSTATE 23505).
\<close>

definition lookup :: "('r \<Rightarrow> 'k) \<Rightarrow> 'k \<Rightarrow> 'r list \<Rightarrow> 'r option" where
  "lookup key k t = find (\<lambda>r. key r = k) t"

lemma find_SomeD: "find P xs = Some x \<Longrightarrow> x \<in> set xs \<and> P x"
  by (auto simp: find_Some_iff)

definition update_row :: "('r \<Rightarrow> 'k) \<Rightarrow> 'k \<Rightarrow> ('r \<Rightarrow> 'r) \<Rightarrow> 'r list \<Rightarrow> 'r list" where
  "update_row key k f t = map (\<lambda>r. if key r = k then f r else r) t"

definition insert_row :: "('r \<Rightarrow> 'k) \<Rightarrow> 'r \<Rightarrow> 'r list \<Rightarrow> 'r list result" where
  "insert_row key r t = (if key r \<in> key ` set t then Inl (DbError ''23505'') else Inr (t @ [r]))"

definition keyed :: "('r \<Rightarrow> 'k) \<Rightarrow> 'r list \<Rightarrow> bool" where
  "keyed key t \<longleftrightarrow> distinct (map key t)"

lemma lookup_Nil [simp]: "lookup key k [] = None"
  by (simp add: lookup_def)

lemma lookup_Cons [simp]:
  "lookup key k (r # t) = (if key r = k then Some r else lookup key k t)"
  by (simp add: lookup_def)

lemma lookup_append [simp]:
  "lookup key k (t @ u) = (case lookup key k t of None \<Rightarrow> lookup key k u | Some r \<Rightarrow> Some r)"
  by (induction t) auto

lemma lookup_SomeD: "lookup key k t = Some r \<Longrightarrow> r \<in> set t \<and> key r = k"
  by (induction t) (auto split: if_splits)

lemma lookup_None_iff: "lookup key k t = None \<longleftrightarrow> k \<notin> key ` set t"
  by (induction t) auto

lemma keyed_lookup: "keyed key t \<Longrightarrow> r \<in> set t \<Longrightarrow> lookup key (key r) t = Some r"
  by (induction t) (auto simp: keyed_def)

lemma keyed_unique: "keyed key t \<Longrightarrow> r \<in> set t \<Longrightarrow> q \<in> set t \<Longrightarrow> key r = key q \<Longrightarrow> r = q"
  by (metis keyed_lookup option.inject)

lemma update_row_keys:
  assumes "\<And>r. key (f r) = key r"
  shows "map key (update_row key k f t) = map key t"
  using assms by (simp add: update_row_def o_def)

lemma keyed_update [intro]:
  "keyed key t \<Longrightarrow> (\<And>r. key (f r) = key r) \<Longrightarrow> keyed key (update_row key k f t)"
  by (simp add: keyed_def update_row_keys del: map_map)

lemma lookup_update:
  assumes "\<And>r. key (f r) = key r"
  shows "lookup key j (update_row key k f t) =
    (if j = k then map_option f (lookup key j t) else lookup key j t)"
  using assms by (induction t) (auto simp: update_row_def)

lemma in_update_row:
  "r \<in> set (update_row key k f t) \<longleftrightarrow>
     (\<exists>q \<in> set t. (key q = k \<and> r = f q) \<or> (key q \<noteq> k \<and> r = q))"
  by (auto simp: update_row_def)

lemma update_row_absent: "k \<notin> key ` set t \<Longrightarrow> update_row key k f t = t"
  by (induction t) (auto simp: update_row_def)

lemma length_update_row [simp]: "length (update_row key k f t) = length t"
  by (simp add: update_row_def)

lemma insert_row_Inr [res_Inr]:
  "insert_row key r t = Inr u \<longleftrightarrow> key r \<notin> key ` set t \<and> u = t @ [r]"
  by (auto simp: insert_row_def)

lemma keyed_insert: "keyed key t \<Longrightarrow> key r \<notin> key ` set t \<Longrightarrow> keyed key (t @ [r])"
  by (auto simp: keyed_def)

text \<open>
  A sum over the rows of a keyed table changes, under an update by key, by the change of the one
  row that the key selects.
\<close>

lemma sum_update_row:
  fixes v :: "'r \<Rightarrow> int"
  assumes "keyed key t" and "lookup key k t = Some r"
  shows "sum_list (map v (update_row key k f t)) = sum_list (map v t) + (v (f r) - v r)"
  using assms
proof (induction t)
  case Nil
  then show ?case by simp
next
  case (Cons q t)
  show ?case
  proof (cases "key q = k")
    case True
    with Cons.prems have "r = q" "k \<notin> key ` set t" by (auto simp: keyed_def)
    with True show ?thesis using update_row_absent [of k key t f] by (simp add: update_row_def)
  next
    case False
    with Cons show ?thesis by (simp add: update_row_def keyed_def)
  qed
qed

section \<open>Decimal rendering\<close>

text \<open>\<open>BigInt.prototype.toString\<close> and \<open>String(n)\<close> on integers.\<close>

definition digit :: "nat \<Rightarrow> char" where
  "digit d = char_of (48 + d)"

fun show_nat :: "nat \<Rightarrow> string" where
  "show_nat n = (if n < 10 then [digit n] else show_nat (n div 10) @ [digit (n mod 10)])"

declare show_nat.simps [simp del]

definition show_int :: "int \<Rightarrow> string" where
  "show_int i = (if i < 0 then CHR ''-'' # show_nat (nat (- i)) else show_nat (nat i))"

definition undigit :: "char \<Rightarrow> nat" where
  "undigit c = of_char c - 48"

fun read_nat :: "string \<Rightarrow> nat" where
  "read_nat s = foldl (\<lambda>n c. 10 * n + undigit c) 0 s"

lemma undigit_digit [simp]: "d < 10 \<Longrightarrow> undigit (digit d) = d"
  by (simp add: undigit_def digit_def)

lemma read_show_nat: "read_nat (show_nat n) = n"
proof (induction n rule: show_nat.induct)
  case (1 n)
  show ?case
  proof (cases "n < 10")
    case True
    then show ?thesis by (subst show_nat.simps) simp
  next
    case False
    with "1" have "read_nat (show_nat (n div 10)) = n div 10" by simp
    with False show ?thesis by (subst show_nat.simps) simp
  qed
qed

lemma show_nat_inj: "show_nat m = show_nat n \<longleftrightarrow> m = n"
  by (metis read_show_nat)

lemma show_nat_nonempty [simp]: "show_nat n \<noteq> []"
  by (subst show_nat.simps) simp

definition is_digit :: "char \<Rightarrow> bool" where
  "is_digit c \<longleftrightarrow> 48 \<le> (of_char c :: nat) \<and> (of_char c :: nat) \<le> 57"

lemma is_digit_digit [simp]: "d < 10 \<Longrightarrow> is_digit (digit d)"
  by (simp add: is_digit_def digit_def)

lemma show_nat_digits: "c \<in> set (show_nat n) \<Longrightarrow> is_digit c"
proof (induction n rule: show_nat.induct)
  case (1 n)
  show ?case
  proof (cases "n < 10")
    case True
    with "1.prems" show ?thesis by (subst (asm) show_nat.simps) simp
  next
    case False
    with "1.prems" have "c \<in> set (show_nat (n div 10)) \<or> c = digit (n mod 10)"
      by (subst (asm) show_nat.simps) auto
    with False "1.IH" show ?thesis by auto
  qed
qed

lemma show_int_inj: "0 \<le> i \<Longrightarrow> 0 \<le> j \<Longrightarrow> show_int i = show_int j \<longleftrightarrow> i = j"
  by (auto simp: show_int_def show_nat_inj)

lemma show_int_digits: "0 \<le> i \<Longrightarrow> c \<in> set (show_int i) \<Longrightarrow> is_digit c"
  by (simp add: show_int_def show_nat_digits)

lemma show_int_nonempty [simp]: "show_int i \<noteq> []"
  by (simp add: show_int_def)

text \<open>\<open>Number(null)\<close> and \<open>new Date(null).getTime()\<close> are 0.\<close>

definition num :: "int option \<Rightarrow> int" where
  "num x = (case x of None \<Rightarrow> 0 | Some n \<Rightarrow> n)"

lemma num_simps [simp]: "num None = 0" "num (Some n) = n"
  by (simp_all add: num_def)

end
