(* ===== verification/Contracts.thy ===== *)
theory Contracts
  imports Prelude "HOL-Library.Signed_Division"
begin

text \<open>
  The shared contracts package (\<open>packages/contracts/src/index.ts\<close>): amounts, the payout split,
  rounding and pricing arithmetic over \<open>bigint\<close> (here \<open>int\<close>; \<open>bigint\<close> division truncates, as
  \<open>sdiv\<close> does), the display of an amount, and the numeric, enum and pattern bounds of the schemas
  the control API parses its requests with. A record of a schema is the value after the shape
  check of \<open>zod\<close> (field names, JSON types, UUID and URL syntax), which is library code; the
  predicate \<open>..._ok\<close> is what the schema's own refinements then decide.
\<close>

section \<open>Amounts and patterns\<close>

definition MICROTU :: int where "MICROTU = 1000000"

definition MAX_AMOUNT :: int where "MAX_AMOUNT = 9223372036854775807"

definition is_lower :: "char \<Rightarrow> bool" where
  "is_lower c \<longleftrightarrow> 97 \<le> (of_char c :: nat) \<and> (of_char c :: nat) \<le> 122"

definition is_upper :: "char \<Rightarrow> bool" where
  "is_upper c \<longleftrightarrow> 65 \<le> (of_char c :: nat) \<and> (of_char c :: nat) \<le> 90"

definition is_hex :: "char \<Rightarrow> bool" where
  "is_hex c \<longleftrightarrow> is_digit c \<or> (97 \<le> (of_char c :: nat) \<and> (of_char c :: nat) \<le> 102)"

definition sha256_ok :: "string \<Rightarrow> bool" where
  "sha256_ok s \<longleftrightarrow> length s = 64 \<and> list_all is_hex s"

text \<open>\<open>amount\<close> as text (its pattern and its bound) and as the integer \<open>BigInt\<close> makes of it.\<close>

definition amount_text_ok :: "string \<Rightarrow> bool" where
  "amount_text_ok s \<longleftrightarrow>
     list_all is_digit s \<and>
     (s = ''0'' \<or> (s \<noteq> [] \<and> hd s \<noteq> CHR ''0'' \<and> length s \<le> 19)) \<and>
     int (read_nat s) \<le> MAX_AMOUNT"

definition amount_ok :: "int \<Rightarrow> bool" where
  "amount_ok v \<longleftrightarrow> 0 \<le> v \<and> v \<le> MAX_AMOUNT"

text \<open>The pattern \<open>[A-Za-z0-9_.:-]{8,100}\<close> of an idempotency key.\<close>

definition idempotency_key_ok :: "string \<Rightarrow> bool" where
  "idempotency_key_ok k \<longleftrightarrow> 8 \<le> length k \<and> length k \<le> 100 \<and>
     list_all (\<lambda>c. is_upper c \<or> is_lower c \<or> is_digit c \<or> c \<in> set ''_.:-'') k"

text \<open>\<open>label\<close>: the trimmed text has 1 to 100 characters.\<close>

definition is_space :: "char \<Rightarrow> bool" where
  "is_space c \<longleftrightarrow> (of_char c :: nat) \<in> {9, 10, 11, 12, 13, 32, 160}"

definition trim :: "string \<Rightarrow> string" where
  "trim s = rev (dropWhile is_space (rev (dropWhile is_space s)))"

definition label_ok :: "string \<Rightarrow> bool" where
  "label_ok s \<longleftrightarrow> 1 \<le> length (trim s) \<and> length (trim s) \<le> 100"

section \<open>Model manifests\<close>

datatype device_kind = CPU | CUDA

record stage_profile =
  st_device :: device_kind
  st_tensor_weight :: int
  st_buffer_budget_mib :: int
  st_reserve_mib :: int
  st_threads :: int

record execution_profile =
  ep_context_tokens :: int
  ep_batch_tokens :: int
  ep_stages :: "stage_profile list"

definition stage_profile_ok :: "stage_profile \<Rightarrow> bool" where
  "stage_profile_ok p \<longleftrightarrow>
     1 \<le> st_tensor_weight p \<and> st_tensor_weight p \<le> 10000 \<and>
     256 \<le> st_buffer_budget_mib p \<and> st_buffer_budget_mib p \<le> 1048576 \<and>
     256 \<le> st_reserve_mib p \<and> st_reserve_mib p \<le> 1048576 \<and>
     1 \<le> st_threads p \<and> st_threads p \<le> 32"

definition executionProfileSchema :: "execution_profile \<Rightarrow> bool" where
  "executionProfileSchema p \<longleftrightarrow>
     512 \<le> ep_context_tokens p \<and> ep_context_tokens p \<le> 131072 \<and>
     1 \<le> ep_batch_tokens p \<and> ep_batch_tokens p \<le> 2048 \<and>
     1 \<le> length (ep_stages p) \<and> length (ep_stages p) \<le> 15 \<and>
     list_all stage_profile_ok (ep_stages p)"

datatype thinking = Template_default | Disabled

record generation_profile =
  gp_chat_template_sha256 :: string
  gp_thinking :: thinking

definition generationProfileSchema :: "generation_profile \<Rightarrow> bool" where
  "generationProfileSchema p \<longleftrightarrow> sha256_ok (gp_chat_template_sha256 p)"

text \<open>A URL is its text with the protocol the platform's parser reads from it.\<close>

record model_manifest =
  mm_model_id :: string
  mm_display_name :: string
  mm_backend_model :: string
  mm_revision :: string
  mm_artifact_sha256 :: string
  mm_license_id :: string
  mm_source_url :: string
  mm_source_protocol :: string
  mm_max_context_tokens :: int
  mm_max_output_tokens :: int
  mm_max_input_bytes :: int
  mm_input_rate_microtu :: int
  mm_output_rate_microtu :: int
  mm_rate_denominator :: int
  mm_description :: string
  mm_execution_profile :: "execution_profile option"
  mm_generation_profile :: "generation_profile option"

text \<open>The pattern \<open>[a-z0-9][a-z0-9._-]{1,79}\<close>.\<close>

definition model_id_ok :: "string \<Rightarrow> bool" where
  "model_id_ok s \<longleftrightarrow>
     2 \<le> length s \<and> length s \<le> 80 \<and>
     (is_lower (hd s) \<or> is_digit (hd s)) \<and>
     list_all (\<lambda>c. is_lower c \<or> is_digit c \<or> c = CHR ''.'' \<or> c = CHR ''_'' \<or> c = CHR ''-'') (tl s)"

definition modelManifestSchema :: "model_manifest \<Rightarrow> bool" where
  "modelManifestSchema m \<longleftrightarrow>
     model_id_ok (mm_model_id m) \<and>
     label_ok (mm_display_name m) \<and>
     1 \<le> length (mm_backend_model m) \<and> length (mm_backend_model m) \<le> 200 \<and>
     1 \<le> length (mm_revision m) \<and> length (mm_revision m) \<le> 128 \<and>
     sha256_ok (mm_artifact_sha256 m) \<and>
     1 \<le> length (mm_license_id m) \<and> length (mm_license_id m) \<le> 100 \<and>
     length (mm_source_url m) \<le> 500 \<and> mm_source_protocol m = ''https:'' \<and>
     256 \<le> mm_max_context_tokens m \<and> mm_max_context_tokens m \<le> 131072 \<and>
     1 \<le> mm_max_output_tokens m \<and> mm_max_output_tokens m \<le> 8192 \<and>
     128 \<le> mm_max_input_bytes m \<and> mm_max_input_bytes m \<le> 65536 \<and>
     amount_ok (mm_input_rate_microtu m) \<and> amount_ok (mm_output_rate_microtu m) \<and>
     1 \<le> mm_rate_denominator m \<and> mm_rate_denominator m \<le> 1000000 \<and>
     length (mm_description m) \<le> 1000 \<and>
     (case mm_execution_profile m of None \<Rightarrow> True | Some p \<Rightarrow> executionProfileSchema p) \<and>
     (case mm_generation_profile m of None \<Rightarrow> True | Some p \<Rightarrow> generationProfileSchema p) \<and>
     mm_max_output_tokens m < mm_max_context_tokens m \<and>
     (case mm_execution_profile m of None \<Rightarrow> True
      | Some p \<Rightarrow> ep_context_tokens p = mm_max_context_tokens m)"

section \<open>Receipts\<close>

datatype terminal_state = COMPLETED | FAILED | CANCELLED | INTERRUPTED

definition error_code_ok :: "string \<Rightarrow> bool" where
  "error_code_ok s \<longleftrightarrow>
     1 \<le> length s \<and> length s \<le> 60 \<and>
     list_all (\<lambda>c. is_lower c \<or> is_digit c \<or> c = CHR ''_'') s"

record receipt =
  rc_session_id :: string
  rc_attempt_id :: string
  rc_epoch :: int
  rc_state :: terminal_state
  rc_prompt_tokens :: int
  rc_completion_tokens :: int
  rc_output_sha256 :: string
  rc_stream_done :: bool
  rc_finish_reason :: "string option"
  rc_error_code :: "string option"
  rc_elapsed_ms :: int

definition receiptSchema :: "receipt \<Rightarrow> bool" where
  "receiptSchema r \<longleftrightarrow>
     0 < rc_epoch r \<and>
     0 \<le> rc_prompt_tokens r \<and> rc_prompt_tokens r \<le> 1000000 \<and>
     0 \<le> rc_completion_tokens r \<and> rc_completion_tokens r \<le> 100000 \<and>
     sha256_ok (rc_output_sha256 r) \<and>
     (case rc_finish_reason r of None \<Rightarrow> True | Some f \<Rightarrow> length f \<le> 40) \<and>
     (case rc_error_code r of None \<Rightarrow> True | Some c \<Rightarrow> error_code_ok c) \<and>
     0 \<le> rc_elapsed_ms r \<and> rc_elapsed_ms r \<le> 3600000"

record stage_receipt =
  sg_session_id :: string
  sg_attempt_id :: string
  sg_epoch :: int
  sg_route_sha256 :: string
  sg_state :: terminal_state
  sg_completed_commands :: int
  sg_request_bytes :: int
  sg_response_bytes :: int
  sg_transcript_sha256 :: string
  sg_elapsed_ms :: int
  sg_error_code :: "string option"

definition stageReceiptSchema :: "stage_receipt \<Rightarrow> bool" where
  "stageReceiptSchema r \<longleftrightarrow>
     0 < sg_epoch r \<and> sha256_ok (sg_route_sha256 r) \<and>
     0 \<le> sg_completed_commands r \<and> sg_completed_commands r \<le> 1000000 \<and>
     amount_ok (sg_request_bytes r) \<and> amount_ok (sg_response_bytes r) \<and>
     sha256_ok (sg_transcript_sha256 r) \<and>
     0 \<le> sg_elapsed_ms r \<and> sg_elapsed_ms r \<le> 3600000 \<and>
     (case sg_error_code r of None \<Rightarrow> True | Some c \<Rightarrow> error_code_ok c)"

section \<open>Splitting a payout by basis points\<close>

text \<open>The closure of \<open>shares.map\<close> keeps \<open>cumulative\<close> and \<open>previous\<close>.\<close>

fun split_loop :: "int \<Rightarrow> int \<Rightarrow> int \<Rightarrow> int list \<Rightarrow> int list" where
  "split_loop tot cumulative previous [] = []"
| "split_loop tot cumulative previous (share # shares) =
     (let cumulative' = cumulative + share;
          boundary = (tot * cumulative') sdiv 10000
      in (boundary - previous) # split_loop tot cumulative' boundary shares)"

definition splitByBps :: "int \<Rightarrow> int list \<Rightarrow> int list result" where
  "splitByBps tot shares =
     (if tot < 0 \<or> tot > MAX_AMOUNT \<or> length shares < 1 \<or> length shares > 16 \<or>
         list_ex (\<lambda>n. n < 1 \<or> n > 10000) shares \<or> sum_list shares \<noteq> 10000
      then Inl RangeError
      else Inr (split_loop tot 0 0 shares))"

section \<open>Pricing\<close>

definition ceilDiv :: "int \<Rightarrow> int \<Rightarrow> int result" where
  "ceilDiv numerator denominator =
     (if numerator < 0 \<or> denominator \<le> 0 then Inl RangeError
      else Inr ((numerator + denominator - 1) sdiv denominator))"

definition chargeFor :: "model_manifest \<Rightarrow> int \<Rightarrow> int \<Rightarrow> int result" where
  "chargeFor model input output =
     and_then (ceilDiv (input * mm_input_rate_microtu model + output * mm_output_rate_microtu model)
                       (mm_rate_denominator model))
       (\<lambda>value. if value > MAX_AMOUNT then Inl RangeError else Inr value)"

definition quoteMaximum :: "model_manifest \<Rightarrow> int \<Rightarrow> int result" where
  "quoteMaximum model output = chargeFor model (mm_max_context_tokens model - output) output"

section \<open>Displaying an amount\<close>

definition padStart6 :: "string \<Rightarrow> string" where
  "padStart6 s = replicate (6 - length s) (CHR ''0'') @ s"

text \<open>\<open>.replace(/0{1,3}$/, "")\<close>: at most three trailing zeros are dropped.\<close>

fun drop_zeros :: "nat \<Rightarrow> string \<Rightarrow> string" where
  "drop_zeros 0 s = s"
| "drop_zeros (Suc n) [] = []"
| "drop_zeros (Suc n) (c # s) = (if c = CHR ''0'' then drop_zeros n s else c # s)"

definition strip3 :: "string \<Rightarrow> string" where
  "strip3 s = rev (drop_zeros 3 (rev s))"

definition formatTU :: "int \<Rightarrow> string" where
  "formatTU number =
     (let absolute = (if number < 0 then - number else number);
          fraction = strip3 (padStart6 (show_int (absolute smod MICROTU)))
      in (if number < 0 then ''-'' else []) @ show_int (absolute sdiv MICROTU) @ '','' @ fraction)"

section \<open>Lemmas\<close>

lemma sdiv_nonneg: "0 \<le> (a::int) \<Longrightarrow> 0 \<le> b \<Longrightarrow> a sdiv b = a div b"
  by (cases "a = 0"; cases "b = 0") (auto simp: signed_divide_int_def)

lemma smod_nonneg: "0 \<le> (a::int) \<Longrightarrow> 0 \<le> b \<Longrightarrow> a smod b = a mod b"
  by (cases "a = 0") (auto simp: signed_modulo_int_def)

lemma MAX_AMOUNT_pos [simp]: "0 < MAX_AMOUNT" "0 \<le> MAX_AMOUNT"
  by (simp_all add: MAX_AMOUNT_def)

lemma length_split_loop [simp]: "length (split_loop t c p ss) = length ss"
  by (induction t c p ss rule: split_loop.induct) (auto simp: Let_def)

text \<open>
  The boundary after \<open>k\<close> shares is the floor of the exact prefix, whatever the shares were: the
  payments telescope.
\<close>

lemma split_loop_prefix:
  "sum_list (take k (split_loop t c p ss)) =
     (if k = 0 \<or> ss = [] then 0 else (t * (c + sum_list (take k ss))) sdiv 10000 - p)"
proof (induction t c p ss arbitrary: k rule: split_loop.induct)
  case (1 t c p)
  then show ?case by simp
next
  case (2 t c p s ss)
  show ?case
  proof (cases k)
    case 0
    then show ?thesis by simp
  next
    case (Suc j)
    show ?thesis
    proof (cases "j = 0 \<or> ss = []")
      case True
      then show ?thesis using Suc by (auto simp: Let_def)
    next
      case False
      then show ?thesis using Suc 2 [OF refl refl, of j] by (simp add: Let_def algebra_simps)
    qed
  qed
qed

lemma split_loop_bounds:
  assumes "0 \<le> t" "0 \<le> c" "list_all (\<lambda>n. 1 \<le> n) ss" "p = (t * c) div 10000"
    and "i < length ss"
  shows "(t * ss ! i) div 10000 \<le> split_loop t c p ss ! i \<and>
         split_loop t c p ss ! i \<le> (t * ss ! i) div 10000 + 1"
  using assms
proof (induction t c p ss arbitrary: i rule: split_loop.induct)
  case (1 t c p)
  then show ?case by simp
next
  case (2 t c p s ss)
  have nn: "0 \<le> t * (c + s)" using 2 by simp
  then have b: "(t * (c + s)) sdiv 10000 = (t * (c + s)) div 10000" by (simp add: sdiv_nonneg)
  show ?case
  proof (cases i)
    case 0
    have "(t * (c + s)) div 10000 = (t * c + t * s) div 10000" by (simp add: algebra_simps)
    then show ?thesis using 0 2 b by (simp add: Let_def) (simp only: distrib_left, linarith?)
  next
    case (Suc j)
    have "(t * ss ! j) div 10000 \<le> split_loop t (c + s) ((t * (c + s)) sdiv 10000) ss ! j \<and>
          split_loop t (c + s) ((t * (c + s)) sdiv 10000) ss ! j \<le> (t * ss ! j) div 10000 + 1"
      using 2(1) [OF refl refl, of j] 2(2-) Suc b by simp
    then show ?thesis using Suc by (simp add: Let_def)
  qed
qed

text \<open>Rounding up, and its effect on a price.\<close>

text \<open>An accepted split: its payments, and what the first \<open>k\<close> of them add up to.\<close>

lemma splitByBps_Inr:
  assumes "splitByBps tot shares = Inr vs"
  shows "length vs = length shares" and "sum_list vs = tot" and "0 \<le> tot"
    and "sum_list (take k vs) = (tot * sum_list (take k shares)) div 10000"
    and "v \<in> set vs \<Longrightarrow> 0 \<le> v"
proof -
  have ok: "0 \<le> tot" "shares \<noteq> []" "list_all (\<lambda>n. 1 \<le> n) shares" "sum_list shares = 10000"
    and vs: "vs = split_loop tot 0 0 shares"
    using assms by (auto simp: splitByBps_def list_ex_iff list_all_iff not_less split: if_splits)
  have pre: "0 \<le> sum_list (take k shares)" for k
    using ok(3) by (intro sum_list_nonneg) (auto simp: list_all_iff dest!: in_set_takeD)
  have prefix: "sum_list (take k vs) = (tot * sum_list (take k shares)) div 10000" for k
    using ok pre [of k] unfolding vs by (cases k) (auto simp: split_loop_prefix sdiv_nonneg)
  show "length vs = length shares" "0 \<le> tot" using vs ok(1) by simp_all
  show "sum_list (take k vs) = (tot * sum_list (take k shares)) div 10000" by (rule prefix)
  show "sum_list vs = tot" using prefix [of "length shares"] ok vs by simp
  have "0 \<le> (tot * (shares ! i)) div 10000" if "i < length shares" for i
    using ok(1,3) that by (intro pos_imp_zdiv_nonneg_iff [THEN iffD2] mult_nonneg_nonneg)
      (auto simp: list_all_length intro: order_trans [of 0 1])
  then show "v \<in> set vs \<Longrightarrow> 0 \<le> v"
    using split_loop_bounds [OF ok(1) _ ok(3), of 0 0] unfolding vs in_set_conv_nth
    by (auto intro: order_trans)
qed

lemma ceilDiv_Inr [res_Inr]:
  "ceilDiv n d = Inr v \<longleftrightarrow> 0 \<le> n \<and> 0 < d \<and> v = (n + d - 1) div d"
  by (auto simp: ceilDiv_def sdiv_nonneg)

lemma ceilDiv_least:
  assumes "ceilDiv n d = Inr v"
  shows "n \<le> v * d \<and> (v - 1) * d < n \<and> 0 \<le> v"
proof -
  from assms have nd: "0 \<le> n" "0 < d" "v = (n + d - 1) div d" by (auto simp: ceilDiv_Inr)
  have "d * v + (n + d - 1) mod d = n + d - 1" using nd(3) by simp
  moreover have "0 \<le> (n + d - 1) mod d" "(n + d - 1) mod d < d" using nd by simp_all
  moreover have "0 \<le> v" using nd by (simp add: pos_imp_zdiv_nonneg_iff)
  ultimately show ?thesis by (simp add: algebra_simps)
qed

lemma ceilDiv_mono:
  assumes "ceilDiv n d = Inr v" "0 \<le> m" "m \<le> n"
  obtains w where "ceilDiv m d = Inr w" "0 \<le> w" "w \<le> v"
proof -
  from assms have d: "0 < d" and v: "v = (n + d - 1) div d" by (auto simp: ceilDiv_Inr)
  have "ceilDiv m d = Inr ((m + d - 1) div d)" using assms d by (simp add: ceilDiv_Inr)
  moreover have "0 \<le> (m + d - 1) div d" using assms d by (simp add: pos_imp_zdiv_nonneg_iff)
  moreover have "(m + d - 1) div d \<le> v" unfolding v using assms d by (intro zdiv_mono1) auto
  ultimately show thesis by (rule that)
qed

lemma chargeFor_bounds: "chargeFor m i out = Inr v \<Longrightarrow> 0 \<le> v \<and> v \<le> MAX_AMOUNT"
  by (auto simp: chargeFor_def res_Inr dest: ceilDiv_least [unfolded ceilDiv_Inr])
     (auto simp: pos_imp_zdiv_nonneg_iff)

lemma chargeFor_mono:
  assumes "chargeFor m i out = Inr v"
    and "0 \<le> mm_input_rate_microtu m" "0 \<le> mm_output_rate_microtu m"
    and "0 \<le> i'" "i' \<le> i" "0 \<le> out'" "out' \<le> out"
  obtains w where "chargeFor m i' out' = Inr w" "0 \<le> w" "w \<le> v"
proof -
  let ?n = "i * mm_input_rate_microtu m + out * mm_output_rate_microtu m"
  let ?n' = "i' * mm_input_rate_microtu m + out' * mm_output_rate_microtu m"
  from assms(1) have c: "ceilDiv ?n (mm_rate_denominator m) = Inr v" and max: "v \<le> MAX_AMOUNT"
    by (auto simp: chargeFor_def and_then_def split: sum.splits if_splits)
  have "0 \<le> ?n'" "?n' \<le> ?n" using assms by (auto intro!: add_mono mult_right_mono)
  then obtain w where w: "ceilDiv ?n' (mm_rate_denominator m) = Inr w" "0 \<le> w" "w \<le> v"
    using ceilDiv_mono [OF c] by blast
  then have "chargeFor m i' out' = Inr w" using max by (simp add: chargeFor_def)
  then show thesis using w that by blast
qed

text \<open>Trailing zeros and padding in the displayed fraction.\<close>

lemma drop_zeros_split: "\<exists>k. s = replicate k (CHR ''0'') @ drop_zeros n s \<and> k \<le> n"
proof (induction n s rule: drop_zeros.induct)
  case (1 s)
  then show ?case by simp
next
  case (2 n)
  then show ?case by simp
next
  case (3 n c s)
  show ?case
  proof (cases "c = CHR ''0''")
    case True
    with 3 obtain k where "s = replicate k (CHR ''0'') @ drop_zeros n s" "k \<le> n" by blast
    then have "c # s = replicate (Suc k) (CHR ''0'') @ drop_zeros (Suc n) (c # s) \<and> Suc k \<le> Suc n"
      using True by simp
    then show ?thesis by blast
  next
    case False
    then show ?thesis by simp
  qed
qed

lemma strip3_split: "\<exists>k. s = strip3 s @ replicate k (CHR ''0'') \<and> k \<le> 3"
proof -
  obtain k where k: "rev s = replicate k (CHR ''0'') @ drop_zeros 3 (rev s)" "k \<le> 3"
    using drop_zeros_split [of "rev s" 3] by auto
  from k(1) have "rev (rev s) = rev (replicate k (CHR ''0'') @ drop_zeros 3 (rev s))"
    by (rule arg_cong)
  then show ?thesis using k(2) by (auto simp: strip3_def)
qed

lemma strip3_pad: "strip3 s @ replicate (length s - length (strip3 s)) (CHR ''0'') = s"
proof -
  obtain k where k: "s = strip3 s @ replicate k (CHR ''0'')" using strip3_split by blast
  then have "length s = length (strip3 s) + k" by (metis length_append length_replicate)
  then show ?thesis using k by simp
qed

lemma read_nat_zeros: "read_nat (replicate k (CHR ''0'') @ s) = read_nat s"
  by (induction k) (auto simp: undigit_def)

lemma length_show_nat: "n < 10 ^ k \<Longrightarrow> 0 < k \<Longrightarrow> length (show_nat n) \<le> k"
proof (induction n arbitrary: k rule: show_nat.induct)
  case (1 n)
  show ?case
  proof (cases "n < 10")
    case True
    then show ?thesis using "1.prems" by (subst show_nat.simps) simp
  next
    case False
    then have "k \<noteq> 1" using "1.prems" by auto
    then obtain j where k: "k = Suc j" "0 < j" using "1.prems" by (cases k) auto
    with "1.prems" have "n div 10 < 10 ^ j" by (simp add: less_mult_imp_div_less mult.commute)
    with False "1.IH" [of j] k show ?thesis by (subst show_nat.simps) simp
  qed
qed

lemma length_padStart6: "0 \<le> n \<Longrightarrow> n < 1000000 \<Longrightarrow> length (padStart6 (show_int n)) = 6"
  using length_show_nat [of "nat n" 6] by (simp add: padStart6_def show_int_def)

text \<open>What a reader of the displayed amount recovers.\<close>

definition readTU :: "string \<Rightarrow> int" where
  "readTU s =
     (let neg = (s \<noteq> [] \<and> hd s = CHR ''-''); body = (if neg then tl s else s);
          whole = takeWhile (\<lambda>c. c \<noteq> CHR '','') body;
          frac = tl (dropWhile (\<lambda>c. c \<noteq> CHR '','') body);
          v = int (read_nat whole) * 1000000 +
              int (read_nat (frac @ replicate (6 - length frac) (CHR ''0'')))
      in if neg then - v else v)"

lemma read_show_int: "0 \<le> n \<Longrightarrow> int (read_nat (show_int n)) = n"
  by (simp add: show_int_def read_show_nat del: read_nat.simps)

lemma show_int_no: "0 \<le> n \<Longrightarrow> \<not> is_digit d \<Longrightarrow> c \<in> set (show_int n) \<Longrightarrow> c \<noteq> d"
  using show_int_digits by blast

lemma readTU_body:
  assumes "0 \<le> a" "0 \<le> f" "f < 1000000"
  shows "readTU (show_int a @ '','' @ strip3 (padStart6 (show_int f))) = a * 1000000 + f"
proof -
  let ?p = "padStart6 (show_int f)" and ?w = "show_int a"
  have nc: "\<forall>c \<in> set ?w. c \<noteq> CHR '',''" and nm: "\<forall>c \<in> set ?w. c \<noteq> CHR ''-''"
    using show_int_no [OF assms(1), of "CHR '',''"] show_int_no [OF assms(1), of "CHR ''-''"]
    by (auto simp: is_digit_def)
  have hd: "hd (?w @ '','' @ strip3 ?p) \<noteq> CHR ''-''" using nm by (simp add: hd_append)
  have len: "length ?p = 6" using assms by (simp add: length_padStart6)
  have "strip3 ?p @ replicate (6 - length (strip3 ?p)) (CHR ''0'') = ?p"
    using strip3_pad [of ?p] len by simp
  moreover have "int (read_nat ?p) = f"
    using assms by (simp add: padStart6_def read_nat_zeros read_show_int del: read_nat.simps)
  moreover have "takeWhile (\<lambda>c. c \<noteq> CHR '','') (?w @ '','' @ strip3 ?p) = ?w"
    using nc by (simp add: takeWhile_append2)
  moreover have "dropWhile (\<lambda>c. c \<noteq> CHR '','') (?w @ '','' @ strip3 ?p) = '','' @ strip3 ?p"
    using nc by (simp add: dropWhile_append2)
  ultimately show ?thesis using hd assms
    by (simp add: readTU_def Let_def read_show_int del: read_nat.simps)
qed

section \<open>Properties\<close>

text \<open>C38: an accepted split pays out exactly the total, one payment per share; every payment is the
  floor of the exact proportion or one more, and the first \<open>k\<close> payments add up to the floor of
  the exact prefix, so rounding never drifts. It is refused exactly on a total outside the
  64-bit range or on shares that are not 1 to 16 values of 1..10000 summing to 10000.\<close>

theorem splitByBps_exact:
  "(case splitByBps tot shares of
      Inl e \<Rightarrow> e = RangeError \<and> \<not> (0 \<le> tot \<and> tot \<le> MAX_AMOUNT \<and> 1 \<le> length shares \<and>
        length shares \<le> 16 \<and> list_all (\<lambda>n. 1 \<le> n \<and> n \<le> 10000) shares \<and> sum_list shares = 10000)
    | Inr vs \<Rightarrow> 0 \<le> tot \<and> tot \<le> MAX_AMOUNT \<and> 1 \<le> length shares \<and> length shares \<le> 16 \<and>
        list_all (\<lambda>n. 1 \<le> n \<and> n \<le> 10000) shares \<and> sum_list shares = 10000 \<and>
        length vs = length shares \<and> sum_list vs = tot \<and>
        list_all (\<lambda>(v, n). (tot * n) div 10000 \<le> v \<and> v \<le> (tot * n) div 10000 + 1) (zip vs shares) \<and>
        list_all (\<lambda>k. sum_list (take k vs) = (tot * sum_list (take k shares)) div 10000)
          [0 ..< Suc (length shares)])"
proof (cases "splitByBps tot shares")
  case (Inl e)
  then show ?thesis
    by (force simp: splitByBps_def list_ex_iff list_all_iff not_less split: if_splits)
next
  case (Inr vs)
  then have guards: "tot \<le> MAX_AMOUNT" "1 \<le> length shares" "length shares \<le> 16" "sum_list shares = 10000"
      "list_all (\<lambda>n. 1 \<le> n \<and> n \<le> 10000) shares"
    by (simp_all add: splitByBps_def list_ex_iff list_all_iff not_less Suc_le_eq split: if_splits)
  from Inr have ok: "0 \<le> tot" "list_all (\<lambda>n. 1 \<le> n) shares" and vs: "vs = split_loop tot 0 0 shares"
    by (auto simp: splitByBps_def list_ex_iff list_all_iff not_less split: if_splits)
  note prefix = splitByBps_Inr(4) [OF Inr]
  have "sum_list vs = tot" by (rule splitByBps_Inr(2) [OF Inr])
  moreover have "list_all (\<lambda>(v, n). (tot * n) div 10000 \<le> v \<and> v \<le> (tot * n) div 10000 + 1) (zip vs shares)"
    using split_loop_bounds [OF ok(1), of 0 shares 0] ok(2) vs by (auto simp: list_all_length)
  ultimately show ?thesis using Inr prefix vs guards ok(1) by (simp add: list_all_iff)
qed

text \<open>
  C40: any usage within the quoted context can be paid from the quoted maximum: a receipt with at
  most the context left for input and at most the quoted output is priced, and its charge is
  between zero and the maximum that was held.
\<close>

theorem charge_within_quote:
  assumes "modelManifestSchema m" and "quoteMaximum m out = Inr q"
    and "0 \<le> prompt" and "prompt \<le> mm_max_context_tokens m - out"
    and "0 \<le> completion" and "completion \<le> out"
  shows "\<exists>v. chargeFor m prompt completion = Inr v \<and> 0 \<le> v \<and> v \<le> q"
  using assms chargeFor_mono [of m "mm_max_context_tokens m - out" out q prompt completion]
  unfolding quoteMaximum_def modelManifestSchema_def amount_ok_def by blast

definition demo_manifest :: model_manifest where
  "demo_manifest = \<lparr>mm_model_id = ''qwen3-32b'', mm_display_name = ''Qwen3 32B'',
     mm_backend_model = ''network-ai-qualified-model'', mm_revision = ''1'',
     mm_artifact_sha256 = replicate 64 (CHR ''a''), mm_license_id = ''Apache-2.0'',
     mm_source_url = ''https://example.org'', mm_source_protocol = ''https:'',
     mm_max_context_tokens = 2048, mm_max_output_tokens = 512, mm_max_input_bytes = 4096,
     mm_input_rate_microtu = 10, mm_output_rate_microtu = 30, mm_rate_denominator = 7,
     mm_description = [], mm_execution_profile = None, mm_generation_profile = None\<rparr>"

lemma demo_manifest_ok [simp]: "modelManifestSchema demo_manifest"
  by code_simp

theorem charge_within_quote_witness:
  "quoteMaximum demo_manifest 512 = Inr 4389 \<and>
   (\<exists>v. chargeFor demo_manifest 100 20 = Inr v \<and> 0 \<le> v \<and> v \<le> 4389)"
proof -
  have q: "quoteMaximum demo_manifest 512 = Inr 4389" by code_simp
  have c: "(100::int) \<le> mm_max_context_tokens demo_manifest - 512" by code_simp
  show ?thesis using q charge_within_quote [OF demo_manifest_ok q _ c, of 20] by simp
qed

text \<open>The displayed amount determines the amount: reading back what \<open>formatTU\<close> prints (with the
  dropped zeros restored) gives the microcredits, so two different balances never look the same.\<close>

theorem formatTU_roundtrip: "readTU (formatTU v) = v"
proof -
  let ?a = "if v < 0 then - v else v"
  have a: "0 \<le> ?a" by simp
  have fmt: "formatTU v = (if v < 0 then ''-'' else []) @
      (show_int (?a div 1000000) @ '','' @ strip3 (padStart6 (show_int (?a mod 1000000))))"
    unfolding formatTU_def Let_def MICROTU_def using a by (simp add: sdiv_nonneg smod_nonneg)
  have body: "readTU (show_int (?a div 1000000) @ '','' @
      strip3 (padStart6 (show_int (?a mod 1000000)))) = ?a"
    using a by (subst readTU_body) (auto simp: pos_imp_zdiv_nonneg_iff)
  have hd: "hd (show_int (?a div 1000000) @ '','' @
      strip3 (padStart6 (show_int (?a mod 1000000)))) \<noteq> CHR ''-''"
    using show_int_no [of "?a div 1000000" "CHR ''-''"] a
    by (auto simp: hd_append is_digit_def pos_imp_zdiv_nonneg_iff)
  show ?thesis
  proof (cases "v < 0")
    case True
    then show ?thesis using body hd unfolding fmt by (simp add: readTU_def Let_def)
  next
    case False
    then show ?thesis using body unfolding fmt by simp
  qed
qed

end
