(* ===== verification/Canonical.thy ===== *)
theory Canonical
  imports Contracts "HOL-Library.Char_ord" "HOL-Library.List_Lexorder" "HOL-Library.Multiset"
begin

text \<open>
  \<open>canonical\<close> of \<open>apps/control-api/src/security.ts\<close>: the text whose SHA-256 identifies a request,
  a route, a lease's terms or a fund's policy. A JSON value is a datatype (an object is the list
  of its entries, a number an integer: no request or term hashes a fraction), \<open>stringify\<close> the
  string case of \<open>JSON.stringify\<close>. The lemmas show that the text determines the value up to the
  order of object keys, and that the order of keys does not matter.
\<close>

section \<open>JSON values and their canonical text\<close>

datatype json =
    JNull
  | JBool bool
  | JNum int
  | JStr string
  | JArr "json list"
  | JObj "(string \<times> json) list"

definition hex_digit :: "nat \<Rightarrow> char" where
  "hex_digit d = (if d < 10 then char_of (48 + d) else char_of (87 + d))"

text \<open>The escapes of \<open>JSON.stringify\<close>: quote, backslash, and the control characters.\<close>

definition esc :: "char \<Rightarrow> string" where
  "esc c =
     (let n = (of_char c :: nat) in
      if n = 34 then [CHR 0x5C, CHR 0x22]
      else if n = 92 then [CHR 0x5C, CHR 0x5C]
      else if n = 8 then [CHR 0x5C, CHR ''b'']
      else if n = 9 then [CHR 0x5C, CHR ''t'']
      else if n = 10 then [CHR 0x5C, CHR ''n'']
      else if n = 12 then [CHR 0x5C, CHR ''f'']
      else if n = 13 then [CHR 0x5C, CHR ''r'']
      else if n < 32 then [CHR 0x5C, CHR ''u'', CHR ''0'', CHR ''0'', hex_digit (n div 16), hex_digit (n mod 16)]
      else [c])"

definition stringify :: "string \<Rightarrow> string" where
  "stringify s = [CHR 0x22] @ concat (map esc s) @ [CHR 0x22]"

fun join :: "string list \<Rightarrow> string" where
  "join [] = []"
| "join [x] = x"
| "join (x # y # xs) = x @ CHR '','' # join (y # xs)"

text \<open>
  The values that the program hashes hold integers, strings, booleans, null, arrays and objects; a fraction, an
  \<open>undefined\<close> or a \<open>Date\<close> has no value here. Keys are ordered by their characters, which for the
  program's keys, all of them ASCII, is the order of their UTF-16 units.
\<close>

fun canonical :: "json \<Rightarrow> string" where
  "canonical JNull = ''null''"
| "canonical (JBool b) = (if b then ''true'' else ''false'')"
| "canonical (JNum n) = show_int n"
| "canonical (JStr s) = stringify s"
| "canonical (JArr xs) = ''['' @ join (map canonical xs) @ '']''"
| "canonical (JObj kvs) =
     ''{'' @ join (map (\<lambda>(k, t). stringify k @ '':'' @ t)
                    (sort_key fst (map (\<lambda>(k, v). (k, canonical v)) kvs))) @ ''}''"

text \<open>The value a canonical text stands for: entries in key order at every level.\<close>

fun norm_json :: "json \<Rightarrow> json" where
  "norm_json (JArr xs) = JArr (map norm_json xs)"
| "norm_json (JObj kvs) = JObj (sort_key fst (map (\<lambda>(k, v). (k, norm_json v)) kvs))"
| "norm_json v = v"

section \<open>Strings are self-delimiting\<close>

lemma hex_digit_inj: "m < 16 \<Longrightarrow> n < 16 \<Longrightarrow> hex_digit m = hex_digit n \<Longrightarrow> m = n"
  by (auto simp: hex_digit_def split: if_splits dest!: arg_cong [of _ _ "of_char :: char \<Rightarrow> nat"])

lemma esc_code_inj:
  "m < 32 \<Longrightarrow> n < 32 \<Longrightarrow> hex_digit (m div 16) = hex_digit (n div 16) \<Longrightarrow>
     hex_digit (m mod 16) = hex_digit (n mod 16) \<Longrightarrow> m = (n::nat)"
proof -
  assume a: "m < 32" "n < 32" "hex_digit (m div 16) = hex_digit (n div 16)"
    "hex_digit (m mod 16) = hex_digit (n mod 16)"
  have "m div 16 = n div 16" using a by (intro hex_digit_inj) auto
  moreover have "m mod 16 = n mod 16" using a by (intro hex_digit_inj) auto
  ultimately show "m = n" by (metis div_mult_mod_eq)
qed

lemma of_char_nat_inj: "(of_char c :: nat) = of_char d \<Longrightarrow> c = d"
  by (metis char_of_char)

lemma esc_nonempty [simp]: "esc c \<noteq> []"
  by (simp add: esc_def Let_def)

definition short_esc :: "nat \<Rightarrow> char option" where
  "short_esc n =
     (if n = 34 then Some (CHR 0x22) else if n = 92 then Some (CHR 0x5C)
      else if n = 8 then Some (CHR ''b'') else if n = 9 then Some (CHR ''t'')
      else if n = 10 then Some (CHR ''n'') else if n = 12 then Some (CHR ''f'')
      else if n = 13 then Some (CHR ''r'') else None)"

lemma short_esc_inj: "short_esc m = Some x \<Longrightarrow> short_esc n = Some x \<Longrightarrow> m = n"
  by (auto simp: short_esc_def split: if_splits)

lemma short_esc_u: "short_esc n \<noteq> Some (CHR ''u'')"
  by (simp add: short_esc_def)

lemma esc_cases:
  obtains (short) x where "short_esc (of_char c) = Some x" "esc c = [CHR 0x5C, x]"
  | (code) "(of_char c :: nat) < 32"
      "esc c = [CHR 0x5C, CHR ''u'', CHR ''0'', CHR ''0'', hex_digit (of_char c div 16), hex_digit (of_char c mod 16)]"
  | (plain) "c \<noteq> CHR 0x5C" "c \<noteq> CHR 0x22" "esc c = [c]"
proof -
  let ?n = "of_char c :: nat"
  have "esc c = (case short_esc ?n of Some x \<Rightarrow> [CHR 0x5C, x] | None \<Rightarrow>
      if ?n < 32 then [CHR 0x5C, CHR ''u'', CHR ''0'', CHR ''0'', hex_digit (?n div 16), hex_digit (?n mod 16)]
      else [c])"
    by (simp add: esc_def short_esc_def Let_def)
  moreover have "short_esc ?n = None \<Longrightarrow> c \<noteq> CHR 0x5C \<and> c \<noteq> CHR 0x22"
    by (auto simp: short_esc_def)
  ultimately show thesis using short code plain
    by (cases "short_esc ?n"; cases "?n < 32") auto
qed

lemma esc_head: "esc c = x # xs \<Longrightarrow> x \<noteq> CHR 0x22"
  by (cases c rule: esc_cases) auto

lemma esc_prefix: "esc c @ r = esc d @ r' \<Longrightarrow> c = d \<and> r = r'"
proof (cases c rule: esc_cases)
  case (short x)
  assume "esc c @ r = esc d @ r'"
  with short show ?thesis using short_esc_u [of "of_char c"]
    by (cases d rule: esc_cases) (auto dest: short_esc_inj of_char_nat_inj)
next
  case code
  assume "esc c @ r = esc d @ r'"
  with code show ?thesis using short_esc_u [of "of_char d"]
    by (cases d rule: esc_cases) (auto dest: esc_code_inj of_char_nat_inj)
next
  case plain
  assume "esc c @ r = esc d @ r'"
  with plain show ?thesis by (cases d rule: esc_cases) auto
qed

lemma concat_esc_prefix:
  "concat (map esc s) @ CHR 0x22 # r = concat (map esc t) @ CHR 0x22 # r' \<Longrightarrow> s = t \<and> r = r'"
proof (induction s arbitrary: t)
  case Nil
  then show ?case
  proof (cases t)
    case (Cons d t')
    obtain x xs where "esc d = x # xs" by (cases "esc d") auto
    then show ?thesis using Nil Cons esc_head [of d x xs] by auto
  qed simp
next
  case (Cons c s)
  show ?case
  proof (cases t)
    case Nil
    obtain x xs where "esc c = x # xs" by (cases "esc c") auto
    then show ?thesis using Nil Cons.prems esc_head [of c x xs] by auto
  next
    case (Cons d t')
    with Cons.prems have "c = d" "concat (map esc s) @ CHR 0x22 # r = concat (map esc t') @ CHR 0x22 # r'"
      using esc_prefix [of c _ d] by auto
    with Cons.IH Cons show ?thesis by blast
  qed
qed

lemma stringify_prefix: "stringify s @ r = stringify t @ r' \<Longrightarrow> s = t \<and> r = r'"
  by (auto simp: stringify_def dest: concat_esc_prefix)

section \<open>Canonical texts are self-delimiting\<close>

text \<open>What may follow a value inside a text: nothing that could continue a number.\<close>

definition ends :: "string \<Rightarrow> bool" where
  "ends r \<longleftrightarrow> r = [] \<or> \<not> is_digit (hd r)"

lemma ends_simps [simp]:
  "ends []" "ends (CHR '','' # r)" "ends (CHR '']'' # r)" "ends (CHR ''}'' # r)"
  by (auto simp: ends_def is_digit_def)

lemma takeWhile_ends: "\<forall>c \<in> set u. is_digit c \<Longrightarrow> ends r \<Longrightarrow> takeWhile is_digit (u @ r) = u"
  by (cases r) (auto simp: ends_def takeWhile_append2)

lemma digits_prefix:
  assumes "\<forall>c \<in> set u. is_digit c" "\<forall>c \<in> set v. is_digit c" "ends r" "ends r'" "u @ r = v @ r'"
  shows "u = v \<and> r = r'"
  using takeWhile_ends [OF assms(1,3)] takeWhile_ends [OF assms(2,4)] assms(5) by auto

lemma show_nat_no_minus: "CHR ''-'' # x \<noteq> show_nat n @ r"
proof
  assume "CHR ''-'' # x = show_nat n @ r"
  then have "CHR ''-'' \<in> set (show_nat n)" by (cases "show_nat n") auto
  then have "is_digit (CHR ''-'')" by (rule show_nat_digits)
  then show False by (simp add: is_digit_def)
qed

lemma show_int_prefix:
  assumes "show_int m @ r = show_int n @ r'" "ends r" "ends r'"
  shows "m = n \<and> r = r'"
proof -
  have *: "show_nat i @ r = show_nat j @ r' \<Longrightarrow> i = j \<and> r = r'" for i j
    using digits_prefix [of "show_nat i" "show_nat j" r r'] assms show_nat_digits show_nat_inj by blast
  show ?thesis
    using assms(1) show_nat_no_minus show_nat_no_minus [THEN not_sym]
    by (auto simp: show_int_def split: if_splits dest!: *)
qed

lemma show_int_head: "show_int n = c # s \<Longrightarrow> is_digit c \<or> c = CHR ''-''"
proof -
  assume "show_int n = c # s"
  then have "c = CHR ''-'' \<or> (0 \<le> n \<and> c \<in> set (show_int n))"
    by (auto simp: show_int_def split: if_splits)
  then show ?thesis using show_int_digits by blast
qed

lemma canonical_head:
  "canonical a \<noteq> [] \<and> hd (canonical a) \<noteq> CHR '','' \<and> hd (canonical a) \<noteq> CHR '']'' \<and> hd (canonical a) \<noteq> CHR ''}''"
proof (cases a)
  case (JNum n)
  obtain c s where "show_int n = c # s" by (cases "show_int n") auto
  then show ?thesis using JNum show_int_head [of n c s] by (auto simp: is_digit_def)
qed (auto simp: stringify_def)

definition kind_of :: "string \<Rightarrow> nat" where
  "kind_of s =
     (if hd s = CHR ''n'' then 0 else if hd s = CHR ''t'' then 1 else if hd s = CHR ''f'' then 2
      else if hd s = CHR 0x22 then 3 else if hd s = CHR ''['' then 4 else if hd s = CHR ''{'' then 5 else 6)"

fun json_kind :: "json \<Rightarrow> nat" where
  "json_kind JNull = 0"
| "json_kind (JBool b) = (if b then 1 else 2)"
| "json_kind (JNum n) = 6"
| "json_kind (JStr s) = 3"
| "json_kind (JArr xs) = 4"
| "json_kind (JObj kvs) = 5"

lemma kind_canonical: "kind_of (canonical a @ r) = json_kind a"
proof (cases a)
  case (JNum n)
  obtain c s where "show_int n = c # s" by (cases "show_int n") auto
  then show ?thesis using JNum show_int_head [of n c s] by (auto simp: is_digit_def kind_of_def)
qed (auto simp: stringify_def kind_of_def)

lemma same_kind: "canonical a @ r = canonical b @ r' \<Longrightarrow> json_kind b = json_kind a"
  by (metis kind_canonical)

text \<open>A comma-separated sequence of items determines the items, when each item does.\<close>

lemma join_prefix:
  assumes items: "\<And>x y r r'. x \<in> set xs \<Longrightarrow> ends r \<Longrightarrow> ends r' \<Longrightarrow> f x @ r = g y @ r' \<Longrightarrow> P x y \<and> r = r'"
    and hdf: "\<And>x. f x \<noteq> [] \<and> hd (f x) \<noteq> e" and hdg: "\<And>y. g y \<noteq> [] \<and> hd (g y) \<noteq> e"
    and e: "ends (e # r)" "ends (e # r')" "e \<noteq> CHR '',''"
  shows "join (map f xs) @ e # r = join (map g ys) @ e # r' \<Longrightarrow> list_all2 P xs ys \<and> r = r'"
  using items
proof (induction xs arbitrary: ys rule: induct_list012)
  case 1
  then show ?case
  proof (cases ys)
    case (Cons y ys')
    then show ?thesis using 1(1) hdg [of y] by (cases ys'; cases "g y") auto
  qed simp
next
  case (2 x)
  show ?case
  proof (cases ys)
    case Nil
    then show ?thesis using 2(1) hdf [of x] by (cases "f x") auto
  next
    case (Cons y ys')
    show ?thesis
    proof (cases ys')
      case Nil
      then show ?thesis using 2 Cons e by auto
    next
      case (Cons z zs)
      have "f x @ e # r = g y @ CHR '','' # join (map g (z # zs)) @ e # r'"
        using 2(1) \<open>ys = y # ys'\<close> Cons by simp
      then have "e # r = CHR '','' # join (map g (z # zs)) @ e # r'" using 2(2) e(1)
        by (metis ends_simps(2) list.set_intros(1))
      then show ?thesis using e by simp
    qed
  qed
next
  case (3 x x' xs)
  show ?case
  proof (cases ys)
    case Nil
    then show ?thesis using 3(3) hdf [of x] by (cases "f x") auto
  next
    case (Cons y ys')
    show ?thesis
    proof (cases ys')
      case Nil
      then have "f x @ CHR '','' # join (map f (x' # xs)) @ e # r = g y @ e # r'"
        using 3(3) Cons by simp
      then have "CHR '','' # join (map f (x' # xs)) @ e # r = e # r'" using 3(4) e(2)
        by (metis ends_simps(2) list.set_intros(1))
      then show ?thesis using e by simp
    next
      case (Cons z zs)
      have eq: "f x @ CHR '','' # join (map f (x' # xs)) @ e # r =
                g y @ CHR '','' # join (map g (z # zs)) @ e # r'"
        using 3(3) \<open>ys = y # ys'\<close> Cons by simp
      have "P x y \<and> CHR '','' # join (map f (x' # xs)) @ e # r = CHR '','' # join (map g (z # zs)) @ e # r'"
        by (rule 3(4) [OF _ _ _ eq]) auto
      moreover have "list_all2 P (x' # xs) (z # zs) \<and> r = r'"
      proof (rule 3(2))
        show "join (map f (x' # xs)) @ e # r = join (map g (z # zs)) @ e # r'" using calculation by simp
      qed (use 3(4) in auto)
      ultimately show ?thesis using \<open>ys = y # ys'\<close> Cons by simp
    qed
  qed
qed

lemma insort_key_map_snd:
  "map (\<lambda>(k, v). (k, h v)) (insort_key fst x xs) =
     insort_key fst ((\<lambda>(k, v). (k, h v)) x) (map (\<lambda>(k, v). (k, h v)) xs)"
  by (induction xs) (auto split: prod.splits)

lemma sort_key_map_snd:
  "sort_key fst (map (\<lambda>(k, v). (k, h v)) kvs) = map (\<lambda>(k, v). (k, h v)) (sort_key fst kvs)"
  by (induction kvs) (simp_all add: insort_key_map_snd [symmetric])

lemma entry_prefix:
  assumes "\<And>w r r'. ends r \<Longrightarrow> ends r' \<Longrightarrow> canonical v @ r = canonical w @ r' \<Longrightarrow>
      norm_json v = norm_json w \<and> r = r'"
    and "ends r" "ends r'"
    and "(\<lambda>(k, v). stringify k @ '':'' @ canonical v) (k, v) @ r =
         (\<lambda>(k, v). stringify k @ '':'' @ canonical v) (j, w) @ r'"
  shows "(k = j \<and> norm_json v = norm_json w) \<and> r = r'"
proof -
  from assms(4) have "stringify k @ '':'' @ canonical v @ r = stringify j @ '':'' @ canonical w @ r'"
    by simp
  from stringify_prefix [OF this] have "k = j \<and> canonical v @ r = canonical w @ r'" by simp
  then show ?thesis using assms(1) [OF assms(2,3)] by blast
qed

lemma list_all2_map_eq: "list_all2 (\<lambda>x y. h x = h y) xs ys \<Longrightarrow> map h xs = map h ys"
  by (induction rule: list_all2_induct) auto

lemma canonical_prefix:
  "canonical a @ r = canonical b @ r' \<Longrightarrow> ends r \<Longrightarrow> ends r' \<Longrightarrow> norm_json a = norm_json b \<and> r = r'"
proof (induction a arbitrary: b r r')
  case JNull
  from same_kind [OF JNull.prems(1)] have "b = JNull" by (cases b) (auto split: if_splits)
  with JNull show ?case by simp
next
  case (JBool x)
  from same_kind [OF JBool.prems(1)] have "b = JBool x" by (cases b) (auto split: if_splits)
  with JBool show ?case by simp
next
  case (JNum n)
  from same_kind [OF JNum.prems(1)] obtain m where "b = JNum m" by (cases b) (auto split: if_splits)
  with JNum show ?case using show_int_prefix [of n r m r'] by simp
next
  case (JStr s)
  from same_kind [OF JStr.prems(1)] obtain u where "b = JStr u" by (cases b) (auto split: if_splits)
  with JStr show ?case using stringify_prefix [of s r u r'] by simp
next
  case (JArr xs)
  from same_kind [OF JArr.prems(1)] obtain ys where b: "b = JArr ys" by (cases b) (auto split: if_splits)
  have "list_all2 (\<lambda>x y. norm_json x = norm_json y) xs ys \<and> r = r'"
  proof (rule join_prefix [where f = canonical and g = canonical and e = "CHR '']''"])
    show "join (map canonical xs) @ CHR '']'' # r = join (map canonical ys) @ CHR '']'' # r'"
      using JArr.prems(1) b by simp
  next
    show "norm_json x = norm_json y \<and> u = u'"
      if "x \<in> set xs" "ends u" "ends u'" "canonical x @ u = canonical y @ u'" for x y u u'
      using JArr.IH [OF that(1,4,2,3)] .
  qed (use canonical_head in \<open>blast | simp\<close>)+
  then show ?case using b by (auto dest: list_all2_map_eq)
next
  case (JObj kvs)
  from same_kind [OF JObj.prems(1)] obtain kws where b: "b = JObj kws"
    by (cases b) (auto split: if_splits)
  let ?f = "\<lambda>(k, v). stringify k @ '':'' @ canonical v"
  let ?P = "\<lambda>(k, v) (j, w). k = j \<and> norm_json v = norm_json w"
  have eqn: "canonical (JObj l) @ q = ''{'' @ join (map ?f (sort_key fst l)) @ CHR ''}'' # q" for l q
    unfolding canonical.simps sort_key_map_snd map_map by (simp add: case_prod_beta' o_def)
  have "list_all2 ?P (sort_key fst kvs) (sort_key fst kws) \<and> r = r'"
  proof (rule join_prefix [where f = ?f and g = ?f and e = "CHR ''}''"])
    fix x y u u'
    assume x: "x \<in> set (sort_key fst kvs)" and u: "ends u" "ends u'" "?f x @ u = ?f y @ u'"
    obtain k v j w where xy: "x = (k, v)" "y = (j, w)" by (cases x, cases y)
    have v: "(k, v) \<in> set kvs" using x xy by simp
    have "(k = j \<and> norm_json v = norm_json w) \<and> u = u'"
    proof (rule entry_prefix)
      show "norm_json v = norm_json w' \<and> s = s'"
        if "ends s" "ends s'" "canonical v @ s = canonical w' @ s'" for w' s s'
        by (rule JObj.IH [OF v _ that(3,1,2)]) (simp add: snds.simps)
    qed (use u xy in auto)
    then show "?P x y \<and> u = u'" using xy by simp
  next
    show "join (map ?f (sort_key fst kvs)) @ CHR ''}'' # r = join (map ?f (sort_key fst kws)) @ CHR ''}'' # r'"
      using JObj.prems(1) unfolding b eqn by simp
  qed (auto simp: stringify_def)
  then have "list_all2 ?P (sort_key fst kvs) (sort_key fst kws)" and r: "r = r'" by auto
  then have "map (\<lambda>(k, v). (k, norm_json v)) (sort_key fst kvs) =
             map (\<lambda>(k, v). (k, norm_json v)) (sort_key fst kws)"
    by (intro list_all2_map_eq) (auto elim!: list_all2_mono)
  then show ?case using r by (simp only: b norm_json.simps sort_key_map_snd simp_thms)
qed

lemma canonical_norm: "canonical (norm_json a) = canonical a"
proof (induction a)
  case (JArr xs)
  then have "map (canonical \<circ> norm_json) xs = map canonical xs" by simp
  then show ?case by (metis canonical.simps(5) map_map norm_json.simps(1))
next
  case (JObj kvs)
  let ?c = "\<lambda>(k, v). (k, canonical v)" and ?n = "\<lambda>(k :: string, v). (k, norm_json v)"
  have "map ?c (map ?n kvs) = map ?c kvs" using JObj by (auto simp: snds.simps)
  moreover have "sort_key fst (map ?c (sort_key fst l)) = sort_key fst (map ?c l)" for l :: "(string \<times> json) list"
    by (simp only: sort_key_map_snd sort_key_id_if_sorted [OF sorted_sort_key])
  ultimately have "sort_key fst (map ?c (sort_key fst (map ?n kvs))) = sort_key fst (map ?c kvs)"
    by metis
  then show ?case by (simp only: canonical.simps norm_json.simps)
qed auto

section \<open>Properties\<close>

text \<open>C39: the canonical text identifies the value: two JSON values have the same text exactly when
  they agree up to the order of object keys at every level. So distinct requests, terms or
  policies never share the text that is hashed.\<close>

theorem canonical_identifies: "canonical a = canonical b \<longleftrightarrow> norm_json a = norm_json b"
  using canonical_prefix [of a "[]" b "[]"] canonical_norm by (metis append_Nil2 ends_simps(1))

end
