(* ===== verification/Security.thy ===== *)
theory Security
  imports Canonical
begin

text \<open>
  The capability tokens of \<open>apps/control-api/src/security.ts\<close>: base64url of a header and of the
  claims, and a signature. A string is the bytes of its UTF-8 encoding; the Ed25519 signature
  (base64url included) is the parameter \<open>sign\<close>.
\<close>

section \<open>Base64url without padding\<close>

definition b64_char :: "nat \<Rightarrow> char" where
  "b64_char d =
     (if d < 26 then char_of (65 + d)
      else if d < 52 then char_of (97 + (d - 26))
      else if d < 62 then char_of (48 + (d - 52))
      else if d = 62 then CHR ''-'' else CHR ''_'')"

definition byte :: "char \<Rightarrow> nat" where
  "byte c = of_char c"

text \<open>The four six-bit groups of three bytes.\<close>

definition sextet1 :: "nat \<Rightarrow> nat" where "sextet1 a = a div 4"
definition sextet2 :: "nat \<Rightarrow> nat \<Rightarrow> nat" where "sextet2 a b = (a mod 4) * 16 + b div 16"
definition sextet3 :: "nat \<Rightarrow> nat \<Rightarrow> nat" where "sextet3 b c = (b mod 16) * 4 + c div 64"
definition sextet4 :: "nat \<Rightarrow> nat" where "sextet4 c = c mod 64"

fun b64url :: "string \<Rightarrow> string" where
  "b64url [] = []"
| "b64url [a] = [b64_char (sextet1 (byte a)), b64_char (sextet2 (byte a) 0)]"
| "b64url [a, b] =
     [b64_char (sextet1 (byte a)), b64_char (sextet2 (byte a) (byte b)), b64_char (sextet3 (byte b) 0)]"
| "b64url (a # b # c # s) =
     b64_char (sextet1 (byte a)) # b64_char (sextet2 (byte a) (byte b)) #
     b64_char (sextet3 (byte b) (byte c)) # b64_char (sextet4 (byte c)) # b64url s"

section \<open>The token\<close>

text \<open>\<open>JSON.stringify\<close>: like \<open>canonical\<close>, with the keys in the order of the object literal.\<close>

fun json_text :: "json \<Rightarrow> string" where
  "json_text JNull = ''null''"
| "json_text (JBool b) = (if b then ''true'' else ''false'')"
| "json_text (JNum n) = show_int n"
| "json_text (JStr s) = stringify s"
| "json_text (JArr xs) = ''['' @ join (map json_text xs) @ '']''"
| "json_text (JObj kvs) =
     ''{'' @ join (map (\<lambda>(k, t). stringify k @ '':'' @ t) (map (\<lambda>(k, v). (k, json_text v)) kvs)) @ ''}''"

definition cap_header :: json where
  "cap_header = JObj [(''alg'', JStr ''EdDSA''), (''typ'', JStr ''NAI-CAP''), (''v'', JNum 1)]"

definition capability :: "(string \<Rightarrow> string) \<Rightarrow> json \<Rightarrow> string" where
  "capability sign payload =
     (let header = b64url (json_text cap_header);
          encoded = b64url (json_text payload);
          message = header @ ''.'' @ encoded in
      message @ ''.'' @ sign message)"

section \<open>Decoding\<close>

definition b64_value :: "char \<Rightarrow> nat" where
  "b64_value c =
     (let n = (of_char c :: nat) in
      if 65 \<le> n \<and> n \<le> 90 then n - 65
      else if 97 \<le> n \<and> n \<le> 122 then n - 97 + 26
      else if 48 \<le> n \<and> n \<le> 57 then n - 48 + 52
      else if n = 45 then 62 else 63)"

fun b64decode :: "string \<Rightarrow> string" where
  "b64decode [x, y] = [char_of (b64_value x * 4 + b64_value y div 16)]"
| "b64decode [x, y, z] =
     [char_of (b64_value x * 4 + b64_value y div 16), char_of (b64_value y mod 16 * 16 + b64_value z div 4)]"
| "b64decode (x # y # z # w # s) =
     char_of (b64_value x * 4 + b64_value y div 16) #
     char_of (b64_value y mod 16 * 16 + b64_value z div 4) #
     char_of (b64_value z mod 4 * 64 + b64_value w) # b64decode s"
| "b64decode _ = []"

definition cap_payload :: "string \<Rightarrow> string" where
  "cap_payload token =
     (let rest = tl (dropWhile (\<lambda>c. c \<noteq> CHR ''.'') token) in
      b64decode (takeWhile (\<lambda>c. c \<noteq> CHR ''.'') rest))"

lemma byte_bound [simp]: "byte c < 256"
  by (simp add: byte_def)

lemma char_of_byte [simp]: "char_of (byte c) = c"
  by (simp add: byte_def)

lemma b64_value_char [simp]:
  assumes "d < 64"
  shows "b64_value (b64_char d) = d"
proof -
  have "of_char (b64_char d) = (if d < 26 then 65 + d else if d < 52 then 97 + (d - 26)
      else if d < 62 then 48 + (d - 52) else if d = 62 then 45 else (95 :: nat))"
    using assms by (simp add: b64_char_def)
  then show ?thesis unfolding b64_value_def Let_def using assms by (auto split: if_splits)
qed

lemma sextet_bound [simp]:
  "a < 256 \<Longrightarrow> sextet1 a < 64" "b < 256 \<Longrightarrow> sextet2 a b < 64" "c < 256 \<Longrightarrow> sextet3 b c < 64"
  "sextet4 c < 64"
proof -
  show "sextet1 a < 64" if "a < 256" using that by (simp add: sextet1_def)
  show "sextet2 a b < 64" if "b < 256"
  proof -
    have "a mod 4 < 4" "b div 16 < 16" using that by simp_all
    then show ?thesis by (simp only: sextet2_def)
  qed
  show "sextet3 b c < 64" if "c < 256"
  proof -
    have "b mod 16 < 16" "c div 64 < 4" using that by simp_all
    then show ?thesis by (simp only: sextet3_def)
  qed
  show "sextet4 c < 64" by (simp add: sextet4_def)
qed

lemma mult_plus:
  fixes k q x :: nat
  assumes "q < k"
  shows "(x * k + q) div k = x" and "(x * k + q) mod k = q"
  using assms by simp_all

lemma sextet_join [simp]:
  "b < 256 \<Longrightarrow> sextet1 a * 4 + sextet2 a b div 16 = a"
  "b < 256 \<Longrightarrow> c < 256 \<Longrightarrow> sextet2 a b mod 16 * 16 + sextet3 b c div 4 = b"
  "c < 256 \<Longrightarrow> sextet3 b c mod 4 * 64 + sextet4 c = c"
proof -
  assume "b < 256"
  then have b: "b div 16 < 16" by simp
  show "sextet1 a * 4 + sextet2 a b div 16 = a"
    by (simp only: sextet1_def sextet2_def mult_plus [OF b]) simp
next
  assume "b < 256" "c < 256"
  then have b: "b div 16 < 16" and c: "c div 64 < 4" by simp_all
  show "sextet2 a b mod 16 * 16 + sextet3 b c div 4 = b"
    by (simp only: sextet2_def sextet3_def mult_plus [OF b] mult_plus [OF c]) simp
next
  assume "c < 256"
  then have c: "c div 64 < 4" by simp
  show "sextet3 b c mod 4 * 64 + sextet4 c = c"
    by (simp only: sextet4_def sextet3_def mult_plus [OF c]) simp
qed

lemma b64_roundtrip: "b64decode (b64url s) = s"
  by (induction s rule: b64url.induct) simp_all

lemma b64_char_not_dot: "d < 64 \<Longrightarrow> b64_char d \<noteq> CHR ''.''"
proof
  assume "d < 64" "b64_char d = CHR ''.''"
  then have "b64_value (CHR ''.'') = d" using b64_value_char by metis
  moreover have "b64_value (CHR ''.'') = 63" by (simp add: b64_value_def)
  ultimately have "d = 63" by simp
  with \<open>b64_char d = CHR ''.''\<close> show False by (simp add: b64_char_def)
qed

lemma b64url_no_dot: "\<forall>c \<in> set (b64url s). c \<noteq> CHR ''.''"
  by (induction s rule: b64url.induct) (simp_all add: b64_char_not_dot)

text \<open>
  A capability token carries its claims: whatever the signature, decoding the middle part of
  the token gives back the JSON text of the claims that were signed, so tokens with different
  claims are different.
\<close>

theorem capability_carries_claims:
  "cap_payload (capability sign payload) = json_text payload"
proof -
  have tw: "takeWhile (\<lambda>c. c \<noteq> CHR ''.'') (b64url s @ CHR ''.'' # r) = b64url s" for s r
    using b64url_no_dot [of s] by (simp add: takeWhile_append2)
  have dw: "dropWhile (\<lambda>c. c \<noteq> CHR ''.'') (b64url s @ CHR ''.'' # r) = CHR ''.'' # r" for s r
    using b64url_no_dot [of s] by (simp add: dropWhile_append2)
  show ?thesis by (simp add: cap_payload_def capability_def Let_def tw dw b64_roundtrip)
qed

end
