(* ===== verification/Schema.thy ===== *)
theory Schema
  imports Canonical Security
begin

text \<open>
  The database of the control API: one record per table of \<open>infra/migrations\<close>, and \<open>db\<close>, the
  record of all tables. Ids, hashes and names are strings, amounts and counters integers, and a
  timestamp is its millisecond since the epoch (\<open>Date.now()\<close>, \<open>getTime()\<close> and the \<open>..._ms\<close>
  columns all count milliseconds); a nullable column is an \<open>option\<close>. A handler takes the clocks it
  reads as arguments: \<open>date_now\<close> is \<open>Date.now()\<close> of the process, \<open>tx_now\<close> is SQL's \<open>now()\<close>,
  \<open>clock_ts\<close> is \<open>clock_timestamp()\<close>. Random ids are arguments too.

  Rows keep the columns the modelled handlers read or write. The views and triggers of the
  migrations that the handlers rely on are definitions of the components that use them.
\<close>

type_synonym uuid = string
type_synonym ms = int

section \<open>Users, nodes, models\<close>

datatype role = Admin | Member

record user =
  u_id :: uuid
  u_login :: string
  u_name :: string
  u_password_hash :: string
  u_role :: role
  u_disabled :: bool
  u_last_admitted_at :: "ms option"   \<comment> \<open>\<open>None\<close> is the default \<open>-infinity\<close>\<close>

record resource_domain =
  d_id :: uuid
  d_name :: string
  d_slots :: int
  d_owner_id :: uuid

datatype model_state = M_CANDIDATE | M_LOCAL_PREVIEW | M_REVOKED

record model =
  m_id :: string
  m_manifest :: model_manifest
  m_manifest_sha256 :: string
  m_state :: model_state
  m_publisher_id :: uuid
  m_qualification_note :: string

datatype node_state = N_OFFLINE | N_VALIDATING | N_READY | N_PAUSED | N_DRAINING | N_FAULTED | N_REVOKED
datatype desired_state = Want_READY | Want_PAUSED | Want_REVOKED
datatype node_kind = INFERENCE | ROUTE_ROOT | RPC_STAGE

record node =
  n_id :: uuid
  n_owner_id :: uuid
  n_name :: string
  n_public_key :: "string option"
  n_resource_domain_id :: uuid
  n_model_id :: string
  n_base_url :: string
  n_epoch :: int
  n_boot_id :: "uuid option"
  n_state :: node_state
  n_desired_state :: desired_state
  n_last_seen :: "ms option"
  n_generation_profile :: "generation_profile option"
  n_loaded_backend_models :: "string list"
  n_node_kind :: node_kind

record node_invite =
  ni_token_hash :: string
  ni_node_id :: uuid
  ni_expires_at :: ms
  ni_consumed_at :: "ms option"

record node_nonce =
  nn_node_id :: uuid
  nn_nonce :: string
  nn_seen_at :: ms

record auth_session =
  as_token_hash :: string
  as_user_id :: uuid
  as_expires_at :: ms

record api_key =
  ak_id :: uuid
  ak_user_id :: uuid
  ak_token_hash :: string
  ak_prefix :: string
  ak_label :: string
  ak_revoked_at :: "ms option"

section \<open>The ledger\<close>

datatype account_kind =
    LAB_ISSUER | WORKING | AVAILABLE | HELD | LEASE_ESCROW
  | COOP_WORKING | COOP_CORE_RESERVE | COOP_BURN

record account =
  acc_owner :: "uuid option"
  acc_kind :: account_kind
  acc_balance :: int

record journal_row =
  j_id :: uuid
  j_business_key :: string
  j_kind :: string
  j_metadata :: json
  j_lines :: "(string \<times> int) list"   \<comment> \<open>\<open>journal_lines\<close> of this journal: account and amount\<close>

record ledger =
  accounts :: "string \<Rightarrow> account option"
  journal :: "journal_row list"

section \<open>Routes\<close>

datatype route_state = R_CANDIDATE | R_LOCAL_PREVIEW | R_REVOKED
datatype member_role = ROOT | STAGE

record execution_route =
  er_id :: uuid
  er_publisher_id :: uuid
  er_name :: string
  er_idempotency_key :: string
  er_request_sha256 :: string
  er_model_id :: string
  er_manifest_sha256 :: string
  er_root_node_id :: uuid
  er_route_sha256 :: string
  er_state :: route_state
  er_qualification_note :: string

record route_member =
  rm_route_id :: uuid
  rm_node_id :: uuid
  rm_provider_id :: uuid
  rm_resource_domain_id :: uuid
  rm_ordinal :: int
  rm_role :: member_role
  rm_share_bps :: int

record route_acceptance =
  ra_route_id :: uuid
  ra_provider_id :: uuid
  ra_route_sha256 :: string
  ra_withdrawn_at :: "ms option"

section \<open>Readiness contracts\<close>

datatype lease_state = L_OFFERED | L_ACTIVE | L_DRAINING | L_COMPLETED | L_CANCELLED | L_EXPIRED

record availability_lease =
  al_id :: uuid
  al_sponsor_id :: uuid
  al_provider_id :: uuid
  al_node_id :: uuid
  al_resource_domain_id :: uuid
  al_model_id :: string
  al_manifest_sha256 :: string
  al_idempotency_key :: string
  al_request_sha256 :: string
  al_escrow_account :: string
  al_state :: lease_state
  al_duration_seconds :: int
  al_rate_microtu_per_second :: int
  al_budget_microtu :: int
  al_paid_microtu :: int
  al_credited_ms :: int
  al_sample_ms :: "ms option"
  al_sample_ready :: bool
  al_node_epoch :: "int option"
  al_started_ms :: "ms option"
  al_ends_ms :: "ms option"
  al_offer_expires_at :: ms
  al_created_at :: ms
  al_finished_at :: "ms option"

datatype domain_claim = Node_lease uuid | Route_lease uuid

datatype funding_source = From_WORKING | From_RESERVE
datatype coverage_kind = ESSENTIAL | EXPANSION

text \<open>The \<open>cooperative\<close> part of a route lease's frozen terms.\<close>

record coop_terms =
  ct_pool_id :: uuid
  ct_group_key :: string
  ct_policy_sha256 :: string
  ct_funding_source :: funding_source
  ct_request_sha256 :: string
  ct_support_until :: ms
  ct_coverage_kind :: coverage_kind
  ct_incident_id :: "uuid option"
  ct_renewal :: "json option"     \<comment> \<open>the evidence of a renewal, as \<open>renewals.ts\<close> builds it\<close>
  ct_expansion :: "json option"   \<comment> \<open>the evidence of an expansion\<close>

datatype purpose = REQUESTED | SCHEDULED | EXPERIMENT

record route_lease =
  rl_id :: uuid
  rl_sponsor_id :: uuid
  rl_route_id :: uuid
  rl_route_sha256 :: string
  rl_manifest_sha256 :: string
  rl_terms_sha256 :: string
  rl_cooperative :: "coop_terms option"
  rl_purpose :: purpose
  rl_reason :: string
  rl_idempotency_key :: string
  rl_request_sha256 :: string
  rl_escrow_account :: string
  rl_state :: lease_state
  rl_duration_seconds :: int
  rl_rate_microtu_per_second :: int
  rl_budget_microtu :: int
  rl_paid_microtu :: int
  rl_joint_ready_ms :: int
  rl_sample_ms :: "ms option"
  rl_sample_ready :: bool
  rl_started_ms :: "ms option"
  rl_ends_ms :: "ms option"
  rl_offer_expires_at :: ms
  rl_created_at :: ms
  rl_finished_at :: "ms option"

record lease_member =
  lm_lease_id :: uuid
  lm_node_id :: uuid
  lm_provider_id :: uuid
  lm_resource_domain_id :: uuid
  lm_ordinal :: int
  lm_role :: member_role
  lm_share_bps :: int
  lm_maximum_microtu :: int
  lm_paid_microtu :: int
  lm_credited_ms :: int
  lm_sample_ready :: bool
  lm_node_epoch :: "int option"
  lm_withdrawn_at :: "ms option"

record lease_acceptance =
  la_lease_id :: uuid
  la_provider_id :: uuid
  la_terms_sha256 :: string
  la_mandate_id :: "uuid option"

section \<open>Cooperative funds\<close>

datatype pool_state = NORMAL | DEFENSE | RECOVERY | HIBERNATING

record cooperative_pool =
  cp_id :: uuid
  cp_creator_id :: uuid
  cp_name :: string
  cp_idempotency_key :: string
  cp_request_sha256 :: string
  cp_policy_sha256 :: string
  cp_policy_version :: string
  cp_expansion_allowed :: bool  \<comment> \<open>the policy's \<open>expansion\<close> clause\<close>
  cp_working_account :: string
  cp_reserve_account :: string
  cp_burn_account :: string
  cp_support_until :: ms
  cp_paused :: bool
  cp_state :: pool_state
  cp_healthy_since :: "ms option"
  cp_sample_at :: "ms option"

record cooperative_group =
  cg_pool_id :: uuid
  cg_group_key :: string
  cg_model_id :: string
  cg_rate_microtu_per_second :: int
  cg_duration_seconds :: int

record cooperative_route =
  cr_pool_id :: uuid
  cr_group_key :: string
  cr_route_id :: uuid
  cr_route_sha256 :: string

record cooperative_funding =
  fu_id :: uuid
  fu_pool_id :: uuid
  fu_user_id :: uuid
  fu_destination :: funding_source
  fu_amount_microtu :: int
  fu_policy_sha256 :: string
  fu_idempotency_key :: string
  fu_request_sha256 :: string
  fu_journal_id :: uuid

record cooperative_incident =
  ci_id :: uuid
  ci_pool_id :: uuid
  ci_group_key :: string
  ci_route_id :: uuid
  ci_policy_sha256 :: string
  ci_budget_microtu :: int
  ci_deadline :: ms
  ci_reason :: string
  ci_evidence :: json
  ci_created_at :: ms

record cooperative_window =
  cw_lease_id :: uuid
  cw_pool_id :: uuid
  cw_group_key :: string
  cw_funding_source :: funding_source
  cw_incident_id :: "uuid option"
  cw_coverage_kind :: coverage_kind

record cooperative_settlement =
  cs_session_id :: uuid
  cs_pool_id :: uuid
  cs_policy_sha256 :: string
  cs_coverage_lease_id :: uuid
  cs_charge_microtu :: int
  cs_working_microtu :: int
  cs_reserve_microtu :: int
  cs_burned_microtu :: int

record cooperative_refund =
  cf_session_id :: uuid
  cf_actor_id :: uuid
  cf_reason :: string
  cf_journal_id :: uuid

section \<open>Sessions\<close>

record quote =
  q_id :: uuid
  q_user_id :: uuid
  q_model_id :: string
  q_manifest :: model_manifest
  q_manifest_sha256 :: string
  q_max_output_tokens :: int
  q_maximum_microtu :: int
  q_expires_at :: ms
  q_cooperative_pool_id :: "uuid option"
  q_cooperative_policy_sha256 :: "string option"

datatype session_state =
    S_QUEUED | S_PREPARING | S_AUTHORIZED | S_RUNNING | S_CANCELLING | S_TERMINAL terminal_state

datatype billing_state = B_HELD | B_SETTLED | B_REFUNDED | B_DISPUTED

record session =
  s_id :: uuid
  s_user_id :: uuid
  s_quote_id :: uuid
  s_model_id :: string
  s_manifest_sha256 :: string
  s_idempotency_key :: string
  s_request_sha256 :: string
  s_request_bytes :: int
  s_state :: session_state
  s_billing_state :: billing_state
  s_hold_microtu :: int
  s_charged_microtu :: int
  s_node_id :: "uuid option"
  s_resource_domain_id :: "uuid option"
  s_attempt_id :: "uuid option"
  s_node_epoch :: "int option"
  s_prepare_id :: "string option"
  s_queue_deadline :: ms
  s_execution_deadline :: "ms option"
  s_error_code :: "string option"
  s_prompt_tokens :: "int option"
  s_completion_tokens :: "int option"
  s_elapsed_ms :: "int option"
  s_created_at :: ms
  s_started_at :: "ms option"
  s_finished_at :: "ms option"
  s_route_id :: "uuid option"
  s_route_sha256 :: "string option"
  s_cooperative_pool_id :: "uuid option"
  s_cooperative_policy_sha256 :: "string option"
  s_coverage_lease_id :: "uuid option"
  s_coverage_terms_sha256 :: "string option"

record participant =
  sp_session_id :: uuid
  sp_node_id :: uuid
  sp_provider_id :: uuid
  sp_resource_domain_id :: uuid
  sp_ordinal :: int
  sp_role :: member_role
  sp_share_bps :: int
  sp_node_epoch :: int
  sp_prepare_id :: "string option"
  sp_claimed_at :: "ms option"
  sp_paid_microtu :: int

record stored_receipt =
  rr_session_id :: uuid
  rr_node_id :: uuid
  rr_digest :: string
  rr_payload :: receipt

record stored_stage_receipt =
  sr_session_id :: uuid
  sr_node_id :: uuid
  sr_digest :: string
  sr_payload :: stage_receipt

section \<open>Events and the database\<close>

text \<open>The append-only event tables: the row an event is about, who acted, its kind and its metadata.\<close>

record event_row =
  ev_subject :: "uuid option"
  ev_actor :: "uuid option"
  ev_kind :: string
  ev_metadata :: json

record db =
  users :: "user list"
  auth_sessions :: "auth_session list"
  api_keys :: "api_key list"
  domains :: "resource_domain list"
  models :: "model list"
  nodes :: "node list"
  node_invites :: "node_invite list"
  node_nonces :: "node_nonce list"
  ledger :: ledger
  routes :: "execution_route list"
  route_members :: "route_member list"
  route_acceptances :: "route_acceptance list"
  quotes :: "quote list"
  sessions :: "session list"
  session_domains :: "(uuid \<times> uuid) list"
  participants :: "participant list"
  receipts :: "stored_receipt list"
  stage_receipts :: "stored_stage_receipt list"
  av_leases :: "availability_lease list"
  domain_claims :: "(uuid \<times> domain_claim) list"
  rt_leases :: "route_lease list"
  rt_members :: "lease_member list"
  rt_acceptances :: "lease_acceptance list"
  pools :: "cooperative_pool list"
  pool_groups :: "cooperative_group list"
  pool_routes :: "cooperative_route list"
  fundings :: "cooperative_funding list"
  incidents :: "cooperative_incident list"
  windows :: "cooperative_window list"
  settlements :: "cooperative_settlement list"
  refunds :: "cooperative_refund list"
  events :: "event_row list"
  availability_events :: "event_row list"
  route_availability_events :: "event_row list"
  cooperative_events :: "event_row list"

definition empty_db :: db where
  "empty_db = \<lparr>users = [], auth_sessions = [], api_keys = [], domains = [], models = [], nodes = [], node_invites = [], node_nonces = [],
     ledger = \<lparr>accounts = Map.empty, journal = []\<rparr>, routes = [], route_members = [],
     route_acceptances = [], quotes = [], sessions = [], session_domains = [], participants = [],
     receipts = [], stage_receipts = [], av_leases = [], domain_claims = [], rt_leases = [],
     rt_members = [], rt_acceptances = [], pools = [], pool_groups = [], pool_routes = [],
     fundings = [], incidents = [], windows = [], settlements = [], refunds = [], events = [], availability_events = [],
     route_availability_events = [], cooperative_events = []\<rparr>"

type_synonym 'a handler = "db \<Rightarrow> ('a \<times> db) result"

definition event :: "uuid \<Rightarrow> string \<Rightarrow> (string \<times> json) list \<Rightarrow> event_row" where
  "event subject kind metadata =
     \<lparr>ev_subject = Some subject, ev_actor = None, ev_kind = kind, ev_metadata = JObj metadata\<rparr>"

definition actor_event :: "uuid \<Rightarrow> string \<Rightarrow> (string \<times> json) list \<Rightarrow> event_row" where
  "actor_event actor kind metadata =
     \<lparr>ev_subject = None, ev_actor = Some actor, ev_kind = kind, ev_metadata = JObj metadata\<rparr>"

text \<open>\<open>Database.transaction\<close> of \<open>db.ts\<close> on one attempt: an exception rolls back.\<close>

definition commit :: "'a handler \<Rightarrow> db \<Rightarrow> 'a result \<times> db" where
  "commit work s = (case work s of Inl e \<Rightarrow> (Inl e, s) | Inr (v, s') \<Rightarrow> (Inr v, s'))"

definition opt_str :: "string option \<Rightarrow> json" where
  "opt_str x = (case x of None \<Rightarrow> JNull | Some t \<Rightarrow> JStr t)"

definition amt :: "int \<Rightarrow> json" where
  "amt n = JStr (show_int n)"

text \<open>What the reaper of \<open>sessions.ts\<close> clears: old nonces and expired logins.\<close>

definition clean_up :: "ms \<Rightarrow> db \<Rightarrow> db" where
  "clean_up tx_now s = s\<lparr>
     node_nonces := filter (\<lambda>n. \<not> nn_seen_at n < tx_now - 300000) (node_nonces s),
     auth_sessions := filter (\<lambda>a. \<not> as_expires_at a < tx_now) (auth_sessions s)\<rparr>"

text \<open>A model's manifest as the JSON value that \<open>modelManifestSchema\<close> parses to.\<close>

definition generation_json :: "generation_profile \<Rightarrow> json" where
  "generation_json g = JObj
     [(''schema_version'', JNum 1), (''adapter'', JStr ''llama_cpp_b10964_jinja''),
      (''chat_template_sha256'', JStr (gp_chat_template_sha256 g)),
      (''thinking'', JStr (case gp_thinking g of Template_default \<Rightarrow> ''template_default'' | Disabled \<Rightarrow> ''disabled''))]"

definition stage_profile_json :: "stage_profile \<Rightarrow> json" where
  "stage_profile_json p = JObj
     [(''device'', JStr (case st_device p of CPU \<Rightarrow> ''CPU'' | CUDA \<Rightarrow> ''CUDA'')),
      (''tensor_weight'', JNum (st_tensor_weight p)), (''buffer_budget_mib'', JNum (st_buffer_budget_mib p)),
      (''reserve_mib'', JNum (st_reserve_mib p)), (''threads'', JNum (st_threads p))]"

definition execution_json :: "execution_profile \<Rightarrow> json" where
  "execution_json p = JObj
     [(''schema_version'', JNum 1), (''adapter'', JStr ''llama-b10964-rpc''),
      (''engine_commit'', JStr ''b29c606e28a01b1bc8c1351026a0fa6e616bf6c4''),
      (''transport'', JStr ''iroh-direct-quic-guarded-rpc''), (''split_mode'', JStr ''layer''),
      (''context_tokens'', JNum (ep_context_tokens p)), (''batch_tokens'', JNum (ep_batch_tokens p)),
      (''slots'', JNum 1), (''stages'', JArr (map stage_profile_json (ep_stages p)))]"

definition manifest_json :: "model_manifest \<Rightarrow> json" where
  "manifest_json m = JObj (
     [(''schema_version'', JNum 1), (''model_id'', JStr (mm_model_id m)),
      (''display_name'', JStr (mm_display_name m)), (''backend_model'', JStr (mm_backend_model m)),
      (''revision'', JStr (mm_revision m)), (''artifact_sha256'', JStr (mm_artifact_sha256 m)),
      (''license_id'', JStr (mm_license_id m)), (''source_url'', JStr (mm_source_url m)),
      (''modality'', JStr ''text''), (''max_context_tokens'', JNum (mm_max_context_tokens m)),
      (''max_output_tokens'', JNum (mm_max_output_tokens m)), (''max_input_bytes'', JNum (mm_max_input_bytes m)),
      (''input_rate_microtu'', amt (mm_input_rate_microtu m)), (''output_rate_microtu'', amt (mm_output_rate_microtu m)),
      (''rate_denominator'', JNum (mm_rate_denominator m)), (''description'', JStr (mm_description m)),
      (''trust_policy'', JStr ''private_lab'')] @
     (case mm_execution_profile m of None \<Rightarrow> [] | Some p \<Rightarrow> [(''execution_profile'', execution_json p)]) @
     (case mm_generation_profile m of None \<Rightarrow> [] | Some g \<Rightarrow> [(''generation_profile'', generation_json g)]))"

end
