(* ===== verification/Ledger.thy ===== *)
theory Ledger
  imports Schema
begin

text \<open>
  The double-entry ledger: \<open>apps/control-api/src/ledger.ts\<close> with the triggers of
  \<open>infra/migrations/001_private_lab.sql\<close> it relies on. \<open>post\<close> is idempotent on its business key,
  merges the entries of one account, drops zero lines, checks that the rest balances and that no
  account but the issuer goes negative, and appends an immutable journal whose trigger moves the
  balances. The locale \<open>double_entry\<close> is the interface the contract and session components use.
\<close>

section \<open>Accounts\<close>

definition availableAccount :: "uuid \<Rightarrow> string" where
  "availableAccount user = ''user:'' @ user @ '':available''"

definition heldAccount :: "uuid \<Rightarrow> string" where
  "heldAccount user = ''user:'' @ user @ '':held''"

text \<open>\<open>INSERT .. ON CONFLICT DO NOTHING\<close> of one account row.\<close>

definition insert_account :: "string \<Rightarrow> uuid option \<Rightarrow> account_kind \<Rightarrow> ledger \<Rightarrow> ledger" where
  "insert_account i own k L =
     (case accounts L i of
        None \<Rightarrow> L\<lparr>accounts := (accounts L)(i \<mapsto> \<lparr>acc_owner = own, acc_kind = k, acc_balance = 0\<rparr>)\<rparr>
      | Some _ \<Rightarrow> L)"

definition createAccounts :: "uuid \<Rightarrow> ledger \<Rightarrow> ledger" where
  "createAccounts user L =
     insert_account (heldAccount user) (Some user) HELD
       (insert_account (availableAccount user) (Some user) AVAILABLE L)"

text \<open>A plain \<open>INSERT\<close> of an account fails on an id that exists.\<close>

definition new_account :: "string \<Rightarrow> uuid option \<Rightarrow> account_kind \<Rightarrow> ledger \<Rightarrow> ledger result" where
  "new_account i own k L =
     (if accounts L i = None then Inr (insert_account i own k L) else Inl (DbError ''23505''))"

section \<open>Posting\<close>

text \<open>
  The \<open>Map\<close> of combined entries, in insertion order: \<open>combined.set(a, (combined.get(a) ?? 0n) + v)\<close>.
\<close>

fun combine_one :: "string \<Rightarrow> int \<Rightarrow> (string \<times> int) list \<Rightarrow> (string \<times> int) list" where
  "combine_one a v [] = [(a, v)]"
| "combine_one a v ((b, w) # ls) = (if a = b then (b, w + v) # ls else (b, w) # combine_one a v ls)"

fun combine :: "(string \<times> int) list \<Rightarrow> (string \<times> int) list \<Rightarrow> (string \<times> int) list" where
  "combine acc [] = acc"
| "combine acc ((a, v) # es) = combine (combine_one a v acc) es"

text \<open>
  The order of \<open>localeCompare\<close> on the characters of account ids: \<open>_\<close>, \<open>-\<close>, \<open>:\<close>, then digits,
  then letters; other characters come last, by code.
\<close>

definition collate_char :: "char \<Rightarrow> nat" where
  "collate_char c =
     (if c = CHR ''_'' then 0 else if c = CHR ''-'' then 1 else if c = CHR '':'' then 2
      else if is_digit c then of_char c else if is_lower c then of_char c
      else 1000 + of_char c)"

definition collate :: "string \<Rightarrow> nat list" where
  "collate s = map collate_char s"

definition posting_lines :: "(string \<times> int) list \<Rightarrow> (string \<times> int) list" where
  "posting_lines entries =
     sort_key (\<lambda>(a, v). collate a) (filter (\<lambda>(a, v). v \<noteq> 0) (combine [] entries))"

text \<open>The loop that checks each line's account and its balance.\<close>

fun check_lines :: "ledger \<Rightarrow> (string \<times> int) list \<Rightarrow> unit result" where
  "check_lines L [] = Inr ()"
| "check_lines L ((a, v) # ls) =
     need_row (accounts L a) 500 ''ledger_account_missing'' (\<lambda>acc.
       need (acc_kind acc = LAB_ISSUER \<or> 0 \<le> acc_balance acc + v) 402 ''insufficient_credits''
         (check_lines L ls))"

text \<open>
  Trigger \<open>apply_line\<close>: the balance column is a 64-bit integer (SQLSTATE 22003 outside it), and
  the table's check refuses a negative balance except for the issuer (23514).
\<close>

definition apply_journal_line :: "string \<Rightarrow> int \<Rightarrow> ledger \<Rightarrow> ledger result" where
  "apply_journal_line a v L =
     (case accounts L a of
        None \<Rightarrow> Inl (DbError ''P0001'')
      | Some acc \<Rightarrow>
          (let b = acc_balance acc + v in
           if b > MAX_AMOUNT \<or> b < - MAX_AMOUNT - 1 then Inl (DbError ''22003'')
           else if b < 0 \<and> acc_kind acc \<noteq> LAB_ISSUER then Inl (DbError ''23514'')
           else Inr (L\<lparr>accounts := (accounts L)(a \<mapsto> acc\<lparr>acc_balance := b\<rparr>)\<rparr>)))"

fun apply_lines :: "(string \<times> int) list \<Rightarrow> ledger \<Rightarrow> ledger result" where
  "apply_lines [] L = Inr L"
| "apply_lines ((a, v) # ls) L = and_then (apply_journal_line a v L) (apply_lines ls)"

definition find_key :: "string \<Rightarrow> ledger \<Rightarrow> journal_row option" where
  "find_key key L = lookup j_business_key key (journal L)"

definition post ::
  "uuid \<Rightarrow> string \<Rightarrow> string \<Rightarrow> (string \<times> int) list \<Rightarrow> (string \<times> json) list \<Rightarrow> ledger \<Rightarrow> (uuid \<times> ledger) result"
where
  "post i key kind entries metadata L =
     (case find_key key L of
        Some j \<Rightarrow> Inr (j_id j, L)
      | None \<Rightarrow>
          (let ls = posting_lines entries in
           need (2 \<le> length ls \<and> sum_list (map snd ls) = 0) 500 ''ledger_invalid'' (
           need (list_all (\<lambda>(a, v). v \<le> MAX_AMOUNT \<and> - MAX_AMOUNT \<le> v) ls) 400 ''amount_overflow'' (
           and_then (check_lines L ls) (\<lambda>_.
           and_then (insert_row j_id
               \<lparr>j_id = i, j_business_key = key, j_kind = kind, j_metadata = JObj metadata, j_lines = ls\<rparr>
               (journal L)) (\<lambda>js.
           and_then (apply_lines ls (L\<lparr>journal := js\<rparr>)) (\<lambda>L'. Inr (i, L'))))))))"

section \<open>What a posting does\<close>

definition bal :: "ledger \<Rightarrow> string \<Rightarrow> int" where
  "bal L a = (case accounts L a of None \<Rightarrow> 0 | Some acc \<Rightarrow> acc_balance acc)"

definition posted :: "ledger \<Rightarrow> string set" where
  "posted L = j_business_key ` set (journal L)"

fun entry_sum :: "string \<Rightarrow> (string \<times> int) list \<Rightarrow> int" where
  "entry_sum a [] = 0"
| "entry_sum a ((b, v) # es) = (if a = b then v else 0) + entry_sum a es"

lemma entry_sum_append [simp]: "entry_sum a (xs @ ys) = entry_sum a xs + entry_sum a ys"
  by (induction a xs rule: entry_sum.induct) auto

lemma entry_sum_mset: "mset xs = mset ys \<Longrightarrow> entry_sum a xs = entry_sum a ys"
proof -
  have "entry_sum a xs = (\<Sum>(b, v) \<in># mset xs. if a = b then v else 0)" for xs
    by (induction a xs rule: entry_sum.induct) auto
  then show "mset xs = mset ys \<Longrightarrow> ?thesis" by metis
qed

lemma entry_sum_combine_one:
  "entry_sum a (combine_one b v ls) = entry_sum a ls + (if a = b then v else 0)"
  by (induction b v ls rule: combine_one.induct) auto

lemma entry_sum_combine: "entry_sum a (combine acc es) = entry_sum a acc + entry_sum a es"
  by (induction acc es rule: combine.induct) (auto simp: entry_sum_combine_one)

lemma entry_sum_nonzero: "entry_sum a (filter (\<lambda>(b, v). v \<noteq> 0) ls) = entry_sum a ls"
  by (induction a ls rule: entry_sum.induct) auto

lemma entry_sum_lines [simp]: "entry_sum a (posting_lines es) = entry_sum a es"
  unfolding posting_lines_def
  by (subst entry_sum_mset [of _ "filter (\<lambda>(a, v). v \<noteq> 0) (combine [] es)"])
     (simp_all add: entry_sum_nonzero entry_sum_combine)

lemma sum_combine_one: "sum_list (map snd (combine_one b v ls)) = sum_list (map snd ls) + v"
  by (induction b v ls rule: combine_one.induct) auto

lemma sum_combine: "sum_list (map snd (combine acc es)) = sum_list (map snd acc) + sum_list (map snd es)"
  by (induction acc es rule: combine.induct) (auto simp: sum_combine_one)

lemma sum_nonzero: "sum_list (map snd (filter (\<lambda>(b, v). v \<noteq> 0) ls)) = sum_list (map snd (ls :: (string \<times> int) list))"
  by (induction ls) auto

lemma sum_lines [simp]: "sum_list (map snd (posting_lines es)) = sum_list (map snd es)"
proof -
  have "sum_list (map snd (sort_key f ls)) = sum_list (map snd ls)"
    for f :: "string \<times> int \<Rightarrow> nat list" and ls
    by (metis mset_map mset_sort sum_mset_sum_list)
  then show ?thesis by (simp add: posting_lines_def sum_nonzero sum_combine)
qed

lemma dom_combine_one: "fst ` set (combine_one a v ls) = insert a (fst ` set ls)"
  by (induction a v ls rule: combine_one.induct) auto

lemma distinct_combine_one: "distinct (map fst ls) \<Longrightarrow> distinct (map fst (combine_one a v ls))"
  using dom_combine_one by (induction a v ls rule: combine_one.induct) (auto simp flip: set_map)

lemma distinct_combine: "distinct (map fst acc) \<Longrightarrow> distinct (map fst (combine acc es))"
  by (induction acc es rule: combine.induct) (auto simp: distinct_combine_one)

lemma distinct_lines: "distinct (map fst (posting_lines es))"
proof -
  have "distinct (map fst (combine [] es))" by (simp add: distinct_combine)
  then have "distinct (map fst (filter (\<lambda>(a, v). v \<noteq> 0) (combine [] es)))"
    by (rule distinct_map_filter)
  moreover have "mset (map fst (posting_lines es)) = mset (map fst (filter (\<lambda>(a, v). v \<noteq> 0) (combine [] es)))"
    by (simp add: posting_lines_def)
  ultimately show ?thesis by (metis mset_eq_imp_distinct_iff)
qed

lemma lines_nonzero: "(a, v) \<in> set (posting_lines es) \<Longrightarrow> v \<noteq> 0"
  by (auto simp: posting_lines_def)

lemma entry_sum_member: "distinct (map fst ls) \<Longrightarrow> (a, v) \<in> set ls \<Longrightarrow> entry_sum a ls = v"
proof -
  have "a \<notin> fst ` set ls \<Longrightarrow> entry_sum a ls = 0" for a ls
    by (induction a ls rule: entry_sum.induct) auto
  then show "distinct (map fst ls) \<Longrightarrow> (a, v) \<in> set ls \<Longrightarrow> ?thesis"
    by (induction a ls rule: entry_sum.induct) force+
qed

text \<open>The lines of a posting are exactly its non-zero net amounts, one per account.\<close>

lemma in_lines: "(a, v) \<in> set (posting_lines es) \<longleftrightarrow> v \<noteq> 0 \<and> v = entry_sum a es"
proof
  assume "(a, v) \<in> set (posting_lines es)"
  then show "v \<noteq> 0 \<and> v = entry_sum a es"
    using entry_sum_member [OF distinct_lines] lines_nonzero by fastforce
next
  assume v: "v \<noteq> 0 \<and> v = entry_sum a es"
  have "entry_sum a ls \<noteq> 0 \<Longrightarrow> a \<in> fst ` set ls" for ls
    by (induction a ls rule: entry_sum.induct) (auto split: if_splits)
  then have "a \<in> fst ` set (posting_lines es)" using v by simp
  then obtain w where "(a, w) \<in> set (posting_lines es)" by force
  then show "(a, v) \<in> set (posting_lines es)"
    using v entry_sum_member [OF distinct_lines, of a w es] by simp
qed

lemma apply_lines_Inr:
  assumes "apply_lines ls L = Inr L'"
  shows "journal L' = journal L \<and> dom (accounts L') = dom (accounts L) \<and>
    fst ` set ls \<subseteq> dom (accounts L) \<and>
    (\<forall>a. bal L' a = bal L a + entry_sum a ls) \<and>
    (\<forall>a acc. accounts L a = Some acc \<longrightarrow>
       accounts L' a = Some (acc\<lparr>acc_balance := acc_balance acc + entry_sum a ls\<rparr>)) \<and>
    (\<forall>a acc. accounts L' a = Some acc \<longrightarrow> a \<in> fst ` set ls \<longrightarrow>
       (acc_kind acc \<noteq> LAB_ISSUER \<longrightarrow> distinct (map fst ls) \<longrightarrow> 0 \<le> acc_balance acc))"
  using assms
proof (induction ls L rule: apply_lines.induct)
  case (1 L)
  then show ?case by (simp add: bal_def)
next
  case (2 a v ls L)
  then obtain L1 where 1: "apply_journal_line a v L = Inr L1" "apply_lines ls L1 = Inr L'"
    by (auto simp: res_Inr)
  then obtain acc where acc: "accounts L a = Some acc"
    "L1 = L\<lparr>accounts := (accounts L)(a \<mapsto> acc\<lparr>acc_balance := acc_balance acc + v\<rparr>)\<rparr>"
    "acc_kind acc \<noteq> LAB_ISSUER \<longrightarrow> 0 \<le> acc_balance acc + v"
    by (auto simp: apply_journal_line_def Let_def split: option.splits if_splits)
  note IH = 2(1) [OF 1(2)]
  have no: "entry_sum a ls = 0" if "distinct (map fst ((a, v) # ls))"
  proof -
    from that have "a \<notin> fst ` set ls" by simp
    then show ?thesis by (induction a ls rule: entry_sum.induct) auto
  qed
  have dom1: "dom (accounts L1) = dom (accounts L)" using acc by auto
  have bal1: "bal L1 b = bal L b + (if b = a then v else 0)" for b using acc by (simp add: bal_def)
  show ?case
  proof (intro conjI)
    show "journal L' = journal L" using IH acc by simp
    show "dom (accounts L') = dom (accounts L)" using IH dom1 by simp
    have "fst ` set ls \<subseteq> dom (accounts L)" using IH unfolding dom1 by blast
    moreover have "a \<in> dom (accounts L)" using acc(1) by blast
    ultimately show "fst ` set ((a, v) # ls) \<subseteq> dom (accounts L)" by simp
    show "\<forall>b. bal L' b = bal L b + entry_sum b ((a, v) # ls)" using IH bal1 by simp
    show "\<forall>b accb. accounts L b = Some accb \<longrightarrow>
        accounts L' b = Some (accb\<lparr>acc_balance := acc_balance accb + entry_sum b ((a, v) # ls)\<rparr>)"
      using IH acc by (auto simp: add.assoc)
    show "\<forall>b accb. accounts L' b = Some accb \<longrightarrow> b \<in> fst ` set ((a, v) # ls) \<longrightarrow>
       (acc_kind accb \<noteq> LAB_ISSUER \<longrightarrow> distinct (map fst ((a, v) # ls)) \<longrightarrow> 0 \<le> acc_balance accb)"
      using IH acc no by (auto simp: dom_def image_iff)
  qed
qed

lemma check_lines_ok:
  "check_lines L ls = Inr () \<longleftrightarrow>
     (\<forall>(a, v) \<in> set ls. \<exists>acc. accounts L a = Some acc \<and>
        (acc_kind acc = LAB_ISSUER \<or> 0 \<le> acc_balance acc + v))"
  by (induction L ls rule: check_lines.induct) (auto simp: res_Inr)

text \<open>A posting under a used key changes nothing; under a fresh key it appends one journal.\<close>

lemma post_replay:
  "key \<in> posted L \<Longrightarrow> \<exists>j. find_key key L = Some j \<and> post i key kind es md L = Inr (j_id j, L)"
  by (cases "find_key key L") (auto simp: post_def find_key_def posted_def lookup_None_iff)

lemma post_fresh:
  assumes "key \<notin> posted L" and "post i key kind es md L = Inr (i', L')"
  defines "ls \<equiv> posting_lines es"
  shows "i' = i" and "2 \<le> length ls" and "sum_list (map snd es) = 0"
    and "i \<notin> j_id ` set (journal L)"
    and "journal L' = journal L @
      [\<lparr>j_id = i, j_business_key = key, j_kind = kind, j_metadata = JObj md, j_lines = ls\<rparr>]"
    and "fst ` set ls \<subseteq> dom (accounts L)" and "dom (accounts L') = dom (accounts L)"
    and "\<And>a. bal L' a = bal L a + entry_sum a es"
    and "\<And>a acc. accounts L a = Some acc \<Longrightarrow>
      accounts L' a = Some (acc\<lparr>acc_balance := acc_balance acc + entry_sum a es\<rparr>)"
    and "\<And>a acc. accounts L' a = Some acc \<Longrightarrow> a \<in> fst ` set ls \<Longrightarrow> acc_kind acc \<noteq> LAB_ISSUER \<Longrightarrow>
      0 \<le> acc_balance acc"
proof -
  have none: "find_key key L = None"
    using assms(1) by (simp add: find_key_def posted_def lookup_None_iff)
  define j where "j = \<lparr>j_id = i, j_business_key = key, j_kind = kind, j_metadata = JObj md, j_lines = ls\<rparr>"
  have all: "i' = i \<and> 2 \<le> length ls \<and> sum_list (map snd es) = 0 \<and> i \<notin> j_id ` set (journal L) \<and>
      apply_lines ls (L\<lparr>journal := journal L @ [j]\<rparr>) = Inr L'"
    using assms(2) unfolding post_def ls_def j_def by (auto simp: none Let_def res_Inr)
  then show "i' = i" "2 \<le> length ls" "sum_list (map snd es) = 0" "i \<notin> j_id ` set (journal L)"
    by blast+
  from all have ap: "apply_lines ls (L\<lparr>journal := journal L @ [j]\<rparr>) = Inr L'" by blast
  note A = apply_lines_Inr [OF ap]
  have sum: "entry_sum a ls = entry_sum a es" for a by (simp add: ls_def)
  show "journal L' = journal L @
      [\<lparr>j_id = i, j_business_key = key, j_kind = kind, j_metadata = JObj md, j_lines = ls\<rparr>]"
    using A by (simp add: j_def)
  show "fst ` set ls \<subseteq> dom (accounts L)" "dom (accounts L') = dom (accounts L)" using A by simp_all
  show "bal L' a = bal L a + entry_sum a es" for a using A sum by (simp add: bal_def)
  show "accounts L a = Some acc \<Longrightarrow>
      accounts L' a = Some (acc\<lparr>acc_balance := acc_balance acc + entry_sum a es\<rparr>)" for a acc
    using A sum by simp
  show "accounts L' a = Some acc \<Longrightarrow> a \<in> fst ` set ls \<Longrightarrow> acc_kind acc \<noteq> LAB_ISSUER \<Longrightarrow>
      0 \<le> acc_balance acc" for a acc
    using A distinct_lines [of es] by (auto simp: ls_def)
qed

lemma post_posted: "post i key kind es md L = Inr (i', L') \<Longrightarrow> posted L' = insert key (posted L)"
proof (cases "key \<in> posted L")
  case True
  then show "post i key kind es md L = Inr (i', L') \<Longrightarrow> ?thesis"
    using post_replay [OF True, of i kind es md] by auto
next
  case False
  assume "post i key kind es md L = Inr (i', L')"
  from post_fresh(5) [OF False this] show ?thesis by (auto simp: posted_def)
qed

text \<open>A posting keeps every account's owner and kind.\<close>

lemma post_accounts:
  assumes "post i key kind es md L = Inr (i', L')"
  shows "dom (accounts L') = dom (accounts L)"
    and "accounts L a = Some acc \<Longrightarrow> \<exists>b. accounts L' a = Some (acc\<lparr>acc_balance := b\<rparr>)"
proof -
  show "dom (accounts L') = dom (accounts L)"
  proof (cases "key \<in> posted L")
    case True
    then show ?thesis using assms post_replay [OF True, of i kind es md] by auto
  next
    case False
    then show ?thesis using post_fresh(7) [OF False assms] by simp
  qed
  show "accounts L a = Some acc \<Longrightarrow> \<exists>b. accounts L' a = Some (acc\<lparr>acc_balance := b\<rparr>)"
  proof (cases "key \<in> posted L")
    case True
    then have "L' = L" using assms post_replay [OF True, of i kind es md] by auto
    then show "accounts L a = Some acc \<Longrightarrow> ?thesis" by (intro exI [of _ "acc_balance acc"]) simp
  next
    case False
    show "accounts L a = Some acc \<Longrightarrow> ?thesis" using post_fresh(9) [OF False assms] by blast
  qed
qed

lemma post_domain:
  assumes "post i key kind es md L = Inr (i', L')"
  shows "\<forall>a. accounts L' a \<noteq> None \<longleftrightarrow> accounts L a \<noteq> None"
  using post_accounts(1) [OF assms] by (auto simp: dom_def)

text \<open>The journal ids after a posting.\<close>

lemma post_ids:
  assumes "post i key kind es md L = Inr (i', L')"
  shows "j_id ` set (journal L') \<subseteq> insert i (j_id ` set (journal L))"
proof (cases "key \<in> posted L")
  case True
  then show ?thesis using assms post_replay [OF True, of i kind es md] by auto
next
  case False
  then show ?thesis using post_fresh(5) [OF False assms] by auto
qed

section \<open>The ledger's invariant\<close>

definition line_total :: "string \<Rightarrow> ledger \<Rightarrow> int" where
  "line_total a L = sum_list (map (\<lambda>j. entry_sum a (j_lines j)) (journal L))"

definition balanced :: "journal_row \<Rightarrow> bool" where
  "balanced j \<longleftrightarrow> 2 \<le> length (j_lines j) \<and> sum_list (map snd (j_lines j)) = 0 \<and>
     distinct (map fst (j_lines j)) \<and> list_all (\<lambda>(a, v). v \<noteq> 0) (j_lines j)"

definition ledger_ok :: "ledger \<Rightarrow> bool" where
  "ledger_ok L \<longleftrightarrow>
     keyed j_business_key (journal L) \<and> keyed j_id (journal L) \<and>
     (\<forall>j \<in> set (journal L). balanced j \<and> fst ` set (j_lines j) \<subseteq> dom (accounts L)) \<and>
     (\<forall>a. bal L a = line_total a L) \<and>
     (\<forall>a acc. accounts L a = Some acc \<longrightarrow> acc_kind acc \<noteq> LAB_ISSUER \<longrightarrow> 0 \<le> acc_balance acc)"

lemma post_keeps_ledger_ok:
  assumes ok: "ledger_ok L" and ret: "post i key kind es md L = Inr (i', L')"
  shows "ledger_ok L'"
proof (cases "key \<in> posted L")
  case True
  with ret ok post_replay [OF True, of i kind es md] show ?thesis by auto
next
  case False
  note F = post_fresh [OF False ret]
  have kept: "accounts L a = Some acc \<Longrightarrow> acc_kind acc \<noteq> LAB_ISSUER \<Longrightarrow> 0 \<le> acc_balance acc" for a acc
    using ok by (simp add: ledger_ok_def)
  have out: "a \<notin> fst ` set (posting_lines es) \<Longrightarrow> entry_sum a es = 0" for a
    using in_lines [of a "entry_sum a es" es] by force
  have nonneg: "0 \<le> acc_balance acc"
    if "accounts L' a = Some acc" "acc_kind acc \<noteq> LAB_ISSUER" for a acc
  proof (cases "a \<in> fst ` set (posting_lines es)")
    case True
    then show ?thesis using F(10) that by blast
  next
    case nin: False
    from that(1) F(7) obtain acc0 where "accounts L a = Some acc0" by blast
    with F(9) [OF this] out [OF nin] that kept show ?thesis by auto
  qed
  have keys: "keyed j_business_key (journal L')" "keyed j_id (journal L')"
    using ok False F(4,5) by (auto simp: ledger_ok_def posted_def intro!: keyed_insert)
  have shape: "balanced j \<and> fst ` set (j_lines j) \<subseteq> dom (accounts L')" if "j \<in> set (journal L')" for j
  proof (cases "j \<in> set (journal L)")
    case True
    then show ?thesis using ok F(7) by (simp add: ledger_ok_def)
  next
    case new: False
    then have "j_lines j = posting_lines es" using that F(5) by auto
    then show ?thesis using F(2,3,6,7) distinct_lines [of es] lines_nonzero [of _ _ es]
      by (auto simp: balanced_def list_all_iff)
  qed
  have "bal L' a = line_total a L'" for a
    using ok F(5,8) by (simp add: ledger_ok_def line_total_def)
  with nonneg keys shape show ?thesis by (auto simp: ledger_ok_def)
qed

lemma insert_account_bal [simp]: "bal (insert_account i own k L) a = bal L a"
  by (simp add: insert_account_def bal_def split: option.splits)

lemma insert_account_journal [simp]: "journal (insert_account i own k L) = journal L"
  by (simp add: insert_account_def split: option.splits)

lemma insert_account_posted [simp]: "posted (insert_account i own k L) = posted L"
  by (simp add: posted_def)

lemma insert_account_dom: "dom (accounts (insert_account i own k L)) = insert i (dom (accounts L))"
  by (auto simp: insert_account_def split: option.splits)

lemma insert_account_old:
  "accounts L a = Some acc \<Longrightarrow> accounts (insert_account i own k L) a = Some acc"
  by (auto simp: insert_account_def split: option.splits)

lemma insert_account_keeps_ok: "ledger_ok L \<Longrightarrow> ledger_ok (insert_account i own k L)"
  unfolding ledger_ok_def insert_account_dom insert_account_journal insert_account_bal
  by (auto simp: insert_account_def line_total_def split: option.splits if_splits)

lemma new_account_Inr [res_Inr]:
  "new_account i own k L = Inr L' \<longleftrightarrow> accounts L i = None \<and> L' = insert_account i own k L"
  by (auto simp: new_account_def)

text \<open>When every account of the lines exists and has the funds, a fresh posting commits.\<close>

lemma apply_lines_ok:
  assumes "distinct (map fst ls)"
    and "\<forall>(a, v) \<in> set ls. \<exists>acc. accounts L a = Some acc \<and>
      (acc_kind acc = LAB_ISSUER \<or> 0 \<le> acc_balance acc + v) \<and>
      acc_balance acc + v \<le> MAX_AMOUNT \<and> - MAX_AMOUNT - 1 \<le> acc_balance acc + v"
  shows "\<exists>L'. apply_lines ls L = Inr L'"
  using assms
proof (induction ls L rule: apply_lines.induct)
  case (1 L)
  then show ?case by simp
next
  case (2 a v ls L)
  from "2.prems" obtain acc where acc: "accounts L a = Some acc"
    "acc_kind acc = LAB_ISSUER \<or> 0 \<le> acc_balance acc + v"
    "acc_balance acc + v \<le> MAX_AMOUNT" "- MAX_AMOUNT - 1 \<le> acc_balance acc + v" by auto
  define L1 where "L1 = L\<lparr>accounts := (accounts L)(a \<mapsto> acc\<lparr>acc_balance := acc_balance acc + v\<rparr>)\<rparr>"
  have step: "apply_journal_line a v L = Inr L1"
    using acc by (auto simp: apply_journal_line_def L1_def)
  have "accounts L1 b = accounts L b" if "(b, w) \<in> set ls" for b w
    using "2.prems"(1) that by (force simp: L1_def)
  with "2.prems" have "\<exists>L'. apply_lines ls L1 = Inr L'"
    by (intro "2.IH") fastforce+
  with step show ?case by simp
qed

lemma post_succeeds:
  assumes "key \<notin> posted L" and "i \<notin> j_id ` set (journal L)"
    and "2 \<le> length (posting_lines es)" and "sum_list (map snd es) = 0"
    and "\<forall>(a, v) \<in> set (posting_lines es). v \<le> MAX_AMOUNT \<and> - MAX_AMOUNT \<le> v \<and>
      (\<exists>acc. accounts L a = Some acc \<and> (acc_kind acc = LAB_ISSUER \<or> 0 \<le> acc_balance acc + v) \<and>
        acc_balance acc + v \<le> MAX_AMOUNT \<and> - MAX_AMOUNT - 1 \<le> acc_balance acc + v)"
  shows "\<exists>L'. post i key kind es md L = Inr (i, L')"
proof -
  define ls where "ls = posting_lines es"
  define j where "j = \<lparr>j_id = i, j_business_key = key, j_kind = kind, j_metadata = JObj md, j_lines = ls\<rparr>"
  have fk: "find_key key L = None"
    using assms(1) by (simp add: find_key_def posted_def lookup_None_iff)
  have cl: "check_lines L ls = Inr ()"
    using assms(5) by (fastforce simp: check_lines_ok ls_def)
  have bounds: "list_all (\<lambda>(a, v). v \<le> MAX_AMOUNT \<and> - MAX_AMOUNT \<le> v) ls"
    using assms(5) by (auto simp: list_all_iff ls_def)
  have "\<exists>L'. apply_lines ls (L\<lparr>journal := journal L @ [j]\<rparr>) = Inr L'"
    using assms(5) distinct_lines by (intro apply_lines_ok) (fastforce simp: ls_def)+
  then obtain L' where ap: "apply_lines ls (L\<lparr>journal := journal L @ [j]\<rparr>) = Inr L'" ..
  have ins: "insert_row j_id j (journal L) = Inr (journal L @ [j])"
    using assms(2) by (simp add: insert_row_def j_def)
  have "post i key kind es md L = Inr (i, L')"
    using assms(3,4) cl bounds ap ins
    by (simp add: post_def fk Let_def flip: ls_def j_def) (simp add: ls_def)
  then show ?thesis ..
qed

text \<open>The usual posting: \<open>v\<close> from one account to another.\<close>

lemma transfer_lines: "x \<noteq> y \<Longrightarrow> v \<noteq> 0 \<Longrightarrow> length (posting_lines [(x, - v), (y, v)]) = 2"
  by (simp add: posting_lines_def)

lemma transfer_succeeds:
  assumes "key \<notin> posted L" and "i \<notin> j_id ` set (journal L)" and "x \<noteq> y" and "0 < v" "v \<le> MAX_AMOUNT"
    and "accounts L x \<noteq> None" and "accounts L y \<noteq> None"
    and "v \<le> bal L x" "bal L x \<le> MAX_AMOUNT" and "0 \<le> bal L y" "bal L y + v \<le> MAX_AMOUNT"
  shows "\<exists>L'. post i key kind [(x, - v), (y, v)] md L = Inr (i, L')"
proof (rule post_succeeds [OF assms(1,2)])
  show "2 \<le> length (posting_lines [(x, - v), (y, v)])" using transfer_lines [OF assms(3)] assms(4) by simp
  show "\<forall>(a, w) \<in> set (posting_lines [(x, - v), (y, v)]). w \<le> MAX_AMOUNT \<and> - MAX_AMOUNT \<le> w \<and>
      (\<exists>acc. accounts L a = Some acc \<and> (acc_kind acc = LAB_ISSUER \<or> 0 \<le> acc_balance acc + w) \<and>
        acc_balance acc + w \<le> MAX_AMOUNT \<and> - MAX_AMOUNT - 1 \<le> acc_balance acc + w)"
    using assms by (auto simp: in_lines bal_def split: if_splits)
qed simp

section \<open>Account ids and business keys\<close>

text \<open>
  The ids and keys the handlers build are string templates; two templates never meet, and the
  payment key of a contract determines the contract and the credited time.
\<close>

lemma same_suffix: "length a = length b \<Longrightarrow> xs @ a = ys @ b \<longleftrightarrow> xs = ys \<and> a = b"
  by simp

lemma available_inj [simp]: "availableAccount u = availableAccount v \<longleftrightarrow> u = v"
  by (simp add: availableAccount_def)

lemma held_inj [simp]: "heldAccount u = heldAccount v \<longleftrightarrow> u = v"
  by (simp add: heldAccount_def)

lemma last_suffix: "s \<noteq> [] \<Longrightarrow> last (xs @ s) = last s"
  by simp

lemma available_neq_held [simp, acct_neq]:
  "availableAccount u \<noteq> heldAccount v" "heldAccount v \<noteq> availableAccount u"
proof -
  have "last (availableAccount u) \<noteq> last (heldAccount v)"
    by (simp add: availableAccount_def heldAccount_def)
  then show "availableAccount u \<noteq> heldAccount v" "heldAccount v \<noteq> availableAccount u" by auto
qed

definition pay_key :: "string \<Rightarrow> uuid \<Rightarrow> int \<Rightarrow> string" where
  "pay_key p i n = p @ i @ '':pay:'' @ show_int n"

lemma digits_split:
  assumes "xs @ [c] @ n = ys @ [c] @ m" and "\<not> is_digit c"
    and "\<forall>x \<in> set n. is_digit x" and "\<forall>x \<in> set m. is_digit x"
  shows "xs = ys \<and> n = m"
proof -
  have tw: "takeWhile is_digit (rev (zs @ [c] @ k)) = rev k" if "\<forall>x \<in> set k. is_digit x" for zs k
    using that assms(2) by (induction k rule: rev_induct) auto
  have "rev n = rev m"
    using tw [OF assms(3), of xs] tw [OF assms(4), of ys] by (simp only: assms(1))
  with assms(1) show ?thesis by simp
qed

lemma pay_key_inj:
  assumes "0 \<le> m" and "0 \<le> n"
  shows "pay_key p i m = pay_key p j n \<longleftrightarrow> i = j \<and> m = n"
proof
  assume "pay_key p i m = pay_key p j n"
  then have "(p @ i @ '':pay'') @ [CHR '':''] @ show_int m = (p @ j @ '':pay'') @ [CHR '':''] @ show_int n"
    by (simp add: pay_key_def)
  moreover have "\<not> is_digit (CHR '':'')" by (simp add: is_digit_def)
  ultimately have "p @ i @ '':pay'' = p @ j @ '':pay'' \<and> show_int m = show_int n"
    using show_int_digits [OF assms(1)] show_int_digits [OF assms(2)] by (intro digits_split) auto
  then show "i = j \<and> m = n" using assms by (simp add: show_int_inj)
qed simp

lemma pay_key_last:
  assumes "0 \<le> n"
  shows "is_digit (last (pay_key p i n))"
proof -
  have "last (show_int n) \<in> set (show_int n)" by simp
  then show ?thesis using show_int_digits [OF assms] by (simp add: pay_key_def)
qed

text \<open>A key that ends in a letter is not a payment key.\<close>

lemma pay_key_neq [key_neq]:
  assumes "0 \<le> n" and "s \<noteq> []" and "\<not> is_digit (last s)"
  shows "pay_key p i n \<noteq> xs @ s" and "xs @ s \<noteq> pay_key p i n"
  using pay_key_last [OF assms(1), of p i] assms(2,3) by (metis last_suffix)+

section \<open>The interface of the ledger\<close>

text \<open>
  What the contracts and the sessions rely on: a posting under a used key changes nothing, one
  under a fresh key moves each account by its entries, which sum to zero.
\<close>

locale double_entry =
  fixes pst :: "uuid \<Rightarrow> string \<Rightarrow> string \<Rightarrow> (string \<times> int) list \<Rightarrow> 'm \<Rightarrow> 'l \<Rightarrow> (uuid \<times> 'l) result"
    and bl :: "'l \<Rightarrow> string \<Rightarrow> int"
    and used :: "'l \<Rightarrow> string set"
  assumes replay: "key \<in> used L \<Longrightarrow> \<exists>j. pst i key kind es md L = Inr (j, L)"
    and moves: "key \<notin> used L \<Longrightarrow> pst i key kind es md L = Inr (j, L') \<Longrightarrow> bl L' a = bl L a + entry_sum a es"
    and zero_sum: "key \<notin> used L \<Longrightarrow> pst i key kind es md L = Inr (j, L') \<Longrightarrow> sum_list (map snd es) = 0"
    and records: "pst i key kind es md L = Inr (j, L') \<Longrightarrow> used L' = insert key (used L)"
begin

lemma replayed:
  assumes "key \<in> used L" and "pst i key kind es md L = Inr (j, L')"
  shows "L' = L"
  using replay [OF assms(1), of i kind es md] assms(2) by auto

lemma effect:
  assumes "pst i key kind es md L = Inr (j, L')"
  shows "bl L' a = bl L a + (if key \<in> used L then 0 else entry_sum a es)"
  using assms moves [of key L i kind es md j L' a] replayed [of key L i kind es md j L'] by auto

lemma once:
  assumes "pst i key kind es md L = Inr (j, L')" and "pst i2 key kind2 es2 md2 L' = Inr (j2, L2)"
  shows "L2 = L'"
  using replayed [OF _ assms(2)] records [OF assms(1)] by blast

lemma untouched:
  assumes "pst i key kind es md L = Inr (j, L')" and "a \<notin> fst ` set es"
  shows "bl L' a = bl L a"
proof -
  have "entry_sum a es = 0" using assms(2) by (induction a es rule: entry_sum.induct) auto
  then show ?thesis using effect [OF assms(1), of a] by simp
qed

lemma transfer:
  assumes "pst i key kind [(x, - v), (y, v)] md L = Inr (j, L')" and "key \<notin> used L"
  shows "bl L' a = bl L a - (if a = x then v else 0) + (if a = y then v else 0)"
  using moves [OF assms(2,1), of a] by simp

lemma conserved:
  assumes "pst i key kind es md L = Inr (j, L')" and "finite A" and "fst ` set es \<subseteq> A"
  shows "(\<Sum>a \<in> A. bl L' a) = (\<Sum>a \<in> A. bl L a)"
proof (cases "key \<in> used L")
  case True
  then show ?thesis using replayed [OF True assms(1)] by simp
next
  case False
  have "(\<Sum>a \<in> A. entry_sum a es) = sum_list (map snd es)"
    using assms(3)
  proof (induction es)
    case (Cons e es)
    obtain b v where e: "e = (b, v)" by fastforce
    have "(\<Sum>a \<in> A. entry_sum a (e # es)) = (\<Sum>a \<in> A. if a = b then v else 0) + (\<Sum>a \<in> A. entry_sum a es)"
      by (simp add: e sum.distrib)
    then show ?case using Cons assms(2) by (simp add: e sum.delta)
  qed simp
  then show ?thesis using moves [OF False assms(1)] zero_sum [OF False assms(1)]
    by (simp add: sum.distrib)
qed

end

interpretation led: double_entry post bal posted
proof unfold_locales
  fix key L i kind es md
  assume "key \<in> posted L"
  then show "\<exists>j. post i key kind es md L = Inr (j, L)" using post_replay [of key L i kind es md] by auto
qed (fact post_fresh(8) post_fresh(3) post_posted)+

section \<open>Reachable ledgers\<close>

text \<open>The two accounts that the first migration inserts, and every change the handlers make.\<close>

definition initial_ledger :: ledger where
  "initial_ledger =
     insert_account ''lab:working'' None WORKING
       (insert_account ''lab:issuer'' None LAB_ISSUER \<lparr>accounts = Map.empty, journal = []\<rparr>)"

inductive ledger_step :: "ledger \<Rightarrow> ledger \<Rightarrow> bool" where
  user_accounts: "ledger_step L (createAccounts u L)"
| plain_account: "new_account a own k L = Inr L' \<Longrightarrow> ledger_step L L'"
| posting: "post i key kind es md L = Inr (j, L') \<Longrightarrow> ledger_step L L'"

inductive_cases ledger_stepE: "ledger_step L L'"

lemma createAccounts_ok: "ledger_ok L \<Longrightarrow> ledger_ok (createAccounts u L)"
  by (simp add: createAccounts_def insert_account_keeps_ok)

lemma initial_ledger_ok: "ledger_ok initial_ledger"
proof -
  have "ledger_ok \<lparr>accounts = Map.empty, journal = []\<rparr>"
    by (simp add: ledger_ok_def keyed_def bal_def line_total_def)
  then show ?thesis unfolding initial_ledger_def by (intro insert_account_keeps_ok)
qed

lemma ledger_step_ok: "ledger_step L L' \<Longrightarrow> ledger_ok L \<Longrightarrow> ledger_ok L'"
  by (erule ledger_stepE)
     (auto simp: createAccounts_ok res_Inr intro: insert_account_keeps_ok post_keeps_ledger_ok)

lemma ledger_step_finite:
  "ledger_step L L' \<Longrightarrow> finite (dom (accounts L)) \<Longrightarrow> finite (dom (accounts L'))"
  by (erule ledger_stepE)
     (auto simp: createAccounts_def insert_account_dom res_Inr post_accounts(1))

lemma ledger_ok_total:
  assumes ok: "ledger_ok L" and fin: "finite (dom (accounts L))"
  shows "(\<Sum>a \<in> dom (accounts L). bal L a) = 0"
proof -
  have zero: "(\<Sum>a \<in> A. entry_sum a ls) = sum_list (map snd ls)"
    if "finite A" "fst ` set ls \<subseteq> A" for A and ls :: "(string \<times> int) list"
    using that(2)
  proof (induction ls)
    case (Cons e ls)
    obtain b v where e: "e = (b, v)" by fastforce
    have "(\<Sum>a \<in> A. entry_sum a (e # ls)) = (\<Sum>a \<in> A. if a = b then v else 0) + (\<Sum>a \<in> A. entry_sum a ls)"
      by (simp add: e sum.distrib)
    then show ?case using Cons that(1) by (simp add: e sum.delta)
  qed simp
  have "(\<Sum>a \<in> A. sum_list (map (\<lambda>j. entry_sum a (j_lines j)) js)) = 0"
    if "\<forall>j \<in> set js. balanced j \<and> fst ` set (j_lines j) \<subseteq> A" "finite A" for A js
    using that by (induction js) (simp_all add: sum.distrib zero balanced_def)
  then have "(\<Sum>a \<in> dom (accounts L). line_total a L) = 0"
    using ok fin by (simp add: ledger_ok_def line_total_def)
  then show ?thesis using ok by (simp add: ledger_ok_def)
qed

text \<open>
  C2: in every ledger reached from the first migration's by account creation and postings, each
  balance is the sum of its journal lines, every journal is balanced with at least two distinct
  non-zero lines, business keys are unique, only the issuer is negative, and all the balances
  together sum to zero.
\<close>

theorem reachable_ledger_balanced:
  assumes "ledger_step\<^sup>*\<^sup>* initial_ledger L"
  shows "ledger_ok L \<and> finite (dom (accounts L)) \<and> (\<Sum>a \<in> dom (accounts L). bal L a) = 0"
proof -
  have "ledger_ok L \<and> finite (dom (accounts L))"
    using assms
  proof (rule rtranclp_keeps)
    show "ledger_ok initial_ledger \<and> finite (dom (accounts initial_ledger))"
      by (simp add: initial_ledger_ok) (simp add: initial_ledger_def insert_account_dom)
  qed (use ledger_step_ok ledger_step_finite in blast)
  then show ?thesis using ledger_ok_total by blast
qed

text \<open>A grant of ten units to a user's fresh accounts, and a hold of three of them.\<close>

definition granted_ledger :: ledger where
  "granted_ledger = createAccounts ''u'' initial_ledger"

definition grant_post :: "(uuid \<times> ledger) result" where
  "grant_post = post ''j1'' ''grant:g'' ''LAB_GRANT''
     [(''lab:issuer'', -10), (availableAccount ''u'', 10)] [] granted_ledger"

lemma grant_post_ok: "returns grant_post (\<lambda>(j, L). j = ''j1'' \<and> bal L (availableAccount ''u'') = 10)"
  by code_simp

theorem reachable_ledger_balanced_witness:
  "returns grant_post (\<lambda>(j, L). bal L (availableAccount ''u'') = 10 \<and>
     ledger_ok L \<and> (\<Sum>a \<in> dom (accounts L). bal L a) = 0)"
proof -
  obtain L where L: "grant_post = Inr (''j1'', L)" "bal L (availableAccount ''u'') = 10"
    using grant_post_ok by (auto simp: returns_iff)
  have "ledger_step\<^sup>*\<^sup>* initial_ledger granted_ledger"
    by (simp add: granted_ledger_def user_accounts r_into_rtranclp)
  moreover have "ledger_step granted_ledger L" using L(1) posting unfolding grant_post_def by blast
  ultimately have "ledger_step\<^sup>*\<^sup>* initial_ledger L" by (rule rtranclp.rtrancl_into_rtrancl)
  then have "ledger_ok L \<and> (\<Sum>a \<in> dom (accounts L). bal L a) = 0"
    using reachable_ledger_balanced by blast
  then show ?thesis unfolding L(1) using L(2) by simp
qed

text \<open>
  C21: a posting is idempotent on its business key. After a posting returned, any later posting
  under the same key, whatever its entries, returns that journal's id and leaves the ledger as it
  is.
\<close>

theorem post_idempotent:
  assumes "post i key kind es md L = Inr (j, L')" and "key \<notin> posted L"
  shows "post i2 key kind2 es2 md2 L' = Inr (i, L')"
proof -
  have new: "journal L' = journal L @ [\<lparr>j_id = i, j_business_key = key, j_kind = kind,
      j_metadata = JObj md, j_lines = posting_lines es\<rparr>]"
    using post_fresh(5) [OF assms(2,1)] .
  have "lookup j_business_key key (journal L) = None"
    using assms(2) by (simp add: lookup_None_iff posted_def)
  then have "find_key key L' = Some \<lparr>j_id = i, j_business_key = key, j_kind = kind,
      j_metadata = JObj md, j_lines = posting_lines es\<rparr>"
    by (simp add: find_key_def new)
  then show ?thesis by (simp add: post_def)
qed

theorem post_idempotent_witness:
  "returns grant_post (\<lambda>(j, L). post ''j2'' ''grant:g'' ''LAB_GRANT'' [] [] L = Inr (''j1'', L))"
proof -
  obtain L where L: "grant_post = Inr (''j1'', L)"
    using grant_post_ok by (auto simp: returns_iff)
  have "''grant:g'' \<notin> posted granted_ledger" by code_simp
  from post_idempotent [OF _ this, of "''j1''"] L show ?thesis by (simp add: grant_post_def)
qed

text \<open>
  C24: a fresh posting whose lines balance is refused with 402, leaving the caller's ledger alone,
  exactly when some line would take a non-issuer account below zero (all accounts existing and
  all amounts in range); otherwise it commits.
\<close>

theorem post_overdraft:
  assumes fresh: "key \<notin> posted L" "i \<notin> j_id ` set (journal L)"
    and lines: "2 \<le> length (posting_lines es)" "sum_list (map snd es) = 0"
    and ranges: "\<forall>(a, v) \<in> set (posting_lines es). v \<le> MAX_AMOUNT \<and> - MAX_AMOUNT \<le> v \<and>
      (\<exists>acc. accounts L a = Some acc \<and> acc_balance acc + v \<le> MAX_AMOUNT \<and>
        - MAX_AMOUNT - 1 \<le> acc_balance acc + v)"
  shows "if \<exists>a acc. accounts L a = Some acc \<and> acc_kind acc \<noteq> LAB_ISSUER \<and> entry_sum a es \<noteq> 0 \<and>
        acc_balance acc + entry_sum a es < 0
    then post i key kind es md L = Inl (AppError 402 ''insufficient_credits'')
    else returns (post i key kind es md L) (\<lambda>(j, L'). j = i)"
proof -
  define ls where "ls = posting_lines es"
  have fk: "find_key key L = None"
    using fresh(1) by (simp add: find_key_def posted_def lookup_None_iff)
  have bounds: "list_all (\<lambda>(a, v). v \<le> MAX_AMOUNT \<and> - MAX_AMOUNT \<le> v) ls"
    using ranges by (auto simp: list_all_iff ls_def)
  let ?over = "\<exists>a acc. accounts L a = Some acc \<and> acc_kind acc \<noteq> LAB_ISSUER \<and> entry_sum a es \<noteq> 0 \<and>
        acc_balance acc + entry_sum a es < 0"
  have chk: "check_lines L ms = Inr () \<or> check_lines L ms = Inl (AppError 402 ''insufficient_credits'')"
    if "\<forall>(a, v) \<in> set ms. \<exists>acc. accounts L a = Some acc" for ms
    using that by (induction ms) (fastforce simp: need_def split: if_splits)+
  have all: "\<forall>(a, v) \<in> set ls. \<exists>acc. accounts L a = Some acc"
    using ranges by (fastforce simp: ls_def)
  have over: "check_lines L ls = Inr () \<longleftrightarrow> \<not> ?over"
  proof
    assume ok: "check_lines L ls = Inr ()"
    show "\<not> ?over"
    proof
      assume ?over
      then obtain a acc where a: "accounts L a = Some acc" "acc_kind acc \<noteq> LAB_ISSUER"
        "entry_sum a es \<noteq> 0" "acc_balance acc + entry_sum a es < 0" by blast
      then have "(a, entry_sum a es) \<in> set ls" by (simp add: ls_def in_lines)
      with ok a show False by (fastforce simp: check_lines_ok)
    qed
  next
    assume no: "\<not> ?over"
    have "\<exists>acc. accounts L a = Some acc \<and> (acc_kind acc = LAB_ISSUER \<or> 0 \<le> acc_balance acc + v)"
      if av: "(a, v) \<in> set ls" for a v
    proof -
      obtain acc where acc: "accounts L a = Some acc" using all av by blast
      have v: "v \<noteq> 0" "v = entry_sum a es" using av by (simp_all add: ls_def in_lines)
      show ?thesis
      proof (cases "acc_kind acc = LAB_ISSUER")
        case False
        then have "\<not> acc_balance acc + v < 0" using no acc v by blast
        then show ?thesis using acc by auto
      qed (use acc in blast)
    qed
    then show "check_lines L ls = Inr ()" by (auto simp: check_lines_ok)
  qed
  have refused: "post i key kind es md L = Inl (AppError 402 ''insufficient_credits'')"
    if "check_lines L ls \<noteq> Inr ()"
    using chk [OF all] that lines bounds by (simp add: post_def fk Let_def flip: ls_def) (simp add: ls_def)
  have commits: "\<exists>L'. post i key kind es md L = Inr (i, L')" if "check_lines L ls = Inr ()"
    using ranges that unfolding check_lines_ok ls_def
    by (intro post_succeeds [OF fresh lines]) fastforce
  show ?thesis using refused commits over by (auto simp: returns_iff)
qed

theorem post_overdraft_witness:
  "returns grant_post (\<lambda>(j, L).
     post ''j2'' ''hold:s'' ''RESERVE'' [(availableAccount ''u'', -30), (heldAccount ''u'', 30)] [] L =
       Inl (AppError 402 ''insufficient_credits''))"
proof -
  let ?es = "[(availableAccount ''u'', -30), (heldAccount ''u'', 30)]"
  have facts: "returns grant_post (\<lambda>(j, L). list_all (\<lambda>k. j_business_key k = ''grant:g'' \<and> j_id k = ''j1'') (journal L) \<and>
      accounts L (availableAccount ''u'') = Some \<lparr>acc_owner = Some ''u'', acc_kind = AVAILABLE, acc_balance = 10\<rparr> \<and>
      accounts L (heldAccount ''u'') = Some \<lparr>acc_owner = Some ''u'', acc_kind = HELD, acc_balance = 0\<rparr>)"
    by code_simp
  then obtain j L where L: "grant_post = Inr (j, L)"
    "list_all (\<lambda>k. j_business_key k = ''grant:g'' \<and> j_id k = ''j1'') (journal L)"
    "accounts L (availableAccount ''u'') = Some \<lparr>acc_owner = Some ''u'', acc_kind = AVAILABLE, acc_balance = 10\<rparr>"
    "accounts L (heldAccount ''u'') = Some \<lparr>acc_owner = Some ''u'', acc_kind = HELD, acc_balance = 0\<rparr>"
    by (auto simp: returns_iff)
  have ls: "posting_lines ?es = [(availableAccount ''u'', -30), (heldAccount ''u'', 30)]" by code_simp
  have "if \<exists>a acc. accounts L a = Some acc \<and> acc_kind acc \<noteq> LAB_ISSUER \<and> entry_sum a ?es \<noteq> 0 \<and>
        acc_balance acc + entry_sum a ?es < 0
    then post ''j2'' ''hold:s'' ''RESERVE'' ?es [] L = Inl (AppError 402 ''insufficient_credits'')
    else returns (post ''j2'' ''hold:s'' ''RESERVE'' ?es [] L) (\<lambda>(j, L'). j = ''j2'')"
    using L by (intro post_overdraft) (auto simp: ls posted_def list_all_iff MAX_AMOUNT_def)
  moreover have "\<exists>a acc. accounts L a = Some acc \<and> acc_kind acc \<noteq> LAB_ISSUER \<and> entry_sum a ?es \<noteq> 0 \<and>
        acc_balance acc + entry_sum a ?es < 0"
    using L by (intro exI [of _ "availableAccount ''u''"]) simp
  ultimately show ?thesis unfolding L(1) by simp
qed

end
