(* ===== verification/Demo.thy ===== *)
theory Demo
  imports Ledger
begin

text \<open>
  A small laboratory that the witnesses evaluate the handlers on: a member who pays, an operator
  with one ready node, the model the node serves, and a ledger after one grant. Times are
  milliseconds since an arbitrary origin.
\<close>

definition alice :: user where
  "alice = \<lparr>u_id = ''a1'', u_login = ''alice'', u_name = ''Alice'', u_password_hash = '''', u_role = Member,
     u_disabled = False, u_last_admitted_at = None\<rparr>"

definition bob :: user where
  "bob = \<lparr>u_id = ''b2'', u_login = ''bob'', u_name = ''Bob'', u_password_hash = '''', u_role = Member,
     u_disabled = False, u_last_admitted_at = None\<rparr>"

definition carol :: user where
  "carol = \<lparr>u_id = ''c3'', u_login = ''carol'', u_name = ''Carol'', u_password_hash = '''', u_role = Member,
     u_disabled = False, u_last_admitted_at = None\<rparr>"

definition overseer :: user where
  "overseer = \<lparr>u_id = ''r0'', u_login = ''root'', u_name = ''Root'', u_password_hash = '''', u_role = Admin,
     u_disabled = False, u_last_admitted_at = None\<rparr>"

definition demo_model :: model where
  "demo_model = \<lparr>m_id = ''lab-model'', m_manifest = demo_manifest,
     m_manifest_sha256 = replicate 64 (CHR ''a''), m_state = M_LOCAL_PREVIEW,
     m_publisher_id = ''b2'', m_qualification_note = ''''\<rparr>"

definition demo_domain :: resource_domain where
  "demo_domain = \<lparr>d_id = ''d1'', d_name = ''desk'', d_slots = 1, d_owner_id = ''b2''\<rparr>"

definition demo_node :: node where
  "demo_node = \<lparr>n_id = ''n1'', n_owner_id = ''b2'', n_name = ''desk'', n_public_key = None, n_resource_domain_id = ''d1'',
     n_model_id = ''lab-model'', n_base_url = '''', n_epoch = 7, n_boot_id = Some ''boot'',
     n_state = N_READY, n_desired_state = Want_READY, n_last_seen = Some 99000,
     n_generation_profile = None, n_loaded_backend_models = [mm_backend_model demo_manifest],
     n_node_kind = INFERENCE\<rparr>"

definition demo_part :: "uuid \<Rightarrow> uuid \<Rightarrow> uuid \<Rightarrow> node_kind \<Rightarrow> node" where
  "demo_part i owner d kind = demo_node\<lparr>n_id := i, n_owner_id := owner, n_resource_domain_id := d, n_node_kind := kind\<rparr>"

definition demo_ledger :: ledger where
  "demo_ledger =
     (case post ''j0'' ''grant:demo'' ''LAB_GRANT''
        [(''lab:issuer'', - 1000000), (availableAccount ''a1'', 1000000)] []
        (createAccounts ''b2'' (createAccounts ''a1'' initial_ledger)) of
        Inl e \<Rightarrow> initial_ledger | Inr (j, L) \<Rightarrow> L)"

definition demo_db :: db where
  "demo_db = empty_db\<lparr>users := [alice, bob], domains := [demo_domain], models := [demo_model],
     nodes := [demo_node], ledger := demo_ledger\<rparr>"

text \<open>The node reports itself again: the heartbeat that an observation relies on.\<close>

definition seen_at :: "ms \<Rightarrow> db \<Rightarrow> db" where
  "seen_at t s = s\<lparr>nodes := map (\<lambda>n. n\<lparr>n_last_seen := Some t\<rparr>) (nodes s)\<rparr>"

text \<open>The database a handler committed, or the old one.\<close>

definition after :: "('a \<times> db) result \<Rightarrow> db \<Rightarrow> db" where
  "after m s = (case m of Inl e \<Rightarrow> s | Inr (v, s') \<Rightarrow> s')"

end
