(* ===== verification/Nodes.thy ===== *)
theory Nodes
  imports Demo
begin

text \<open>
  The identity and presence of nodes: \<open>apps/control-api/src/nodes.ts\<close>, with the signature check of
  \<open>security.ts\<close>. A node registers its key once with an invite; every later request is signed over
  its method, path, time, nonce and body, and a nonce is spent with the request. An \<open>epoch\<close> numbers
  the boots of a node, so that a report of an earlier boot is refused.

  The Ed25519 verification is the parameter \<open>ed\<close> (raw key, message, raw signature); \<open>date_now\<close> is
  \<open>Date.now()\<close> of the process.
\<close>

section \<open>Signatures\<close>

definition is_b64url :: "char \<Rightarrow> bool" where
  "is_b64url c \<longleftrightarrow> is_upper c \<or> is_lower c \<or> is_digit c \<or> c = CHR ''_'' \<or> c = CHR ''-''"

definition nonce_ok :: "string \<Rightarrow> bool" where
  "nonce_ok s \<longleftrightarrow> 20 \<le> length s \<and> length s \<le> 100 \<and> list_all is_b64url s"

definition signature_ok :: "string \<Rightarrow> bool" where
  "signature_ok s \<longleftrightarrow> length s = 86 \<and> list_all is_b64url s"

definition public_key_ok :: "string \<Rightarrow> bool" where
  "public_key_ok s \<longleftrightarrow> length s = 43 \<and> list_all is_b64url s"

type_synonym verifier = "string \<Rightarrow> string \<Rightarrow> string \<Rightarrow> bool"

definition verifyNodeSignature :: "verifier \<Rightarrow> string \<Rightarrow> string \<Rightarrow> string \<Rightarrow> bool" where
  "verifyNodeSignature ed public_key message signature \<longleftrightarrow>
     length (b64decode public_key) = 32 \<and> ed (b64decode public_key) message (b64decode signature)"

text \<open>The fields of a signed message, a line each.\<close>

fun nl_join :: "string list \<Rightarrow> string" where
  "nl_join [] = []"
| "nl_join [x] = x"
| "nl_join (x # xs) = x @ [CHR 0x0A] @ nl_join xs"

text \<open>
  A request with its signature headers: a header is \<open>None\<close> when it is missing or, for the
  timestamp, when \<open>Number\<close> does not read an integer from it.
\<close>

record node_request =
  rq_method :: string
  rq_url :: string
  rq_body :: string
  rq_timestamp :: "int option"
  rq_nonce :: "string option"
  rq_signature :: "string option"

definition signed_message :: "(string \<Rightarrow> string) \<Rightarrow> node_request \<Rightarrow> int \<Rightarrow> string \<Rightarrow> string" where
  "signed_message sha req timestamp nonce = nl_join
     [''network-ai/node/v1'', rq_method req, rq_url req, show_int timestamp, nonce, sha (rq_body req)]"

definition nonce_key :: "node_nonce \<Rightarrow> uuid \<times> string" where
  "nonce_key v = (nn_node_id v, nn_nonce v)"

text \<open>\<open>Math.abs(Date.now() / 1000 - timestamp) <= 30\<close>, in milliseconds.\<close>

definition in_window :: "ms \<Rightarrow> int \<Rightarrow> bool" where
  "in_window date_now timestamp \<longleftrightarrow> \<bar>date_now - 1000 * timestamp\<bar> \<le> 30000"

definition signed :: "(string \<Rightarrow> string) \<Rightarrow> verifier \<Rightarrow> ms \<Rightarrow> ms \<Rightarrow> node_request \<Rightarrow> uuid \<Rightarrow> node handler" where
  "signed sha ed date_now tx_now req i s =
     (case (rq_timestamp req, rq_nonce req, rq_signature req) of
        (Some timestamp, Some nonce, Some signature) \<Rightarrow>
          zod (nonce_ok nonce \<and> signature_ok signature) (
          need (in_window date_now timestamp) 401 ''signature_expired'' (
          need_row (find (\<lambda>n. n_id n = i \<and> n_desired_state n \<noteq> Want_REVOKED) (nodes s)) 401 ''node_signature'' (\<lambda>row.
          need (case n_public_key row of
                  None \<Rightarrow> False
                | Some k \<Rightarrow> verifyNodeSignature ed k (signed_message sha req timestamp nonce) signature)
            401 ''node_signature'' (
          need ((i, nonce) \<notin> nonce_key ` set (node_nonces s)) 409 ''nonce_replayed'' (
          Inr (row, s\<lparr>node_nonces := node_nonces s @
            [\<lparr>nn_node_id = i, nn_nonce = nonce, nn_seen_at = tx_now\<rparr>]\<rparr>))))))
      | _ \<Rightarrow> Inl ZodError)"

section \<open>Registration\<close>

record registration =
  rg_invite :: string
  rg_name :: string
  rg_public_key :: string
  rg_nonce :: string
  rg_timestamp :: int
  rg_signature :: string
  rg_boot_id :: uuid

definition registerNodeSchema :: "registration \<Rightarrow> bool" where
  "registerNodeSchema data \<longleftrightarrow>
     32 \<le> length (rg_invite data) \<and> length (rg_invite data) \<le> 256 \<and> label_ok (rg_name data) \<and>
     public_key_ok (rg_public_key data) \<and> nonce_ok (rg_nonce data) \<and> signature_ok (rg_signature data)"

definition register_message :: "(string \<Rightarrow> string) \<Rightarrow> registration \<Rightarrow> string" where
  "register_message sha data = nl_join
     [''network-ai/register/v1'', sha (rg_invite data), rg_nonce data, rg_public_key data,
      rg_boot_id data, show_int (rg_timestamp data)]"

text \<open>An \<open>UPDATE\<close> of one node, with the unique index on \<open>public_key\<close> and the check of the epoch.\<close>

definition update_node :: "uuid \<Rightarrow> (node \<Rightarrow> node) \<Rightarrow> db \<Rightarrow> db result" where
  "update_node i f s =
     (case lookup n_id i (nodes s) of
        None \<Rightarrow> Inr s
      | Some old \<Rightarrow>
          if n_epoch (f old) < 0 then Inl (DbError ''23514'')
          else if n_public_key (f old) \<noteq> None \<and>
              (\<exists>n \<in> set (nodes s). n_id n \<noteq> i \<and> n_public_key n = n_public_key (f old))
            then Inl (DbError ''23505'')
          else Inr (s\<lparr>nodes := update_row n_id i f (nodes s)\<rparr>))"

definition open_invite :: "ms \<Rightarrow> string \<Rightarrow> db \<Rightarrow> node_invite option" where
  "open_invite tx_now token_hash s = find (\<lambda>v. ni_token_hash v = token_hash \<and>
     ni_consumed_at v = None \<and> ni_expires_at v > tx_now) (node_invites s)"

definition registered :: "string \<Rightarrow> uuid \<Rightarrow> ms \<Rightarrow> node \<Rightarrow> node" where
  "registered public_key boot tx_now n = n\<lparr>n_public_key := Some public_key, n_boot_id := Some boot,
     n_epoch := n_epoch n + 1, n_state := N_VALIDATING, n_last_seen := Some tx_now\<rparr>"

definition consume_invite :: "string \<Rightarrow> ms \<Rightarrow> db \<Rightarrow> db" where
  "consume_invite token_hash tx_now s = s\<lparr>node_invites :=
     update_row ni_token_hash token_hash (\<lambda>v. v\<lparr>ni_consumed_at := Some tx_now\<rparr>) (node_invites s)\<rparr>"

definition register_node ::
  "(string \<Rightarrow> string) \<Rightarrow> verifier \<Rightarrow> ms \<Rightarrow> ms \<Rightarrow> registration \<Rightarrow> (uuid \<times> int) handler" where
  "register_node sha ed date_now tx_now data s =
     zod (registerNodeSchema data) (
     need (in_window date_now (rg_timestamp data)) 401 ''signature_expired'' (
     need (verifyNodeSignature ed (rg_public_key data) (register_message sha data) (rg_signature data))
       401 ''node_signature'' (
     need_row (open_invite tx_now (sha (rg_invite data)) s) 401 ''invite_invalid'' (\<lambda>invite.
     need_row (find (\<lambda>n. n_id n = ni_node_id invite \<and> n_public_key n = None \<and>
         n_desired_state n \<noteq> Want_REVOKED) (nodes s)) 409 ''node_registered'' (\<lambda>n.
     and_then (update_node (n_id n) (registered (rg_public_key data) (rg_boot_id data) tx_now) s) (\<lambda>s1.
     Inr ((n_id n, n_epoch n + 1), consume_invite (sha (rg_invite data)) tx_now s1)))))))"

section \<open>Resume and heartbeat\<close>

text \<open>A boot that the node is not known by starts the next epoch.\<close>

definition resumed :: "uuid \<Rightarrow> ms \<Rightarrow> node \<Rightarrow> node" where
  "resumed boot tx_now n = n\<lparr>
     n_epoch := (if n_boot_id n = Some boot then n_epoch n else n_epoch n + 1),
     n_boot_id := Some boot, n_state := N_VALIDATING, n_last_seen := Some tx_now\<rparr>"

definition resume :: "ms \<Rightarrow> uuid \<Rightarrow> uuid \<Rightarrow> (uuid \<times> int) handler" where
  "resume tx_now i boot s =
     need_row (find (\<lambda>n. n_id n = i \<and> n_desired_state n \<noteq> Want_REVOKED) (nodes s)) 401 ''node_revoked'' (\<lambda>n.
     and_then (update_node i (resumed boot tx_now) s) (\<lambda>s1.
     Inr ((i, n_epoch (resumed boot tx_now n)), s1)))"

record heartbeat =
  hb_boot_id :: uuid
  hb_epoch :: int
  hb_state :: node_state
  hb_loaded :: "string list"
  hb_running_sessions :: "uuid list"
  hb_os :: string
  hb_gpu_name :: "string option"
  hb_memory_total_mib :: "int option"
  hb_memory_free_mib :: "int option"
  hb_physical_domain_hint :: string
  hb_generation_profile :: "generation_profile option"

definition heartbeatSchema :: "heartbeat \<Rightarrow> bool" where
  "heartbeatSchema d \<longleftrightarrow>
     0 < hb_epoch d \<and> hb_state d \<in> {N_VALIDATING, N_READY, N_PAUSED, N_DRAINING, N_FAULTED} \<and>
     length (hb_loaded d) \<le> 32 \<and> list_all (\<lambda>t. length t \<le> 200) (hb_loaded d) \<and>
     length (hb_running_sessions d) \<le> 32 \<and> length (hb_os d) \<le> 100 \<and>
     (case hb_gpu_name d of None \<Rightarrow> True | Some t \<Rightarrow> length t \<le> 200) \<and>
     (case hb_memory_total_mib d of None \<Rightarrow> True | Some k \<Rightarrow> 0 \<le> k) \<and>
     (case hb_memory_free_mib d of None \<Rightarrow> True | Some k \<Rightarrow> 0 \<le> k) \<and>
     length (hb_physical_domain_hint d) \<le> 100 \<and>
     (case hb_generation_profile d of None \<Rightarrow> True | Some g \<Rightarrow> generationProfileSchema g)"

text \<open>The state that the \<open>CASE\<close> of the update computes.\<close>

definition reported_state :: "db \<Rightarrow> heartbeat \<Rightarrow> node \<Rightarrow> node_state" where
  "reported_state s d n =
     (if n_desired_state n = Want_PAUSED then N_PAUSED
      else if hb_state d = N_READY \<and>
          (case lookup m_id (n_model_id n) (models s) of
             None \<Rightarrow> False
           | Some m \<Rightarrow> mm_backend_model (m_manifest m) \<in> set (hb_loaded d) \<and>
               (n_node_kind n = RPC_STAGE \<or> hb_generation_profile d = mm_generation_profile (m_manifest m)))
        then N_READY
      else if hb_state d = N_READY then N_VALIDATING
      else hb_state d)"

definition reported :: "db \<Rightarrow> heartbeat \<Rightarrow> ms \<Rightarrow> node \<Rightarrow> node" where
  "reported s d tx_now n = n\<lparr>n_last_seen := Some tx_now, n_generation_profile := hb_generation_profile d,
     n_loaded_backend_models := hb_loaded d, n_state := reported_state s d n\<rparr>"

text \<open>The sessions of the report that the node has to stop.\<close>

definition stops :: "session_state \<Rightarrow> bool" where
  "stops st \<longleftrightarrow> (case st of S_CANCELLING \<Rightarrow> True | S_TERMINAL _ \<Rightarrow> True | _ \<Rightarrow> False)"

definition cancelled_sessions :: "uuid \<Rightarrow> heartbeat \<Rightarrow> db \<Rightarrow> uuid list" where
  "cancelled_sessions i d s = map s_id (filter (\<lambda>r. s_id r \<in> set (hb_running_sessions d) \<and>
     (s_node_id r = Some i \<or> (\<exists>p \<in> set (participants s). sp_session_id p = s_id r \<and> sp_node_id p = i)) \<and>
     stops (s_state r)) (sessions s))"

record heartbeat_reply =
  hr_id :: uuid
  hr_desired_state :: desired_state
  hr_state :: node_state
  hr_epoch :: int
  hr_cancel_sessions :: "uuid list"

definition beat :: "ms \<Rightarrow> uuid \<Rightarrow> heartbeat \<Rightarrow> heartbeat_reply handler" where
  "beat tx_now i d s =
     zod (heartbeatSchema d) (
     need_row (find (\<lambda>n. n_id n = i \<and> n_epoch n = hb_epoch d \<and> n_boot_id n = Some (hb_boot_id d) \<and>
         n_desired_state n \<noteq> Want_REVOKED) (nodes s)) 409 ''epoch_fenced'' (\<lambda>n.
     and_then (update_node i (reported s d tx_now) s) (\<lambda>s1.
     Inr (\<lparr>hr_id = i, hr_desired_state = n_desired_state n, hr_state = reported_state s d n,
       hr_epoch = n_epoch n, hr_cancel_sessions = cancelled_sessions i d s1\<rparr>, s1))))"

section \<open>Signed calls\<close>

text \<open>
  The handlers of the controller that a node calls: \<open>signed\<close> commits its nonce before the operation
  starts, so that a refused operation has spent it too.
\<close>

definition signed_call ::
  "(string \<Rightarrow> string) \<Rightarrow> verifier \<Rightarrow> ms \<Rightarrow> ms \<Rightarrow> node_request \<Rightarrow> uuid \<Rightarrow> 'a handler \<Rightarrow> db \<Rightarrow> 'a result \<times> db" where
  "signed_call sha ed date_now tx_now req i op s =
     (case commit (signed sha ed date_now tx_now req i) s of
        (Inl e, s1) \<Rightarrow> (Inl e, s1)
      | (Inr _, s1) \<Rightarrow> commit op s1)"

end
