(* ===== verification/Auth.thy ===== *)
theory Auth
  imports Nodes
begin

text \<open>
  Users, their sessions in the browser and their API keys: \<open>apps/control-api/src/auth.ts\<close> with the
  passwords of \<open>security.ts\<close>, and the keys of \<open>market.ts\<close>. The derivation \<open>scrypt(password, salt, 64)\<close>
  is the parameter \<open>kdf\<close>, SHA-256 the parameter \<open>sha\<close>; the bytes that \<open>randomBytes\<close> draws are
  arguments.
\<close>

section \<open>Passwords and secrets\<close>

definition secret :: "string \<Rightarrow> string" where "secret random = b64url random"

text \<open>\<open>s.split(c)\<close>.\<close>

fun split_on :: "char \<Rightarrow> string \<Rightarrow> string list" where
  "split_on c [] = [[]]"
| "split_on c (x # xs) =
     (if x = c then [] # split_on c xs
      else case split_on c xs of [] \<Rightarrow> [[x]] | p # ps \<Rightarrow> (x # p) # ps)"

type_synonym kdf = "string \<Rightarrow> string \<Rightarrow> string"

definition passwordHash :: "kdf \<Rightarrow> string \<Rightarrow> string \<Rightarrow> string" where
  "passwordHash kdf random password =
     (let salt = b64url random in ''scrypt:'' @ salt @ '':'' @ b64url (kdf password salt))"

definition passwordMatches :: "kdf \<Rightarrow> string \<Rightarrow> string \<Rightarrow> bool" where
  "passwordMatches kdf password stored =
     (case split_on (CHR '':'') stored of
        kind # salt # expected # rest \<Rightarrow>
          kind = ''scrypt'' \<and> salt \<noteq> [] \<and> expected \<noteq> [] \<and> b64decode expected = kdf password salt
      | _ \<Rightarrow> False)"

section \<open>Requests\<close>

text \<open>
  What \<open>auth.ts\<close> reads of a request: the method, the headers (\<open>None\<close> when missing), and the value
  of the session cookie that the server's cookie plugin parsed.
\<close>

record http_request =
  hq_method :: string
  hq_authorization :: "string option"
  hq_cookie :: "string option"
  hq_origin :: "string option"
  hq_consumer_authorization :: "string option"
  hq_consumer_cookie :: "string option"
  hq_consumer_origin :: "string option"
  hq_session_cookie :: "string option"

definition cookie_name :: string where "cookie_name = ''nai_session''"

definition cookie_token :: "string option \<Rightarrow> string option" where
  "cookie_token cookie =
     (case cookie of
        None \<Rightarrow> None
      | Some text \<Rightarrow>
          (case find (prefix (cookie_name @ ''='')) (map trim (split_on (CHR '';'') text)) of
             None \<Rightarrow> None
           | Some item \<Rightarrow> (case split_on (CHR ''='') item of _ # value # _ \<Rightarrow> Some value | _ \<Rightarrow> None)))"

definition key_user :: "string \<Rightarrow> db \<Rightarrow> user option" where
  "key_user token_hash s =
     (case find (\<lambda>k. ak_token_hash k = token_hash \<and> ak_revoked_at k = None) (api_keys s) of
        None \<Rightarrow> None
      | Some k \<Rightarrow>
          (case lookup u_id (ak_user_id k) (users s) of
             None \<Rightarrow> None | Some u \<Rightarrow> if u_disabled u then None else Some u))"

definition session_user :: "ms \<Rightarrow> string \<Rightarrow> db \<Rightarrow> user option" where
  "session_user tx_now token_hash s =
     (case find (\<lambda>a. as_token_hash a = token_hash \<and> as_expires_at a > tx_now) (auth_sessions s) of
        None \<Rightarrow> None
      | Some a \<Rightarrow>
          (case lookup u_id (as_user_id a) (users s) of
             None \<Rightarrow> None | Some u \<Rightarrow> if u_disabled u then None else Some u))"

text \<open>The branch of a browser: a token from the cookie and, for a change, the origin of the page.\<close>

definition session_auth ::
  "(string \<Rightarrow> string) \<Rightarrow> string \<Rightarrow> ms \<Rightarrow> string \<Rightarrow> string option \<Rightarrow> string option \<Rightarrow> db \<Rightarrow> user result" where
  "session_auth sha web_origin tx_now mth token origin s =
     (case token of
        None \<Rightarrow> Inl (AppError 401 ''authentication_required'')
      | Some tok \<Rightarrow>
          need (tok \<noteq> [] \<and> length tok \<le> 100) 401 ''authentication_required'' (
          need (mth = ''GET'' \<or> mth = ''HEAD'' \<or> origin = Some web_origin) 403 ''origin_denied'' (
          need_row (session_user tx_now (sha tok) s) 401 ''authentication_required'' Inr)))"

text \<open>The headers of the caller, or those the gateway forwards; the token of a bearer header.\<close>

definition bearer_token :: "bool \<Rightarrow> http_request \<Rightarrow> string option" where
  "bearer_token forwarded req =
     (case (if forwarded then hq_consumer_authorization req else hq_authorization req) of
        None \<Rightarrow> None
      | Some b \<Rightarrow> if prefix ''Bearer nai_'' b then Some (drop 7 b) else None)"

definition cookie_of :: "bool \<Rightarrow> http_request \<Rightarrow> string option" where
  "cookie_of forwarded req = (if forwarded then hq_consumer_cookie req else hq_cookie req)"

definition origin_of :: "bool \<Rightarrow> http_request \<Rightarrow> string option" where
  "origin_of forwarded req = (if forwarded then hq_consumer_origin req else hq_origin req)"

text \<open>The handlers read the id and the role of the user row that \<open>authenticate\<close> returns.\<close>

definition authenticate ::
  "(string \<Rightarrow> string) \<Rightarrow> string \<Rightarrow> ms \<Rightarrow> http_request \<Rightarrow> bool \<Rightarrow> db \<Rightarrow> user result" where
  "authenticate sha web_origin tx_now req forwarded s =
     (case bearer_token forwarded req of
        Some token \<Rightarrow> need_row (key_user (sha token) s) 401 ''authentication_required'' Inr
      | None \<Rightarrow> session_auth sha web_origin tx_now (hq_method req) (cookie_token (cookie_of forwarded req))
          (origin_of forwarded req) s)"

definition admin :: "user \<Rightarrow> 'a result \<Rightarrow> 'a result" where
  "admin user rest = need (u_role user = Admin) 403 ''admin_required'' rest"

lemma admin_Inr [res_Inr]: "admin user k = Inr r \<longleftrightarrow> u_role user = Admin \<and> k = Inr r"
  by (simp add: admin_def res_Inr)

section \<open>Login and logout\<close>

definition unknown_password :: string where
  "unknown_password = ''scrypt:unknown-user:'' @ replicate 86 (CHR ''A'')"

definition insert_auth_session :: "auth_session \<Rightarrow> db \<Rightarrow> db result" where
  "insert_auth_session a s =
     and_then (insert_row as_token_hash a (auth_sessions s)) (\<lambda>t. Inr (s\<lparr>auth_sessions := t\<rparr>))"

definition login ::
  "(string \<Rightarrow> string) \<Rightarrow> kdf \<Rightarrow> string \<Rightarrow> string \<Rightarrow> ms \<Rightarrow> string \<Rightarrow> string \<Rightarrow> string option \<Rightarrow> (string \<times> user) handler"
where
  "login sha kdf web_origin random tx_now name password origin s =
     need (origin = Some web_origin) 403 ''origin_denied'' (
     zod (1 \<le> length name \<and> length name \<le> 100 \<and> 1 \<le> length password \<and> length password \<le> 256) (
     let row = lookup u_login name (users s);
         stored = (case row of None \<Rightarrow> unknown_password | Some u \<Rightarrow> u_password_hash u);
         valid = passwordMatches kdf password stored in
     need_row row 401 ''invalid_credentials'' (\<lambda>u.
     need (\<not> u_disabled u \<and> valid) 401 ''invalid_credentials'' (
     and_then (insert_auth_session \<lparr>as_token_hash = sha (secret random), as_user_id = u_id u,
         as_expires_at = tx_now + 43200000\<rparr> s) (\<lambda>s'.
     Inr ((secret random, u), s'))))))"

definition logout :: "(string \<Rightarrow> string) \<Rightarrow> string \<Rightarrow> ms \<Rightarrow> http_request \<Rightarrow> unit handler" where
  "logout sha web_origin tx_now req s =
     and_then (authenticate sha web_origin tx_now req False s) (\<lambda>_.
     Inr ((), case hq_session_cookie req of
        None \<Rightarrow> s
      | Some token \<Rightarrow> if token = [] then s
          else s\<lparr>auth_sessions := filter (\<lambda>a. as_token_hash a \<noteq> sha token) (auth_sessions s)\<rparr>))"

section \<open>Users\<close>

record new_user =
  nu_login :: string
  nu_name :: string
  nu_password :: string
  nu_role :: role

definition createUserSchema :: "new_user \<Rightarrow> bool" where
  "createUserSchema d \<longleftrightarrow>
     3 \<le> length (nu_login d) \<and> length (nu_login d) \<le> 100 \<and>
     list_all (\<lambda>c. is_upper c \<or> is_lower c \<or> is_digit c \<or> c \<in> set ''_.@-'') (nu_login d) \<and>
     label_ok (nu_name d) \<and> 12 \<le> length (nu_password d) \<and> length (nu_password d) \<le> 256"

definition insert_user :: "user \<Rightarrow> db \<Rightarrow> db result" where
  "insert_user u s =
     (if \<exists>v \<in> set (users s). u_login v = u_login u then Inl (DbError ''23505'')
      else and_then (insert_row u_id u (users s)) (\<lambda>t. Inr (s\<lparr>users := t\<rparr>)))"

definition createUser :: "kdf \<Rightarrow> string \<Rightarrow> uuid \<Rightarrow> user \<Rightarrow> new_user \<Rightarrow> user handler" where
  "createUser kdf random i actor d s =
     admin actor (
     zod (createUserSchema d) (
     let u = \<lparr>u_id = i, u_login = nu_login d, u_name = trim (nu_name d),
               u_password_hash = passwordHash kdf random (nu_password d), u_role = nu_role d,
               u_disabled = False, u_last_admitted_at = None\<rparr> in
     and_then (insert_user u s) (\<lambda>s1.
     Inr (u, s1\<lparr>ledger := createAccounts i (ledger s1),
       events := events s1 @ [actor_event (u_id actor) ''user_created'' [(''user_id'', JStr i)]]\<rparr>))))"

section \<open>API keys\<close>

text \<open>The columns of \<open>keys\<close>: id, prefix, label and time of revocation, newest first.\<close>

definition user_keys :: "user \<Rightarrow> db \<Rightarrow> (uuid \<times> string \<times> string \<times> ms option) list" where
  "user_keys user s = map (\<lambda>k. (ak_id k, ak_prefix k, ak_label k, ak_revoked_at k))
     (rev (filter (\<lambda>k. ak_user_id k = u_id user) (api_keys s)))"

definition insert_api_key :: "api_key \<Rightarrow> db \<Rightarrow> db result" where
  "insert_api_key k s =
     (if \<exists>q \<in> set (api_keys s). ak_token_hash q = ak_token_hash k then Inl (DbError ''23505'')
      else and_then (insert_row ak_id k (api_keys s)) (\<lambda>t. Inr (s\<lparr>api_keys := t\<rparr>)))"

definition newKey :: "(string \<Rightarrow> string) \<Rightarrow> string \<Rightarrow> uuid \<Rightarrow> user \<Rightarrow> string \<Rightarrow> (uuid \<times> string) handler" where
  "newKey sha random i user text s =
     zod (label_ok text) (
     let token = ''nai_'' @ secret random in
     need (length (filter (\<lambda>k. ak_user_id k = u_id user \<and> ak_revoked_at k = None) (api_keys s)) < 20)
       409 ''key_limit'' (
     and_then (insert_api_key \<lparr>ak_id = i, ak_user_id = u_id user, ak_token_hash = sha token,
         ak_prefix = take 12 token, ak_label = trim text, ak_revoked_at = None\<rparr> s) (\<lambda>s'.
     Inr ((i, token), s'))))"

definition revoked :: "ms \<Rightarrow> api_key \<Rightarrow> api_key" where
  "revoked tx_now k = k\<lparr>ak_revoked_at := (case ak_revoked_at k of None \<Rightarrow> Some tx_now | Some t \<Rightarrow> Some t)\<rparr>"

definition revokeKey :: "ms \<Rightarrow> user \<Rightarrow> uuid \<Rightarrow> unit handler" where
  "revokeKey tx_now user i s =
     need (\<exists>k \<in> set (api_keys s). ak_id k = i \<and> ak_user_id k = u_id user) 404 ''key_missing'' (
     Inr ((), s\<lparr>api_keys := map (\<lambda>k. if ak_id k = i \<and> ak_user_id k = u_id user then revoked tx_now k else k)
       (api_keys s)\<rparr>))"

end
