(* ===== verification/Auth_Life.thy ===== *)
theory Auth_Life
  imports Auth
begin

text \<open>
  Who may act. A run is labelled with what it did to the tokens; a request is authenticated exactly
  while the token it carries is live in that history.
\<close>

section \<open>Passwords and cookies\<close>

lemma split_on_absent: "c \<notin> set x \<Longrightarrow> split_on c x = [x]"
  by (induction x) auto

lemma split_on_sep: "c \<notin> set x \<Longrightarrow> split_on c (x @ c # y) = x # split_on c y"
  by (induction x) auto

definition token_char :: "char \<Rightarrow> bool" where
  "token_char c \<longleftrightarrow> c \<noteq> CHR '':'' \<and> c \<noteq> CHR '';'' \<and> c \<noteq> CHR ''='' \<and> \<not> is_space c"

lemma token_char_b64:
  assumes "d < 64"
  shows "token_char (b64_char d)"
proof -
  have "of_char (b64_char d) = (if d < 26 then 65 + d else if d < 52 then 97 + (d - 26)
      else if d < 62 then 48 + (d - 52) else if d = 62 then 45 else (95 :: nat))"
    using assms by (simp add: b64_char_def)
  then have n: "(of_char (b64_char d) :: nat) \<notin> {9, 10, 11, 12, 13, 32, 58, 59, 61, 160}"
    using assms by auto
  moreover have "of_char (CHR '':'') = (58 :: nat)" "of_char (CHR '';'') = (59 :: nat)"
    "of_char (CHR ''='') = (61 :: nat)" by simp_all
  ultimately show ?thesis unfolding token_char_def is_space_def by (metis insert_iff)
qed

lemma token_char_b64url: "c \<in> set (b64url s) \<Longrightarrow> token_char c"
proof -
  have "list_all token_char (b64url s)"
    by (induction s rule: b64url.induct) (simp_all add: token_char_b64)
  then show "c \<in> set (b64url s) \<Longrightarrow> token_char c" by (simp add: list_all_iff)
qed

lemma b64url_Nil: "b64url s = [] \<longleftrightarrow> s = []"
  by (cases s rule: b64url.cases) auto

lemma passwordMatches_hash:
  assumes "random \<noteq> []" and "kdf password' (b64url random) \<noteq> []"
  shows "passwordMatches kdf password (passwordHash kdf random password') \<longleftrightarrow>
    kdf password (b64url random) = kdf password' (b64url random)"
proof -
  have c: "CHR '':'' \<notin> set (b64url x)" for x using token_char_b64url [of "CHR '':''" x] by (auto simp: token_char_def)
  have "split_on (CHR '':'') (passwordHash kdf random password') =
      [''scrypt'', b64url random, b64url (kdf password' (b64url random))]"
    using split_on_sep [of "CHR '':''" "''scrypt''"] split_on_sep [OF c] split_on_absent [OF c]
    by (simp add: passwordHash_def Let_def)
  with assms show ?thesis by (auto simp: passwordMatches_def b64url_Nil b64_roundtrip)
qed

lemma trim_id: "\<forall>c \<in> set x. \<not> is_space c \<Longrightarrow> trim x = x"
proof -
  assume h: "\<forall>c \<in> set x. \<not> is_space c"
  have "dropWhile is_space y = y" if "set y = set x" for y
    using h that by (cases y) auto
  then show "trim x = x" by (simp add: trim_def)
qed

lemma cookie_token_secret:
  assumes "random \<noteq> []"
  shows "cookie_token (Some (cookie_name @ ''='' @ secret random)) = Some (secret random)"
proof -
  have c: "\<forall>c \<in> set (secret random). c \<noteq> CHR '';'' \<and> c \<noteq> CHR ''='' \<and> \<not> is_space c"
    using token_char_b64url [of _ random] by (auto simp: secret_def token_char_def)
  have "split_on (CHR '';'') (cookie_name @ ''='' @ secret random) = [cookie_name @ ''='' @ secret random]"
    by (rule split_on_absent) (use c in \<open>auto simp: cookie_name_def\<close>)
  moreover have "trim (cookie_name @ ''='' @ secret random) = cookie_name @ ''='' @ secret random"
    by (rule trim_id) (use c in \<open>auto simp: cookie_name_def is_space_def\<close>)
  moreover have "split_on (CHR ''='') (cookie_name @ ''='' @ secret random) = [cookie_name, secret random]"
    using split_on_sep [of "CHR ''=''" cookie_name "secret random"] split_on_absent [of "CHR ''=''" "secret random"] c
    by (auto simp: cookie_name_def)
  ultimately show ?thesis by (simp add: cookie_token_def prefix_def)
qed

section \<open>Runs\<close>

text \<open>
  What a step did to the tokens: a login or a key issued to a user, a logout, a revocation, or the
  removal of the sessions that expired before a time.
\<close>

datatype auth_label =
    Login uuid string ms     \<comment> \<open>user, hash of the token, expiry\<close>
  | Logout string
  | Key uuid uuid string     \<comment> \<open>key, user, hash of the token\<close>
  | Revoke uuid
  | Expire ms
  | Quiet

text \<open>A step of another component: it may change when a user was last admitted, nothing else of a user.\<close>

definition same_user :: "user \<Rightarrow> user \<Rightarrow> bool" where
  "same_user u v \<longleftrightarrow> v\<lparr>u_last_admitted_at := None\<rparr> = u\<lparr>u_last_admitted_at := None\<rparr>"

definition beside_auth :: "db \<Rightarrow> db \<Rightarrow> bool" where
  "beside_auth s s' \<longleftrightarrow> auth_sessions s' = auth_sessions s \<and> api_keys s' = api_keys s \<and>
     list_all2 same_user (users s) (users s')"

definition keep_unexpired :: "ms \<Rightarrow> db \<Rightarrow> db" where
  "keep_unexpired t s = s\<lparr>auth_sessions := filter (\<lambda>a. \<not> as_expires_at a < t) (auth_sessions s)\<rparr>"

inductive auth_step :: "(string \<Rightarrow> string) \<Rightarrow> kdf \<Rightarrow> string \<Rightarrow> db \<Rightarrow> auth_label \<Rightarrow> db \<Rightarrow> bool"
  for sha kdf web_origin where
  created: "createUser kdf random i actor d s = Inr (u, s') \<Longrightarrow> auth_step sha kdf web_origin s Quiet s'"
| logged_in: "login sha kdf web_origin random t name password origin s = Inr ((token, u), s') \<Longrightarrow>
    auth_step sha kdf web_origin s (Login (u_id u) (sha token) (t + 43200000)) s'"
| logged_out: "logout sha web_origin t req s = Inr (x, s') \<Longrightarrow> hq_session_cookie req = Some token \<Longrightarrow>
    token \<noteq> [] \<Longrightarrow> auth_step sha kdf web_origin s (Logout (sha token)) s'"
| keyed: "newKey sha random i user text s = Inr ((i', token), s') \<Longrightarrow>
    auth_step sha kdf web_origin s (Key i (u_id user) (sha token)) s'"
| revoked: "revokeKey t user i s = Inr (x, s') \<Longrightarrow> auth_step sha kdf web_origin s (Revoke i) s'"
| expired: "auth_step sha kdf web_origin s (Expire t) (keep_unexpired t s)"
| other: "beside_auth s s' \<Longrightarrow> auth_step sha kdf web_origin s Quiet s'"

inductive_cases auth_stepE: "auth_step sha kdf web_origin s l s'"

inductive auth_run :: "(string \<Rightarrow> string) \<Rightarrow> kdf \<Rightarrow> string \<Rightarrow> db \<Rightarrow> auth_label list \<Rightarrow> db \<Rightarrow> bool"
  for sha kdf web_origin where
  start: "auth_run sha kdf web_origin s [] s"
| onward: "auth_run sha kdf web_origin s ls s1 \<Longrightarrow> auth_step sha kdf web_origin s1 l s2 \<Longrightarrow>
    auth_run sha kdf web_origin s (ls @ [l]) s2"

text \<open>The tokens that are live after a history.\<close>

definition login_live :: "auth_label list \<Rightarrow> uuid \<Rightarrow> string \<Rightarrow> ms \<Rightarrow> bool" where
  "login_live ls u h expiry \<longleftrightarrow>
     (\<exists>before rest. ls = before @ Login u h expiry # rest \<and> Logout h \<notin> set rest)"

definition key_live :: "auth_label list \<Rightarrow> uuid \<Rightarrow> uuid \<Rightarrow> string \<Rightarrow> bool" where
  "key_live ls i u h \<longleftrightarrow> (\<exists>before rest. ls = before @ Key i u h # rest \<and> Revoke i \<notin> set rest)"

lemma login_live_more:
  "login_live ls u h x \<Longrightarrow> l \<noteq> Logout h \<Longrightarrow> login_live (ls @ [l]) u h x"
  "login_live (ls @ [Login u h x]) u h x"
  by (fastforce simp: login_live_def)+

lemma key_live_more:
  "key_live ls i u h \<Longrightarrow> l \<noteq> Revoke i \<Longrightarrow> key_live (ls @ [l]) i u h"
  "key_live (ls @ [Key i u h]) i u h"
  by (fastforce simp: key_live_def)+

definition tokens_ok :: "auth_label list \<Rightarrow> db \<Rightarrow> bool" where
  "tokens_ok ls s \<longleftrightarrow> keyed as_token_hash (auth_sessions s) \<and> keyed ak_id (api_keys s) \<and>
     (\<forall>a \<in> set (auth_sessions s). login_live ls (as_user_id a) (as_token_hash a) (as_expires_at a)) \<and>
     (\<forall>k \<in> set (api_keys s). ak_revoked_at k = None \<longrightarrow> key_live ls (ak_id k) (ak_user_id k) (ak_token_hash k))"

lemma tokens_okI:
  assumes "tokens_ok ls s" and "\<And>h. l \<noteq> Logout h" and "\<And>i. l \<noteq> Revoke i"
    and "auth_sessions s' = filter P (auth_sessions s)" and "api_keys s' = api_keys s"
  shows "tokens_ok (ls @ [l]) s'"
proof -
  have "key_live (ls @ [l]) (ak_id k) (ak_user_id k) (ak_token_hash k)"
    if "k \<in> set (api_keys s)" "ak_revoked_at k = None" for k
    using assms(1,3) that by (intro key_live_more) (auto simp: tokens_ok_def)
  moreover have "login_live (ls @ [l]) (as_user_id a) (as_token_hash a) (as_expires_at a)"
    if "a \<in> set (auth_sessions s)" for a
    using assms(1,2) that by (intro login_live_more) (auto simp: tokens_ok_def)
  ultimately show ?thesis using assms(1,4,5) by (auto simp: tokens_ok_def keyed_def distinct_map_filter)
qed

lemma login_auth_sessions:
  assumes "login sha kdf web_origin random t name password origin s = Inr ((token, u), s')"
  shows "token = secret random" "sha token \<notin> as_token_hash ` set (auth_sessions s)"
    "s' = s\<lparr>auth_sessions := auth_sessions s @ [\<lparr>as_token_hash = sha token, as_user_id = u_id u,
       as_expires_at = t + 43200000\<rparr>]\<rparr>"
    "lookup u_login name (users s) = Some u" "\<not> u_disabled u"
    "passwordMatches kdf password (u_password_hash u)" "origin = Some web_origin"
  using assms by (auto simp: login_def res_Inr Let_def insert_auth_session_def)

lemma logout_auth_sessions:
  assumes "logout sha web_origin t req s = Inr (x, s')" and "hq_session_cookie req = Some token" "token \<noteq> []"
  shows "s' = s\<lparr>auth_sessions := filter (\<lambda>a. as_token_hash a \<noteq> sha token) (auth_sessions s)\<rparr>"
  using assms by (auto simp: logout_def res_Inr)

lemma newKey_keys:
  assumes "newKey sha random i user text s = Inr ((i', token), s')"
  shows "token = ''nai_'' @ secret random" "i' = i"
    "i \<notin> ak_id ` set (api_keys s)"
    "s' = s\<lparr>api_keys := api_keys s @ [\<lparr>ak_id = i, ak_user_id = u_id user, ak_token_hash = sha token,
         ak_prefix = take 12 token, ak_label = trim text, ak_revoked_at = None\<rparr>]\<rparr>"
  using assms by (auto simp: newKey_def res_Inr Let_def insert_api_key_def)

lemma revoked_id [simp]: "ak_id (revoked t k) = ak_id k"
  by (simp add: revoked_def)

lemma revoked_dead: "ak_revoked_at (revoked t k) \<noteq> None"
  by (simp add: revoked_def split: option.splits)

lemma auth_step_tokens_ok:
  assumes "auth_step sha kdf web_origin s l s'" and ok: "tokens_ok ls s"
  shows "tokens_ok (ls @ [l]) s'"
  using assms(1)
proof (cases rule: auth_step.cases)
  case (created random i actor d u)
  then have "auth_sessions s' = filter (\<lambda>_. True) (auth_sessions s)" "api_keys s' = api_keys s"
    by (auto simp: createUser_def admin_def res_Inr Let_def insert_user_def)
  then show ?thesis using created by (intro tokens_okI [OF ok, where P = "\<lambda>_. True"]) auto
next
  case (logged_in random t name password origin token u)
  note L = login_auth_sessions [OF logged_in(2)]
  show ?thesis unfolding L(3) using ok L(2) logged_in(1)
    by (auto simp: tokens_ok_def keyed_insert intro: login_live_more key_live_more)
next
  case (logged_out t req x token)
  show ?thesis unfolding logout_auth_sessions [OF logged_out(2-4)] using ok logged_out(1)
    by (auto simp: tokens_ok_def keyed_def distinct_map_filter intro: login_live_more key_live_more)
next
  case (keyed random i user name i' token)
  note N = newKey_keys [OF keyed(2)]
  show ?thesis unfolding N(4) using ok N(3) keyed(1)
    by (auto simp: tokens_ok_def keyed_insert intro: login_live_more key_live_more)
next
  case (revoked t user i x)
  let ?f = "\<lambda>k. if ak_id k = i \<and> ak_user_id k = u_id user then Auth.revoked t k else k"
  from revoked obtain k where k: "k \<in> set (api_keys s)" "ak_id k = i" "ak_user_id k = u_id user"
    and s': "s' = s\<lparr>api_keys := map ?f (api_keys s)\<rparr>" by (auto simp: revokeKey_def res_Inr)
  have only: "q \<in> set (api_keys s) \<Longrightarrow> ak_id q = i \<Longrightarrow> q = k" for q
    using ok k keyed_unique [of ak_id "api_keys s" q k] by (auto simp: tokens_ok_def)
  then have "map ?f (api_keys s) = update_row ak_id i (Auth.revoked t) (api_keys s)"
    using k(3) by (auto simp: update_row_def)
  then have s': "s' = s\<lparr>api_keys := update_row ak_id i (Auth.revoked t) (api_keys s)\<rparr>" using s' by simp
  have "key_live (ls @ [l]) (ak_id q) (ak_user_id q) (ak_token_hash q)"
    if "q \<in> set (api_keys s)" "ak_id q \<noteq> i" "ak_revoked_at q = None" for q
    using ok that revoked(1) by (intro key_live_more) (auto simp: tokens_ok_def)
  then show ?thesis unfolding s' using ok revoked(1)
    by (auto simp: tokens_ok_def keyed_update in_update_row revoked_dead intro: login_live_more)
next
  case (expired t)
  then show ?thesis using ok by (intro tokens_okI) (auto simp: keep_unexpired_def)
next
  case other
  then have "auth_sessions s' = filter (\<lambda>_. True) (auth_sessions s)" "api_keys s' = api_keys s"
    by (simp_all add: beside_auth_def)
  then show ?thesis using other by (intro tokens_okI [OF ok, where P = "\<lambda>_. True"]) auto
qed

lemma auth_run_tokens_ok:
  assumes "auth_run sha kdf web_origin s0 ls s" and "auth_sessions s0 = []" and "api_keys s0 = []"
  shows "tokens_ok ls s"
  using assms
proof (induction rule: auth_run.induct)
  case (start s)
  then show ?case by (simp add: tokens_ok_def keyed_def)
next
  case (onward s ls s1 l s2)
  then show ?case by (blast intro: auth_step_tokens_ok)
qed

section \<open>Access needs a live token\<close>

lemma key_userD:
  assumes "key_user h s = Some u"
  shows "\<exists>k \<in> set (api_keys s). ak_token_hash k = h \<and> ak_revoked_at k = None \<and> ak_user_id k = u_id u"
    "\<not> u_disabled u"
  using assms by (fastforce simp: key_user_def split: option.splits if_splits dest: find_SomeD lookup_SomeD)+

lemma session_userD:
  assumes "session_user t h s = Some u"
  shows "\<exists>a \<in> set (auth_sessions s). as_token_hash a = h \<and> t < as_expires_at a \<and> as_user_id a = u_id u"
    "\<not> u_disabled u"
  using assms by (fastforce simp: session_user_def split: option.splits if_splits dest: find_SomeD lookup_SomeD)+

text \<open>
  C17: a request that is authenticated as a user carries a token that this user was given: either an
  API key that was issued to the user and not revoked since, or the cookie of a login of the user,
  less than twelve hours old and not logged out since; and a request that is not a plain read comes
  from the page of the laboratory when it uses a cookie. A disabled user has no access.
\<close>

theorem access_needs_live_token:
  assumes run: "auth_run sha kdf web_origin s0 ls s" and init: "auth_sessions s0 = []" "api_keys s0 = []"
    and ret: "authenticate sha web_origin t req forwarded s = Inr u"
  shows "\<not> u_disabled u \<and>
    (case bearer_token forwarded req of
       Some token \<Rightarrow> \<exists>i. key_live ls i (u_id u) (sha token)
     | None \<Rightarrow> \<exists>token expiry. cookie_token (cookie_of forwarded req) = Some token \<and>
         login_live ls (u_id u) (sha token) expiry \<and> t < expiry \<and>
         (hq_method req \<in> {''GET'', ''HEAD''} \<or> origin_of forwarded req = Some web_origin))"
proof -
  have ok: "tokens_ok ls s" by (rule auth_run_tokens_ok [OF run init])
  show ?thesis
  proof (cases "bearer_token forwarded req")
    case (Some token)
    then have u: "key_user (sha token) s = Some u" using ret by (simp add: authenticate_def res_Inr)
    with ok Some show ?thesis using key_userD [OF u] unfolding tokens_ok_def by (simp, metis)
  next
    case None
    then obtain token where tok: "cookie_token (cookie_of forwarded req) = Some token"
        and u: "session_user t (sha token) s = Some u"
        and o': "hq_method req = ''GET'' \<or> hq_method req = ''HEAD'' \<or> origin_of forwarded req = Some web_origin"
      using ret by (auto simp: authenticate_def session_auth_def res_Inr split: option.splits)
    obtain a where "a \<in> set (auth_sessions s)" "as_token_hash a = sha token" "t < as_expires_at a" "as_user_id a = u_id u"
      using session_userD(1) [OF u] by blast
    moreover from this ok have "login_live ls (u_id u) (sha token) (as_expires_at a)" unfolding tokens_ok_def by metis
    ultimately show ?thesis using None tok o' session_userD(2) [OF u] by auto
  qed
qed

section \<open>A login grants access\<close>

lemma length_b64url: "length (b64url s) = (4 * length s + 2) div 3"
  by (induction s rule: b64url.induct) simp_all

lemma same_userD:
  assumes "same_user u v"
  shows "u_id v = u_id u" "u_login v = u_login u" "u_name v = u_name u" "u_role v = u_role u"
    "u_disabled v = u_disabled u" "u_password_hash v = u_password_hash u"
  using assms by (cases u; cases v; simp add: same_user_def)+

lemma same_user_trans: "same_user u v \<Longrightarrow> same_user v w \<Longrightarrow> same_user u w"
  by (simp add: same_user_def)

lemma same_user_refl [simp]: "same_user u u"
  by (simp add: same_user_def)

lemma lookup_same_users:
  assumes "list_all2 same_user us vs" and "lookup key x us = Some u" and "\<And>u v. same_user u v \<Longrightarrow> key v = key u"
  shows "\<exists>v. lookup key x vs = Some v \<and> same_user u v"
  using assms by (induction rule: list_all2_induct) (auto split: if_splits)

lemma auth_step_user:
  assumes "auth_step sha kdf web_origin s l s'" and "lookup key x (users s) = Some u"
    and "\<And>u v. same_user u v \<Longrightarrow> key v = key u"
  shows "\<exists>v. lookup key x (users s') = Some v \<and> same_user u v"
  using assms(1)
proof (cases rule: auth_step.cases)
  case (created random i actor d v)
  with assms(2) show ?thesis by (auto simp: createUser_def admin_def res_Inr Let_def insert_user_def)
next
  case (logged_in random t name password origin token v)
  with assms(2) show ?thesis using login_auth_sessions(3) [OF logged_in(2)] by simp
next
  case (logged_out t req y token)
  with assms(2) show ?thesis using logout_auth_sessions [OF logged_out(2-4)] by simp
next
  case (keyed random i user name i' token)
  with assms(2) show ?thesis using newKey_keys(4) [OF keyed(2)] by simp
next
  case (revoked t user i y)
  with assms(2) show ?thesis by (auto simp: revokeKey_def res_Inr)
next
  case (expired t)
  with assms(2) show ?thesis by (simp add: keep_unexpired_def)
next
  case other
  then show ?thesis using lookup_same_users [OF _ assms(2,3)] by (simp add: beside_auth_def)
qed

lemma auth_run_user:
  assumes "auth_run sha kdf web_origin s ls s'" and "lookup key x (users s) = Some u"
    and "\<And>u v. same_user u v \<Longrightarrow> key v = key u"
  shows "\<exists>v. lookup key x (users s') = Some v \<and> same_user u v"
  using assms
proof (induction rule: auth_run.induct)
  case (start s)
  then show ?case by auto
next
  case (onward s ls s1 l s2)
  then obtain v where v: "lookup key x (users s1) = Some v" "same_user u v" by blast
  obtain w where "lookup key x (users s2) = Some w" "same_user v w"
    using auth_step_user [OF onward(2) v(1) onward(5)] by blast
  with v(2) show ?case by (blast intro: same_user_trans)
qed

text \<open>The one session row of a token stays through everything but its logout and its expiry.\<close>

definition only_session :: "auth_session \<Rightarrow> db \<Rightarrow> bool" where
  "only_session a s \<longleftrightarrow> filter (\<lambda>b. as_token_hash b = as_token_hash a) (auth_sessions s) = [a]"

lemma only_session_iff:
  assumes "only_session a s"
  shows "b \<in> set (auth_sessions s) \<and> as_token_hash b = as_token_hash a \<longleftrightarrow> b = a"
  using arg_cong [where f = set, OF assms [unfolded only_session_def]] by auto

lemma only_session_in: "only_session a s \<Longrightarrow> a \<in> set (auth_sessions s)"
  using only_session_iff by blast

lemma filter_twice:
  assumes "filter P xs = [a]" and "Q a"
  shows "filter P (filter Q xs) = [a]"
proof -
  have "filter P (filter Q xs) = filter Q (filter P xs)" by (simp add: conj_commute)
  with assms show ?thesis by simp
qed

lemma auth_step_session:
  assumes "auth_step sha kdf web_origin s l s'" and only: "only_session a s"
    and "l \<noteq> Logout (as_token_hash a)" and "\<And>x. l = Expire x \<Longrightarrow> x \<le> as_expires_at a"
  shows "only_session a s'"
  using assms(1)
proof (cases rule: auth_step.cases)
  case (created random i actor d v)
  with only show ?thesis
    by (auto simp: createUser_def admin_def res_Inr Let_def insert_user_def only_session_def)
next
  case (logged_in random t name password origin token v)
  note L = login_auth_sessions [OF logged_in(2)]
  have "as_token_hash a \<noteq> sha token" using L(2) only_session_in [OF only] by (metis imageI)
  then show ?thesis unfolding L(3) using only by (simp add: only_session_def)
next
  case (logged_out t req y token)
  note L = logout_auth_sessions [OF logged_out(2-4)]
  have "as_token_hash a \<noteq> sha token" using logged_out(1) assms(3) by simp
  with only show ?thesis unfolding L only_session_def by (simp add: filter_twice del: filter_filter)
next
  case (keyed random i user name i' token)
  with only show ?thesis using newKey_keys(4) [OF keyed(2)] by (simp add: only_session_def)
next
  case (revoked t user i y)
  with only show ?thesis by (auto simp: revokeKey_def res_Inr only_session_def)
next
  case (expired t)
  then have "\<not> as_expires_at a < t" using assms(4) by auto
  with only expired show ?thesis by (simp add: keep_unexpired_def only_session_def filter_twice del: filter_filter)
next
  case other
  with only show ?thesis by (simp add: beside_auth_def only_session_def)
qed

lemma auth_run_session:
  assumes "auth_run sha kdf web_origin s ls s'" and "only_session a s"
    and "Logout (as_token_hash a) \<notin> set ls" and "\<And>x. Expire x \<in> set ls \<Longrightarrow> x \<le> as_expires_at a"
  shows "only_session a s'"
  using assms by (induction rule: auth_run.induct) (auto intro: auth_step_session)

lemma session_user_only:
  assumes "only_session a s" and "t < as_expires_at a" and "lookup u_id (as_user_id a) (users s) = Some u"
    and "\<not> u_disabled u"
  shows "session_user t (as_token_hash a) s = Some u"
proof -
  obtain b where b: "find (\<lambda>b. as_token_hash b = as_token_hash a \<and> as_expires_at b > t) (auth_sessions s) = Some b"
    using only_session_in [OF assms(1)] assms(2) by (cases "find (\<lambda>b. as_token_hash b = as_token_hash a \<and> as_expires_at b > t) (auth_sessions s)")
      (auto simp: find_None_iff)
  have "b = a" using find_SomeD [OF b] only_session_iff [OF assms(1)] by blast
  with b assms(3,4) show ?thesis by (simp add: session_user_def)
qed

lemma createUser_row:
  assumes "createUser kdf r1 i actor d s = Inr (u, s1)"
  shows "lookup u_login (nu_login d) (users s1) = Some u" "lookup u_id i (users s1) = Some u" "u_id u = i"
    "u_login u = nu_login d" "u_role u = nu_role d" "\<not> u_disabled u" "createUserSchema d"
    "u_password_hash u = passwordHash kdf r1 (nu_password d)" "u_role actor = Admin"
proof -
  have "lookup u_login (nu_login d) (users s) = None" "lookup u_id i (users s) = None"
    using assms by (auto simp: createUser_def admin_def res_Inr Let_def insert_user_def lookup_None_iff)
  with assms show "lookup u_login (nu_login d) (users s1) = Some u" "lookup u_id i (users s1) = Some u" "u_id u = i"
    "u_login u = nu_login d" "u_role u = nu_role d" "\<not> u_disabled u" "createUserSchema d"
    "u_password_hash u = passwordHash kdf r1 (nu_password d)" "u_role actor = Admin"
    by (auto simp: createUser_def admin_def res_Inr Let_def insert_user_def)
qed

lemma login_returns:
  assumes u: "lookup u_login (nu_login d) (users s) = Some u" "\<not> u_disabled u"
      "u_password_hash u = passwordHash kdf r1 (nu_password d)"
    and d: "createUserSchema d" "1 \<le> length password" "length password \<le> 256"
    and r: "r1 \<noteq> []" "kdf (nu_password d) (b64url r1) \<noteq> []"
    and fresh: "sha (secret r2) \<notin> as_token_hash ` set (auth_sessions s)"
  shows "login sha kdf web_origin r2 t (nu_login d) password (Some web_origin) s =
    (if kdf password (b64url r1) = kdf (nu_password d) (b64url r1)
     then Inr ((secret r2, u), s\<lparr>auth_sessions := auth_sessions s @
       [\<lparr>as_token_hash = sha (secret r2), as_user_id = u_id u, as_expires_at = t + 43200000\<rparr>]\<rparr>)
     else Inl (AppError 401 ''invalid_credentials''))"
  using assms by (simp add: login_def Let_def createUserSchema_def passwordMatches_hash
      insert_auth_session_def insert_row_def)

text \<open>
  C36: the account that an administrator creates can log in with its password, and with no password
  that the derivation distinguishes from it. The token of the login then authenticates this user,
  whatever the users do in between, until twelve hours later or until it is logged out.
\<close>

theorem login_grants_access:
  assumes made: "createUser kdf r1 i actor d s0 = Inr (u, s1)" and run1: "auth_run sha kdf web_origin s1 ls1 s2"
    and random: "r1 \<noteq> []" "kdf (nu_password d) (b64url r1) \<noteq> []" "length r2 = 32"
    and fresh: "sha (secret r2) \<notin> as_token_hash ` set (auth_sessions s2)"
    and pw: "1 \<le> length password" "length password \<le> 256"
  shows "(case login sha kdf web_origin r2 t (nu_login d) password (Some web_origin) s2 of
      Inl e \<Rightarrow> kdf password (b64url r1) \<noteq> kdf (nu_password d) (b64url r1) \<and> e = AppError 401 ''invalid_credentials''
    | Inr ((token, v), s3) \<Rightarrow>
        kdf password (b64url r1) = kdf (nu_password d) (b64url r1) \<and> token = secret r2 \<and> same_user u v \<and>
        (\<forall>ls2 s4 now req. auth_run sha kdf web_origin s3 ls2 s4 \<and> Logout (sha token) \<notin> set ls2 \<and>
           (\<forall>x. Expire x \<in> set ls2 \<longrightarrow> x \<le> now) \<and> now < t + 43200000 \<and>
           bearer_token False req = None \<and> hq_cookie req = Some (cookie_name @ ''='' @ token) \<and>
           (hq_method req \<in> {''GET'', ''HEAD''} \<or> hq_origin req = Some web_origin) \<longrightarrow>
           (\<exists>w. authenticate sha web_origin now req False s4 = Inr w \<and> same_user u w)))"
proof -
  note C = createUser_row [OF made]
  obtain v where v: "lookup u_login (nu_login d) (users s2) = Some v" "same_user u v"
    using auth_run_user [OF run1 C(1)] same_userD(2) by blast
  obtain v' where v': "lookup u_id i (users s2) = Some v'" "same_user u v'"
    using auth_run_user [OF run1 C(2)] same_userD(1) by blast
  note U = same_userD [OF v(2)]
  have L: "login sha kdf web_origin r2 t (nu_login d) password (Some web_origin) s2 =
    (if kdf password (b64url r1) = kdf (nu_password d) (b64url r1)
     then Inr ((secret r2, v), s2\<lparr>auth_sessions := auth_sessions s2 @
       [\<lparr>as_token_hash = sha (secret r2), as_user_id = u_id v, as_expires_at = t + 43200000\<rparr>]\<rparr>)
     else Inl (AppError 401 ''invalid_credentials''))"
    by (rule login_returns) (use v U C pw random fresh in simp_all)
  let ?a = "\<lparr>as_token_hash = sha (secret r2), as_user_id = u_id v, as_expires_at = t + 43200000\<rparr>"
  let ?s3 = "s2\<lparr>auth_sessions := auth_sessions s2 @ [?a]\<rparr>"
  have only: "only_session ?a ?s3" 
    using fresh by (simp add: only_session_def filter_empty_conv) (metis imageI)
  have "\<exists>w. authenticate sha web_origin now req False s4 = Inr w \<and> same_user u w"
    if run2: "auth_run sha kdf web_origin ?s3 ls2 s4" and no: "Logout (sha (secret r2)) \<notin> set ls2"
      and ex: "\<forall>x. Expire x \<in> set ls2 \<longrightarrow> x \<le> now" and now: "now < t + 43200000"
      and req: "bearer_token False req = None" "hq_cookie req = Some (cookie_name @ ''='' @ secret r2)"
        "hq_method req \<in> {''GET'', ''HEAD''} \<or> hq_origin req = Some web_origin" for ls2 s4 now req
  proof -
    have only4: "only_session ?a s4"
      by (rule auth_run_session [OF run2 only]) (use no ex now in force)+
    have "lookup u_id i (users ?s3) = Some v'" using v' by simp
    from auth_run_user [OF run2 this] obtain w where w: "lookup u_id i (users s4) = Some w" "same_user v' w"
      using same_userD(1) by blast
    have "same_user u w" by (rule same_user_trans [OF v'(2) w(2)])
    moreover from this have "session_user now (sha (secret r2)) s4 = Some w"
      using session_user_only [OF only4, of now w] now w(1) U C same_userD(5) by simp
    moreover have "r2 \<noteq> []" "length (secret r2) \<le> 100" "secret r2 \<noteq> []"
      using random(3) by (auto simp: secret_def length_b64url b64url_Nil)
    ultimately show ?thesis using req
      by (auto simp: authenticate_def session_auth_def cookie_of_def origin_of_def cookie_token_secret [simplified])
  qed
  then show ?thesis using v(2) unfolding L by auto
qed

section \<open>A demonstration\<close>

definition dan :: new_user where
  "dan = \<lparr>nu_login = ''dan'', nu_name = '' Dan '', nu_password = ''correct horse'', nu_role = Member\<rparr>"

definition demo_kdf :: kdf where "demo_kdf password salt = password @ salt"

definition demo_digest :: "string \<Rightarrow> string" where "demo_digest x = ''#'' @ x"

definition salt16 :: string where "salt16 = replicate 16 (CHR ''s'')"

definition bytes32 :: string where "bytes32 = replicate 32 (CHR ''t'')"

definition page :: string where "page = ''http://127.0.0.1:43100''"

definition dan_request :: http_request where
  "dan_request = \<lparr>hq_method = ''POST'', hq_authorization = None,
     hq_cookie = Some (cookie_name @ ''='' @ secret bytes32), hq_origin = Some page,
     hq_consumer_authorization = None, hq_consumer_cookie = None, hq_consumer_origin = None,
     hq_session_cookie = None\<rparr>"

definition dan_login :: "db \<Rightarrow> ((string \<times> user) \<times> db) result" where
  "dan_login = login demo_digest demo_kdf page bytes32 1000 ''dan'' ''correct horse'' (Some page)"

definition dan_created :: "(user \<times> db) result" where
  "dan_created = createUser demo_kdf salt16 ''d4'' overseer dan demo_db"

lemma dan_is_created:
  obtains u s where "dan_created = Inr (u, s)" "u_id u = ''d4''" "auth_sessions s = []"
proof -
  have "returns dan_created (\<lambda>(u, s). u_id u = ''d4'' \<and> auth_sessions s = [])" by code_simp
  then show thesis using that by (auto simp: returns_iff)
qed

lemma dan_request_plain: "bearer_token False dan_request = None"
  by (simp add: bearer_token_def dan_request_def)

theorem login_grants_access_witness:
  "\<exists>u s1 s2 w. dan_created = Inr (u, s1) \<and> dan_login s1 = Inr ((secret bytes32, u), s2) \<and>
     authenticate demo_digest page 2000 dan_request False s2 = Inr w \<and> u_id w = ''d4''"
proof -
  obtain u s1 where C: "dan_created = Inr (u, s1)" "u_id u = ''d4''" "auth_sessions s1 = []" by (rule dan_is_created)
  have r: "salt16 \<noteq> []" "demo_kdf (nu_password dan) (b64url salt16) \<noteq> []" "length bytes32 = 32"
    "1 \<le> length (nu_password dan)" "length (nu_password dan) \<le> 256"
    by (simp_all add: salt16_def demo_kdf_def bytes32_def dan_def)
  have fresh: "demo_digest (secret bytes32) \<notin> as_token_hash ` set (auth_sessions s1)" using C(3) by simp
  note G = login_grants_access [where t = 1000 and web_origin = page and kdf = demo_kdf and sha = demo_digest,
      OF C(1) [unfolded dan_created_def] auth_run.start r(1-3) fresh r(4,5)]
  have l: "dan_login s1 = login demo_digest demo_kdf page bytes32 1000 (nu_login dan) (nu_password dan) (Some page) s1"
    by (simp add: dan_login_def dan_def)
  obtain token v s2 where L: "dan_login s1 = Inr ((token, v), s2)"
    using G unfolding l by (auto split: sum.splits)
  have "token = secret bytes32 \<and> same_user u v \<and>
    (\<exists>w. authenticate demo_digest page 2000 dan_request False s2 = Inr w \<and> same_user u w)"
  proof -
    have H: "token = secret bytes32 \<and> same_user u v \<and>
      (\<forall>ls2 s4 now req. auth_run demo_digest demo_kdf page s2 ls2 s4 \<and> Logout (demo_digest token) \<notin> set ls2 \<and>
        (\<forall>x. Expire x \<in> set ls2 \<longrightarrow> x \<le> now) \<and> now < 1000 + 43200000 \<and>
        bearer_token False req = None \<and> hq_cookie req = Some (cookie_name @ ''='' @ token) \<and>
        (hq_method req \<in> {''GET'', ''HEAD''} \<or> hq_origin req = Some page) \<longrightarrow>
        (\<exists>w. authenticate demo_digest page now req False s4 = Inr w \<and> same_user u w))"
      using G unfolding L [unfolded l] sum.case prod.case by blast
    have R: "hq_cookie dan_request = Some (cookie_name @ ''='' @ secret bytes32)" "hq_origin dan_request = Some page"
      by (simp_all add: dan_request_def)
    note T = H [THEN conjunct1]
    have "\<exists>w. authenticate demo_digest page 2000 dan_request False s2 = Inr w \<and> same_user u w"
      by (rule H [THEN conjunct2, THEN conjunct2, rule_format, of "[]" s2])
        (use R dan_request_plain T in \<open>auto intro: auth_run.start\<close>)
    with H show ?thesis by blast
  qed
  moreover have "v = u"
    using createUser_row(1) [OF C(1) [unfolded dan_created_def]] login_auth_sessions(4) [OF L [unfolded dan_login_def]]
    by (simp add: dan_def)
  ultimately obtain w where "authenticate demo_digest page 2000 dan_request False s2 = Inr w" "u_id w = u_id u"
      "token = secret bytes32" "v = u" using same_userD(1) by blast
  with C L show ?thesis by (intro exI [of _ u] exI [of _ s1] exI [of _ s2] exI [of _ w]) simp
qed

theorem access_needs_live_token_witness:
  "\<exists>ls s u expiry. auth_run demo_digest demo_kdf page demo_db ls s \<and>
     authenticate demo_digest page 2000 dan_request False s = Inr u \<and>
     login_live ls (u_id u) (demo_digest (secret bytes32)) expiry \<and> 2000 < expiry"
proof -
  have "returns dan_created (\<lambda>(u, s1). returns (dan_login s1) (\<lambda>(r, s2).
      returns (authenticate demo_digest page 2000 dan_request False s2) (\<lambda>w. True)))" by code_simp
  then obtain u s1 token v s2 w where D: "dan_created = Inr (u, s1)" "dan_login s1 = Inr ((token, v), s2)"
      and a: "authenticate demo_digest page 2000 dan_request False s2 = Inr w"
    by (auto simp: returns_iff)
  obtain ls where run: "auth_run demo_digest demo_kdf page demo_db ls s2"
    using auth_run.onward [OF auth_run.onward [OF auth_run.start auth_step.created [OF D(1) [unfolded dan_created_def]]]
        auth_step.logged_in [OF D(2) [unfolded dan_login_def]]] by blast
  have init: "auth_sessions demo_db = []" "api_keys demo_db = []" by (simp_all add: demo_db_def empty_db_def)
  have "cookie_token (cookie_of False dan_request) = Some (secret bytes32)"
    by (simp add: cookie_of_def dan_request_def cookie_token_secret [simplified] bytes32_def)
  then show ?thesis using run a access_needs_live_token [OF run init a] dan_request_plain by auto
qed

end
