(* ===== verification/Escrow.thy ===== *)
theory Escrow
  imports Ledger
begin

text \<open>
  The contract that node leases (\<open>availability.ts\<close>) and route leases (\<open>route-availability.ts\<close>)
  share: an account of its own holds the unpaid part of the budget, every payment is posted under
  a key that carries a growing counter, and the rest is refunded once. The locale states what the
  two components assume of their account ids and business keys, and proves once what their
  postings then do to an escrow and that one contract never disturbs another.
\<close>

locale funded_contract = double_entry pst bl used
  for pst :: "uuid \<Rightarrow> string \<Rightarrow> string \<Rightarrow> (string \<times> int) list \<Rightarrow> 'm \<Rightarrow> 'l \<Rightarrow> (uuid \<times> 'l) result"
    and bl :: "'l \<Rightarrow> string \<Rightarrow> int"
    and used :: "'l \<Rightarrow> string set" +
  fixes escrow :: "uuid \<Rightarrow> string"
    and payment :: "uuid \<Rightarrow> nat \<Rightarrow> string"
    and refund :: "uuid \<Rightarrow> string"
  assumes escrow_inj: "escrow i = escrow k \<Longrightarrow> i = k"
    and payment_inj: "payment i m = payment k n \<Longrightarrow> i = k \<and> m = n"
    and refund_inj: "refund i = refund k \<Longrightarrow> i = k"
    and payment_refund: "payment i m \<noteq> refund k"
begin

text \<open>The escrow of contract \<open>i\<close> holds \<open>rest\<close>, and no payment beyond the counter was made.\<close>

definition holds :: "'l \<Rightarrow> uuid \<Rightarrow> int \<Rightarrow> nat \<Rightarrow> bool \<Rightarrow> bool" where
  "holds L i rest counter opened \<longleftrightarrow>
     bl L (escrow i) = rest \<and> (\<forall>n. payment i n \<in> used L \<longrightarrow> n \<le> counter) \<and>
     (opened \<longrightarrow> refund i \<notin> used L)"

lemma holds_pay:
  assumes "holds L i rest c True" and "c < c'" and "to \<noteq> escrow i"
    and "pst j (payment i c') kind [(escrow i, - v), (to, v)] md L = Inr (j', L')"
  shows "holds L' i (rest - v) c' True"
proof -
  have fresh: "payment i c' \<notin> used L" using assms(1,2) by (auto simp: holds_def not_le)
  have "bl L' (escrow i) = rest - v"
    using transfer [OF assms(4) fresh, of "escrow i"] assms(1,3) by (auto simp: holds_def)
  moreover have "n \<le> c'" if "payment i n \<in> used L'" for n
    using that records [OF assms(4)] assms(1,2) payment_inj [of i n i c'] by (force simp: holds_def)
  moreover have "refund i \<notin> used L'"
    using records [OF assms(4)] assms(1) payment_refund [of i c' i] by (auto simp: holds_def)
  ultimately show ?thesis by (simp add: holds_def)
qed

lemma holds_pay_to:
  assumes "holds L i rest c True" and "c < c'" and "to \<noteq> escrow i"
    and "pst j (payment i c') kind [(escrow i, - v), (to, v)] md L = Inr (j', L')"
  shows "bl L' to = bl L to + v"
proof -
  have fresh: "payment i c' \<notin> used L" using assms(1,2) by (auto simp: holds_def not_le)
  show ?thesis using transfer [OF assms(4) fresh, of to] assms(3) by simp
qed

lemma holds_refund:
  assumes "holds L i rest c True" and "to \<noteq> escrow i"
    and "pst j (refund i) kind [(escrow i, - rest), (to, rest)] md L = Inr (j', L')"
  shows "holds L' i 0 c False" and "bl L' to = bl L to + rest"
proof -
  have fresh: "refund i \<notin> used L" using assms(1) by (simp add: holds_def)
  have "bl L' (escrow i) = 0"
    using transfer [OF assms(3) fresh, of "escrow i"] assms(1,2) by (auto simp: holds_def)
  then show "holds L' i 0 c False"
    using records [OF assms(3)] assms(1) payment_refund [of i _ i] by (auto simp: holds_def)
  show "bl L' to = bl L to + rest"
    using transfer [OF assms(3) fresh, of to] assms(2) by simp
qed

text \<open>A posting that is not one of contract \<open>i\<close>'s and does not touch its escrow.\<close>

lemma holds_frame:
  assumes "holds L i rest c opened" and "pst j key kind es md L = Inr (j', L')"
    and "escrow i \<notin> fst ` set es" and "\<forall>n. key \<noteq> payment i n" and "key \<noteq> refund i"
  shows "holds L' i rest c opened"
  using assms(1) records [OF assms(2)] untouched [OF assms(2,3)] assms(4,5)
  by (auto simp: holds_def)

lemma holds_other:
  assumes "holds L i rest c opened" and "pst j key kind [(escrow k, - v), (to, v)] md L = Inr (j', L')"
    and "i \<noteq> k" and "to \<noteq> escrow i" and "key = payment k n \<or> key = refund k"
  shows "holds L' i rest c opened"
proof (rule holds_frame [OF assms(1,2)])
  show "escrow i \<notin> fst ` set [(escrow k, - v), (to, v)]"
    using assms(3,4) escrow_inj [of i k] by auto
  show "\<forall>n. key \<noteq> payment i n" "key \<noteq> refund i"
    using assms(3,5) payment_inj refund_inj payment_refund by metis+
qed

lemma holds_weaken: "holds L i rest c True \<Longrightarrow> c \<le> c' \<Longrightarrow> holds L i rest c' opened"
  by (auto simp: holds_def)

lemma holds_cong:
  "bl L' (escrow i) = bl L (escrow i) \<Longrightarrow> used L' = used L \<Longrightarrow> holds L' i = holds L i"
  by (intro ext) (simp add: holds_def)

end

end
