(* ===== verification/Availability.thy ===== *)
theory Availability
  imports Escrow Demo
begin

text \<open>
  Readiness contracts of one node: \<open>apps/control-api/src/availability.ts\<close>, with the triggers and
  checks of \<open>infra/migrations/003\<close> and \<open>006\<close>. A sponsor funds an escrow with rate times duration,
  the node's owner accepts while the node is ready, and every observation credits the interval
  since the previous one when both ends saw the same ready boot, at most six seconds apart. The
  escrow pays the provider \<open>credited * rate div 1000\<close> in total, and closing refunds the rest.
\<close>

section \<open>Reading the database\<close>

definition open_lease :: "availability_lease \<Rightarrow> bool" where
  "open_lease row \<longleftrightarrow> al_state row = L_OFFERED \<or> al_state row = L_ACTIVE"

definition lease_escrow :: "uuid \<Rightarrow> string" where
  "lease_escrow i = ''lease:'' @ i @ '':escrow''"

text \<open>The business keys of a lease: its funding, its payments by credited time, its refund.\<close>

definition lease_fund :: "uuid \<Rightarrow> string" where
  "lease_fund i = ''lease:'' @ i @ '':fund''"

definition lease_payment :: "uuid \<Rightarrow> int \<Rightarrow> string" where
  "lease_payment i credited = pay_key ''lease:'' i credited"

definition lease_refund :: "uuid \<Rightarrow> string" where
  "lease_refund i = ''lease:'' @ i @ '':refund''"

definition lease_event :: "uuid \<Rightarrow> string \<Rightarrow> (string \<times> json) list \<Rightarrow> db \<Rightarrow> db" where
  "lease_event i kind metadata s =
     s\<lparr>availability_events := availability_events s @ [event i kind metadata]\<rparr>"

text \<open>What \<open>observation\<close> reports of a node, or \<open>None\<close> when the joined row is missing.\<close>

record node_observation =
  ob_epoch :: int
  ob_kind :: node_kind
  ob_ready :: bool

definition observation :: "db \<Rightarrow> availability_lease \<Rightarrow> ms \<Rightarrow> node_observation option" where
  "observation s row now =
     (case lookup n_id (al_node_id row) (nodes s) of
        None \<Rightarrow> None
      | Some n \<Rightarrow>
     (case lookup m_id (n_model_id n) (models s) of
        None \<Rightarrow> None
      | Some m \<Rightarrow>
     (case lookup u_id (n_owner_id n) (users s) of
        None \<Rightarrow> None
      | Some u \<Rightarrow> Some
          \<lparr>ob_epoch = n_epoch n, ob_kind = n_node_kind n,
           ob_ready =
             (n_state n = N_READY \<and> n_desired_state n = Want_READY \<and> \<not> u_disabled u \<and>
              m_state m = M_LOCAL_PREVIEW \<and>
              m_manifest_sha256 m = al_manifest_sha256 row \<and>
              n_owner_id n = al_provider_id row \<and>
              n_resource_domain_id n = al_resource_domain_id row \<and>
              now - num (n_last_seen n) \<le> 5000 \<and>
              mm_backend_model (m_manifest m) \<in> set (n_loaded_backend_models n))\<rparr>)))"

section \<open>Writing a lease\<close>

text \<open>The checks of the table, which every \<open>INSERT\<close> and \<open>UPDATE\<close> must meet (SQLSTATE 23514).\<close>

definition lease_check :: "availability_lease \<Rightarrow> bool" where
  "lease_check row \<longleftrightarrow>
     al_state row \<noteq> L_DRAINING \<and>
     30 \<le> al_duration_seconds row \<and> al_duration_seconds row \<le> 3600 \<and>
     0 < al_rate_microtu_per_second row \<and>
     0 \<le> al_paid_microtu row \<and> al_paid_microtu row \<le> al_budget_microtu row \<and>
     0 \<le> al_credited_ms row \<and> al_credited_ms row \<le> al_duration_seconds row * 1000 \<and>
     al_budget_microtu row = al_rate_microtu_per_second row * al_duration_seconds row"

definition insert_lease :: "availability_lease \<Rightarrow> db \<Rightarrow> db result" where
  "insert_lease row s =
     (if \<not> lease_check row then Inl (DbError ''23514'')
      else if \<exists>r \<in> set (av_leases s). al_escrow_account r = al_escrow_account row \<or>
          (al_sponsor_id r = al_sponsor_id row \<and> al_idempotency_key r = al_idempotency_key row)
        then Inl (DbError ''23505'')
      else and_then (insert_row al_id row (av_leases s)) (\<lambda>t. Inr (s\<lparr>av_leases := t\<rparr>)))"

text \<open>
  Trigger \<open>maintain_availability_claims\<close> for a node lease, run after an \<open>UPDATE\<close> that sets the
  state. A domain has one claim (primary key) and a lease has one (unique \<open>node_lease_id\<close>).
\<close>

definition lease_claims ::
  "availability_lease \<Rightarrow> availability_lease \<Rightarrow> (uuid \<times> domain_claim) list \<Rightarrow> (uuid \<times> domain_claim) list result"
where
  "lease_claims old new claims =
     (if al_state new = L_ACTIVE \<and> al_state old \<noteq> L_ACTIVE then
        (if Node_lease (al_id new) \<in> snd ` set claims then Inl (DbError ''23505'')
         else insert_row fst (al_resource_domain_id new, Node_lease (al_id new)) claims)
      else if al_state new \<noteq> L_ACTIVE \<and> al_state old = L_ACTIVE then
        Inr (filter (\<lambda>(d, c). c \<noteq> Node_lease (al_id new)) claims)
      else Inr claims)"

text \<open>
  An \<open>UPDATE\<close> by id, with the checks, the unique index \<open>one_active_lease_per_domain\<close> and the
  trigger. An update that does not set the state leaves it, and then the trigger changes nothing.
\<close>

definition update_lease ::
  "uuid \<Rightarrow> (availability_lease \<Rightarrow> availability_lease) \<Rightarrow> db \<Rightarrow> db result" where
  "update_lease i f s =
     (case lookup al_id i (av_leases s) of
        None \<Rightarrow> Inr s
      | Some old \<Rightarrow>
          (if \<not> lease_check (f old) then Inl (DbError ''23514'')
           else if al_state (f old) = L_ACTIVE \<and>
             (\<exists>r \<in> set (av_leases s). al_id r \<noteq> i \<and> al_state r = L_ACTIVE \<and>
                al_resource_domain_id r = al_resource_domain_id (f old))
             then Inl (DbError ''23505'')
           else and_then (lease_claims old (f old) (domain_claims s)) (\<lambda>claims.
             Inr (s\<lparr>av_leases := update_row al_id i f (av_leases s), domain_claims := claims\<rparr>))))"

section \<open>Offer\<close>

record lease_request =
  lo_node_id :: uuid
  lo_duration_seconds :: int
  lo_rate_microtu_per_second :: int
  lo_idempotency_key :: string

definition lease_request_ok :: "lease_request \<Rightarrow> bool" where
  "lease_request_ok data \<longleftrightarrow>
     30 \<le> lo_duration_seconds data \<and> lo_duration_seconds data \<le> 3600 \<and>
     amount_ok (lo_rate_microtu_per_second data) \<and> lo_rate_microtu_per_second data > 0 \<and>
     idempotency_key_ok (lo_idempotency_key data)"

definition lease_request_json :: "lease_request \<Rightarrow> json" where
  "lease_request_json data = JObj
     [(''node_id'', JStr (lo_node_id data)),
      (''duration_seconds'', JNum (lo_duration_seconds data)),
      (''rate_microtu_per_second'', amt (lo_rate_microtu_per_second data)),
      (''idempotency_key'', JStr (lo_idempotency_key data))]"

text \<open>Open contracts of a sponsor, of both generations.\<close>

definition open_contracts :: "uuid \<Rightarrow> db \<Rightarrow> nat" where
  "open_contracts sponsor s =
     length (filter (\<lambda>r. al_sponsor_id r = sponsor \<and> open_lease r) (av_leases s)) +
     length (filter (\<lambda>r. rl_sponsor_id r = sponsor \<and> rl_state r \<in> {L_OFFERED, L_ACTIVE, L_DRAINING}) (rt_leases s))"

definition offer_node :: "uuid \<Rightarrow> db \<Rightarrow> (node \<times> model) option" where
  "offer_node i s =
     (case lookup n_id i (nodes s) of
        None \<Rightarrow> None
      | Some n \<Rightarrow>
     (case lookup m_id (n_model_id n) (models s) of
        None \<Rightarrow> None
      | Some m \<Rightarrow>
     (case lookup u_id (n_owner_id n) (users s) of
        None \<Rightarrow> None
      | Some u \<Rightarrow>
          if n_node_kind n = INFERENCE \<and> m_state m = M_LOCAL_PREVIEW \<and>
             n_desired_state n \<noteq> Want_REVOKED \<and> \<not> u_disabled u
          then Some (n, m) else None)))"

text \<open>The row that the \<open>INSERT\<close> of an offer makes, the column defaults included.\<close>

definition offered_row ::
  "uuid \<Rightarrow> ms \<Rightarrow> uuid \<Rightarrow> string \<Rightarrow> lease_request \<Rightarrow> node \<Rightarrow> model \<Rightarrow> availability_lease" where
  "offered_row i tx_now sponsor digest data n m =
     \<lparr>al_id = i, al_sponsor_id = sponsor, al_provider_id = n_owner_id n,
      al_node_id = n_id n, al_resource_domain_id = n_resource_domain_id n,
      al_model_id = n_model_id n, al_manifest_sha256 = m_manifest_sha256 m,
      al_idempotency_key = lo_idempotency_key data, al_request_sha256 = digest,
      al_escrow_account = lease_escrow i, al_state = L_OFFERED,
      al_duration_seconds = lo_duration_seconds data,
      al_rate_microtu_per_second = lo_rate_microtu_per_second data,
      al_budget_microtu = lo_rate_microtu_per_second data * lo_duration_seconds data,
      al_paid_microtu = 0, al_credited_ms = 0,
      al_sample_ms = None, al_sample_ready = False, al_node_epoch = None,
      al_started_ms = None, al_ends_ms = None, al_offer_expires_at = tx_now + 300000,
      al_created_at = tx_now, al_finished_at = None\<rparr>"

definition offer_lease ::
  "(string \<Rightarrow> string) \<Rightarrow> uuid \<Rightarrow> uuid \<Rightarrow> ms \<Rightarrow> user \<Rightarrow> lease_request \<Rightarrow> availability_lease handler"
where
  "offer_lease sha i j tx_now user data s =
     zod (lease_request_ok data) (
     let budget = lo_rate_microtu_per_second data * lo_duration_seconds data;
         digest = sha (canonical (lease_request_json data)) in
     need (budget \<le> MAX_AMOUNT) 400 ''amount_overflow'' (
     case find (\<lambda>r. al_sponsor_id r = u_id user \<and> al_idempotency_key r = lo_idempotency_key data) (av_leases s) of
       Some existing \<Rightarrow>
         need (al_request_sha256 existing = digest) 409 ''idempotency_conflict'' (Inr (existing, s))
     | None \<Rightarrow>
         need (open_contracts (u_id user) s < 4) 429 ''lease_limit'' (
         need_row (offer_node (lo_node_id data) s) 409 ''node_unavailable'' (\<lambda>(n, m).
         let escrow = lease_escrow i;
             row = offered_row i tx_now (u_id user) digest data n m in
         and_then (new_account escrow (Some (u_id user)) LEASE_ESCROW (ledger s)) (\<lambda>L.
         and_then (post j (lease_fund i) ''AVAILABILITY_RESERVE''
             [(availableAccount (u_id user), - budget), (escrow, budget)]
             [(''lease_id'', JStr i), (''policy'', JStr ''funded-private-v1'')] L) (\<lambda>(_, L').
         and_then (insert_lease row (s\<lparr>ledger := L'\<rparr>)) (\<lambda>s'.
         Inr (row, lease_event i ''offered''
           [(''budget_microtu'', amt budget), (''policy'', JStr ''funded-private-v1'')] s'))))))))"

section \<open>Accept\<close>

text \<open>The row that the \<open>UPDATE\<close> of an acceptance leaves.\<close>

definition started_row :: "ms \<Rightarrow> int \<Rightarrow> availability_lease \<Rightarrow> availability_lease" where
  "started_row now epoch row = row\<lparr>al_state := L_ACTIVE, al_started_ms := Some now,
     al_ends_ms := Some (now + al_duration_seconds row * 1000), al_sample_ms := Some now,
     al_sample_ready := True, al_node_epoch := Some epoch\<rparr>"

text \<open>The clock is read twice: for the offer's expiry, and again once the domain row is locked.\<close>

definition accept_lease :: "ms \<Rightarrow> ms \<Rightarrow> user \<Rightarrow> uuid \<Rightarrow> availability_lease handler" where
  "accept_lease clock1 now user i s =
     need_row (find (\<lambda>r. al_id r = i \<and> al_provider_id r = u_id user) (av_leases s)) 404 ''lease_missing'' (\<lambda>row.
     if al_state row = L_ACTIVE then Inr (row, s) else
     need (al_state row = L_OFFERED \<and> al_offer_expires_at row > clock1) 409 ''offer_expired'' (
     need (al_resource_domain_id row \<notin> fst ` set (domain_claims s)) 409 ''domain_leased'' (
     let node = observation s row now in
     need (case node of None \<Rightarrow> False | Some n \<Rightarrow> ob_ready n \<and> ob_kind n = INFERENCE) 409 ''node_not_ready'' (
     let epoch = ob_epoch (the node) in
     and_then (update_lease i (started_row now epoch) s) (\<lambda>s'.
     Inr (started_row now epoch row, lease_event i ''accepted'' [(''epoch'', JNum epoch)] s'))))))"

section \<open>Advance\<close>

text \<open>The interval since the last sample, clipped at the contract's end, and whether it is payable.\<close>

definition sample_until :: "availability_lease \<Rightarrow> ms \<Rightarrow> ms" where
  "sample_until row now = max (num (al_sample_ms row)) (min now (num (al_ends_ms row)))"

definition sample_valid :: "availability_lease \<Rightarrow> node_observation option \<Rightarrow> ms \<Rightarrow> bool" where
  "sample_valid row node now \<longleftrightarrow>
     al_sample_ready row \<and>
     (case node of None \<Rightarrow> False
      | Some n \<Rightarrow> ob_ready n \<and> al_node_epoch row = Some (ob_epoch n)) \<and>
     now - num (al_sample_ms row) \<le> 6000"

text \<open>The \<open>UPDATE\<close> of an observation, from the locked \<open>row\<close>.\<close>

definition sample_write ::
  "availability_lease \<Rightarrow> node_observation option \<Rightarrow> ms \<Rightarrow> int \<Rightarrow> int \<Rightarrow> availability_lease \<Rightarrow> availability_lease"
where
  "sample_write row node until credited paid r = r\<lparr>al_sample_ms := Some until,
     al_sample_ready := (case node of None \<Rightarrow> False | Some n \<Rightarrow> ob_ready n),
     al_node_epoch := (case node of None \<Rightarrow> al_node_epoch row | Some n \<Rightarrow> Some (ob_epoch n)),
     al_credited_ms := credited, al_paid_microtu := paid\<rparr>"

definition advance_active :: "uuid \<Rightarrow> ms \<Rightarrow> availability_lease \<Rightarrow> db \<Rightarrow> (int \<times> db) result" where
  "advance_active j now row s =
     (let node = observation s row now;
          until = sample_until row now;
          elapsed = max 0 (until - num (al_sample_ms row));
          valid = sample_valid row node now;
          credited = al_credited_ms row + (if valid then elapsed else 0);
          total = (credited * al_rate_microtu_per_second row) sdiv 1000;
          paid = al_paid_microtu row in
      and_then
        (if total > paid then
           and_then (post j (lease_payment (al_id row) credited) ''AVAILABILITY_PAYMENT''
               [(al_escrow_account row, paid - total), (availableAccount (al_provider_id row), total - paid)]
               [(''lease_id'', JStr (al_id row)), (''credited_ms'', amt credited),
                (''policy'', JStr ''funded-private-v1'')] (ledger s))
             (\<lambda>(_, L). Inr (total, s\<lparr>ledger := L\<rparr>))
         else Inr (paid, s))
        (\<lambda>(paid', s1).
      and_then (update_lease (al_id row) (sample_write row node until credited paid') s1)
        (\<lambda>s2.
      Inr (paid', lease_event (al_id row) (if valid then ''observed_ready'' else ''uncredited_interval'')
        [(''elapsed_ms'', JNum elapsed), (''credited_ms'', amt credited), (''paid_microtu'', amt paid')] s2))))"

definition closed_row :: "lease_state \<Rightarrow> ms \<Rightarrow> availability_lease \<Rightarrow> availability_lease" where
  "closed_row state tx_now r = r\<lparr>al_state := state, al_finished_at := Some tx_now, al_sample_ready := False\<rparr>"

definition close_lease ::
  "uuid \<Rightarrow> ms \<Rightarrow> lease_state \<Rightarrow> string \<Rightarrow> availability_lease \<Rightarrow> int \<Rightarrow> db \<Rightarrow> db result" where
  "close_lease j tx_now state kind row paid s =
     (let remaining = al_budget_microtu row - paid in
      and_then
        (if remaining > 0 then
           and_then (post j (lease_refund (al_id row)) ''AVAILABILITY_REFUND''
               [(al_escrow_account row, - remaining), (availableAccount (al_sponsor_id row), remaining)]
               [(''lease_id'', JStr (al_id row))] (ledger s))
             (\<lambda>(_, L). Inr (s\<lparr>ledger := L\<rparr>))
         else Inr s)
        (\<lambda>s1.
      and_then (update_lease (al_id row) (closed_row state tx_now) s1)
        (\<lambda>s2.
      Inr (lease_event (al_id row) kind [(''refunded_microtu'', amt remaining)] s2))))"

definition advance_lease ::
  "uuid \<Rightarrow> uuid \<Rightarrow> ms \<Rightarrow> ms \<Rightarrow> availability_lease \<Rightarrow> bool \<Rightarrow> db \<Rightarrow> db result" where
  "advance_lease j1 j2 tx_now now row cancelled s =
     and_then
       (if al_state row = L_ACTIVE then advance_active j1 now row s
        else Inr (al_paid_microtu row, s))
       (\<lambda>(paid, s1).
     let ended = (al_state row = L_ACTIVE \<and> now \<ge> num (al_ends_ms row));
         expired = (al_state row = L_OFFERED \<and> now \<ge> al_offer_expires_at row) in
     if cancelled \<or> ended \<or> expired then
       (let (state, kind) =
          (if cancelled then (L_CANCELLED, ''cancelled'')
           else if ended then (L_COMPLETED, ''completed'') else (L_EXPIRED, ''expired'')) in
        close_lease j2 tx_now state kind row paid s1)
     else Inr s1)"

section \<open>Cancel and reconcile\<close>

definition cancel_lease ::
  "uuid \<Rightarrow> uuid \<Rightarrow> ms \<Rightarrow> ms \<Rightarrow> user \<Rightarrow> uuid \<Rightarrow> availability_lease option handler" where
  "cancel_lease j1 j2 tx_now now user i s =
     need_row (find (\<lambda>r. al_id r = i \<and>
         (al_sponsor_id r = u_id user \<or> al_provider_id r = u_id user \<or> u_role user = Admin)) (av_leases s))
       404 ''lease_missing'' (\<lambda>row.
     and_then (if open_lease row then advance_lease j1 j2 tx_now now row True s else Inr s) (\<lambda>s'.
     Inr (lookup al_id i (av_leases s'), s')))"

text \<open>One iteration of the loop of \<open>reconcile\<close>, a transaction of its own.\<close>

definition reconcile_lease :: "uuid \<Rightarrow> uuid \<Rightarrow> ms \<Rightarrow> ms \<Rightarrow> uuid \<Rightarrow> unit handler" where
  "reconcile_lease j1 j2 tx_now now i s =
     (case lookup al_id i (av_leases s) of
        None \<Rightarrow> Inr ((), s)
      | Some row \<Rightarrow>
          if open_lease row
          then and_then (advance_lease j1 j2 tx_now now row False s) (\<lambda>s'. Inr ((), s'))
          else Inr ((), s))"

text \<open>
  The rows that \<open>reconcile\<close> visits: active leases and expired offers, those without a sample
  first, then by the oldest sample, ties by creation, at most a hundred.
\<close>

definition reconcile_due :: "ms \<Rightarrow> db \<Rightarrow> uuid list" where
  "reconcile_due tx_now s =
     map al_id (take 100 (sort_key
       (\<lambda>r. [if al_sample_ms r = None then 0 else 1, num (al_sample_ms r), al_created_at r])
       (filter (\<lambda>r. al_state r = L_ACTIVE \<or> (al_state r = L_OFFERED \<and> al_offer_expires_at r \<le> tx_now)) (av_leases s))))"

text \<open>
  The loop over those ids, with the random ids and the clocks that each transaction reads. An
  exception leaves the loop with what the earlier transactions committed.
\<close>

fun reconcile_leases :: "(uuid \<times> uuid \<times> uuid \<times> ms \<times> ms) list \<Rightarrow> db \<Rightarrow> unit result \<times> db" where
  "reconcile_leases [] s = (Inr (), s)"
| "reconcile_leases ((i, j1, j2, tx_now, now) # work) s =
     (case commit (reconcile_lease j1 j2 tx_now now i) s of
        (Inl e, s') \<Rightarrow> (Inl e, s')
      | (Inr _, s') \<Rightarrow> reconcile_leases work s')"

section \<open>The escrow of a lease\<close>

lemma letter_not_digit [simp]:
  "\<not> is_digit (CHR ''d'')" "\<not> is_digit (CHR ''t'')" "\<not> is_digit (CHR ''e'')"
  by (simp_all add: is_digit_def)

interpretation nl: funded_contract post bal posted lease_escrow "\<lambda>i n. lease_payment i (int n)" lease_refund
proof unfold_locales
  show "lease_escrow i = lease_escrow k \<Longrightarrow> i = k" for i k by (simp add: lease_escrow_def)
  show "lease_payment i (int m) = lease_payment k (int n) \<Longrightarrow> i = k \<and> m = n" for i m k n
    by (simp add: lease_payment_def pay_key_inj)
  show "lease_refund i = lease_refund k \<Longrightarrow> i = k" for i k by (simp add: lease_refund_def)
  show "lease_payment i (int m) \<noteq> lease_refund k" for i m k
    using pay_key_neq(1) [of "int m" "'':refund''" "''lease:''" i "''lease:'' @ k"]
    by (simp add: lease_payment_def lease_refund_def)
qed

section \<open>The invariant of the node leases\<close>

definition lease_row_ok :: "availability_lease \<Rightarrow> bool" where
  "lease_row_ok row \<longleftrightarrow>
     lease_check row \<and> al_escrow_account row = lease_escrow (al_id row) \<and>
     al_paid_microtu row = al_credited_ms row * al_rate_microtu_per_second row div 1000 \<and>
     (al_state row = L_OFFERED \<longrightarrow> al_credited_ms row = 0) \<and>
     (al_state row = L_ACTIVE \<longrightarrow>
        (\<exists>t m. al_started_ms row = Some t \<and> al_sample_ms row = Some m \<and>
           al_ends_ms row = Some (t + al_duration_seconds row * 1000) \<and>
           m \<le> t + al_duration_seconds row * 1000 \<and> al_credited_ms row \<le> m - t))"

definition lease_escrow_ok :: "ledger \<Rightarrow> availability_lease \<Rightarrow> bool" where
  "lease_escrow_ok L row \<longleftrightarrow>
     nl.holds L (al_id row) (if open_lease row then al_budget_microtu row - al_paid_microtu row else 0)
       (nat (al_credited_ms row)) (open_lease row)"

definition claims_ok :: "availability_lease list \<Rightarrow> (uuid \<times> domain_claim) list \<Rightarrow> bool" where
  "claims_ok leases claims \<longleftrightarrow>
     keyed fst claims \<and>
     (\<forall>d i. (d, Node_lease i) \<in> set claims \<longleftrightarrow>
        (\<exists>row \<in> set leases. al_id row = i \<and> al_state row = L_ACTIVE \<and> al_resource_domain_id row = d))"

text \<open>Every business key of a lease belongs to a lease that exists.\<close>

definition lease_keys_ok :: "availability_lease list \<Rightarrow> ledger \<Rightarrow> bool" where
  "lease_keys_ok leases L \<longleftrightarrow>
     (\<forall>i. i \<notin> al_id ` set leases \<longrightarrow>
        lease_fund i \<notin> posted L \<and> lease_refund i \<notin> posted L \<and> (\<forall>n. lease_payment i (int n) \<notin> posted L))"

definition availability_ok :: "db \<Rightarrow> bool" where
  "availability_ok s \<longleftrightarrow>
     keyed al_id (av_leases s) \<and>
     (\<forall>row \<in> set (av_leases s). lease_row_ok row \<and> lease_escrow_ok (ledger s) row) \<and>
     claims_ok (av_leases s) (domain_claims s) \<and> lease_keys_ok (av_leases s) (ledger s)"

lemma escrow_not_available [simp, acct_neq]:
  "lease_escrow i \<noteq> availableAccount u" "availableAccount u \<noteq> lease_escrow i"
  by (simp_all add: lease_escrow_def availableAccount_def)

lemma lease_fund_neq [simp, key_neq]:
  "lease_payment i (int n) \<noteq> lease_fund k" "lease_fund k \<noteq> lease_payment i (int n)"
  "lease_refund i \<noteq> lease_fund k" "lease_fund k \<noteq> lease_refund i"
proof -
  show "lease_payment i (int n) \<noteq> lease_fund k"
    using pay_key_neq(1) [of "int n" "'':fund''" "''lease:''" i "''lease:'' @ k"]
    by (simp add: lease_payment_def lease_fund_def)
  then show "lease_fund k \<noteq> lease_payment i (int n)" by metis
  show "lease_refund i \<noteq> lease_fund k"
  proof
    assume "lease_refund i = lease_fund k"
    then have "(i @ '':re'') @ ''fund'' = (k @ '':'') @ ''fund''" by (simp add: lease_refund_def lease_fund_def)
    then have "i @ '':re'' = k @ '':''" unfolding append_same_eq .
    then have "last (i @ '':re'') = last (k @ '':'')" by simp
    then show False by simp
  qed
  then show "lease_fund k \<noteq> lease_refund i" by metis
qed

lemma lease_payment_neq_refund [simp, key_neq]:
  "lease_payment i (int n) \<noteq> lease_refund k" "lease_refund k \<noteq> lease_payment i (int n)"
  using nl.payment_refund [of i n k] by metis+

lemma lease_key_inj [simp]:
  "lease_payment i (int m) = lease_payment k (int n) \<longleftrightarrow> i = k \<and> m = n"
  "lease_refund i = lease_refund k \<longleftrightarrow> i = k" "lease_fund i = lease_fund k \<longleftrightarrow> i = k"
  by (auto dest: nl.payment_inj nl.refund_inj simp: lease_fund_def)

lemma lease_keys_insert:
  assumes "i \<in> al_id ` set leases" and "lease_keys_ok leases L" and "posted L' = insert key (posted L)"
    and "key = lease_payment i (int n) \<or> key = lease_refund i \<or> key = lease_fund i"
  shows "lease_keys_ok leases L'"
  using assms by (auto simp: lease_keys_ok_def)

lemma update_lease_Inr:
  assumes "update_lease i f s = Inr s'" and "lookup al_id i (av_leases s) = Some old"
  obtains claims where
    "s' = s\<lparr>av_leases := update_row al_id i f (av_leases s), domain_claims := claims\<rparr>"
    "lease_check (f old)" "lease_claims old (f old) (domain_claims s) = Inr claims"
  using assms by (auto simp: update_lease_def res_Inr)

text \<open>The trigger keeps the claims in step with the states.\<close>

lemma claims_ok_update:
  assumes ok: "claims_ok leases claims" and key: "keyed al_id leases"
    and old: "lookup al_id i leases = Some old"
    and f: "\<And>r. al_id (f r) = al_id r" "al_resource_domain_id (f old) = al_resource_domain_id old"
    and upd: "lease_claims old (f old) claims = Inr claims'"
  shows "claims_ok (update_row al_id i f leases) claims'"
proof -
  have o: "old \<in> set leases" "al_id old = i" using lookup_SomeD [OF old] by blast+
  have others: "r = old" if "r \<in> set leases" "al_id r = i" for r
    using keyed_unique [OF key that(1) o(1)] that(2) o(2) by simp
  have active: "(\<exists>row \<in> set (update_row al_id i f leases). al_id row = k \<and> al_state row = L_ACTIVE \<and> al_resource_domain_id row = d)
      \<longleftrightarrow> (if k = i then al_state (f old) = L_ACTIVE \<and> al_resource_domain_id old = d
          else (d, Node_lease k) \<in> set claims)" for k d
  proof (cases "k = i")
    case True
    have "row = f old" if "row \<in> set (update_row al_id i f leases)" "al_id row = i" for row
      using that others f(1) by (auto simp: in_update_row)
    moreover have "f old \<in> set (update_row al_id i f leases)" using o by (auto simp: in_update_row)
    moreover have "al_id (f old) = i" using o f(1) by simp
    ultimately show ?thesis using True f(2) by metis
  next
    case False
    have "(row \<in> set (update_row al_id i f leases) \<and> al_id row = k) = (row \<in> set leases \<and> al_id row = k)" for row
      using False f(1) by (auto simp: in_update_row)
    moreover have "(d, Node_lease k) \<in> set claims \<longleftrightarrow>
        (\<exists>row \<in> set leases. al_id row = k \<and> al_state row = L_ACTIVE \<and> al_resource_domain_id row = d)"
      using ok by (simp add: claims_ok_def)
    ultimately show ?thesis using False by (auto simp: Bex_def)
  qed
  have was: "(d, Node_lease i) \<in> set claims \<longleftrightarrow> al_state old = L_ACTIVE \<and> al_resource_domain_id old = d" for d
    using ok o others unfolding claims_ok_def by blast
  have keyed: "keyed fst claims" using ok by (simp add: claims_ok_def)
  have "keyed fst claims' \<and> (\<forall>d k. (d, Node_lease k) \<in> set claims' \<longleftrightarrow>
      (if k = i then al_state (f old) = L_ACTIVE \<and> al_resource_domain_id old = d
       else (d, Node_lease k) \<in> set claims))"
    using upd was keyed f o(2) unfolding lease_claims_def
    by (auto simp: res_Inr keyed_def distinct_map_filter split: if_splits)
  then show ?thesis by (simp add: claims_ok_def active)
qed

lemma update_lease_ok:
  assumes upd: "update_lease i f s = Inr s'" and old: "lookup al_id i (av_leases s) = Some old"
    and f: "\<And>r. al_id (f r) = al_id r" "al_resource_domain_id (f old) = al_resource_domain_id old"
    and key: "keyed al_id (av_leases s)" and claims: "claims_ok (av_leases s) (domain_claims s)"
    and keys: "lease_keys_ok (av_leases s) (ledger s)"
    and rest: "\<And>r. r \<in> set (av_leases s) \<Longrightarrow> al_id r \<noteq> i \<Longrightarrow> lease_row_ok r \<and> lease_escrow_ok (ledger s) r"
    and new: "lease_row_ok (f old)" "lease_escrow_ok (ledger s) (f old)"
  shows "availability_ok s'" and "lookup al_id i (av_leases s') = Some (f old)"
    and "ledger s' = ledger s"
proof -
  obtain cs where s': "s' = s\<lparr>av_leases := update_row al_id i f (av_leases s), domain_claims := cs\<rparr>"
    and cs: "lease_claims old (f old) (domain_claims s) = Inr cs"
    using update_lease_Inr [OF upd old] by metis
  have o: "old \<in> set (av_leases s)" "al_id old = i" using lookup_SomeD [OF old] by blast+
  have rows: "lease_row_ok r \<and> lease_escrow_ok (ledger s) r" if "r \<in> set (update_row al_id i f (av_leases s))" for r
  proof -
    from that obtain q where q: "q \<in> set (av_leases s)"
      "(al_id q = i \<and> r = f q) \<or> (al_id q \<noteq> i \<and> r = q)" by (auto simp: in_update_row)
    have "al_id q = i \<Longrightarrow> q = old" using keyed_unique [OF key q(1) o(1)] o(2) by simp
    with q rest new show ?thesis by auto
  qed
  have ids: "al_id ` set (update_row al_id i f (av_leases s)) = al_id ` set (av_leases s)"
    using update_row_keys [of al_id f i "av_leases s"] f(1) by (metis set_map)
  show "availability_ok s'"
    using rows claims_ok_update [OF claims key old f cs] keys keyed_update [OF key f(1)]
    by (simp add: availability_ok_def s' lease_keys_ok_def ids)
  show "lookup al_id i (av_leases s') = Some (f old)"
    using old f(1) by (simp add: s' lookup_update)
  show "ledger s' = ledger s" by (simp add: s')
qed

section \<open>One observation\<close>

text \<open>The row that an observation of an active lease leaves.\<close>

definition credited_after :: "availability_lease \<Rightarrow> node_observation option \<Rightarrow> ms \<Rightarrow> int" where
  "credited_after row node now = al_credited_ms row +
     (if sample_valid row node now then max 0 (sample_until row now - num (al_sample_ms row)) else 0)"

definition sampled :: "availability_lease \<Rightarrow> node_observation option \<Rightarrow> ms \<Rightarrow> availability_lease" where
  "sampled row node now = row\<lparr>al_sample_ms := Some (sample_until row now),
     al_sample_ready := (case node of None \<Rightarrow> False | Some n \<Rightarrow> ob_ready n),
     al_node_epoch := (case node of None \<Rightarrow> al_node_epoch row | Some n \<Rightarrow> Some (ob_epoch n)),
     al_credited_ms := credited_after row node now,
     al_paid_microtu := credited_after row node now * al_rate_microtu_per_second row div 1000\<rparr>"

lemma sampled_simps [simp]:
  "al_id (sampled row node now) = al_id row" "al_state (sampled row node now) = al_state row"
  "al_resource_domain_id (sampled row node now) = al_resource_domain_id row"
  "al_provider_id (sampled row node now) = al_provider_id row"
  "al_sponsor_id (sampled row node now) = al_sponsor_id row"
  "al_escrow_account (sampled row node now) = al_escrow_account row"
  "al_budget_microtu (sampled row node now) = al_budget_microtu row"
  "al_credited_ms (sampled row node now) = credited_after row node now"
  "al_ends_ms (sampled row node now) = al_ends_ms row"
  "al_paid_microtu (sampled row node now) =
     credited_after row node now * al_rate_microtu_per_second row div 1000"
  "open_lease (sampled row node now) = open_lease row"
  by (simp_all add: sampled_def open_lease_def)

lemma paid_within_budget:
  fixes c r d :: int
  assumes "c \<le> d * 1000" and "0 < r"
  shows "c * r div 1000 \<le> r * d"
proof -
  have "c * r \<le> (d * 1000) * r" using assms by (simp add: mult_right_mono)
  then have "c * r div 1000 \<le> (d * 1000 * r) div 1000" by (rule zdiv_mono1) simp
  also have "d * 1000 * r = (r * d) * 1000" by simp
  finally show ?thesis by simp
qed

lemma sampled_row_ok:
  assumes ok: "lease_row_ok row" and active: "al_state row = L_ACTIVE"
  shows "lease_row_ok (sampled row node now)" and "al_credited_ms row \<le> credited_after row node now"
    and "al_paid_microtu row \<le> al_paid_microtu (sampled row node now)"
proof -
  have chk: "lease_check row" using ok by (simp add: lease_row_ok_def)
  obtain t m where m: "al_started_ms row = Some t" "al_sample_ms row = Some m"
    "al_ends_ms row = Some (t + al_duration_seconds row * 1000)"
    "m \<le> t + al_duration_seconds row * 1000" "al_credited_ms row \<le> m - t"
    using ok active by (auto simp: lease_row_ok_def)
  let ?c = "credited_after row node now"
  have until: "m \<le> sample_until row now" "sample_until row now \<le> t + al_duration_seconds row * 1000"
    using m by (auto simp: sample_until_def)
  have c: "al_credited_ms row \<le> ?c" "?c \<le> sample_until row now - t"
    using m until by (auto simp: credited_after_def)
  then have top: "?c \<le> al_duration_seconds row * 1000" using until by linarith
  have r: "0 < al_rate_microtu_per_second row" "0 \<le> al_credited_ms row"
    using chk by (simp_all add: lease_check_def)
  have budget: "?c * al_rate_microtu_per_second row div 1000 \<le> al_budget_microtu row"
    using paid_within_budget [OF top r(1)] chk by (simp add: lease_check_def)
  have pos: "0 \<le> ?c * al_rate_microtu_per_second row div 1000"
    using r c by (simp add: pos_imp_zdiv_nonneg_iff)
  have "lease_check (sampled row node now)"
    using chk top budget c(1) r(2) pos unfolding lease_check_def by (simp add: sampled_def)
  then show "lease_row_ok (sampled row node now)"
    using ok active m until c by (simp add: lease_row_ok_def sampled_def)
  show "al_credited_ms row \<le> ?c" using c by simp
  show "al_paid_microtu row \<le> al_paid_microtu (sampled row node now)"
    using ok c(1) r(1) by (simp add: lease_row_ok_def zdiv_mono1 mult_right_mono)
qed

text \<open>The payment of an observation: what it moves, and whose escrows it leaves alone.\<close>

lemma lease_payment_keeps:
  assumes ok: "availability_ok s" and row: "row \<in> set (av_leases s)" and op: "open_lease row"
    and c: "al_credited_ms row < c" and key: "0 \<le> al_credited_ms row"
    and ret: "post j (lease_payment (al_id row) c) kind
      [(al_escrow_account row, - v), (availableAccount u, v)] md (ledger s) = Inr (j', L)"
  shows "\<And>r. r \<in> set (av_leases s) \<Longrightarrow> al_id r \<noteq> al_id row \<Longrightarrow> lease_escrow_ok L r"
    and "nl.holds L (al_id row) (al_budget_microtu row - al_paid_microtu row - v) (nat c) True"
    and "lease_keys_ok (av_leases s) L"
    and "bal L (availableAccount u) = bal (ledger s) (availableAccount u) + v"
proof -
  have esc: "al_escrow_account row = lease_escrow (al_id row)"
    and hold: "nl.holds (ledger s) (al_id row) (al_budget_microtu row - al_paid_microtu row)
      (nat (al_credited_ms row)) True"
    using ok row op by (auto simp: availability_ok_def lease_row_ok_def lease_escrow_ok_def)
  have k: "lease_payment (al_id row) c = lease_payment (al_id row) (int (nat c))" using c key by simp
  note ret' = ret [unfolded esc k]
  have less: "nat (al_credited_ms row) < nat c" using c key by simp
  show "nl.holds L (al_id row) (al_budget_microtu row - al_paid_microtu row - v) (nat c) True"
    by (rule nl.holds_pay [OF hold less _ ret']) simp
  show "bal L (availableAccount u) = bal (ledger s) (availableAccount u) + v"
    by (rule nl.holds_pay_to [OF hold less _ ret']) simp
  show "lease_escrow_ok L r" if "r \<in> set (av_leases s)" "al_id r \<noteq> al_id row" for r
  proof -
    have "lease_escrow_ok (ledger s) r" using ok that(1) by (simp add: availability_ok_def)
    then show ?thesis unfolding lease_escrow_ok_def
      by (rule nl.holds_other [OF _ ret' that(2)]) (simp, rule disjI1, rule refl)
  qed
  have "al_id row \<in> al_id ` set (av_leases s)" using row by blast
  moreover have "lease_keys_ok (av_leases s) (ledger s)" using ok by (simp add: availability_ok_def)
  ultimately show "lease_keys_ok (av_leases s) L"
    by (rule lease_keys_insert [OF _ _ post_posted [OF ret']]) (rule disjI1, rule refl)
qed

lemma sample_write_simps [simp]:
  "al_id (sample_write row node u c p r) = al_id r" "al_state (sample_write row node u c p r) = al_state r"
  "al_resource_domain_id (sample_write row node u c p r) = al_resource_domain_id r"
  by (simp_all add: sample_write_def)

lemma sample_credit: "(if sample_valid row node now then max 0 (sample_until row now - num (al_sample_ms row)) else 0)
    = credited_after row node now - al_credited_ms row"
  by (simp add: credited_after_def)

lemma sdiv_thousand: "0 \<le> (a::int) \<Longrightarrow> a sdiv 1000 = a div 1000"
  by (simp add: sdiv_nonneg)

lemma availability_okD:
  assumes "availability_ok s" and "lookup al_id i (av_leases s) = Some row"
  shows "row \<in> set (av_leases s)" and "al_id row = i" and "keyed al_id (av_leases s)"
    and "lease_row_ok row" and "lease_escrow_ok (ledger s) row" and "lease_check row"
    and "claims_ok (av_leases s) (domain_claims s)" and "lease_keys_ok (av_leases s) (ledger s)"
    and "\<And>r. r \<in> set (av_leases s) \<Longrightarrow> lease_row_ok r \<and> lease_escrow_ok (ledger s) r"
  using assms lookup_SomeD [OF assms(2)] by (auto simp: availability_ok_def lease_row_ok_def)

lemma lease_event_simps [simp]:
  "av_leases (lease_event i k md s) = av_leases s" "ledger (lease_event i k md s) = ledger s"
  "domain_claims (lease_event i k md s) = domain_claims s" "nodes (lease_event i k md s) = nodes s"
  "models (lease_event i k md s) = models s" "users (lease_event i k md s) = users s"
  by (simp_all add: lease_event_def)

lemma availability_ok_event [simp]: "availability_ok (lease_event i k md s) = availability_ok s"
  by (simp add: availability_ok_def)

lemma advance_active_ok:
  assumes ok: "availability_ok s" and old: "lookup al_id i (av_leases s) = Some row"
    and active: "al_state row = L_ACTIVE" and ret: "advance_active j now row s = Inr (p, s')"
  defines "new \<equiv> sampled row (observation s row now) now"
  shows "availability_ok s'" and "lookup al_id i (av_leases s') = Some new"
    and "p = al_paid_microtu new"
    and "bal (ledger s') (availableAccount (al_provider_id row)) =
      bal (ledger s) (availableAccount (al_provider_id row)) + (al_paid_microtu new - al_paid_microtu row)"
    and "\<And>a. a \<noteq> lease_escrow i \<Longrightarrow> a \<noteq> availableAccount (al_provider_id row) \<Longrightarrow>
      bal (ledger s') a = bal (ledger s) a"
proof -
  note D = availability_okD [OF ok old]
  note S = sampled_row_ok [OF D(4) active, of "observation s row now" now]
  let ?c = "credited_after row (observation s row now) now"
  let ?v = "al_paid_microtu new - al_paid_microtu row"
  have S4: "0 \<le> al_credited_ms row" using D(6) by (simp add: lease_check_def)
  let ?f = "sample_write row (observation s row now) (sample_until row now) ?c (al_paid_microtu new)"
  have op: "open_lease row" using active by (simp add: open_lease_def)
  have rate: "0 < al_rate_microtu_per_second row" using D(6) by (simp add: lease_check_def)
  have total: "(?c * al_rate_microtu_per_second row) sdiv 1000 = al_paid_microtu new"
    using S(2) S4 rate by (simp add: sdiv_thousand new_def)
  have paid: "al_paid_microtu row \<le> al_paid_microtu new" using S(3) by (simp add: new_def)
  have esc: "al_escrow_account row = lease_escrow i" using D(2,4) by (simp add: lease_row_ok_def)
  have new: "?f row = new" by (simp add: new_def sampled_def sample_write_def)
  define s1 where "s1 L = s\<lparr>ledger := L\<rparr>" for L
  obtain L s2 where
    pay: "L = ledger s \<and> al_paid_microtu new = al_paid_microtu row \<or>
      al_paid_microtu row < al_paid_microtu new \<and>
      (\<exists>md j'. post j (lease_payment i ?c) ''AVAILABILITY_PAYMENT''
         [(al_escrow_account row, - ?v), (availableAccount (al_provider_id row), ?v)] md (ledger s) = Inr (j', L))"
    and upd: "update_lease i ?f (s1 L) = Inr s2" and p: "p = al_paid_microtu new"
    and s': "\<exists>k md. s' = lease_event i k md s2"
  proof (cases "al_paid_microtu row < al_paid_microtu new")
    case True
    then show thesis using ret that D(2)
      by (simp add: advance_active_def Let_def sample_credit total res_Inr s1_def) blast
  next
    case False
    then have eq: "al_paid_microtu new = al_paid_microtu row" using paid by simp
    then show thesis using ret that [of "ledger s"] D(2)
      by (simp add: advance_active_def Let_def sample_credit total res_Inr s1_def) blast
  qed
  have more: "al_credited_ms row < ?c" if "al_paid_microtu row < al_paid_microtu new"
  proof (rule ccontr)
    assume "\<not> ?thesis"
    then have "?c = al_credited_ms row" using S(2) by simp
    then show False using that D(4) by (simp add: new_def lease_row_ok_def)
  qed
  have frame: "nl.holds L i (al_budget_microtu new - al_paid_microtu new) (nat ?c) True \<and>
      (\<forall>r \<in> set (av_leases s). al_id r \<noteq> i \<longrightarrow> lease_escrow_ok L r) \<and> lease_keys_ok (av_leases s) L \<and>
      bal L (availableAccount (al_provider_id row)) = bal (ledger s) (availableAccount (al_provider_id row)) + ?v \<and>
      (\<forall>a. a \<noteq> lease_escrow i \<longrightarrow> a \<noteq> availableAccount (al_provider_id row) \<longrightarrow> bal L a = bal (ledger s) a)"
    using pay
  proof
    assume same: "L = ledger s \<and> al_paid_microtu new = al_paid_microtu row"
    have "nl.holds (ledger s) i (al_budget_microtu row - al_paid_microtu row) (nat (al_credited_ms row)) True"
      using D(2,5) op by (simp add: lease_escrow_ok_def)
    then have "nl.holds (ledger s) i (al_budget_microtu row - al_paid_microtu row) (nat ?c) True"
      by (rule nl.holds_weaken) (use S(2) in simp)
    then show ?thesis using same D(8,9) by (simp add: new_def)
  next
    assume "al_paid_microtu row < al_paid_microtu new \<and>
      (\<exists>md j'. post j (lease_payment i ?c) ''AVAILABILITY_PAYMENT''
         [(al_escrow_account row, - ?v), (availableAccount (al_provider_id row), ?v)] md (ledger s) = Inr (j', L))"
    then obtain md j' where ret': "post j (lease_payment (al_id row) ?c) ''AVAILABILITY_PAYMENT''
         [(al_escrow_account row, - ?v), (availableAccount (al_provider_id row), ?v)] md (ledger s) = Inr (j', L)"
      and gt: "al_credited_ms row < ?c" using more D(2) by blast
    note P = lease_payment_keeps [OF ok D(1) op gt S4 ret']
    have rest: "bal L a = bal (ledger s) a" if "a \<noteq> lease_escrow i" "a \<noteq> availableAccount (al_provider_id row)" for a
      using led.untouched [OF ret', of a] that esc by simp
    show ?thesis using P rest D(2) by (simp add: new_def algebra_simps)
  qed
  have old1: "lookup al_id i (av_leases (s1 L)) = Some row" using old by (simp add: s1_def)
  have U: "availability_ok s2" "lookup al_id i (av_leases s2) = Some (?f row)" "ledger s2 = ledger (s1 L)"
    by (rule update_lease_ok [OF upd old1]; use frame D S(1) new op in
      \<open>simp add: s1_def lease_escrow_ok_def new_def\<close>)+
  show "availability_ok s'" using U(1) s' by auto
  show "lookup al_id i (av_leases s') = Some new" using U(2) s' new by auto
  show "p = al_paid_microtu new" by (rule p)
  have led: "ledger s' = L" using U(3) s' by (auto simp: s1_def)
  show "bal (ledger s') (availableAccount (al_provider_id row)) =
      bal (ledger s) (availableAccount (al_provider_id row)) + ?v"
    using frame by (simp add: led)
  show "\<And>a. a \<noteq> lease_escrow i \<Longrightarrow> a \<noteq> availableAccount (al_provider_id row) \<Longrightarrow>
      bal (ledger s') a = bal (ledger s) a"
    using frame by (simp add: led)
qed

section \<open>Closing\<close>

lemma closed_row_simps [simp]:
  "al_id (closed_row st t r) = al_id r" "al_resource_domain_id (closed_row st t r) = al_resource_domain_id r"
  "al_state (closed_row st t r) = st" "al_budget_microtu (closed_row st t r) = al_budget_microtu r"
  "al_paid_microtu (closed_row st t r) = al_paid_microtu r" "al_credited_ms (closed_row st t r) = al_credited_ms r"
  "al_sponsor_id (closed_row st t r) = al_sponsor_id r" "al_provider_id (closed_row st t r) = al_provider_id r"
  by (simp_all add: closed_row_def)

lemma closed_row_ok:
  assumes "lease_row_ok r" and "st \<in> {L_CANCELLED, L_COMPLETED, L_EXPIRED}"
  shows "lease_row_ok (closed_row st t r)" and "\<not> open_lease (closed_row st t r)"
  using assms by (auto simp: lease_row_ok_def lease_check_def open_lease_def closed_row_def)

text \<open>The refund: what it moves, and whose escrows it leaves alone.\<close>

lemma lease_refund_keeps:
  assumes ok: "availability_ok s" and old: "lookup al_id i (av_leases s) = Some row" and op: "open_lease row"
    and ret: "post j (lease_refund i) kind
      [(lease_escrow i, - (al_budget_microtu row - al_paid_microtu row)),
       (availableAccount u, al_budget_microtu row - al_paid_microtu row)] md (ledger s) = Inr (j', L)"
  shows "\<And>r. r \<in> set (av_leases s) \<Longrightarrow> al_id r \<noteq> i \<Longrightarrow> lease_escrow_ok L r"
    and "nl.holds L i 0 (nat (al_credited_ms row)) False"
    and "lease_keys_ok (av_leases s) L"
    and "bal L (availableAccount u) = bal (ledger s) (availableAccount u) + (al_budget_microtu row - al_paid_microtu row)"
proof -
  note D = availability_okD [OF ok old]
  have hold: "nl.holds (ledger s) i (al_budget_microtu row - al_paid_microtu row) (nat (al_credited_ms row)) True"
    using D(2,5) op by (simp add: lease_escrow_ok_def)
  show "nl.holds L i 0 (nat (al_credited_ms row)) False"
    by (rule nl.holds_refund(1) [OF hold _ ret]) simp
  show "bal L (availableAccount u) = bal (ledger s) (availableAccount u) + (al_budget_microtu row - al_paid_microtu row)"
    by (rule nl.holds_refund(2) [OF hold _ ret]) simp
  show "lease_escrow_ok L r" if "r \<in> set (av_leases s)" "al_id r \<noteq> i" for r
  proof -
    have "lease_escrow_ok (ledger s) r" using D(9) that(1) by blast
    then show ?thesis unfolding lease_escrow_ok_def
      by (rule nl.holds_other [OF _ ret that(2)]) (simp, rule disjI2, rule refl)
  qed
  have "i \<in> al_id ` set (av_leases s)" using D(1,2) by blast
  then show "lease_keys_ok (av_leases s) L"
    using D(8) by (rule lease_keys_insert [OF _ _ post_posted [OF ret]]) simp
qed

lemma close_lease_ok:
  assumes ok: "availability_ok s" and old: "lookup al_id i (av_leases s) = Some row" and op: "open_lease row"
    and st: "state \<in> {L_CANCELLED, L_COMPLETED, L_EXPIRED}"
    and ret: "close_lease j tx_now state kind row (al_paid_microtu row) s = Inr s'"
  shows "availability_ok s'" and "lookup al_id i (av_leases s') = Some (closed_row state tx_now row)"
    and "bal (ledger s') (availableAccount (al_sponsor_id row)) =
      bal (ledger s) (availableAccount (al_sponsor_id row)) + (al_budget_microtu row - al_paid_microtu row)"
    and "\<And>a. a \<noteq> lease_escrow i \<Longrightarrow> a \<noteq> availableAccount (al_sponsor_id row) \<Longrightarrow>
      bal (ledger s') a = bal (ledger s) a"
proof -
  note D = availability_okD [OF ok old]
  let ?rest = "al_budget_microtu row - al_paid_microtu row"
  have esc: "al_escrow_account row = lease_escrow i" using D(2,4) by (simp add: lease_row_ok_def)
  have pos: "0 \<le> ?rest" using D(6) by (simp add: lease_check_def)
  define s1 where "s1 L = s\<lparr>ledger := L\<rparr>" for L
  obtain L s2 where
    pay: "L = ledger s \<and> ?rest = 0 \<or>
      (\<exists>md j'. post j (lease_refund i) ''AVAILABILITY_REFUND''
         [(lease_escrow i, - ?rest), (availableAccount (al_sponsor_id row), ?rest)] md (ledger s) = Inr (j', L))"
    and upd: "update_lease i (closed_row state tx_now) (s1 L) = Inr s2"
    and s': "\<exists>k md. s' = lease_event i k md s2"
  proof (cases "0 < ?rest")
    case True
    then show thesis using ret that D(2)
      by (simp add: close_lease_def Let_def res_Inr s1_def esc) blast
  next
    case False
    then show thesis using ret that [of "ledger s"] D(2) pos
      by (simp add: close_lease_def Let_def res_Inr s1_def esc) blast
  qed
  have frame: "nl.holds L i 0 (nat (al_credited_ms row)) False \<and>
      (\<forall>r \<in> set (av_leases s). al_id r \<noteq> i \<longrightarrow> lease_escrow_ok L r) \<and> lease_keys_ok (av_leases s) L \<and>
      bal L (availableAccount (al_sponsor_id row)) = bal (ledger s) (availableAccount (al_sponsor_id row)) + ?rest \<and>
      (\<forall>a. a \<noteq> lease_escrow i \<longrightarrow> a \<noteq> availableAccount (al_sponsor_id row) \<longrightarrow> bal L a = bal (ledger s) a)"
    using pay
  proof
    assume same: "L = ledger s \<and> ?rest = 0"
    have "nl.holds (ledger s) i 0 (nat (al_credited_ms row)) True"
      using D(2,5) op same by (simp add: lease_escrow_ok_def)
    then have "nl.holds (ledger s) i 0 (nat (al_credited_ms row)) False"
      by (rule nl.holds_weaken) simp
    then show ?thesis using same D(8,9) by simp
  next
    assume "\<exists>md j'. post j (lease_refund i) ''AVAILABILITY_REFUND''
         [(lease_escrow i, - ?rest), (availableAccount (al_sponsor_id row), ?rest)] md (ledger s) = Inr (j', L)"
    then obtain md j' where ret': "post j (lease_refund i) ''AVAILABILITY_REFUND''
         [(lease_escrow i, - ?rest), (availableAccount (al_sponsor_id row), ?rest)] md (ledger s) = Inr (j', L)"
      by blast
    note P = lease_refund_keeps [OF ok old op ret']
    have rest: "bal L a = bal (ledger s) a" if "a \<noteq> lease_escrow i" "a \<noteq> availableAccount (al_sponsor_id row)" for a
      using led.untouched [OF ret', of a] that by simp
    show ?thesis using P rest by blast
  qed
  have old1: "lookup al_id i (av_leases (s1 L)) = Some row" using old by (simp add: s1_def)
  have U: "availability_ok s2" "lookup al_id i (av_leases s2) = Some (closed_row state tx_now row)"
    "ledger s2 = ledger (s1 L)"
    by (rule update_lease_ok [OF upd old1]; use frame D closed_row_ok [OF D(4) st, of tx_now] in
      \<open>simp add: s1_def lease_escrow_ok_def\<close>)+
  show "availability_ok s'" using U(1) s' by auto
  show "lookup al_id i (av_leases s') = Some (closed_row state tx_now row)" using U(2) s' by auto
  have led: "ledger s' = L" using U(3) s' by (auto simp: s1_def)
  show "bal (ledger s') (availableAccount (al_sponsor_id row)) =
      bal (ledger s) (availableAccount (al_sponsor_id row)) + ?rest"
    using frame by (simp add: led)
  show "\<And>a. a \<noteq> lease_escrow i \<Longrightarrow> a \<noteq> availableAccount (al_sponsor_id row) \<Longrightarrow>
      bal (ledger s') a = bal (ledger s) a"
    using frame by (simp add: led)
qed

section \<open>One advance of a contract\<close>

definition observed_row :: "db \<Rightarrow> availability_lease \<Rightarrow> ms \<Rightarrow> availability_lease" where
  "observed_row s row now = (if al_state row = L_ACTIVE then sampled row (observation s row now) now else row)"

definition advance_closes :: "availability_lease \<Rightarrow> ms \<Rightarrow> bool \<Rightarrow> lease_state option" where
  "advance_closes row now cancelled =
     (if cancelled then Some L_CANCELLED
      else if al_state row = L_ACTIVE \<and> num (al_ends_ms row) \<le> now then Some L_COMPLETED
      else if al_state row = L_OFFERED \<and> al_offer_expires_at row \<le> now then Some L_EXPIRED
      else None)"

definition advanced_row :: "db \<Rightarrow> availability_lease \<Rightarrow> ms \<Rightarrow> ms \<Rightarrow> bool \<Rightarrow> availability_lease" where
  "advanced_row s row tx_now now cancelled =
     (case advance_closes row now cancelled of
        None \<Rightarrow> observed_row s row now
      | Some st \<Rightarrow> closed_row st tx_now (observed_row s row now))"

lemma observed_simps [simp]:
  "al_id (observed_row s row now) = al_id row" "al_state (observed_row s row now) = al_state row"
  "al_sponsor_id (observed_row s row now) = al_sponsor_id row"
  "al_provider_id (observed_row s row now) = al_provider_id row"
  "al_budget_microtu (observed_row s row now) = al_budget_microtu row"
  "al_escrow_account (observed_row s row now) = al_escrow_account row"
  "open_lease (observed_row s row now) = open_lease row"
  by (simp_all add: observed_row_def)

lemma close_same_fields:
  assumes "al_id r = al_id q" "al_escrow_account r = al_escrow_account q"
    "al_budget_microtu r = al_budget_microtu q" "al_sponsor_id r = al_sponsor_id q"
  shows "close_lease j t st k r paid s = close_lease j t st k q paid s"
  unfolding close_lease_def assms by (rule refl)

lemma first_part:
  assumes ok: "availability_ok s" and old: "lookup al_id i (av_leases s) = Some row" and op: "open_lease row"
    and ret: "(if al_state row = L_ACTIVE then advance_active j now row s
        else Inr (al_paid_microtu row, s)) = Inr (p, s1)"
  defines "new \<equiv> observed_row s row now"
  shows "availability_ok s1" and "lookup al_id i (av_leases s1) = Some new" and "p = al_paid_microtu new"
    and "\<And>a. a \<noteq> lease_escrow i \<Longrightarrow> bal (ledger s1) a = bal (ledger s) a +
      (if a = availableAccount (al_provider_id row) then al_paid_microtu new - al_paid_microtu row else 0)"
proof -
  have "availability_ok s1 \<and> lookup al_id i (av_leases s1) = Some new \<and> p = al_paid_microtu new \<and>
    (\<forall>a. a \<noteq> lease_escrow i \<longrightarrow> bal (ledger s1) a = bal (ledger s) a +
      (if a = availableAccount (al_provider_id row) then al_paid_microtu new - al_paid_microtu row else 0))"
  proof (cases "al_state row = L_ACTIVE")
    case True
    have "advance_active j now row s = Inr (p, s1)" using ret True by simp
    note A = advance_active_ok [OF ok old True this]
    show ?thesis using A(1-4) A(5) True by (auto simp: new_def observed_row_def simp del: sampled_simps)
  next
    case False
    then show ?thesis using ret ok old by (auto simp: new_def observed_row_def)
  qed
  then show "availability_ok s1" "lookup al_id i (av_leases s1) = Some new" "p = al_paid_microtu new"
    "\<And>a. a \<noteq> lease_escrow i \<Longrightarrow> bal (ledger s1) a = bal (ledger s) a +
      (if a = availableAccount (al_provider_id row) then al_paid_microtu new - al_paid_microtu row else 0)"
    by blast+
qed

lemma advance_lease_ok:
  assumes ok: "availability_ok s" and old: "lookup al_id i (av_leases s) = Some row" and op: "open_lease row"
    and ret: "advance_lease j1 j2 tx_now now row cancelled s = Inr s'"
  defines "new \<equiv> advanced_row s row tx_now now cancelled"
  shows "availability_ok s'" and "lookup al_id i (av_leases s') = Some new"
    and "\<And>a. a \<noteq> lease_escrow i \<Longrightarrow> bal (ledger s') a = bal (ledger s) a +
      (if a = availableAccount (al_provider_id row) then al_paid_microtu new - al_paid_microtu row else 0) +
      (if a = availableAccount (al_sponsor_id row) \<and> \<not> open_lease new
       then al_budget_microtu row - al_paid_microtu new else 0)"
proof -
  let ?mid = "observed_row s row now"
  obtain p s1 where
    1: "(if al_state row = L_ACTIVE then advance_active j1 now row s else Inr (al_paid_microtu row, s)) = Inr (p, s1)"
    using ret by (fastforce simp: advance_lease_def and_then_Inr)
  note F = first_part [OF ok old op 1]
  have i: "al_id row = i" using lookup_SomeD [OF old] by simp
  have op1: "open_lease ?mid" using op by simp
  have "availability_ok s' \<and> lookup al_id i (av_leases s') = Some new \<and>
    (\<forall>a. a \<noteq> lease_escrow i \<longrightarrow> bal (ledger s') a = bal (ledger s1) a +
      (if a = availableAccount (al_sponsor_id row) \<and> \<not> open_lease new
       then al_budget_microtu row - al_paid_microtu new else 0)) \<and> al_paid_microtu new = al_paid_microtu ?mid"
  proof (cases "advance_closes row now cancelled")
    case None
    then have "s' = s1" using ret unfolding advance_lease_def 1
      by (auto simp: advance_closes_def split: if_splits)
    then show ?thesis using F None op1 by (simp add: new_def advanced_row_def)
  next
    case (Some st)
    then have st: "st \<in> {L_CANCELLED, L_COMPLETED, L_EXPIRED}"
      by (auto simp: advance_closes_def split: if_splits)
    obtain k where "close_lease j2 tx_now st k row p s1 = Inr s'"
      using ret Some unfolding advance_lease_def 1
      by (auto simp: advance_closes_def Let_def split: if_splits)
    then have cl: "close_lease j2 tx_now st k ?mid (al_paid_microtu ?mid) s1 = Inr s'"
      using close_same_fields [of ?mid row j2 tx_now st k p s1] F(3) by simp
    note C = close_lease_ok [OF F(1,2) op1 st cl]
    have "new = closed_row st tx_now ?mid" by (simp add: new_def advanced_row_def Some)
    moreover have "\<not> open_lease (closed_row st tx_now ?mid)" using st by (auto simp: open_lease_def)
    ultimately show ?thesis using C by auto
  qed
  then show "availability_ok s'" "lookup al_id i (av_leases s') = Some new"
    "\<And>a. a \<noteq> lease_escrow i \<Longrightarrow> bal (ledger s') a = bal (ledger s) a +
      (if a = availableAccount (al_provider_id row) then al_paid_microtu new - al_paid_microtu row else 0) +
      (if a = availableAccount (al_sponsor_id row) \<and> \<not> open_lease new
       then al_budget_microtu row - al_paid_microtu new else 0)"
    using F(4) by auto
qed

section \<open>Accept and offer keep the invariant\<close>

lemma find_lookup:
  assumes "keyed key t" and "find (\<lambda>r. key r = k \<and> P r) t = Some r"
  shows "lookup key k t = Some r \<and> P r"
proof -
  have "r \<in> set t \<and> key r = k \<and> P r" using assms(2) by (auto simp: find_Some_iff)
  then show ?thesis using keyed_lookup [OF assms(1)] by blast
qed

lemma accept_lease_Inr:
  assumes ok: "availability_ok s" and ret: "accept_lease clock1 now user i s = Inr (row', s')"
    and fresh: "row' \<notin> set (av_leases s)"
  obtains row n s1 where "lookup al_id i (av_leases s) = Some row" "al_provider_id row = u_id user"
    "al_state row = L_OFFERED" "clock1 < al_offer_expires_at row"
    "al_resource_domain_id row \<notin> fst ` set (domain_claims s)"
    "observation s row now = Some n" "ob_ready n" "ob_kind n = INFERENCE"
    "row' = started_row now (ob_epoch n) row"
    "update_lease i (started_row now (ob_epoch n)) s = Inr s1"
    "s' = lease_event i ''accepted'' [(''epoch'', JNum (ob_epoch n))] s1"
proof -
  obtain row where row: "find (\<lambda>r. al_id r = i \<and> al_provider_id r = u_id user) (av_leases s) = Some row"
    using ret by (auto simp: accept_lease_def res_Inr)
  have key: "keyed al_id (av_leases s)" using ok by (simp add: availability_ok_def)
  have "row \<in> set (av_leases s)" using row by (auto simp: find_Some_iff)
  then have "al_state row \<noteq> L_ACTIVE" using fresh ret row by (auto simp: accept_lease_def)
  with that find_lookup [OF key row] ret show thesis
    by (auto simp: accept_lease_def row Let_def res_Inr split: option.splits)
qed

lemma started_row_ok:
  assumes "lease_row_ok row" and "al_state row = L_OFFERED"
  shows "lease_row_ok (started_row now e row)"
    and "lease_escrow_ok L row \<Longrightarrow> lease_escrow_ok L (started_row now e row)"
    and "al_id (started_row now e r) = al_id r"
    and "al_resource_domain_id (started_row now e r) = al_resource_domain_id r"
  using assms by (auto simp: started_row_def lease_row_ok_def lease_check_def lease_escrow_ok_def open_lease_def)

lemma accept_lease_ok:
  assumes ok: "availability_ok s" and ret: "accept_lease clock1 now user i s = Inr (row', s')"
  shows "availability_ok s'"
proof (cases "row' \<in> set (av_leases s)")
  case False
  obtain row s1 and n :: node_observation where old: "lookup al_id i (av_leases s) = Some row" "al_state row = L_OFFERED"
    and upd: "update_lease i (started_row now (ob_epoch n)) s = Inr s1"
    and s': "s' = lease_event i ''accepted'' [(''epoch'', JNum (ob_epoch n))] s1"
    by (rule accept_lease_Inr [OF ok ret False]) blast
  note D = availability_okD [OF ok old(1)]
  have "availability_ok s1"
    by (rule update_lease_ok(1) [OF upd old(1)]; use D(3,5,7,8,9) started_row_ok [OF D(4) old(2)] in simp)
  then show ?thesis by (simp add: s')
next
  case True
  obtain row where row: "find (\<lambda>r. al_id r = i \<and> al_provider_id r = u_id user) (av_leases s) = Some row"
    using ret by (auto simp: accept_lease_def res_Inr)
  have "row \<in> set (av_leases s)" using row by (auto simp: find_Some_iff)
  show ?thesis
  proof (cases "al_state row = L_ACTIVE")
    case True
    then show ?thesis using ret ok row by (simp add: accept_lease_def)
  next
    case nact: False
    then have "al_state row' = L_ACTIVE \<and> al_id row' = al_id row"
      using ret row by (auto simp: accept_lease_def started_row_def Let_def res_Inr split: option.splits)
    then have "row' = row"
      using keyed_unique [of al_id "av_leases s" row' row] True \<open>row \<in> set (av_leases s)\<close> ok
      by (simp add: availability_ok_def)
    then show ?thesis using nact \<open>al_state row' = L_ACTIVE \<and> al_id row' = al_id row\<close> by simp
  qed
qed

lemma escrow_ok_frame:
  assumes "lease_escrow_ok L r" and "bal L' (lease_escrow (al_id r)) = bal L (lease_escrow (al_id r))"
    and "posted L' = insert key (posted L)"
    and "\<forall>n. key \<noteq> lease_payment (al_id r) (int n)" and "key \<noteq> lease_refund (al_id r)"
  shows "lease_escrow_ok L' r"
  using assms unfolding lease_escrow_ok_def nl.holds_def by auto

lemma insert_lease_ok:
  assumes ok: "availability_ok s" and fresh: "al_id row \<notin> al_id ` set (av_leases s)"
    and st: "al_state row = L_OFFERED" and row: "lease_row_ok row"
    and L: "lease_escrow_ok L row" "\<And>r. r \<in> set (av_leases s) \<Longrightarrow> lease_escrow_ok L r"
    and keys: "posted L = insert (lease_fund (al_id row)) (posted (ledger s))"
    and ret: "insert_lease row (s\<lparr>ledger := L\<rparr>) = Inr s'"
  shows "availability_ok s'"
proof -
  have s': "s' = s\<lparr>ledger := L, av_leases := av_leases s @ [row]\<rparr>"
    using ret by (auto simp: insert_lease_def res_Inr split: if_splits)
  have "lease_keys_ok (av_leases s @ [row]) (ledger s)"
    using ok by (auto simp: availability_ok_def lease_keys_ok_def)
  moreover have "al_id row \<in> al_id ` set (av_leases s @ [row])" by simp
  ultimately have "lease_keys_ok (av_leases s @ [row]) L"
    by (intro lease_keys_insert [OF _ _ keys disjI2 [OF disjI2 [OF refl]]])
  moreover have "claims_ok (av_leases s @ [row]) (domain_claims s)"
    using ok st by (auto simp: availability_ok_def claims_ok_def)
  moreover have "keyed al_id (av_leases s @ [row])"
    using ok fresh by (simp add: availability_ok_def keyed_insert)
  ultimately show ?thesis using ok row L by (auto simp: availability_ok_def s')
qed

lemma offer_lease_ok:
  assumes ok: "availability_ok s" and fresh: "i \<notin> al_id ` set (av_leases s)"
    and ret: "offer_lease sha i j tx_now user data s = Inr (row, s')"
  shows "availability_ok s'"
proof (cases "find (\<lambda>r. al_sponsor_id r = u_id user \<and> al_idempotency_key r = lo_idempotency_key data) (av_leases s)")
  case (Some e)
  then show ?thesis using ret ok by (simp add: offer_lease_def Let_def res_Inr)
next
  case None
  let ?b = "lo_rate_microtu_per_second data * lo_duration_seconds data"
  obtain L1 j' md L s1 where
    data: "lease_request_ok data" and
    acc: "accounts (ledger s) (lease_escrow i) = None" "L1 = insert_account (lease_escrow i) (Some (u_id user)) LEASE_ESCROW (ledger s)"
    and fund: "post j (lease_fund i) ''AVAILABILITY_RESERVE''
      [(availableAccount (u_id user), - ?b), (lease_escrow i, ?b)] md L1 = Inr (j', L)"
    and ins: "insert_lease row (s\<lparr>ledger := L\<rparr>) = Inr s1"
    and s': "\<exists>k md. s' = lease_event i k md s1"
    and off: "\<exists>digest n m. row = offered_row i tx_now (u_id user) digest data n m"
    using ret by (simp add: offer_lease_def Let_def res_Inr None split_paired_Ex)
      (elim conjE exE, rule that, (assumption | simp | blast)+)
  have row: "al_id row = i" "al_state row = L_OFFERED" "al_escrow_account row = lease_escrow i"
      "al_paid_microtu row = 0" "al_credited_ms row = 0" "al_budget_microtu row = ?b"
    using off by (auto simp: offered_row_def)
  have nofund: "lease_fund i \<notin> posted L1" and nokeys: "lease_refund i \<notin> posted L1" "\<And>n. lease_payment i (int n) \<notin> posted L1"
    using ok fresh acc(2) by (auto simp: availability_ok_def lease_keys_ok_def)
  note M = led.moves [OF nofund fund]
  note R = post_posted [OF fund]
  have b0: "bal L1 (lease_escrow i) = 0"
    unfolding acc(2) insert_account_bal by (simp add: bal_def acc(1))
  have nk: "lease_refund i \<notin> posted L" "\<And>n. lease_payment i (int n) \<notin> posted L"
    using nokeys lease_fund_neq(1) [of i _ i] lease_fund_neq(3) [of i i] unfolding R by blast+
  have "lease_escrow_ok L row"
    using M [of "lease_escrow i"] b0 nk row
    by (auto simp: lease_escrow_ok_def nl.holds_def open_lease_def)
  moreover have "lease_escrow_ok L r" if "r \<in> set (av_leases s)" for r
  proof -
    have ne: "al_id r \<noteq> i" using that fresh by blast
    then have "lease_escrow (al_id r) \<noteq> lease_escrow i" using nl.escrow_inj by blast
    then have "bal L (lease_escrow (al_id r)) = bal (ledger s) (lease_escrow (al_id r))"
      using led.untouched [OF fund, of "lease_escrow (al_id r)"] acc(2) by simp
    moreover have "posted L = insert (lease_fund i) (posted (ledger s))" using R acc(2) by simp
    ultimately show ?thesis
      using ok that by (intro escrow_ok_frame [of "ledger s" r L "lease_fund i"])
        (simp_all add: availability_ok_def lease_fund_neq(2,4) del: append.simps append_Cons)
  qed
  moreover have "lease_row_ok row"
    using ins row by (auto simp: insert_lease_def lease_row_ok_def split: if_splits)
  moreover have "posted L = insert (lease_fund (al_id row)) (posted (ledger s))" using R acc(2) row(1) by simp
  ultimately have "availability_ok s1"
    using insert_lease_ok [OF ok _ row(2) _ _ _ _ ins] fresh row(1) by blast
  then show ?thesis using s' by auto
qed

section \<open>Reachable databases\<close>

text \<open>
  What the rest of the program may do beside the node leases: anything that leaves their rows, escrows, keys and claims
  alone. Grants, sessions, route contracts and funds post what they like to other accounts under other keys, route
  contracts claim and release domains, and nodes, models and users change in any way.
\<close>

definition beside_leases :: "db \<Rightarrow> db \<Rightarrow> bool" where
  "beside_leases s s' \<longleftrightarrow>
     av_leases s' = av_leases s \<and>
     (\<forall>i. bal (ledger s') (lease_escrow i) = bal (ledger s) (lease_escrow i)) \<and>
     posted (ledger s) \<subseteq> posted (ledger s') \<and>
     (\<forall>key \<in> posted (ledger s') - posted (ledger s). \<not> prefix ''lease:'' key) \<and>
     keyed fst (domain_claims s') \<and>
     (\<forall>d i. (d, Node_lease i) \<in> set (domain_claims s') \<longleftrightarrow> (d, Node_lease i) \<in> set (domain_claims s))"

text \<open>The transactions of this component, and those of the rest of the program. A new lease has a fresh id.\<close>

inductive lease_step :: "(string \<Rightarrow> string) \<Rightarrow> db \<Rightarrow> db \<Rightarrow> bool" for sha where
  offered: "offer_lease sha i j tx_now user data s = Inr (row, s') \<Longrightarrow> i \<notin> al_id ` set (av_leases s) \<Longrightarrow>
    lease_step sha s s'"
| accepted: "accept_lease clock1 now user i s = Inr (row, s') \<Longrightarrow> lease_step sha s s'"
| cancelled: "cancel_lease j1 j2 tx_now now user i s = Inr (r, s') \<Longrightarrow> lease_step sha s s'"
| reconciled: "reconcile_lease j1 j2 tx_now now i s = Inr (u, s') \<Longrightarrow> lease_step sha s s'"
| world: "beside_leases s s' \<Longrightarrow> lease_step sha s s'"

inductive_cases lease_stepE: "lease_step sha s s'"

lemma reconcile_lease_ok:
  assumes "availability_ok s" and "reconcile_lease j1 j2 tx_now now i s = Inr (u, s')"
  shows "availability_ok s'"
  using assms advance_lease_ok(1) [OF assms(1)]
  by (auto simp: reconcile_lease_def res_Inr split: option.splits)

lemma cancel_lease_ok:
  assumes ok: "availability_ok s" and ret: "cancel_lease j1 j2 tx_now now user i s = Inr (r, s')"
  shows "availability_ok s'"
proof -
  obtain row where row: "find (\<lambda>r. al_id r = i \<and>
      (al_sponsor_id r = u_id user \<or> al_provider_id r = u_id user \<or> u_role user = Admin)) (av_leases s) = Some row"
    and adv: "(if open_lease row then advance_lease j1 j2 tx_now now row True s else Inr s) = Inr s'"
    using ret by (auto simp: cancel_lease_def need_row_Inr and_then_Inr)
  have "keyed al_id (av_leases s)" using ok by (simp add: availability_ok_def)
  from find_lookup [OF this row] have "lookup al_id i (av_leases s) = Some row" by simp
  then show ?thesis using adv ok advance_lease_ok(1) [OF ok] by (auto split: if_splits)
qed

lemma lease_key_prefixes:
  "prefix ''lease:'' (lease_fund i)" "prefix ''lease:'' (lease_refund i)" "prefix ''lease:'' (lease_payment i n)"
  by (simp_all add: lease_fund_def lease_refund_def lease_payment_def pay_key_def)

lemma beside_leases_ok:
  assumes ok: "availability_ok s" and b: "beside_leases s s'"
  shows "availability_ok s'"
proof -
  have same: "av_leases s' = av_leases s"
    and bal: "\<And>i. bal (ledger s') (lease_escrow i) = bal (ledger s) (lease_escrow i)"
    and sub: "posted (ledger s) \<subseteq> posted (ledger s')"
    and new: "\<forall>key \<in> posted (ledger s') - posted (ledger s). \<not> prefix ''lease:'' key"
    and cl: "keyed fst (domain_claims s')"
      "\<And>d i. (d, Node_lease i) \<in> set (domain_claims s') \<longleftrightarrow> (d, Node_lease i) \<in> set (domain_claims s)"
    using b by (simp_all add: beside_leases_def)
  have keys: "key \<in> posted (ledger s') \<longleftrightarrow> key \<in> posted (ledger s)" if "prefix ''lease:'' key" for key
    using sub new that by blast
  have "lease_escrow_ok (ledger s') r = lease_escrow_ok (ledger s) r" for r
    by (simp add: lease_escrow_ok_def nl.holds_def bal keys lease_key_prefixes)
  moreover have "claims_ok (av_leases s') (domain_claims s')"
    using ok cl by (simp add: availability_ok_def claims_ok_def same)
  moreover have "lease_keys_ok (av_leases s') (ledger s')"
    using ok by (simp add: availability_ok_def lease_keys_ok_def keys lease_key_prefixes same)
  ultimately show ?thesis using ok by (simp add: availability_ok_def same)
qed

lemma lease_step_ok: "lease_step sha s s' \<Longrightarrow> availability_ok s \<Longrightarrow> availability_ok s'"
  by (erule lease_stepE) (blast intro: offer_lease_ok accept_lease_ok cancel_lease_ok reconcile_lease_ok beside_leases_ok)+

lemma availability_ok_initial:
  assumes "av_leases s = []" and "domain_claims s = []"
    and "\<forall>key \<in> posted (ledger s). \<not> prefix ''lease:'' key"
  shows "availability_ok s"
proof -
  have "lease_keys_ok [] (ledger s)" using assms(3) lease_key_prefixes by (auto simp: lease_keys_ok_def)
  then show ?thesis using assms(1,2) by (simp add: availability_ok_def claims_ok_def keyed_def)
qed

text \<open>
  C5: from a database with no lease and no lease posting yet, whatever offers, acceptances,
  cancellations and observations of node leases follow, interleaved with any transactions of the rest of the
  program that leave the node leases' own rows, escrow accounts, business keys and claims alone, every lease has paid exactly the
  floor of its credited seconds times its rate, within the budget; its escrow account holds the
  unpaid rest while it is open and nothing once it is closed; its credited time fits into the
  contract; and no two active leases share a domain.
\<close>

theorem leases_always_funded:
  assumes run: "(lease_step sha)\<^sup>*\<^sup>* s0 s"
    and init: "av_leases s0 = []" "domain_claims s0 = []"
      "\<forall>key \<in> posted (ledger s0). \<not> prefix ''lease:'' key"
    and row: "row \<in> set (av_leases s)"
  shows "al_paid_microtu row = al_credited_ms row * al_rate_microtu_per_second row div 1000 \<and>
    al_paid_microtu row \<le> al_budget_microtu row \<and>
    0 \<le> al_credited_ms row \<and> al_credited_ms row \<le> al_duration_seconds row * 1000 \<and>
    bal (ledger s) (lease_escrow (al_id row)) =
      (if open_lease row then al_budget_microtu row - al_paid_microtu row else 0) \<and>
    (\<forall>q \<in> set (av_leases s). al_state q = L_ACTIVE \<longrightarrow> al_state row = L_ACTIVE \<longrightarrow>
       al_resource_domain_id q = al_resource_domain_id row \<longrightarrow> q = row)"
proof -
  have ok: "availability_ok s"
    using rtranclp_keeps [OF run, of availability_ok] availability_ok_initial [OF init] lease_step_ok by blast
  then have R: "lease_row_ok row" "lease_escrow_ok (ledger s) row" using row by (auto simp: availability_ok_def)
  have "q = row" if q: "q \<in> set (av_leases s)" "al_state q = L_ACTIVE" "al_state row = L_ACTIVE"
    "al_resource_domain_id q = al_resource_domain_id row" for q
  proof -
    have c: "keyed fst (domain_claims s)"
      "(al_resource_domain_id row, Node_lease (al_id row)) \<in> set (domain_claims s)"
      "(al_resource_domain_id q, Node_lease (al_id q)) \<in> set (domain_claims s)"
      using ok row q by (auto simp: availability_ok_def claims_ok_def)
    have "al_id q = al_id row" using keyed_unique [OF c(1) c(2) c(3)] q(4) by simp
    then show ?thesis using keyed_unique [of al_id "av_leases s" q row] ok q(1) row
      by (simp add: availability_ok_def)
  qed
  with R show ?thesis by (auto simp: lease_row_ok_def lease_check_def lease_escrow_ok_def nl.holds_def)
qed

text \<open>Alice offers Bob's node 60 seconds at 100 a second; Bob accepts; three seconds are observed.\<close>

definition demo_request :: lease_request where
  "demo_request = \<lparr>lo_node_id = ''n1'', lo_duration_seconds = 60, lo_rate_microtu_per_second = 100,
     lo_idempotency_key = ''offer-0001''\<rparr>"

definition demo_offer :: "(availability_lease \<times> db) result" where
  "demo_offer = offer_lease (\<lambda>x. x) ''l1'' ''j1'' 90000 alice demo_request demo_db"

definition demo_accept :: "(availability_lease \<times> db) result" where
  "demo_accept = accept_lease 100000 100000 bob ''l1'' (after demo_offer demo_db)"

definition demo_observe :: "(unit \<times> db) result" where
  "demo_observe = reconcile_lease ''j2'' ''j3'' 103000 103000 ''l1'' (after demo_accept demo_db)"

lemma demo_runs:
  "returns demo_offer (\<lambda>(r, s). al_state r = L_OFFERED \<and> bal (ledger s) (availableAccount ''a1'') = 994000)"
  "returns demo_accept (\<lambda>(r, s). al_state r = L_ACTIVE)"
  "returns demo_observe (\<lambda>(u, s). map al_paid_microtu (av_leases s) = [300] \<and> map al_id (av_leases s) = [''l1''])"
  by code_simp+

lemma returnsE: "returns m P \<Longrightarrow> (\<And>a. m = Inr a \<Longrightarrow> P a \<Longrightarrow> thesis) \<Longrightarrow> thesis"
  by (auto simp: returns_iff)

lemma demo_steps:
  obtains r1 s1 r2 s2 s3 where "demo_offer = Inr (r1, s1)" "demo_accept = Inr (r2, s2)"
    "demo_observe = Inr ((), s3)" "lease_step (\<lambda>x. x) demo_db s1" "lease_step (\<lambda>x. x) s1 s2"
    "lease_step (\<lambda>x. x) s2 s3"
proof -
  obtain r1 s1 where 1: "demo_offer = Inr (r1, s1)" by (rule returnsE [OF demo_runs(1)]) auto
  obtain r2 s2 where 2: "demo_accept = Inr (r2, s2)" by (rule returnsE [OF demo_runs(2)]) auto
  obtain s3 where 3: "demo_observe = Inr ((), s3)" by (rule returnsE [OF demo_runs(3)]) auto
  have "''l1'' \<notin> al_id ` set (av_leases demo_db)" by (simp add: demo_db_def empty_db_def)
  then have s1: "lease_step (\<lambda>x. x) demo_db s1" using 1 unfolding demo_offer_def by (rule offered [rotated])
  have a1: "after demo_offer demo_db = s1" unfolding 1 after_def by simp
  have s2: "lease_step (\<lambda>x. x) s1 s2" using 2 unfolding demo_accept_def a1 by (rule accepted)
  have a2: "after demo_accept demo_db = s2" unfolding 2 after_def by simp
  have s3: "lease_step (\<lambda>x. x) s2 s3" using 3 unfolding demo_observe_def a2 by (rule reconciled)
  show thesis by (rule that [OF 1 2 3 s1 s2 s3])
qed

lemma demo_db_init:
  "av_leases demo_db = []" "domain_claims demo_db = []"
  "\<forall>key \<in> posted (ledger demo_db). \<not> prefix ''lease:'' key"
proof -
  have "list_all (\<lambda>j. \<not> prefix ''lease:'' (j_business_key j)) (journal (ledger demo_db))" by code_simp
  then show "\<forall>key \<in> posted (ledger demo_db). \<not> prefix ''lease:'' key"
    by (simp add: posted_def list_all_iff)
qed (simp_all add: demo_db_def empty_db_def)

theorem leases_always_funded_witness:
  "returns demo_observe (\<lambda>(u, s). \<exists>row \<in> set (av_leases s). al_paid_microtu row = 300 \<and>
     al_paid_microtu row \<le> al_budget_microtu row \<and>
     bal (ledger s) (lease_escrow (al_id row)) =
       (if open_lease row then al_budget_microtu row - al_paid_microtu row else 0))"
proof -
  obtain s1 s2 s3 where s: "demo_observe = Inr ((), s3)" "lease_step (\<lambda>x. x) demo_db s1"
    "lease_step (\<lambda>x. x) s1 s2" "lease_step (\<lambda>x. x) s2 s3" by (rule demo_steps)
  then have run: "(lease_step (\<lambda>x. x))\<^sup>*\<^sup>* demo_db s3"
    by (meson rtranclp.rtrancl_refl rtranclp.rtrancl_into_rtrancl)
  have "map al_paid_microtu (av_leases s3) = [300]" using demo_runs(3) unfolding s(1) by simp
  then obtain row where row: "row \<in> set (av_leases s3)" "al_paid_microtu row = 300" by (cases "av_leases s3") auto
  show ?thesis
    unfolding s(1) using leases_always_funded [OF run demo_db_init row(1)] row by auto
qed

text \<open>
  C28: one pass of the reconciler over an open contract, or its cancellation, leaves the contract
  in the row that the specification computes (sampled while active, then closed when cancelled,
  at its end or at the offer's expiry), pays the provider exactly the increase of the paid amount,
  returns the unpaid rest to the sponsor exactly when it closes, and moves no other money but the
  escrow's.
\<close>

theorem advance_moves_money:
  assumes ok: "availability_ok s" and old: "lookup al_id i (av_leases s) = Some row" and op: "open_lease row"
    and ret: "advance_lease j1 j2 tx_now now row cancelled s = Inr s'"
  defines "new \<equiv> advanced_row s row tx_now now cancelled"
  shows "lookup al_id i (av_leases s') = Some new \<and> availability_ok s' \<and>
    (\<forall>a. a \<noteq> lease_escrow i \<longrightarrow> bal (ledger s') a = bal (ledger s) a +
      (if a = availableAccount (al_provider_id row) then al_paid_microtu new - al_paid_microtu row else 0) +
      (if a = availableAccount (al_sponsor_id row) \<and> \<not> open_lease new
       then al_budget_microtu row - al_paid_microtu new else 0))"
  using advance_lease_ok [OF ok old op ret] by (simp add: new_def)

lemma demo_active_ok: "availability_ok (after demo_accept demo_db)"
proof -
  obtain r2 s1 s2 where s: "demo_accept = Inr (r2, s2)" "lease_step (\<lambda>x. x) demo_db s1"
    "lease_step (\<lambda>x. x) s1 s2" by (rule demo_steps)
  have "availability_ok s2"
    using lease_step_ok [OF s(3) lease_step_ok [OF s(2) availability_ok_initial [OF demo_db_init]]] .
  then show ?thesis by (simp add: s(1) after_def)
qed

definition demo_active :: db where
  "demo_active = after demo_accept demo_db"

definition demo_lease :: availability_lease where
  "demo_lease = started_row 100000 7
     (offered_row ''l1'' 90000 ''a1'' (canonical (lease_request_json demo_request)) demo_request demo_node demo_model)"

lemma demo_lease_facts [simp]:
  "al_id demo_lease = ''l1''" "open_lease demo_lease" "al_provider_id demo_lease = ''b2''"
  "al_sponsor_id demo_lease = ''a1''" "al_state demo_lease = L_ACTIVE"
  "al_sample_ms demo_lease = Some 100000" "al_paid_microtu demo_lease = 0" "al_credited_ms demo_lease = 0"
  "al_budget_microtu demo_lease = 6000" "al_ends_ms demo_lease = Some 160000" "al_node_epoch demo_lease = Some 7"
  by (simp_all add: demo_lease_def started_row_def offered_row_def open_lease_def demo_request_def demo_node_def)

lemma demo_lease_lookup: "lookup al_id ''l1'' (av_leases demo_active) = Some demo_lease"
  by code_simp

text \<open>Alice cancels after two observed seconds: Bob keeps 200, she gets 5800 back.\<close>

theorem advance_moves_money_witness:
  "returns (advance_lease ''j2'' ''j3'' 102000 102000 demo_lease True demo_active) (\<lambda>s.
     bal (ledger s) (availableAccount ''b2'') = bal (ledger demo_active) (availableAccount ''b2'') + 200 \<and>
     \<not> open_lease (the (lookup al_id ''l1'' (av_leases s))))"
proof -
  let ?m = "advance_lease ''j2'' ''j3'' 102000 102000 demo_lease True demo_active"
  let ?new = "advanced_row demo_active demo_lease 102000 102000 True"
  have "returns ?m (\<lambda>s. al_paid_microtu ?new = 200 \<and> \<not> open_lease ?new)" by code_simp
  then obtain s where s: "?m = Inr s" and new: "al_paid_microtu ?new = 200" "\<not> open_lease ?new"
    by (auto simp: returns_iff)
  have ok: "availability_ok demo_active" using demo_active_ok by (simp add: demo_active_def)
  show ?thesis
    unfolding s using advance_moves_money [OF ok demo_lease_lookup demo_lease_facts(2) s] new by simp
qed

end
