(* ===== verification/Availability_Progress.thy ===== *)
theory Availability_Progress
  imports Availability
begin

text \<open>
  What a node lease never pays for, that the reconciler always gets through, and that an offer is
  made once: the remaining properties of \<open>apps/control-api/src/availability.ts\<close>.
\<close>

section \<open>Uncredited intervals\<close>

lemma invalid_sample_pays_nothing:
  assumes "lease_row_ok row" and "\<not> sample_valid row (observation s row now) now"
  shows "al_credited_ms (observed_row s row now) = al_credited_ms row"
    and "al_paid_microtu (observed_row s row now) = al_paid_microtu row"
  using assms by (simp_all add: observed_row_def credited_after_def lease_row_ok_def)

lemma advanced_row_fields:
  "al_credited_ms (advanced_row s row t now c) = al_credited_ms (observed_row s row now)"
  "al_paid_microtu (advanced_row s row t now c) = al_paid_microtu (observed_row s row now)"
  by (simp_all add: advanced_row_def split: option.splits)

text \<open>
  C31: an interval is never paid for unless two observations at most six seconds apart, of the
  same boot of the node, both saw it ready. If the gap is longer, the epoch changed, the node is
  missing or not ready now, or was not ready at the last sample, the reconciler leaves the
  credited time, the paid amount and the provider's balance as they were.
\<close>

theorem gaps_are_not_paid:
  assumes ok: "availability_ok s" and old: "lookup al_id i (av_leases s) = Some row" and op: "open_lease row"
    and gap: "now - num (al_sample_ms row) > 6000 \<or> \<not> al_sample_ready row \<or>
      (case observation s row now of None \<Rightarrow> True
       | Some n \<Rightarrow> \<not> ob_ready n \<or> al_node_epoch row \<noteq> Some (ob_epoch n))"
    and ret: "reconcile_lease j1 j2 tx_now now i s = Inr (u, s')"
  shows "returns (Inr (the (lookup al_id i (av_leases s')))) (\<lambda>row'.
      al_credited_ms row' = al_credited_ms row \<and> al_paid_microtu row' = al_paid_microtu row) \<and>
    (al_provider_id row \<noteq> al_sponsor_id row \<longrightarrow>
      bal (ledger s') (availableAccount (al_provider_id row)) =
      bal (ledger s) (availableAccount (al_provider_id row)))"
proof -
  have inv: "\<not> sample_valid row (observation s row now) now"
    using gap by (auto simp: sample_valid_def split: option.splits)
  have adv: "advance_lease j1 j2 tx_now now row False s = Inr s'"
    using ret old op by (simp add: reconcile_lease_def res_Inr)
  note A = advance_lease_ok [OF ok old op adv]
  note I = invalid_sample_pays_nothing [OF availability_okD(4) [OF ok old] inv]
  show ?thesis using A(2) A(3) [of "availableAccount (al_provider_id row)"] I
    by (simp add: advanced_row_fields)
qed

text \<open>Bob's node restarts (a new epoch) between two observations.\<close>

definition restarted :: db where
  "restarted = demo_active\<lparr>nodes := map (\<lambda>n. n\<lparr>n_epoch := 8\<rparr>) (nodes demo_active)\<rparr>"

lemma restarted_ok: "availability_ok restarted"
  using demo_active_ok by (simp add: restarted_def demo_active_def availability_ok_def)

theorem gaps_are_not_paid_witness:
  "returns (reconcile_lease ''j2'' ''j3'' 103000 103000 ''l1'' restarted) (\<lambda>(u, s).
     al_credited_ms (the (lookup al_id ''l1'' (av_leases s))) = 0 \<and>
     bal (ledger s) (availableAccount ''b2'') = bal (ledger restarted) (availableAccount ''b2''))"
proof -
  let ?m = "reconcile_lease ''j2'' ''j3'' 103000 103000 ''l1'' restarted"
  have "returns ?m (\<lambda>(u, s). case observation restarted demo_lease 103000 of None \<Rightarrow> True
      | Some n \<Rightarrow> \<not> ob_ready n \<or> Some 7 \<noteq> Some (ob_epoch n))" by code_simp
  then obtain u s where s: "?m = Inr (u, s)"
    and g: "case observation restarted demo_lease 103000 of None \<Rightarrow> True
      | Some n \<Rightarrow> \<not> ob_ready n \<or> Some 7 \<noteq> Some (ob_epoch n)"
    by (auto simp: returns_iff)
  note gap = g [folded demo_lease_facts(11)]
  have old: "lookup al_id ''l1'' (av_leases restarted) = Some demo_lease"
    using demo_lease_lookup by (simp add: restarted_def)
  show ?thesis
    unfolding s using gaps_are_not_paid [OF restarted_ok old demo_lease_facts(2) disjI2 [OF disjI2 [OF gap]] s]
    by simp
qed

section \<open>The reconciler gets through\<close>

lemma update_lease_succeeds:
  assumes claims: "claims_ok (av_leases s) (domain_claims s)" and key: "keyed al_id (av_leases s)"
    and old: "lookup al_id i (av_leases s) = Some r" and chk: "lease_check (f r)"
    and f: "al_id (f r) = i" "al_resource_domain_id (f r) = al_resource_domain_id r"
    and st: "al_state (f r) = al_state r \<or> al_state (f r) \<noteq> L_ACTIVE"
  shows "\<exists>s'. update_lease i f s = Inr s'"
proof -
  have r: "r \<in> set (av_leases s)" "al_id r = i" using lookup_SomeD [OF old] by blast+
  have alone: False if "al_state (f r) = L_ACTIVE" "q \<in> set (av_leases s)" "al_id q \<noteq> i"
    "al_state q = L_ACTIVE" "al_resource_domain_id q = al_resource_domain_id (f r)" for q
  proof -
    have "(al_resource_domain_id r, Node_lease i) \<in> set (domain_claims s)"
      "(al_resource_domain_id r, Node_lease (al_id q)) \<in> set (domain_claims s)"
      using claims r that st f(2) unfolding claims_ok_def by auto
    then have "(al_resource_domain_id r, Node_lease i) = (al_resource_domain_id r, Node_lease (al_id q))"
      using claims keyed_unique [of fst] by (fastforce simp: claims_ok_def)
    then show False using that(3) by simp
  qed
  have "\<exists>cs. lease_claims r (f r) (domain_claims s) = Inr cs"
    using st by (auto simp: lease_claims_def)
  then show ?thesis using alone chk by (auto simp: update_lease_def old)
qed

text \<open>The ledger has room for the rest of the contract.\<close>

definition lease_room :: "ledger \<Rightarrow> availability_lease \<Rightarrow> bool" where
  "lease_room L row \<longleftrightarrow>
     accounts L (lease_escrow (al_id row)) \<noteq> None \<and>
     al_budget_microtu row \<le> MAX_AMOUNT \<and>
     (\<forall>u \<in> {al_provider_id row, al_sponsor_id row}. accounts L (availableAccount u) \<noteq> None \<and>
        0 \<le> bal L (availableAccount u) \<and>
        bal L (availableAccount u) + (al_budget_microtu row - al_paid_microtu row) \<le> MAX_AMOUNT)"

lemma advance_active_returns:
  assumes ok: "availability_ok s" and old: "lookup al_id i (av_leases s) = Some row"
    and active: "al_state row = L_ACTIVE" and room: "lease_room (ledger s) row"
    and j: "j1 \<notin> j_id ` set (journal (ledger s))"
  shows "\<exists>p s'. advance_active j1 now row s = Inr (p, s') \<and>
    (\<forall>a. accounts (ledger s') a \<noteq> None \<longleftrightarrow> accounts (ledger s) a \<noteq> None) \<and>
    j_id ` set (journal (ledger s')) \<subseteq> insert j1 (j_id ` set (journal (ledger s)))"
proof -
  note D = availability_okD [OF ok old]
  let ?new = "sampled row (observation s row now) now"
  let ?c = "credited_after row (observation s row now) now"
  let ?v = "al_paid_microtu ?new - al_paid_microtu row"
  let ?f = "sample_write row (observation s row now) (sample_until row now) ?c (al_paid_microtu ?new)"
  note S = sampled_row_ok [OF D(4) active, of "observation s row now" now]
  have S4: "0 \<le> al_credited_ms row" "0 \<le> al_paid_microtu row" using D(6) by (simp_all add: lease_check_def)
  have new_chk: "lease_check ?new" using S(1) by (simp add: lease_row_ok_def)
  then have top: "al_paid_microtu ?new \<le> al_budget_microtu row" by (simp add: lease_check_def)
  have rate: "0 < al_rate_microtu_per_second row" using D(6) by (simp add: lease_check_def)
  have total: "(?c * al_rate_microtu_per_second row) sdiv 1000 = al_paid_microtu ?new"
    using S(2) S4 rate by (simp add: sdiv_thousand)
  have esc: "al_escrow_account row = lease_escrow i" using D(2,4) by (simp add: lease_row_ok_def)
  have op: "open_lease row" using active by (simp add: open_lease_def)
  have hold: "nl.holds (ledger s) i (al_budget_microtu row - al_paid_microtu row) (nat (al_credited_ms row)) True"
    using D(2,5) op by (simp add: lease_escrow_ok_def)
  have paying: "\<exists>L. post j1 (lease_payment i ?c) ''AVAILABILITY_PAYMENT''
      [(lease_escrow i, - ?v), (availableAccount (al_provider_id row), ?v)] md (ledger s) = Inr (j1, L)"
    if pos: "0 < ?v" for md
  proof -
    have "?c \<noteq> al_credited_ms row" using pos D(4) by (auto simp: lease_row_ok_def)
    then have "nat (al_credited_ms row) < nat ?c" using S(2) S4 by simp
    then have "lease_payment i (int (nat ?c)) \<notin> posted (ledger s)"
      using hold unfolding nl.holds_def by (meson not_le)
    then have fresh: "lease_payment i ?c \<notin> posted (ledger s)" using S(2) S4 by simp
    show ?thesis
      by (rule transfer_succeeds [OF fresh j]; use pos top room D(2) hold S4 in \<open>auto simp: lease_room_def nl.holds_def\<close>)
  qed
  have upd: "\<exists>s2. update_lease i ?f (s\<lparr>ledger := L\<rparr>) = Inr s2 \<and> ledger s2 = L" for L
  proof -
    have "\<exists>s2. update_lease i ?f (s\<lparr>ledger := L\<rparr>) = Inr s2"
      by (rule update_lease_succeeds [where r = row]; use D new_chk old in \<open>simp add: sampled_def sample_write_def\<close>)
    then show ?thesis using old by (auto simp: update_lease_def res_Inr)
  qed
  show ?thesis
  proof (cases "0 < ?v")
    case True
    obtain L where L: "post j1 (lease_payment i ?c) ''AVAILABILITY_PAYMENT''
      [(lease_escrow i, - ?v), (availableAccount (al_provider_id row), ?v)]
      [(''lease_id'', JStr i), (''credited_ms'', amt ?c), (''policy'', JStr ''funded-private-v1'')] (ledger s) = Inr (j1, L)"
      using paying [OF True] by blast
    have ids: "j_id ` set (journal L) \<subseteq> insert j1 (j_id ` set (journal (ledger s)))"
      by (rule post_ids [OF L])
    obtain s2 where s2: "update_lease i ?f (s\<lparr>ledger := L\<rparr>) = Inr s2" "ledger s2 = L"
      using upd by blast
    show ?thesis using True L s2 D(2) esc ids post_domain [OF L]
      by (simp add: advance_active_def Let_def sample_credit total)
  next
    case False
    obtain s2 where s2: "update_lease i ?f (s\<lparr>ledger := ledger s\<rparr>) = Inr s2" "ledger s2 = ledger s"
      using upd by blast
    have "al_paid_microtu ?new = al_paid_microtu row" using False S(3) by simp
    then show ?thesis using s2 D(2) by (auto simp: advance_active_def Let_def sample_credit total)
  qed
qed

lemma close_lease_returns:
  assumes ok: "availability_ok s" and old: "lookup al_id i (av_leases s) = Some row" and op: "open_lease row"
    and room: "lease_room (ledger s) row" and j: "j \<notin> j_id ` set (journal (ledger s))"
    and st: "state \<in> {L_CANCELLED, L_COMPLETED, L_EXPIRED}"
  shows "\<exists>s'. close_lease j tx_now state kind row (al_paid_microtu row) s = Inr s'"
proof -
  note D = availability_okD [OF ok old]
  let ?rest = "al_budget_microtu row - al_paid_microtu row"
  have esc: "al_escrow_account row = lease_escrow i" using D(2,4) by (simp add: lease_row_ok_def)
  have hold: "nl.holds (ledger s) i ?rest (nat (al_credited_ms row)) True"
    using D(2,5) op by (simp add: lease_escrow_ok_def)
  have paid: "0 \<le> al_paid_microtu row" using D(6) by (simp add: lease_check_def)
  have pay: "\<exists>L. post j (lease_refund i) ''AVAILABILITY_REFUND''
      [(lease_escrow i, - ?rest), (availableAccount (al_sponsor_id row), ?rest)] md (ledger s) = Inr (j, L)"
    if "0 < ?rest" for md
  proof -
    have fresh: "lease_refund i \<notin> posted (ledger s)" using hold by (simp add: nl.holds_def)
    show ?thesis
      by (rule transfer_succeeds [OF fresh j]; use that room D(2) hold paid in \<open>auto simp: lease_room_def nl.holds_def\<close>)
  qed
  have upd: "\<exists>s2. update_lease i (closed_row state tx_now) (s\<lparr>ledger := L\<rparr>) = Inr s2" for L
    by (rule update_lease_succeeds [where r = row]; use D old st closed_row_ok(1) [OF D(4) st] in \<open>auto simp: lease_row_ok_def\<close>)
  obtain s0 where s0: "(if ?rest > 0 then
       and_then (post j (lease_refund (al_id row)) ''AVAILABILITY_REFUND''
           [(al_escrow_account row, - ?rest), (availableAccount (al_sponsor_id row), ?rest)]
           [(''lease_id'', JStr (al_id row))] (ledger s)) (\<lambda>(_, L). Inr (s\<lparr>ledger := L\<rparr>))
     else Inr s) = Inr s0" "\<exists>L. s0 = s\<lparr>ledger := L\<rparr>"
  proof (cases "?rest > 0")
    case True
    then obtain L where "post j (lease_refund i) ''AVAILABILITY_REFUND''
      [(lease_escrow i, - ?rest), (availableAccount (al_sponsor_id row), ?rest)] [(''lease_id'', JStr i)] (ledger s) = Inr (j, L)"
      using pay by blast
    then show thesis using that [of "s\<lparr>ledger := L\<rparr>"] True D(2) esc by auto
  next
    case False
    have "s = s\<lparr>ledger := ledger s\<rparr>" by simp
    then have "\<exists>L. s = s\<lparr>ledger := L\<rparr>" by (rule exI)
    then show thesis using that [of s] False by simp
  qed
  obtain s2 where "update_lease i (closed_row state tx_now) s0 = Inr s2" using s0(2) upd by blast
  then show ?thesis using D(2) unfolding close_lease_def Let_def s0(1) by simp
qed

lemma lease_room_observed:
  assumes ok: "availability_ok s" and old: "lookup al_id i (av_leases s) = Some row" and op: "open_lease row"
    and room: "lease_room (ledger s) row"
    and ret: "(if al_state row = L_ACTIVE then advance_active j now row s
        else Inr (al_paid_microtu row, s)) = Inr (p, s1)"
    and acc: "\<forall>a. accounts (ledger s1) a \<noteq> None \<longleftrightarrow> accounts (ledger s) a \<noteq> None"
  shows "lease_room (ledger s1) (observed_row s row now)"
proof -
  note F = first_part [OF ok old op ret]
  note D = availability_okD [OF ok old]
  have mono: "al_paid_microtu row \<le> al_paid_microtu (observed_row s row now)"
    using sampled_row_ok(3) [OF D(4)] by (simp add: observed_row_def)
  have top: "al_paid_microtu (observed_row s row now) \<le> al_budget_microtu row"
    using availability_okD(6) [OF F(1,2)] by (simp add: lease_check_def)
  show ?thesis
    using room acc mono top F(4) unfolding lease_room_def by (auto simp: algebra_simps)
qed

text \<open>
  C32: the reconciler gets through an open contract: if the journal ids it draws are new and the
  ledger has room for the rest of the budget, its transaction commits whatever the node's state;
  and once an active contract's end has passed, or an offer has expired, it leaves the contract
  closed with an empty escrow.
\<close>

theorem reconcile_gets_through:
  assumes ok: "availability_ok s" and old: "lookup al_id i (av_leases s) = Some row" and op: "open_lease row"
    and room: "lease_room (ledger s) row" and j: "j1 \<noteq> j2"
    "j1 \<notin> j_id ` set (journal (ledger s))" "j2 \<notin> j_id ` set (journal (ledger s))"
  shows "returns (reconcile_lease j1 j2 tx_now now i s) (\<lambda>(u, s').
    num (al_ends_ms row) \<le> now \<and> al_state row = L_ACTIVE \<or>
    al_offer_expires_at row \<le> now \<and> al_state row = L_OFFERED \<longrightarrow>
      bal (ledger s') (lease_escrow i) = 0 \<and>
      returns (Inr (the (lookup al_id i (av_leases s')))) (\<lambda>r. al_state r \<in> {L_COMPLETED, L_EXPIRED}))"
proof -
  obtain p s1 where 1: "(if al_state row = L_ACTIVE then advance_active j1 now row s
        else Inr (al_paid_microtu row, s)) = Inr (p, s1)"
    and acc: "\<forall>a. accounts (ledger s1) a \<noteq> None \<longleftrightarrow> accounts (ledger s) a \<noteq> None"
    and ids: "j_id ` set (journal (ledger s1)) \<subseteq> insert j1 (j_id ` set (journal (ledger s)))"
  proof (cases "al_state row = L_ACTIVE")
    case True
    then show thesis using advance_active_returns [OF ok old True room j(2), of now] that by (elim exE conjE) simp
  next
    case False
    then show thesis using that [of "al_paid_microtu row" s] by auto
  qed
  note F = first_part [OF ok old op 1]
  have room1: "lease_room (ledger s1) (observed_row s row now)" by (rule lease_room_observed [OF ok old op room 1 acc])
  have j2: "j2 \<notin> j_id ` set (journal (ledger s1))" using ids j by blast
  have close: "\<exists>s'. close_lease j2 tx_now st k row p s1 = Inr s'" if "st \<in> {L_CANCELLED, L_COMPLETED, L_EXPIRED}" for st k
    using close_lease_returns [OF F(1,2) _ room1 j2 that, of tx_now k] op F(3)
      close_same_fields [of "observed_row s row now" row j2 tx_now st k p s1] by simp
  obtain s' where s': "advance_lease j1 j2 tx_now now row False s = Inr s'"
    using close [of L_COMPLETED "''completed''"] close [of L_EXPIRED "''expired''"] unfolding advance_lease_def 1
    by (cases "al_state row = L_ACTIVE \<and> num (al_ends_ms row) \<le> now";
        cases "al_state row = L_OFFERED \<and> al_offer_expires_at row \<le> now") (auto simp: Let_def)
  note A = advance_lease_ok [OF ok old op s']
  let ?new = "advanced_row s row tx_now now False"
  have "lease_escrow_ok (ledger s') ?new" "al_id ?new = i" using availability_okD(5,2) [OF A(1,2)] by blast+
  then have "bal (ledger s') (lease_escrow i) = (if open_lease ?new then al_budget_microtu ?new - al_paid_microtu ?new else 0)"
    by (simp add: lease_escrow_ok_def nl.holds_def)
  then have "num (al_ends_ms row) \<le> now \<and> al_state row = L_ACTIVE \<or>
    al_offer_expires_at row \<le> now \<and> al_state row = L_OFFERED \<longrightarrow>
      bal (ledger s') (lease_escrow i) = 0 \<and> al_state ?new \<in> {L_COMPLETED, L_EXPIRED}"
    by (auto simp: advanced_row_def advance_closes_def open_lease_def)
  then show ?thesis using s' old op A(2) by (simp add: reconcile_lease_def)
qed

theorem reconcile_gets_through_witness:
  "returns (reconcile_lease ''j2'' ''j3'' 161000 161000 ''l1'' demo_active) (\<lambda>(u, s).
     bal (ledger s) (lease_escrow ''l1'') = 0)"
proof -
  have "list_all (\<lambda>j. j_id j \<noteq> ''j2'' \<and> j_id j \<noteq> ''j3'') (journal (ledger demo_active)) \<and>
    list_all (\<lambda>a. (case accounts (ledger demo_active) a of None \<Rightarrow> False | Some _ \<Rightarrow> True) \<and>
       0 \<le> bal (ledger demo_active) a \<and> bal (ledger demo_active) a \<le> 1000000)
      [lease_escrow ''l1'', availableAccount ''a1'', availableAccount ''b2'']"
    by code_simp
  then have room: "lease_room (ledger demo_active) demo_lease"
    and j: "''j2'' \<noteq> ''j3''" "''j2'' \<notin> j_id ` set (journal (ledger demo_active))"
    "''j3'' \<notin> j_id ` set (journal (ledger demo_active))"
    by (auto simp: list_all_iff lease_room_def MAX_AMOUNT_def split: option.splits)
  have ok: "availability_ok demo_active" using demo_active_ok by (simp add: demo_active_def)
  show ?thesis
    using reconcile_gets_through [OF ok demo_lease_lookup demo_lease_facts(2) room j, of 161000 161000]
    by (auto simp: returns_iff)
qed

section \<open>Offers are made once\<close>

text \<open>
  An offer is idempotent on the sponsor's key. Once an offer was written, the same sponsor's
  request under that key returns the stored row and changes nothing when the request is the same
  (so has the same digest), and is refused with 409 otherwise; no budget is reserved twice.
\<close>

theorem offer_replay:
  assumes first: "offer_lease sha i j tx_now user data s = Inr (row, s')"
    and fresh: "\<forall>r \<in> set (av_leases s). al_sponsor_id r = u_id user \<longrightarrow>
      al_idempotency_key r \<noteq> lo_idempotency_key data"
    and again: "lease_request_ok data2" "lo_idempotency_key data2 = lo_idempotency_key data"
      "lo_rate_microtu_per_second data2 * lo_duration_seconds data2 \<le> MAX_AMOUNT"
  shows "offer_lease sha i2 j2 tx2 user data2 s' =
    (if sha (canonical (lease_request_json data2)) = sha (canonical (lease_request_json data))
     then Inr (row, s') else Inl (AppError 409 ''idempotency_conflict''))"
proof -
  let ?P = "\<lambda>r. al_sponsor_id r = u_id user \<and> al_idempotency_key r = lo_idempotency_key data"
  have none: "find ?P (av_leases s) = None" using fresh by (auto simp: find_None_iff)
  obtain n m L s1 where ins: "insert_lease row (s\<lparr>ledger := L\<rparr>) = Inr s1"
    and s': "av_leases s' = av_leases s1"
    and row: "row = offered_row i tx_now (u_id user) (sha (canonical (lease_request_json data))) data n m"
    using first by (auto simp: offer_lease_def Let_def res_Inr none)
  have "av_leases s1 = av_leases s @ [row]"
    using ins by (auto simp: insert_lease_def res_Inr split: if_splits)
  moreover have "find ?P (xs @ [row]) = Some row" if "find ?P xs = None" for xs
    using that row by (induction xs) (auto simp: offered_row_def)
  ultimately have "find ?P (av_leases s') = Some row" using none s' by simp
  then show ?thesis using again row
    by (simp add: offer_lease_def Let_def need_def) (simp add: offered_row_def)
qed

theorem offer_replay_witness:
  "returns demo_offer (\<lambda>(r, s). offer_lease (\<lambda>x. x) ''l9'' ''j9'' 95000 alice demo_request s = Inr (r, s) \<and>
     offer_lease (\<lambda>x. x) ''l9'' ''j9'' 95000 alice (demo_request\<lparr>lo_duration_seconds := 61\<rparr>) s =
       Inl (AppError 409 ''idempotency_conflict''))"
proof -
  obtain r s where s: "demo_offer = Inr (r, s)" by (rule demo_steps)
  have fresh: "\<forall>r \<in> set (av_leases demo_db). al_sponsor_id r = u_id alice \<longrightarrow>
      al_idempotency_key r \<noteq> lo_idempotency_key demo_request" by (simp add: demo_db_init)
  have ok: "lease_request_ok demo_request \<and> lease_request_ok (demo_request\<lparr>lo_duration_seconds := 61\<rparr>) \<and>
    canonical (lease_request_json (demo_request\<lparr>lo_duration_seconds := 61\<rparr>)) \<noteq>
    canonical (lease_request_json demo_request)" by code_simp
  note R = offer_replay [OF s [unfolded demo_offer_def] fresh, where ?i2.0 = "''l9''" and ?j2.0 = "''j9''" and ?tx2.0 = 95000]
  show ?thesis unfolding s
    using R [of demo_request] R [of "demo_request\<lparr>lo_duration_seconds := 61\<rparr>"] ok
    by (simp add: demo_request_def MAX_AMOUNT_def)
qed

end
