(* ===== verification/Clock.thy ===== *)
theory Clock
  imports Prelude
begin

text \<open>
  \<open>Date.prototype.toISOString\<close>: the proleptic Gregorian date and time of a millisecond since the
  epoch, for the years 0 to 9999 that the program's dates lie in. The date of a day count is
  computed in 400-year eras of 146097 days that start on a first of March.
\<close>

definition pad0 :: "nat \<Rightarrow> int \<Rightarrow> string" where
  "pad0 k n = replicate (k - length (show_int n)) (CHR ''0'') @ show_int n"

definition day_of_era :: "int \<Rightarrow> int" where "day_of_era days = (days + 719468) mod 146097"

definition year_of_era :: "int \<Rightarrow> int" where
  "year_of_era doe = (doe - doe div 1460 + doe div 36524 - doe div 146096) div 365"

definition day_of_year :: "int \<Rightarrow> int" where
  "day_of_year doe = doe - (365 * year_of_era doe + year_of_era doe div 4 - year_of_era doe div 100)"

text \<open>Year, month and day; the months are counted from March inside a year.\<close>

definition civil :: "int \<Rightarrow> int \<times> int \<times> int" where
  "civil days =
     (let doe = day_of_era days; doy = day_of_year doe; mp = (5 * doy + 2) div 153;
          month = (if mp < 10 then mp + 3 else mp - 9) in
      (year_of_era doe + (days + 719468) div 146097 * 400 + (if month \<le> 2 then 1 else 0),
       month, doy - (153 * mp + 2) div 5 + 1))"

definition iso_string :: "int \<Rightarrow> string" where
  "iso_string t =
     (let days = t div 86400000; rest = t mod 86400000; (y, m, d) = civil days in
      pad0 4 y @ ''-'' @ pad0 2 m @ ''-'' @ pad0 2 d @ ''T'' @ pad0 2 (rest div 3600000) @ '':'' @
      pad0 2 (rest div 60000 mod 60) @ '':'' @ pad0 2 (rest div 1000 mod 60) @ ''.'' @
      pad0 3 (rest mod 1000) @ ''Z'')"

lemma iso_string_examples:
  "iso_string 0 = ''1970-01-01T00:00:00.000Z''"
  "iso_string 951782400000 = ''2000-02-29T00:00:00.000Z''"
  "iso_string 1767225599999 = ''2025-12-31T23:59:59.999Z''"
  by code_simp+

end
