(* ===== verification/Offers.thy ===== *)
theory Offers
  imports Demo
begin

text \<open>
  What can run right now: the views \<open>active_session_domains\<close> and \<open>ready_execution_offers\<close> of
  \<open>infra/migrations/005_execution_routes.sql\<close>, and \<open>apps/control-api/src/capacity.ts\<close>, which packs
  the ready offers into the declared slots of their domains and derives the temporary limit of
  sessions of an account.
\<close>

section \<open>The views\<close>

definition holds_domain :: "session_state \<Rightarrow> bool" where
  "holds_domain st \<longleftrightarrow> st = S_PREPARING \<or> st = S_AUTHORIZED \<or> st = S_RUNNING \<or> st = S_CANCELLING"

text \<open>\<open>UNION\<close> keeps each pair of session and domain once.\<close>

definition active_session_domains :: "db \<Rightarrow> (uuid \<times> uuid) list" where
  "active_session_domains s = remdups
     (concat (map (\<lambda>r. if holds_domain (s_state r) then
          (case s_resource_domain_id r of None \<Rightarrow> [] | Some d \<Rightarrow> [(s_id r, d)]) else []) (sessions s)) @
      filter (\<lambda>(i, d). \<exists>r \<in> set (sessions s). s_id r = i \<and> holds_domain (s_state r)) (session_domains s))"

definition occupied :: "db \<Rightarrow> uuid \<Rightarrow> int" where
  "occupied s d = int (length (filter (\<lambda>(i, e). e = d) (active_session_domains s)))"

record ready_offer =
  of_key :: string
  of_route :: "uuid option"
  of_model :: string
  of_root :: uuid
  of_domains :: "uuid list"
  of_nodes :: "uuid list"
  of_last_seen :: "ms option"

text \<open>\<open>last_seen > now() - interval '15 seconds'\<close>, false on a null.\<close>

definition seen_recently :: "ms \<Rightarrow> node \<Rightarrow> bool" where
  "seen_recently now n = (case n_last_seen n of None \<Rightarrow> False | Some t \<Rightarrow> t > now - 15000)"

definition node_offer :: "ms \<Rightarrow> db \<Rightarrow> node \<Rightarrow> ready_offer list" where
  "node_offer now s n =
     (case (lookup m_id (n_model_id n) (models s), lookup u_id (n_owner_id n) (users s)) of
        (Some m, Some u) \<Rightarrow>
          if n_node_kind n = INFERENCE \<and> \<not> u_disabled u \<and> m_state m = M_LOCAL_PREVIEW \<and>
             n_state n = N_READY \<and> n_desired_state n = Want_READY \<and> seen_recently now n \<and>
             mm_backend_model (m_manifest m) \<in> set (n_loaded_backend_models n)
          then [\<lparr>of_key = ''node:'' @ n_id n, of_route = None, of_model = n_model_id n, of_root = n_id n,
                 of_domains = [n_resource_domain_id n], of_nodes = [n_id n], of_last_seen = n_last_seen n\<rparr>]
          else []
      | _ \<Rightarrow> [])"

definition members_of :: "uuid \<Rightarrow> db \<Rightarrow> route_member list" where
  "members_of route s = sort_key rm_ordinal (filter (\<lambda>rm. rm_route_id rm = route) (route_members s))"

text \<open>The row that \<open>NOT EXISTS\<close> looks for: a member that keeps its route from being ready.\<close>

definition blocks_route :: "ms \<Rightarrow> db \<Rightarrow> execution_route \<Rightarrow> model \<Rightarrow> route_member \<Rightarrow> bool" where
  "blocks_route now s r m rm =
     (case (lookup n_id (rm_node_id rm) (nodes s), lookup u_id (rm_provider_id rm) (users s)) of
        (Some p, Some u) \<Rightarrow>
          (case lookup (\<lambda>a. (ra_route_id a, ra_provider_id a)) (rm_route_id rm, rm_provider_id rm) (route_acceptances s) of
             None \<Rightarrow> True
           | Some a \<Rightarrow> ra_withdrawn_at a \<noteq> None \<or> ra_route_sha256 a \<noteq> er_route_sha256 r) \<or>
          u_disabled u \<or> n_owner_id p \<noteq> rm_provider_id rm \<or>
          n_resource_domain_id p \<noteq> rm_resource_domain_id rm \<or> n_model_id p \<noteq> er_model_id r \<or>
          n_state p \<noteq> N_READY \<or> n_desired_state p \<noteq> Want_READY \<or> \<not> seen_recently now p \<or>
          mm_backend_model (m_manifest m) \<notin> set (n_loaded_backend_models p)
      | _ \<Rightarrow> False)"

definition route_offer :: "ms \<Rightarrow> db \<Rightarrow> execution_route \<Rightarrow> ready_offer list" where
  "route_offer now s r =
     (case (lookup n_id (er_root_node_id r) (nodes s), lookup m_id (er_model_id r) (models s)) of
        (Some n, Some m) \<Rightarrow>
          if er_state r = R_LOCAL_PREVIEW \<and> m_state m = M_LOCAL_PREVIEW \<and>
             m_manifest_sha256 m = er_manifest_sha256 r \<and>
             list_all (\<lambda>rm. \<not> blocks_route now s r m rm) (members_of (er_id r) s)
          then [\<lparr>of_key = ''route:'' @ er_id r, of_route = Some (er_id r), of_model = er_model_id r,
                 of_root = er_root_node_id r,
                 of_domains = sort (remdups (map rm_resource_domain_id (members_of (er_id r) s))),
                 of_nodes = map rm_node_id (members_of (er_id r) s), of_last_seen = n_last_seen n\<rparr>]
          else []
      | _ \<Rightarrow> [])"

definition ready_execution_offers :: "ms \<Rightarrow> db \<Rightarrow> ready_offer list" where
  "ready_execution_offers now s =
     concat (map (node_offer now s) (nodes s)) @ concat (map (route_offer now s) (routes s))"

section \<open>Capacity\<close>

text \<open>
  The loop of \<open>pack\<close>: an offer takes the least of what its domains have left, if that is
  positive, and \<open>Math.min()\<close> of no domain is \<open>Infinity\<close>, which no ready offer reaches.
\<close>

definition fit :: "(uuid \<Rightarrow> int option) \<Rightarrow> uuid list \<Rightarrow> int" where
  "fit remaining ds = Min (set (map (\<lambda>d. num (remaining d)) ds))"

definition take_slots :: "(uuid \<Rightarrow> int option) \<Rightarrow> uuid list \<Rightarrow> int \<Rightarrow> uuid \<Rightarrow> int option" where
  "take_slots remaining ds k = fold (\<lambda>d m. m(d \<mapsto> num (m d) - k)) ds remaining"

fun pack_loop :: "uuid list list \<Rightarrow> (uuid \<Rightarrow> int option) \<Rightarrow> int \<Rightarrow> int" where
  "pack_loop [] remaining acc = acc"
| "pack_loop (ds # offers) remaining acc =
     (if fit remaining ds > 0
      then pack_loop offers (take_slots remaining ds (fit remaining ds)) (acc + fit remaining ds)
      else pack_loop offers remaining acc)"

definition remaining_slots :: "db \<Rightarrow> resource_domain list \<Rightarrow> bool \<Rightarrow> uuid \<Rightarrow> int option" where
  "remaining_slots s ds busy =
     map_of (map (\<lambda>d. (d_id d, max 0 (d_slots d - (if busy then occupied s (d_id d) else 0)))) ds)"

datatype capacity_reason = No_ready_capacity | Shared_queue | Capacity_busy | Spare_capacity

record capacity_view =
  cap_model :: string
  cap_temporary_session_limit :: int
  cap_hard_account_limit :: int
  cap_active_for_account :: int
  cap_declared_ready_slots :: int
  cap_occupied_slots :: int
  cap_reason :: capacity_reason

definition eligible :: "ms \<Rightarrow> string \<Rightarrow> db \<Rightarrow> ready_offer list" where
  "eligible now model s = sort_key of_key (filter (\<lambda>off. of_model off = model) (ready_execution_offers now s))"

definition eligible_domains :: "ms \<Rightarrow> string \<Rightarrow> db \<Rightarrow> resource_domain list" where
  "eligible_domains now model s =
     sort_key d_id (filter (\<lambda>d. \<exists>off \<in> set (eligible now model s). d_id d \<in> set (of_domains off)) (domains s))"

definition pack :: "ms \<Rightarrow> string \<Rightarrow> db \<Rightarrow> bool \<Rightarrow> int" where
  "pack now model s busy =
     pack_loop (map of_domains (eligible now model s))
       (remaining_slots s (eligible_domains now model s) busy) 0"

definition is_terminal :: "session_state \<Rightarrow> bool" where
  "is_terminal st = (case st of S_TERMINAL _ \<Rightarrow> True | _ \<Rightarrow> False)"

definition waiting_others :: "ms \<Rightarrow> string \<Rightarrow> uuid \<Rightarrow> db \<Rightarrow> int" where
  "waiting_others now model user s = int (length (remdups (map s_user_id
     (filter (\<lambda>r. s_model_id r = model \<and> s_user_id r \<noteq> user \<and> s_state r = S_QUEUED \<and>
        s_queue_deadline r > now) (sessions s)))))"

definition active_for_account :: "string \<Rightarrow> uuid \<Rightarrow> db \<Rightarrow> int" where
  "active_for_account model user s = int (length
     (filter (\<lambda>r. s_model_id r = model \<and> s_user_id r = user \<and> \<not> is_terminal (s_state r)) (sessions s)))"

definition capacity :: "ms \<Rightarrow> string \<Rightarrow> uuid \<Rightarrow> db \<Rightarrow> capacity_view result" where
  "capacity now model user s =
     zod (model_id_ok model) (
     let slots = pack now model s False;
         spare = pack now model s True;
         waiting = waiting_others now model user s;
         limit = (if waiting > 0 \<or> slots = 0 then 1 else if spare = 0 then 2 else 4) in
     Inr \<lparr>cap_model = model, cap_temporary_session_limit = limit, cap_hard_account_limit = 4,
          cap_active_for_account = active_for_account model user s,
          cap_declared_ready_slots = slots, cap_occupied_slots = max 0 (slots - spare),
          cap_reason = (if slots = 0 then No_ready_capacity
            else if waiting > 0 then Shared_queue
            else if spare = 0 then Capacity_busy else Spare_capacity)\<rparr>)"

section \<open>Packing is feasible\<close>

text \<open>
  A placement gives each offer of a list a number of sessions; its load on a domain is the sum over
  the offers that use the domain.
\<close>

fun load :: "uuid \<Rightarrow> uuid list list \<Rightarrow> int list \<Rightarrow> int" where
  "load d (ds # offers) (k # ks) = (if d \<in> set ds then k else 0) + load d offers ks"
| "load d _ _ = 0"

lemma num_take_slots:
  "distinct ds \<Longrightarrow> num (take_slots remaining ds k d) = num (remaining d) - (if d \<in> set ds then k else 0)"
  unfolding take_slots_def by (induction ds arbitrary: remaining) auto

lemma fit_le: "d \<in> set ds \<Longrightarrow> fit remaining ds \<le> num (remaining d)"
  by (simp add: fit_def)

lemma pack_loop_feasible:
  assumes "\<forall>ds \<in> set offers. distinct ds \<and> ds \<noteq> []" and "\<forall>d. 0 \<le> num (remaining d)"
  shows "\<exists>ks. length ks = length offers \<and> (\<forall>k \<in> set ks. 0 \<le> k) \<and>
    pack_loop offers remaining acc = acc + sum_list ks \<and>
    (\<forall>d. load d offers ks \<le> num (remaining d))"
  using assms
proof (induction offers remaining acc rule: pack_loop.induct)
  case (1 remaining acc)
  then show ?case by simp
next
  case (2 ds offers remaining acc)
  show ?case
  proof (cases "fit remaining ds > 0")
    case True
    let ?r = "take_slots remaining ds (fit remaining ds)"
    have left: "num (?r d) = num (remaining d) - (if d \<in> set ds then fit remaining ds else 0)" for d
      using "2.prems"(1) by (simp add: num_take_slots)
    have "\<forall>d. 0 \<le> num (?r d)" using "2.prems"(2) fit_le by (simp add: left)
    then obtain ks where ks: "length ks = length offers" "\<forall>k \<in> set ks. 0 \<le> k"
      "pack_loop offers ?r (acc + fit remaining ds) = acc + fit remaining ds + sum_list ks"
      "\<forall>d. load d offers ks \<le> num (?r d)"
      using "2.IH"(1) [OF True] "2.prems"(1) by auto
    have "load d (ds # offers) (fit remaining ds # ks) \<le> num (remaining d)" for d
      using ks(4) [rule_format, of d] by (simp add: left)
    with ks True show ?thesis by (intro exI [of _ "fit remaining ds # ks"]) auto
  next
    case False
    then obtain ks where ks: "length ks = length offers" "\<forall>k \<in> set ks. 0 \<le> k"
      "pack_loop offers remaining acc = acc + sum_list ks" "\<forall>d. load d offers ks \<le> num (remaining d)"
      using "2.IH"(2) "2.prems" by auto
    then show ?thesis using False by (intro exI [of _ "0 # ks"]) auto
  qed
qed

lemma sort_key_Nil_iff [simp]: "sort_key f xs = [] \<longleftrightarrow> xs = []"
  by (metis length_sort length_0_conv)

lemma eligible_domain_lists:
  assumes "ds \<in> set (map of_domains (eligible now model s))"
    and "\<forall>r \<in> set (routes s). members_of (er_id r) s \<noteq> []"
  shows "distinct ds \<and> ds \<noteq> []"
  using assms unfolding eligible_def ready_execution_offers_def
  by (auto simp: node_offer_def route_offer_def split: option.splits if_splits)

lemma map_of_nonneg:
  "(\<And>x. x \<in> set xs \<Longrightarrow> 0 \<le> snd x) \<Longrightarrow> 0 \<le> num (map_of xs d)"
  by (induction xs) auto

lemma remaining_nonneg: "0 \<le> num (remaining_slots s ds busy d)"
  unfolding remaining_slots_def by (rule map_of_nonneg) auto

lemma remaining_slots_le:
  assumes "keyed d_id (domains s)" and "dom0 \<in> set (domains s)" and "0 \<le> d_slots dom0"
  shows "num (remaining_slots s (eligible_domains now model s) False (d_id dom0)) \<le> d_slots dom0"
proof (cases "remaining_slots s (eligible_domains now model s) False (d_id dom0)")
  case (Some v)
  then have "(d_id dom0, v) \<in> set (map (\<lambda>d. (d_id d, max 0 (d_slots d))) (eligible_domains now model s))"
    by (auto simp: remaining_slots_def dest: map_of_SomeD)
  then obtain e where "e \<in> set (domains s)" "d_id e = d_id dom0" "v = max 0 (d_slots e)"
    by (auto simp: eligible_domains_def)
  then show ?thesis using Some keyed_unique [OF assms(1), of e dom0] assms(2,3) by simp
qed (simp add: assms(3))

text \<open>
  C33: the declared capacity never overcommits: the number of slots that \<open>capacity\<close> declares can be
  placed on the ready offers at once, each session on a complete node or route, without any
  domain exceeding its declared slots; and the temporary limit lies between one session, when
  somebody else waits or nothing is ready, and the hard limit of four.
\<close>

theorem capacity_is_conservative:
  assumes doms: "keyed d_id (domains s)" "\<forall>d \<in> set (domains s). 0 \<le> d_slots d"
    and routes: "\<forall>r \<in> set (routes s). members_of (er_id r) s \<noteq> []"
    and ret: "capacity now model user s = Inr c"
  shows "(\<exists>ks. length ks = length (eligible now model s) \<and> (\<forall>k \<in> set ks. 0 \<le> k) \<and>
      cap_declared_ready_slots c = sum_list ks \<and>
      (\<forall>d \<in> set (domains s). load (d_id d) (map of_domains (eligible now model s)) ks \<le> d_slots d)) \<and>
    1 \<le> cap_temporary_session_limit c \<and> cap_temporary_session_limit c \<le> cap_hard_account_limit c \<and>
    (waiting_others now model user s > 0 \<or> cap_declared_ready_slots c = 0 \<longrightarrow> cap_temporary_session_limit c = 1)"
proof -
  let ?offers = "map of_domains (eligible now model s)"
  let ?r = "remaining_slots s (eligible_domains now model s) False"
  obtain ks where ks: "length ks = length ?offers" "\<forall>k \<in> set ks. 0 \<le> k"
    "pack now model s False = sum_list ks" "\<forall>d. load d ?offers ks \<le> num (?r d)"
    using pack_loop_feasible [of ?offers ?r 0] eligible_domain_lists [OF _ routes] remaining_nonneg
    unfolding pack_def by auto
  have "load (d_id d) ?offers ks \<le> d_slots d" if "d \<in> set (domains s)" for d
    using ks(4) [rule_format, of "d_id d"] remaining_slots_le [OF doms(1) that] doms(2) that
    by (meson order.trans)
  then show ?thesis using ret ks by (auto simp: capacity_def Let_def zod_Inr)
qed

theorem capacity_is_conservative_witness:
  "returns (capacity 100000 ''lab-model'' ''a1'' demo_db)
     (\<lambda>c. cap_declared_ready_slots c = 1 \<and> cap_temporary_session_limit c = 4 \<and>
        cap_temporary_session_limit c \<le> cap_hard_account_limit c)"
proof -
  have "returns (capacity 100000 ''lab-model'' ''a1'' demo_db)
      (\<lambda>c. cap_declared_ready_slots c = 1 \<and> cap_temporary_session_limit c = 4)" by code_simp
  then obtain c where c: "capacity 100000 ''lab-model'' ''a1'' demo_db = Inr c"
    "cap_declared_ready_slots c = 1" "cap_temporary_session_limit c = 4" by (auto simp: returns_iff)
  show ?thesis unfolding c(1)
    using capacity_is_conservative [OF _ _ _ c(1)] c(2,3)
    by (simp add: demo_db_def empty_db_def demo_domain_def keyed_def)
qed

end
