(* ===== verification/Cooperative.thy ===== *)
theory Cooperative
  imports Offers Demo
begin

text \<open>
  The core of the cooperative funds, \<open>apps/control-api/src/cooperative.ts\<close>: the allocation of a
  charge to a fund's accounts (\<open>recycle\<close>), the snapshot of a fund's targets and state, the
  settlement of a covered session, the exact refund with the triggers of the sessions table that its update
  runs (\<open>infra/migrations/001\<close>, \<open>007\<close>), and the eligibility of an offer for a cooperative session. Several reads of \<open>Date.now()\<close> in one call are one argument.
\<close>

section \<open>Allocation\<close>

definition gap :: "int \<Rightarrow> int \<Rightarrow> int" where
  "gap target balance = (if target > balance then target - balance else 0)"

record recycled =
  rec_floor :: int
  rec_reserve :: int
  rec_working :: int
  rec_burned :: int

definition recycle :: "int \<Rightarrow> int \<Rightarrow> int \<Rightarrow> int \<Rightarrow> int \<Rightarrow> int \<Rightarrow> recycled" where
  "recycle q w r f wt rt =
     (let fl = min q (gap f w);
          reserve = min (q - fl) (gap rt r);
          working = min (q - fl - reserve) (gap wt (w + fl)) in
      \<lparr>rec_floor = fl, rec_reserve = reserve, rec_working = working,
       rec_burned = q - fl - reserve - working\<rparr>)"

section \<open>The snapshot of a fund\<close>

definition window_lease :: "db \<Rightarrow> cooperative_window \<Rightarrow> route_lease option" where
  "window_lease s cw = lookup rl_id (cw_lease_id cw) (rt_leases s)"

definition lease_funded :: "route_lease \<Rightarrow> bool" where
  "lease_funded l \<longleftrightarrow> rl_state l \<in> {L_OFFERED, L_ACTIVE, L_DRAINING}"

text \<open>The unpaid budgets of a group's windows of one kind; the essential ones only while they run.\<close>

definition group_held :: "ms \<Rightarrow> db \<Rightarrow> cooperative_group \<Rightarrow> coverage_kind \<Rightarrow> int" where
  "group_held tx_now s g kind = sum_list (map
     (\<lambda>cw. case window_lease s cw of
        None \<Rightarrow> 0
      | Some l \<Rightarrow>
          if cw_pool_id cw = cg_pool_id g \<and> cw_group_key cw = cg_group_key g \<and>
             cw_coverage_kind cw = kind \<and> lease_funded l \<and>
             (kind = ESSENTIAL \<longrightarrow>
                (case rl_ends_ms l of None \<Rightarrow> False | Some e \<Rightarrow> e > tx_now) \<or>
                (rl_state l = L_OFFERED \<and> rl_offer_expires_at l > tx_now))
          then rl_budget_microtu l - rl_paid_microtu l else 0) (windows s))"

definition group_ready :: "ms \<Rightarrow> db \<Rightarrow> cooperative_group \<Rightarrow> bool" where
  "group_ready tx_now s g \<longleftrightarrow>
     (\<exists>cr \<in> set (pool_routes s). cr_pool_id cr = cg_pool_id g \<and> cr_group_key cr = cg_group_key g \<and>
        (\<exists>off \<in> set (ready_execution_offers tx_now s). of_route off = Some (cr_route_id cr)))"

record group_snapshot =
  gs_group :: cooperative_group
  gs_ready :: bool
  gs_held :: int
  gs_expansion_held :: int

record pool_snapshot =
  sn_groups :: "group_snapshot list"
  sn_working :: int
  sn_reserve :: int
  sn_burned :: int
  sn_floor :: int
  sn_working_target :: int
  sn_reserve_target :: int
  sn_essential_held :: int
  sn_expansion_held :: int
  sn_minimum :: int
  sn_state :: pool_state
  sn_healthy_since :: "ms option"

definition group_cost :: "cooperative_group \<Rightarrow> int" where
  "group_cost g = cg_rate_microtu_per_second g * cg_duration_seconds g"

definition snapshot_groups :: "ms \<Rightarrow> db \<Rightarrow> uuid \<Rightarrow> group_snapshot list" where
  "snapshot_groups tx_now s pool = map
     (\<lambda>g. \<lparr>gs_group = g, gs_ready = group_ready tx_now s g, gs_held = group_held tx_now s g ESSENTIAL,
        gs_expansion_held = group_held tx_now s g EXPANSION\<rparr>)
     (sort_key cg_group_key (filter (\<lambda>g. cg_pool_id g = pool) (pool_groups s)))"

text \<open>
  The three accounts of a fund are created with it and never deleted, so the balance of a missing account, which would
  be an exception in the code, does not arise.
\<close>

definition cooperativeSnapshot :: "ms \<Rightarrow> ms \<Rightarrow> db \<Rightarrow> cooperative_pool \<Rightarrow> pool_snapshot" where
  "cooperativeSnapshot date_now tx_now s p =
     (let groups = snapshot_groups tx_now s (cp_id p);
          rate = sum_list (map (\<lambda>g. cg_rate_microtu_per_second (gs_group g)) groups);
          held = sum_list (map gs_held groups);
          expansionHeld = sum_list (map gs_expansion_held groups);
          floor_target = gap (rate * 21600) held;
          workingTarget = gap (rate * 86400) held;
          reserveTarget = rate * 259200;
          working = bal (ledger s) (cp_working_account p);
          reserve = bal (ledger s) (cp_reserve_account p);
          minimum = sum_list (map (\<lambda>g. if gs_held g > 0 then 0 else group_cost (gs_group g)) groups);
          supported = (\<not> cp_paused p \<and> cp_support_until p > date_now);
          allReady = list_all gs_ready groups;
          continuous = (supported \<and> allReady \<and> working \<ge> floor_target \<and> reserve \<ge> reserveTarget);
          oldSample = num (cp_sample_at p);
          healthySince =
            (if continuous
             then (if cp_healthy_since p \<noteq> None \<and> date_now - oldSample \<le> 6000
                   then cp_healthy_since p else Some date_now)
             else None);
          anyAffordable = list_ex (\<lambda>g. gs_ready g \<and>
            (gs_held g > 0 \<or> working \<ge> group_cost (gs_group g) \<or> reserve \<ge> group_cost (gs_group g))) groups;
          state =
            (if supported \<and> anyAffordable
             then (if \<not> allReady \<or> working < minimum then DEFENSE
                   else if healthySince \<noteq> None \<and> date_now - num healthySince \<ge> 86400000 then NORMAL
                   else RECOVERY)
             else HIBERNATING) in
      \<lparr>sn_groups = groups, sn_working = working, sn_reserve = reserve,
       sn_burned = bal (ledger s) (cp_burn_account p), sn_floor = floor_target,
       sn_working_target = workingTarget, sn_reserve_target = reserveTarget,
       sn_essential_held = held, sn_expansion_held = expansionHeld, sn_minimum = minimum,
       sn_state = state, sn_healthy_since = healthySince\<rparr>)"

section \<open>Settlement of a covered session\<close>

text \<open>\<open>locked\<close>: the fund's row, locked.\<close>

definition locked :: "uuid \<Rightarrow> db \<Rightarrow> (cooperative_pool \<Rightarrow> 'a result) \<Rightarrow> 'a result" where
  "locked i s rest = need_row (lookup cp_id i (pools s)) 404 ''pool_missing'' rest"

definition settlement_check :: "cooperative_settlement \<Rightarrow> bool" where
  "settlement_check cs \<longleftrightarrow>
     0 < cs_charge_microtu cs \<and> 0 \<le> cs_working_microtu cs \<and> 0 \<le> cs_reserve_microtu cs \<and>
     0 \<le> cs_burned_microtu cs \<and>
     cs_charge_microtu cs = cs_working_microtu cs + cs_reserve_microtu cs + cs_burned_microtu cs"

definition insert_settlement :: "cooperative_settlement \<Rightarrow> db \<Rightarrow> db result" where
  "insert_settlement cs s =
     (if \<not> settlement_check cs then Inl (DbError ''23514'')
      else and_then (insert_row cs_session_id cs (settlements s)) (\<lambda>t. Inr (s\<lparr>settlements := t\<rparr>)))"

definition allocation_json :: "cooperative_pool \<Rightarrow> pool_snapshot \<Rightarrow> recycled \<Rightarrow> json" where
  "allocation_json p snap a = JObj
     [(''policy'', JStr (cp_policy_version p)),
      (''before'', JObj [(''working'', amt (sn_working snap)), (''reserve'', amt (sn_reserve snap))]),
      (''targets'', JObj [(''floor'', amt (sn_floor snap)), (''working'', amt (sn_working_target snap)),
         (''reserve'', amt (sn_reserve_target snap))]),
      (''floor'', amt (rec_floor a)), (''reserve'', amt (rec_reserve a)),
      (''working'', amt (rec_working a)), (''burned'', amt (rec_burned a)),
      (''compensation'', JStr ''READINESS_ONLY''), (''issuance_microtu'', JStr ''0'')]"

definition settlement_split :: "pool_snapshot \<Rightarrow> int \<Rightarrow> recycled" where
  "settlement_split snap charge =
     recycle charge (sn_working snap) (sn_reserve snap) (sn_floor snap)
       (sn_working_target snap) (sn_reserve_target snap)"

definition settlement_row :: "session \<Rightarrow> cooperative_pool \<Rightarrow> int \<Rightarrow> recycled \<Rightarrow> cooperative_settlement" where
  "settlement_row r p charge a =
     \<lparr>cs_session_id = s_id r, cs_pool_id = cp_id p, cs_policy_sha256 = cp_policy_sha256 p,
      cs_coverage_lease_id = the (s_coverage_lease_id r), cs_charge_microtu = charge,
      cs_working_microtu = rec_floor a + rec_working a, cs_reserve_microtu = rec_reserve a,
      cs_burned_microtu = rec_burned a\<rparr>"

definition recycleSettlement ::
  "ms \<Rightarrow> ms \<Rightarrow> session \<Rightarrow> int \<Rightarrow> db \<Rightarrow> (((string \<times> int) list \<times> json) \<times> db) result" where
  "recycleSettlement date_now tx_now r charge s =
     locked (case s_cooperative_pool_id r of None \<Rightarrow> [] | Some i \<Rightarrow> i) s (\<lambda>p.
     need (Some (cp_policy_sha256 p) = s_cooperative_policy_sha256 r \<and> s_coverage_lease_id r \<noteq> None)
       500 ''cooperative_context'' (
     let snap = cooperativeSnapshot date_now tx_now s p;
         a = settlement_split snap charge in
     and_then (insert_settlement (settlement_row r p charge a) s) (\<lambda>s'.
     Inr (([(cp_working_account p, rec_floor a + rec_working a), (cp_reserve_account p, rec_reserve a),
            (cp_burn_account p, rec_burned a)], allocation_json p snap a), s'))))"

section \<open>Eligibility\<close>

definition cooperativeEligibility :: "ms \<Rightarrow> db \<Rightarrow> session \<Rightarrow> ready_offer \<Rightarrow> bool" where
  "cooperativeEligibility tx_now s r off \<longleftrightarrow>
     (case s_cooperative_pool_id r of
        None \<Rightarrow> True
      | Some pool \<Rightarrow>
          (\<exists>cw \<in> set (windows s).
             case (window_lease s cw, lookup cp_id (cw_pool_id cw) (pools s)) of
               (Some l, Some cp) \<Rightarrow>
                 cw_pool_id cw = pool \<and> of_route off = Some (rl_route_id l) \<and>
                 s_cooperative_policy_sha256 r = Some (cp_policy_sha256 cp) \<and>
                 \<not> cp_paused cp \<and> cp_support_until cp > tx_now \<and>
                 rl_state l \<in> {L_ACTIVE, L_DRAINING} \<and>
                 (case rl_ends_ms l of None \<Rightarrow> False | Some e \<Rightarrow> e > tx_now + 10000) \<and>
                 \<not> (\<exists>am \<in> set (rt_members s). lm_lease_id am = rl_id l \<and> lm_withdrawn_at am \<noteq> None)
             | _ \<Rightarrow> False))"

section \<open>The triggers of the sessions table\<close>

text \<open>
  The checks that an insertion or an update of a session goes through: the table's own
  (\<open>session_check\<close>) and the two triggers of \<open>infra/migrations/007\<close>. Every \<open>UPDATE sessions\<close> of the
  program is \<open>update_session\<close>.
\<close>

definition session_check :: "session \<Rightarrow> bool" where
  "session_check r \<longleftrightarrow>
     0 < s_request_bytes r \<and> 0 \<le> s_hold_microtu r \<and> 0 \<le> s_charged_microtu r \<and>
     s_charged_microtu r \<le> s_hold_microtu r \<and>
     (s_cooperative_pool_id r = None \<longleftrightarrow> s_cooperative_policy_sha256 r = None) \<and>
     (s_coverage_lease_id r = None \<longleftrightarrow> s_coverage_terms_sha256 r = None)"

text \<open>Trigger \<open>check_cooperative_session\<close>.\<close>

definition session_identity :: "db \<Rightarrow> session \<Rightarrow> bool" where
  "session_identity s r \<longleftrightarrow>
     (case lookup q_id (s_quote_id r) (quotes s) of
        None \<Rightarrow> False
      | Some q \<Rightarrow> q_cooperative_pool_id q = s_cooperative_pool_id r \<and>
          q_cooperative_policy_sha256 q = s_cooperative_policy_sha256 r) \<and>
     (case s_coverage_lease_id r of
        None \<Rightarrow> True
      | Some l \<Rightarrow> (\<exists>cw \<in> set (windows s). cw_lease_id cw = l \<and>
          Some (cw_pool_id cw) = s_cooperative_pool_id r \<and>
          (case window_lease s cw of
             None \<Rightarrow> False
           | Some rl \<Rightarrow> Some (rl_route_id rl) = s_route_id r \<and>
               Some (rl_terms_sha256 rl) = s_coverage_terms_sha256 r)))"

text \<open>Trigger \<open>cooperative_immutable_context\<close>.\<close>

definition cooperation_kept :: "session \<Rightarrow> session \<Rightarrow> bool" where
  "cooperation_kept old new \<longleftrightarrow>
     s_cooperative_pool_id new = s_cooperative_pool_id old \<and>
     s_cooperative_policy_sha256 new = s_cooperative_policy_sha256 old \<and>
     (s_coverage_lease_id old \<noteq> None \<longrightarrow>
        s_coverage_lease_id new = s_coverage_lease_id old \<and>
        s_coverage_terms_sha256 new = s_coverage_terms_sha256 old)"

definition update_session :: "uuid \<Rightarrow> (session \<Rightarrow> session) \<Rightarrow> db \<Rightarrow> db result" where
  "update_session i f s =
     (case lookup s_id i (sessions s) of
        None \<Rightarrow> Inr s
      | Some old \<Rightarrow>
          (if \<not> session_identity s (f old) \<or> \<not> cooperation_kept old (f old) then Inl (DbError ''P0001'')
           else if \<not> session_check (f old) then Inl (DbError ''23514'')
           else Inr (s\<lparr>sessions := update_row s_id i f (sessions s)\<rparr>)))"

section \<open>Refund\<close>

definition cooperative_event ::
  "uuid \<Rightarrow> uuid option \<Rightarrow> string \<Rightarrow> (string \<times> json) list \<Rightarrow> db \<Rightarrow> db" where
  "cooperative_event p actor kind metadata s =
     s\<lparr>cooperative_events := cooperative_events s @ [(event p kind metadata)\<lparr>ev_actor := actor\<rparr>]\<rparr>"

definition reason_ok :: "string \<Rightarrow> bool" where
  "reason_ok t \<longleftrightarrow> 20 \<le> length (trim t) \<and> length (trim t) \<le> 500"

definition refund_key :: "uuid \<Rightarrow> string" where
  "refund_key i = ''coop-refund:'' @ i"

definition refunded_row :: "session \<Rightarrow> session" where
  "refunded_row r = r\<lparr>s_billing_state := B_REFUNDED\<rparr>"

definition refund :: "uuid \<Rightarrow> user \<Rightarrow> uuid \<Rightarrow> string \<Rightarrow> cooperative_refund handler" where
  "refund j user i reason s =
     need (u_role user = Admin) 403 ''admin_required'' (
     zod (reason_ok reason) (
     need (lookup s_id i (sessions s) \<noteq> None \<and> lookup cs_session_id i (settlements s) \<noteq> None)
       404 ''settlement_missing'' (
     let session = the (lookup s_id i (sessions s)); cs = the (lookup cs_session_id i (settlements s)) in
     case lookup cf_session_id i (refunds s) of
       Some old \<Rightarrow> Inr (old, s)
     | None \<Rightarrow>
         locked (cs_pool_id cs) s (\<lambda>p.
         and_then (post j (refund_key i) ''COOPERATIVE_CONSUMPTION_REFUND''
             [(cp_working_account p, - cs_working_microtu cs), (cp_reserve_account p, - cs_reserve_microtu cs),
              (cp_burn_account p, - cs_burned_microtu cs),
              (availableAccount (s_user_id session), cs_charge_microtu cs)]
             [(''session_id'', JStr i), (''pool_id'', JStr (cp_id p)), (''reason'', JStr (trim reason)),
              (''source'', JStr ''EXACT_ORIGINAL_DESTINATIONS''),
              (''burn_reversal_microtu'', amt (cs_burned_microtu cs)), (''issuance_microtu'', JStr ''0'')]
             (ledger s)) (\<lambda>(j', L).
         let row = \<lparr>cf_session_id = i, cf_actor_id = u_id user, cf_reason = trim reason, cf_journal_id = j'\<rparr> in
         and_then (insert_row cf_session_id row (refunds s)) (\<lambda>t.
         and_then (update_session i refunded_row (s\<lparr>ledger := L, refunds := t\<rparr>)) (\<lambda>s'.
         Inr (row, cooperative_event (cp_id p) (Some (u_id user)) ''consumption_refunded''
             [(''session_id'', JStr i), (''journal_id'', JStr j')] s'))))))))"

section \<open>Properties\<close>

lemma gap_nonneg [simp]: "0 \<le> gap t b"
  by (simp add: gap_def)

lemma min_gap:
  assumes "0 \<le> q" and "x = min q (gap t b)"
  shows "0 \<le> x \<and> x \<le> q \<and> b + x \<le> max b t \<and> (x < q \<longrightarrow> b + x \<ge> t)"
  using assms by (auto simp: gap_def min_def max_def)

text \<open>
  C34: the allocation of a charge is exact and fills the fund in order of priority. The four parts
  are non-negative and add up to the charge; the working account's floor is filled before
  anything else, the reserve target before the rest of the working target, no part exceeds the
  gap it fills, and credits are burned only when the floor, the reserve and the working target
  are all met.
\<close>

theorem recycle_priority:
  assumes "0 \<le> q"
  shows "let a = recycle q w r f wt rt in
    rec_floor a + rec_reserve a + rec_working a + rec_burned a = q \<and>
    0 \<le> rec_floor a \<and> 0 \<le> rec_reserve a \<and> 0 \<le> rec_working a \<and> 0 \<le> rec_burned a \<and>
    w + rec_floor a \<le> max w f \<and> r + rec_reserve a \<le> max r rt \<and>
    w + rec_floor a + rec_working a \<le> max (max w f) wt \<and>
    (rec_reserve a + rec_working a + rec_burned a > 0 \<longrightarrow> w + rec_floor a \<ge> f) \<and>
    (rec_working a + rec_burned a > 0 \<longrightarrow> r + rec_reserve a \<ge> rt) \<and>
    (rec_burned a > 0 \<longrightarrow> w + rec_floor a + rec_working a \<ge> wt)"
proof -
  define x where "x = min q (gap f w)"
  define y where "y = min (q - x) (gap rt r)"
  define z where "z = min (q - x - y) (gap wt (w + x))"
  have a: "recycle q w r f wt rt =
      \<lparr>rec_floor = x, rec_reserve = y, rec_working = z, rec_burned = q - x - y - z\<rparr>"
    by (simp add: recycle_def Let_def x_def y_def z_def)
  have X: "0 \<le> x \<and> x \<le> q \<and> w + x \<le> max w f \<and> (x < q \<longrightarrow> w + x \<ge> f)"
    using assms x_def by (rule min_gap)
  have Y: "0 \<le> y \<and> y \<le> q - x \<and> r + y \<le> max r rt \<and> (y < q - x \<longrightarrow> r + y \<ge> rt)"
    using X y_def by (intro min_gap) auto
  have Z: "0 \<le> z \<and> z \<le> q - x - y \<and> w + x + z \<le> max (w + x) wt \<and> (z < q - x - y \<longrightarrow> w + x + z \<ge> wt)"
    using Y z_def by (intro min_gap) auto
  have "max (w + x) wt \<le> max (max w f) wt" using X by linarith
  then have "w + x + z \<le> max (max w f) wt" using Z by linarith
  with X Y Z show ?thesis by (simp add: a Let_def)
qed

theorem recycle_priority_witness:
  "let a = recycle 100 10 0 40 70 50 in
     rec_floor a = 30 \<and> rec_reserve a = 50 \<and> rec_working a = 20 \<and> rec_burned a = 0 \<and>
     rec_floor a + rec_reserve a + rec_working a + rec_burned a = 100"
  using recycle_priority [of 100 10 0 40 70 50] by (simp add: recycle_def gap_def Let_def)

lemma settlement_row_simps [simp]:
  "cs_session_id (settlement_row r p c a) = s_id r" "cs_charge_microtu (settlement_row r p c a) = c"
  "cs_working_microtu (settlement_row r p c a) = rec_floor a + rec_working a"
  "cs_reserve_microtu (settlement_row r p c a) = rec_reserve a"
  "cs_burned_microtu (settlement_row r p c a) = rec_burned a"
  by (simp_all add: settlement_row_def)

lemma recycleSettlement_Inr:
  assumes ret: "recycleSettlement date_now tx_now r charge s = Inr ((lines, alloc), s')"
  obtains p a where "lines = [(cp_working_account p, rec_floor a + rec_working a),
      (cp_reserve_account p, rec_reserve a), (cp_burn_account p, rec_burned a)]"
    "p \<in> set (pools s)" "settlement_check (settlement_row r p charge a)"
    "s' = s\<lparr>settlements := settlements s @ [settlement_row r p charge a]\<rparr>"
    "lookup cp_id (case s_cooperative_pool_id r of None \<Rightarrow> [] | Some i \<Rightarrow> i) (pools s) = Some p"
    "s_id r \<notin> cs_session_id ` set (settlements s)"
proof -
  obtain p where p: "lookup cp_id (case s_cooperative_pool_id r of None \<Rightarrow> [] | Some i \<Rightarrow> i) (pools s) = Some p"
    using ret unfolding recycleSettlement_def locked_def need_row_Inr by blast
  define a where "a = settlement_split (cooperativeSnapshot date_now tx_now s p) charge"
  have ins: "and_then (insert_settlement (settlement_row r p charge a) s) (\<lambda>s'.
     Inr (([(cp_working_account p, rec_floor a + rec_working a), (cp_reserve_account p, rec_reserve a),
            (cp_burn_account p, rec_burned a)], allocation_json p (cooperativeSnapshot date_now tx_now s p) a), s'))
     = Inr ((lines, alloc), s')"
    using ret unfolding recycleSettlement_def locked_def p need_row_simps need_Inr Let_def
      a_def by blast
  show thesis
    by (rule that [of p a]; use ins p lookup_SomeD [OF p] in
      \<open>auto simp: insert_settlement_def res_Inr split: if_splits\<close>)
qed

text \<open>What an update of a session's row leaves.\<close>

lemma update_session_Inr:
  assumes "update_session i f s = Inr s'"
  shows "s' = s\<lparr>sessions := update_row s_id i f (sessions s)\<rparr>"
    and "lookup s_id i (sessions s) = Some r \<Longrightarrow>
      session_check (f r) \<and> session_identity s (f r) \<and> cooperation_kept r (f r)"
proof -
  show "s' = s\<lparr>sessions := update_row s_id i f (sessions s)\<rparr>"
    using assms update_row_absent [of i s_id "sessions s" f]
    by (auto simp: update_session_def lookup_None_iff split: option.splits if_splits)
  show "lookup s_id i (sessions s) = Some r \<Longrightarrow>
      session_check (f r) \<and> session_identity s (f r) \<and> cooperation_kept r (f r)"
    using assms by (auto simp: update_session_def split: if_splits)
qed

text \<open>A refund that is not a replay: its posting, its row and the session's new billing state.\<close>

lemma refund_Inr:
  assumes ret: "refund j user i reason s = Inr (row, s')"
  obtains (replayed) "s' = s" "lookup cf_session_id i (refunds s) = Some row"
    | (posted) r cs p j' md L es where "lookup s_id i (sessions s) = Some r" "lookup cs_session_id i (settlements s) = Some cs"
    "lookup cf_session_id i (refunds s) = None" "lookup cp_id (cs_pool_id cs) (pools s) = Some p"
    "post j (refund_key i) ''COOPERATIVE_CONSUMPTION_REFUND''
       [(cp_working_account p, - cs_working_microtu cs), (cp_reserve_account p, - cs_reserve_microtu cs),
        (cp_burn_account p, - cs_burned_microtu cs),
        (availableAccount (s_user_id r), cs_charge_microtu cs)] md (ledger s) = Inr (j', L)"
    "session_check (refunded_row r)"
    "s' = s\<lparr>ledger := L, refunds := refunds s @ [row],
       sessions := update_row s_id i refunded_row (sessions s), cooperative_events := es\<rparr>"
proof -
  obtain r cs where r: "lookup s_id i (sessions s) = Some r" "lookup cs_session_id i (settlements s) = Some cs"
    using ret unfolding refund_def need_Inr zod_Inr by auto
  show thesis
  proof (cases "lookup cf_session_id i (refunds s)")
    case (Some old)
    then show thesis using ret r replayed by (auto simp: refund_def res_Inr)
  next
    case None
    obtain p where p: "lookup cp_id (cs_pool_id cs) (pools s) = Some p"
      using ret r None unfolding refund_def locked_def by (auto simp: res_Inr Let_def)
    define md where "md = [(''session_id'', JStr i), (''pool_id'', JStr (cp_id p)), (''reason'', JStr (trim reason)),
              (''source'', JStr ''EXACT_ORIGINAL_DESTINATIONS''),
              (''burn_reversal_microtu'', amt (cs_burned_microtu cs)), (''issuance_microtu'', JStr ''0'')]"
    obtain j' L s1 where post: "post j (refund_key i) ''COOPERATIVE_CONSUMPTION_REFUND''
       [(cp_working_account p, - cs_working_microtu cs), (cp_reserve_account p, - cs_reserve_microtu cs),
        (cp_burn_account p, - cs_burned_microtu cs),
        (availableAccount (s_user_id r), cs_charge_microtu cs)] md (ledger s) = Inr (j', L)"
      and u: "update_session i refunded_row (s\<lparr>ledger := L, refunds := refunds s @ [row]\<rparr>) = Inr s1"
      and es: "s' = cooperative_event (cp_id p) (Some (u_id user)) ''consumption_refunded''
             [(''session_id'', JStr i), (''journal_id'', JStr j')] s1"
      using ret r None p unfolding refund_def locked_def md_def by (auto simp: res_Inr Let_def)
    show thesis
      by (rule posted [OF r None p post, of "cooperative_events s'"])
        (use update_session_Inr [OF u] r es in \<open>simp_all add: cooperative_event_def\<close>)
  qed
qed

text \<open>A fund for the demonstrations.\<close>

definition demo_pool :: cooperative_pool where
  "demo_pool = \<lparr>cp_id = ''p1'', cp_creator_id = ''a1'', cp_name = ''fund'', cp_idempotency_key = ''fund-key-1'',
     cp_request_sha256 = [], cp_policy_sha256 = ''ph'', cp_policy_version = ''v1'', cp_expansion_allowed = False,
     cp_working_account = ''w'', cp_reserve_account = ''r'', cp_burn_account = ''b'', cp_support_until = 900000,
     cp_paused = False, cp_state = HIBERNATING, cp_healthy_since = None, cp_sample_at = None\<rparr>"

end
