(* ===== verification/Route_Leases.thy ===== *)
theory Route_Leases
  imports Availability Cooperative Clock
begin

text \<open>
  Readiness contracts of a complete route: \<open>apps/control-api/src/route-availability.ts\<close>, with
  the checks and triggers of \<open>infra/migrations/006\<close>. A sponsor (or a cooperative fund) puts rate
  times duration into an escrow and splits it over the members of the route; when every provider
  has accepted, each observation credits each member that was ready at both ends of the interval
  and pays it \<open>credited * maximum div duration\<close> in total. A provider that leaves, or a route that
  degrades, drains the contract to its end for the others; closing refunds the rest.

  \<open>clock\<close> is read where the code reads it and enters as an argument; \<open>tx_now\<close> is SQL's \<open>now()\<close>.
\<close>

section \<open>Keys, events and rows\<close>

definition funded :: "lease_state \<Rightarrow> bool" where
  "funded st \<longleftrightarrow> st = L_OFFERED \<or> st = L_ACTIVE \<or> st = L_DRAINING"

definition running :: "lease_state \<Rightarrow> bool" where
  "running st \<longleftrightarrow> st = L_ACTIVE \<or> st = L_DRAINING"

definition route_policy :: string where "route_policy = ''funded-complete-route-v1''"

definition route_escrow :: "uuid \<Rightarrow> string" where
  "route_escrow i = ''route-lease:'' @ i @ '':escrow''"

definition route_fund :: "uuid \<Rightarrow> string" where
  "route_fund i = ''route-lease:'' @ i @ '':fund''"

definition route_payment :: "uuid \<Rightarrow> int \<Rightarrow> string" where
  "route_payment i paid = pay_key ''route-lease:'' i paid"

definition route_refund :: "uuid \<Rightarrow> string" where
  "route_refund i = ''route-lease:'' @ i @ '':refund''"

definition route_event :: "uuid \<Rightarrow> string \<Rightarrow> (string \<times> json) list \<Rightarrow> db \<Rightarrow> db" where
  "route_event i kind metadata s =
     s\<lparr>route_availability_events := route_availability_events s @ [event i kind metadata]\<rparr>"

text \<open>The checks of \<open>route_availability_leases\<close>; a comparison with a null passes.\<close>

definition route_lease_check :: "route_lease \<Rightarrow> bool" where
  "route_lease_check r \<longleftrightarrow>
     30 \<le> rl_duration_seconds r \<and> rl_duration_seconds r \<le> 3600 \<and>
     0 < rl_rate_microtu_per_second r \<and> 0 < rl_budget_microtu r \<and>
     0 \<le> rl_paid_microtu r \<and> rl_paid_microtu r \<le> rl_budget_microtu r \<and>
     0 \<le> rl_joint_ready_ms r \<and> rl_joint_ready_ms r \<le> rl_duration_seconds r * 1000 \<and>
     rl_budget_microtu r = rl_rate_microtu_per_second r * rl_duration_seconds r \<and>
     (case (rl_started_ms r, rl_ends_ms r) of
        (Some a, Some b) \<Rightarrow> b = a + rl_duration_seconds r * 1000 | _ \<Rightarrow> True)"

definition insert_route_lease :: "route_lease \<Rightarrow> db \<Rightarrow> db result" where
  "insert_route_lease r s =
     (if \<not> route_lease_check r then Inl (DbError ''23514'')
      else if \<exists>q \<in> set (rt_leases s). rl_terms_sha256 q = rl_terms_sha256 r \<or>
          rl_escrow_account q = rl_escrow_account r \<or>
          (rl_sponsor_id q = rl_sponsor_id r \<and> rl_idempotency_key q = rl_idempotency_key r)
        then Inl (DbError ''23505'')
      else and_then (insert_row rl_id r (rt_leases s)) (\<lambda>t. Inr (s\<lparr>rt_leases := t\<rparr>)))"

definition lease_member_key :: "lease_member \<Rightarrow> uuid \<times> uuid" where
  "lease_member_key m = (lm_lease_id m, lm_node_id m)"

definition lease_member_check :: "lease_member \<Rightarrow> bool" where
  "lease_member_check m \<longleftrightarrow>
     1 \<le> lm_share_bps m \<and> lm_share_bps m \<le> 10000 \<and> 0 < lm_maximum_microtu m \<and>
     0 \<le> lm_paid_microtu m \<and> lm_paid_microtu m \<le> lm_maximum_microtu m \<and> 0 \<le> lm_credited_ms m"

definition insert_lease_member :: "lease_member \<Rightarrow> db \<Rightarrow> db result" where
  "insert_lease_member m s =
     (if \<not> lease_member_check m then Inl (DbError ''23514'')
      else if \<exists>q \<in> set (rt_members s). lm_lease_id q = lm_lease_id m \<and> lm_ordinal q = lm_ordinal m
        then Inl (DbError ''23505'')
      else if lookup n_id (lm_node_id m) (nodes s) = None \<or> lookup u_id (lm_provider_id m) (users s) = None \<or>
          lookup d_id (lm_resource_domain_id m) (domains s) = None
        then Inl (DbError ''23503'')
      else and_then (insert_row lease_member_key m (rt_members s)) (\<lambda>t. Inr (s\<lparr>rt_members := t\<rparr>)))"

definition update_lease_member :: "uuid \<Rightarrow> uuid \<Rightarrow> (lease_member \<Rightarrow> lease_member) \<Rightarrow> db \<Rightarrow> db result" where
  "update_lease_member i n f s =
     (case lookup lease_member_key (i, n) (rt_members s) of
        None \<Rightarrow> Inr s
      | Some old \<Rightarrow>
          (if \<not> lease_member_check (f old) then Inl (DbError ''23514'')
           else Inr (s\<lparr>rt_members := update_row lease_member_key (i, n) f (rt_members s)\<rparr>)))"

text \<open>The members of a lease in order, and the physical domains they use.\<close>

definition lease_members :: "uuid \<Rightarrow> db \<Rightarrow> lease_member list" where
  "lease_members i s = sort_key lm_ordinal (filter (\<lambda>m. lm_lease_id m = i) (rt_members s))"

definition lease_domains :: "uuid \<Rightarrow> db \<Rightarrow> uuid list" where
  "lease_domains i s = sort (remdups (map lm_resource_domain_id (lease_members i s)))"

text \<open>Trigger \<open>maintain_availability_claims\<close> for a route lease.\<close>

definition route_claims ::
  "route_lease \<Rightarrow> route_lease \<Rightarrow> uuid list \<Rightarrow> (uuid \<times> domain_claim) list \<Rightarrow> (uuid \<times> domain_claim) list result" where
  "route_claims old new ds claims =
     (if running (rl_state new) \<and> \<not> running (rl_state old)
      then each (\<lambda>d. insert_row fst (d, Route_lease (rl_id new))) ds claims
      else if \<not> running (rl_state new) \<and> running (rl_state old)
      then Inr (filter (\<lambda>(d, c). c \<noteq> Route_lease (rl_id new)) claims)
      else Inr claims)"

definition update_route_lease :: "uuid \<Rightarrow> (route_lease \<Rightarrow> route_lease) \<Rightarrow> db \<Rightarrow> db result" where
  "update_route_lease i f s =
     (case lookup rl_id i (rt_leases s) of
        None \<Rightarrow> Inr s
      | Some old \<Rightarrow>
          (if \<not> route_lease_check (f old) then Inl (DbError ''23514'')
           else and_then (route_claims old (f old) (lease_domains i s) (domain_claims s)) (\<lambda>claims.
             Inr (s\<lparr>rt_leases := update_row rl_id i f (rt_leases s), domain_claims := claims\<rparr>))))"

text \<open>Constraint trigger \<open>complete_availability_terms\<close>, checked at the end of the transaction.\<close>

definition complete_terms :: "uuid \<Rightarrow> db \<Rightarrow> bool" where
  "complete_terms i s \<longleftrightarrow>
     (case lookup rl_id i (rt_leases s) of
        None \<Rightarrow> True
      | Some r \<Rightarrow>
          sum_list (map lm_maximum_microtu (lease_members i s)) = rl_budget_microtu r \<and>
          length (lease_members i s) = length (members_of (rl_route_id r) s) \<and>
          (\<forall>am \<in> set (lease_members i s).
             case lookup rm_node_id (lm_node_id am) (members_of (rl_route_id r) s) of
               None \<Rightarrow> False
             | Some rm \<Rightarrow> rm_provider_id rm = lm_provider_id am \<and>
                 rm_resource_domain_id rm = lm_resource_domain_id am \<and> rm_ordinal rm = lm_ordinal am \<and>
                 rm_share_bps rm = lm_share_bps am \<and> rm_role rm = lm_role am))"

section \<open>Offer\<close>

record route_request =
  ro_route_id :: uuid
  ro_duration_seconds :: int
  ro_rate_microtu_per_second :: int
  ro_purpose :: purpose
  ro_reason :: string
  ro_idempotency_key :: uuid

definition route_request_ok :: "route_request \<Rightarrow> bool" where
  "route_request_ok data \<longleftrightarrow>
     30 \<le> ro_duration_seconds data \<and> ro_duration_seconds data \<le> 3600 \<and>
     amount_ok (ro_rate_microtu_per_second data) \<and> ro_rate_microtu_per_second data > 0 \<and>
     reason_ok (ro_reason data)"

fun purpose_text :: "purpose \<Rightarrow> string" where
  "purpose_text REQUESTED = ''REQUESTED''"
| "purpose_text SCHEDULED = ''SCHEDULED''"
| "purpose_text EXPERIMENT = ''EXPERIMENT''"

fun member_role_text :: "member_role \<Rightarrow> string" where
  "member_role_text ROOT = ''ROOT''"
| "member_role_text STAGE = ''STAGE''"

fun source_text :: "funding_source \<Rightarrow> string" where
  "source_text From_WORKING = ''WORKING''"
| "source_text From_RESERVE = ''RESERVE''"

text \<open>The context of a fund's window, the \<open>terms\<close> that \<open>cooperative.ts\<close> passes.\<close>

definition coop_terms_json :: "(string \<Rightarrow> string) \<Rightarrow> coop_terms \<Rightarrow> json" where
  "coop_terms_json sha c = JObj
     ([(''pool_id'', JStr (ct_pool_id c)), (''group_key'', JStr (ct_group_key c)),
       (''policy_sha256'', JStr (ct_policy_sha256 c)),
       (''funding_source'', JStr (source_text (ct_funding_source c))),
       (''incident_id'', opt_str (ct_incident_id c)),
       (''request_sha256'', JStr (ct_request_sha256 c)),
       (''support_until'', JStr (iso_string (ct_support_until c))),
       (''compensation'', JStr ''READINESS_ONLY'')] @
      (case ct_renewal c of None \<Rightarrow> [] | Some e \<Rightarrow> [(''renewal'', e)]) @
      (case ct_expansion c of None \<Rightarrow> []
       | Some e \<Rightarrow> [(''coverage_kind'', JStr ''EXPANSION''), (''expansion'', e),
           (''expansion_sha256'', JStr (sha (canonical e)))]))"

type_synonym funding = "string \<times> coop_terms"

definition cooperative_field :: "(string \<Rightarrow> string) \<Rightarrow> funding option \<Rightarrow> (string \<times> json) list" where
  "cooperative_field sha f = (case f of None \<Rightarrow> [] | Some (_, c) \<Rightarrow> [(''cooperative'', coop_terms_json sha c)])"

definition route_request_json :: "(string \<Rightarrow> string) \<Rightarrow> route_request \<Rightarrow> funding option \<Rightarrow> json" where
  "route_request_json sha data f = JObj
     ([(''route_id'', JStr (ro_route_id data)),
       (''duration_seconds'', JNum (ro_duration_seconds data)),
       (''rate_microtu_per_second'', amt (ro_rate_microtu_per_second data)),
       (''purpose'', JStr (purpose_text (ro_purpose data))), (''reason'', JStr (ro_reason data)),
       (''idempotency_key'', JStr (ro_idempotency_key data))] @ cooperative_field sha f)"

definition ready_route :: "ms \<Rightarrow> uuid \<Rightarrow> db \<Rightarrow> execution_route option" where
  "ready_route tx_now i s =
     (case lookup er_id i (routes s) of
        None \<Rightarrow> None
      | Some r \<Rightarrow> if \<exists>off \<in> set (ready_execution_offers tx_now s). of_route off = Some i then Some r else None)"

definition member_terms_json :: "route_member \<times> int \<Rightarrow> json" where
  "member_terms_json = (\<lambda>(m, maximum). JObj
     [(''node_id'', JStr (rm_node_id m)), (''provider_id'', JStr (rm_provider_id m)),
      (''resource_domain_id'', JStr (rm_resource_domain_id m)), (''ordinal'', JNum (rm_ordinal m)),
      (''role'', JStr (member_role_text (rm_role m))), (''share_bps'', JNum (rm_share_bps m)),
      (''maximum_microtu'', amt maximum)])"

definition terms_json ::
  "(string \<Rightarrow> string) \<Rightarrow> uuid \<Rightarrow> uuid \<Rightarrow> execution_route \<Rightarrow> route_request \<Rightarrow> int \<Rightarrow> funding option \<Rightarrow>
   (route_member \<times> int) list \<Rightarrow> json" where
  "terms_json sha i sponsor r data budget f ms = JObj
     ([(''policy'', JStr route_policy), (''lease_id'', JStr i), (''sponsor_id'', JStr sponsor),
       (''route_id'', JStr (er_id r)), (''route_sha256'', JStr (er_route_sha256 r)),
       (''manifest_sha256'', JStr (er_manifest_sha256 r)),
       (''duration_seconds'', JNum (ro_duration_seconds data)),
       (''rate_microtu_per_second'', amt (ro_rate_microtu_per_second data)),
       (''budget_microtu'', amt budget), (''purpose'', JStr (purpose_text (ro_purpose data))),
       (''reason'', JStr (ro_reason data)),
       (''compensation'', JStr (if f = None then ''ADDITIONAL_TO_INFERENCE'' else ''READINESS_ONLY''))] @
      cooperative_field sha f @
      [(''cancellation'', JStr ''PRESERVE_OTHER_ACCEPTED_COMPONENTS_UNTIL_END''),
       (''members'', JArr (map member_terms_json ms))])"

text \<open>The row and the member rows that the \<open>INSERT\<close>s make, defaults included.\<close>

definition offered_route ::
  "uuid \<Rightarrow> ms \<Rightarrow> uuid \<Rightarrow> execution_route \<Rightarrow> route_request \<Rightarrow> int \<Rightarrow> funding option \<Rightarrow> string \<Rightarrow> string \<Rightarrow> route_lease" where
  "offered_route i tx_now sponsor r data budget f terms_hash digest =
     \<lparr>rl_id = i, rl_sponsor_id = sponsor, rl_route_id = er_id r, rl_route_sha256 = er_route_sha256 r,
      rl_manifest_sha256 = er_manifest_sha256 r, rl_terms_sha256 = terms_hash,
      rl_cooperative = map_option snd f, rl_purpose = ro_purpose data, rl_reason = ro_reason data,
      rl_idempotency_key = ro_idempotency_key data, rl_request_sha256 = digest,
      rl_escrow_account = route_escrow i, rl_state = L_OFFERED,
      rl_duration_seconds = ro_duration_seconds data,
      rl_rate_microtu_per_second = ro_rate_microtu_per_second data, rl_budget_microtu = budget,
      rl_paid_microtu = 0, rl_joint_ready_ms = 0, rl_sample_ms = None, rl_sample_ready = False,
      rl_started_ms = None, rl_ends_ms = None, rl_offer_expires_at = tx_now + 300000,
      rl_created_at = tx_now, rl_finished_at = None\<rparr>"

definition offered_member :: "uuid \<Rightarrow> route_member \<times> int \<Rightarrow> lease_member" where
  "offered_member i = (\<lambda>(m, maximum).
     \<lparr>lm_lease_id = i, lm_node_id = rm_node_id m, lm_provider_id = rm_provider_id m,
      lm_resource_domain_id = rm_resource_domain_id m, lm_ordinal = rm_ordinal m,
      lm_role = rm_role m, lm_share_bps = rm_share_bps m, lm_maximum_microtu = maximum,
      lm_paid_microtu = 0, lm_credited_ms = 0, lm_sample_ready = False, lm_node_epoch = None,
      lm_withdrawn_at = None\<rparr>)"

text \<open>The writes of a new contract: its escrow account, the posting that funds it, its rows.\<close>

definition open_route ::
  "uuid \<Rightarrow> uuid option \<Rightarrow> string \<Rightarrow> route_lease \<Rightarrow> lease_member list \<Rightarrow> route_lease handler" where
  "open_route j owner payer row ms s =
     (let i = rl_id row; budget = rl_budget_microtu row in
      and_then (new_account (rl_escrow_account row) owner LEASE_ESCROW (ledger s)) (\<lambda>L.
      and_then (post j (route_fund i) ''ROUTE_AVAILABILITY_RESERVE''
          [(payer, - budget), (rl_escrow_account row, budget)]
          [(''lease_id'', JStr i), (''terms_sha256'', JStr (rl_terms_sha256 row)), (''policy'', JStr route_policy)] L)
        (\<lambda>(_, L').
      and_then (insert_route_lease row (s\<lparr>ledger := L'\<rparr>)) (\<lambda>s1.
      and_then (each insert_lease_member ms s1) (\<lambda>s2.
      if complete_terms i s2
      then Inr (row, route_event i ''offered''
        [(''terms_sha256'', JStr (rl_terms_sha256 row)), (''budget_microtu'', amt budget),
         (''policy'', JStr route_policy)] s2)
      else Inl (DbError ''P0001''))))))"

definition offer_route_lease ::
  "(string \<Rightarrow> string) \<Rightarrow> uuid \<Rightarrow> uuid \<Rightarrow> ms \<Rightarrow> uuid \<Rightarrow> route_request \<Rightarrow> funding option \<Rightarrow> route_lease handler"
where
  "offer_route_lease sha i j tx_now sponsor data f s =
     (let budget = ro_rate_microtu_per_second data * ro_duration_seconds data;
          digest = sha (canonical (route_request_json sha data f)) in
      need (budget \<le> MAX_AMOUNT) 400 ''amount_overflow'' (
      case find (\<lambda>r. rl_sponsor_id r = sponsor \<and> rl_idempotency_key r = ro_idempotency_key data) (rt_leases s) of
        Some existing \<Rightarrow>
          need (rl_request_sha256 existing = digest) 409 ''idempotency_conflict'' (Inr (existing, s))
      | None \<Rightarrow>
          need (open_contracts sponsor s < 4) 429 ''lease_limit'' (
          need_row (ready_route tx_now (ro_route_id data) s) 409 ''route_not_ready'' (\<lambda>r.
          let members = members_of (er_id r) s in
          and_then (splitByBps budget (map rm_share_bps members)) (\<lambda>maxima.
          need (list_all (\<lambda>n. n > 0) maxima) 400 ''lease_allocation'' (
          let ms = zip members maxima;
              terms_hash = sha (canonical (terms_json sha i sponsor r data budget f ms)) in
          open_route j (case f of None \<Rightarrow> Some sponsor | Some _ \<Rightarrow> None)
            (case f of None \<Rightarrow> availableAccount sponsor | Some (a, _) \<Rightarrow> a)
            (offered_route i tx_now sponsor r data budget f terms_hash digest)
            (map (offered_member i) ms) s))))))"

definition offer_route ::
  "(string \<Rightarrow> string) \<Rightarrow> uuid \<Rightarrow> uuid \<Rightarrow> ms \<Rightarrow> user \<Rightarrow> route_request \<Rightarrow> route_lease handler" where
  "offer_route sha i j tx_now user data s =
     zod (route_request_ok data)
       (offer_route_lease sha i j tx_now (u_id user) (data\<lparr>ro_reason := trim (ro_reason data)\<rparr>) None s)"

section \<open>Observation\<close>

record observed_member =
  om_row :: lease_member
  om_epoch :: int
  om_ready :: bool

definition member_ready ::
  "route_lease \<Rightarrow> ms \<Rightarrow> lease_member \<Rightarrow> node \<Rightarrow> user \<Rightarrow> model \<Rightarrow> route_acceptance option \<Rightarrow> bool" where
  "member_ready row now p n u m a \<longleftrightarrow>
     lm_withdrawn_at p = None \<and>
     (case a of None \<Rightarrow> False | Some a \<Rightarrow> ra_withdrawn_at a = None \<and> ra_route_sha256 a = rl_route_sha256 row) \<and>
     n_state n = N_READY \<and> n_desired_state n = Want_READY \<and> \<not> u_disabled u \<and>
     m_state m = M_LOCAL_PREVIEW \<and> m_manifest_sha256 m = rl_manifest_sha256 row \<and>
     n_owner_id n = lm_provider_id p \<and> n_resource_domain_id n = lm_resource_domain_id p \<and>
     n_node_kind n = (if lm_role p = ROOT then ROUTE_ROOT else RPC_STAGE) \<and>
     (case n_last_seen n of None \<Rightarrow> False | Some t \<Rightarrow> now - t \<le> 5000) \<and>
     mm_backend_model (m_manifest m) \<in> set (n_loaded_backend_models n)"

text \<open>The join of a member with its node, provider, model and acceptance of the route.\<close>

definition observe_member :: "db \<Rightarrow> route_lease \<Rightarrow> ms \<Rightarrow> lease_member \<Rightarrow> observed_member list" where
  "observe_member s row now p =
     (case (lookup n_id (lm_node_id p) (nodes s), lookup u_id (lm_provider_id p) (users s)) of
        (Some n, Some u) \<Rightarrow>
          (case lookup m_id (n_model_id n) (models s) of
             None \<Rightarrow> []
           | Some m \<Rightarrow>
               [\<lparr>om_row = p, om_epoch = n_epoch n,
                 om_ready = member_ready row now p n u m
                   (lookup (\<lambda>a. (ra_route_id a, ra_provider_id a)) (rl_route_id row, lm_provider_id p)
                      (route_acceptances s))\<rparr>])
      | _ \<Rightarrow> [])"

definition observe_members :: "db \<Rightarrow> route_lease \<Rightarrow> ms \<Rightarrow> observed_member list" where
  "observe_members s row now = concat (map (observe_member s row now) (lease_members (rl_id row) s))"

definition joint_ready :: "db \<Rightarrow> route_lease \<Rightarrow> ms \<Rightarrow> bool" where
  "joint_ready s row now \<longleftrightarrow>
     (case lookup er_id (rl_route_id row) (routes s) of
        None \<Rightarrow> False
      | Some r \<Rightarrow> er_state r = R_LOCAL_PREVIEW \<and> er_route_sha256 r = rl_route_sha256 row \<and>
          er_manifest_sha256 r = rl_manifest_sha256 row) \<and>
     2 \<le> length (observe_members s row now) \<and> list_all om_ready (observe_members s row now)"

section \<open>Accept\<close>

definition insert_lease_acceptance :: "lease_acceptance \<Rightarrow> db \<Rightarrow> db result" where
  "insert_lease_acceptance a s =
     and_then (insert_row (\<lambda>a. (la_lease_id a, la_provider_id a)) a (rt_acceptances s))
       (\<lambda>t. Inr (s\<lparr>rt_acceptances := t\<rparr>))"

definition accepted_by :: "uuid \<Rightarrow> uuid \<Rightarrow> db \<Rightarrow> bool" where
  "accepted_by i u s \<longleftrightarrow> (\<exists>a \<in> set (rt_acceptances s). la_lease_id a = i \<and> la_provider_id a = u)"

text \<open>The mandate that a renewal accepts with: its id and the hash of its terms.\<close>

definition record_acceptance :: "user \<Rightarrow> uuid \<Rightarrow> string \<Rightarrow> (uuid \<times> string) option \<Rightarrow> db \<Rightarrow> db result" where
  "record_acceptance user i terms mandate s =
     (if accepted_by i (u_id user) s then Inr s
      else and_then (insert_lease_acceptance
          \<lparr>la_lease_id = i, la_provider_id = u_id user, la_terms_sha256 = terms,
           la_mandate_id = map_option fst mandate\<rparr> s) (\<lambda>s'.
        Inr (route_event i ''provider_accepted''
          ([(''provider_id'', JStr (u_id user)), (''terms_sha256'', JStr terms)] @
           (case mandate of
              None \<Rightarrow> [(''source'', JStr ''DIRECT_PROVIDER_ACCEPTANCE'')]
            | Some (m, h) \<Rightarrow> [(''source'', JStr ''BOUNDED_PROVIDER_MANDATE''),
                (''provider_mandate_id'', JStr m), (''mandate_terms_sha256'', JStr h)])) s')))"

definition all_accepted :: "uuid \<Rightarrow> db \<Rightarrow> bool" where
  "all_accepted i s \<longleftrightarrow> list_all (\<lambda>p. accepted_by i (lm_provider_id p) s) (lease_members i s)"

text \<open>A fund still supports the whole window.\<close>

definition support_covers :: "ms \<Rightarrow> route_lease \<Rightarrow> db \<Rightarrow> bool" where
  "support_covers now row s \<longleftrightarrow>
     (case rl_cooperative row of
        None \<Rightarrow> True
      | Some c \<Rightarrow>
          (case lookup cp_id (ct_pool_id c) (pools s) of
             None \<Rightarrow> False
           | Some p \<Rightarrow> \<not> cp_paused p \<and>
               min (cp_support_until p) (ct_support_until c) \<ge> now + rl_duration_seconds row * 1000))"

definition activated_row :: "ms \<Rightarrow> route_lease \<Rightarrow> route_lease" where
  "activated_row now r = r\<lparr>rl_state := L_ACTIVE, rl_started_ms := Some now,
     rl_ends_ms := Some (now + rl_duration_seconds r * 1000), rl_sample_ms := Some now, rl_sample_ready := True\<rparr>"

definition start_member :: "uuid \<Rightarrow> observed_member \<Rightarrow> db \<Rightarrow> db result" where
  "start_member i om = update_lease_member i (lm_node_id (om_row om))
     (\<lambda>m. m\<lparr>lm_sample_ready := True, lm_node_epoch := Some (om_epoch om)\<rparr>)"

definition activate_route :: "ms \<Rightarrow> route_lease \<Rightarrow> route_lease handler" where
  "activate_route now row s =
     (let i = rl_id row; ds = lease_domains i s in
      need (\<not> (\<exists>d \<in> set ds. d \<in> fst ` set (domain_claims s))) 409 ''domain_leased'' (
      need (support_covers now row s) 409 ''support_window'' (
      need (joint_ready s row now) 409 ''route_not_ready'' (
      and_then (each (start_member i) (observe_members s row now) s) (\<lambda>s1.
      and_then (update_route_lease i (activated_row now) s1) (\<lambda>s2.
      Inr (activated_row now row, route_event i ''activated''
        [(''started_ms'', JNum now), (''ends_ms'', JNum (now + rl_duration_seconds row * 1000)),
         (''physical_domains'', JNum (int (length ds)))] s2)))))))"

definition accept_route_lease ::
  "ms \<Rightarrow> ms \<Rightarrow> user \<Rightarrow> uuid \<Rightarrow> string \<Rightarrow> (uuid \<times> string) option \<Rightarrow> route_lease handler" where
  "accept_route_lease clock1 now user i terms mandate s =
     need_row (find (\<lambda>r. rl_id r = i \<and>
         (\<exists>p \<in> set (rt_members s). lm_lease_id p = i \<and> lm_provider_id p = u_id user)) (rt_leases s))
       404 ''lease_missing'' (\<lambda>row.
     need (rl_terms_sha256 row = terms) 409 ''lease_terms'' (
     if accepted_by i (u_id user) s \<and> rl_state row \<noteq> L_OFFERED then Inr (row, s) else
     need (rl_state row = L_OFFERED \<and> rl_offer_expires_at row > clock1) 409 ''offer_expired'' (
     and_then (record_acceptance user i terms mandate s) (\<lambda>s1.
     if \<not> all_accepted i s1 then Inr (row, s1) else activate_route now row s1))))"

definition accept_route :: "ms \<Rightarrow> ms \<Rightarrow> user \<Rightarrow> uuid \<Rightarrow> string \<Rightarrow> route_lease handler" where
  "accept_route clock1 now user i terms s =
     zod (sha256_ok terms) (accept_route_lease clock1 now user i terms None s)"

section \<open>Advance\<close>

text \<open>\<open>valid\<close>, \<open>credited\<close> and \<open>total\<close> of one member.\<close>

definition interval_valid :: "bool \<Rightarrow> observed_member \<Rightarrow> bool" where
  "interval_valid contiguous om \<longleftrightarrow>
     contiguous \<and> lm_sample_ready (om_row om) \<and> om_ready om \<and> lm_node_epoch (om_row om) = Some (om_epoch om)"

definition credited_to :: "bool \<Rightarrow> int \<Rightarrow> observed_member \<Rightarrow> int" where
  "credited_to contiguous elapsed om =
     lm_credited_ms (om_row om) + (if interval_valid contiguous om then elapsed else 0)"

definition total_for :: "route_lease \<Rightarrow> bool \<Rightarrow> int \<Rightarrow> observed_member \<Rightarrow> int" where
  "total_for row contiguous elapsed om =
     (credited_to contiguous elapsed om * lm_maximum_microtu (om_row om)) sdiv (rl_duration_seconds row * 1000)"

definition sampled_member :: "route_lease \<Rightarrow> bool \<Rightarrow> int \<Rightarrow> observed_member \<Rightarrow> lease_member \<Rightarrow> lease_member" where
  "sampled_member row contiguous elapsed om m = m\<lparr>
     lm_credited_ms := credited_to contiguous elapsed om, lm_paid_microtu := total_for row contiguous elapsed om,
     lm_sample_ready := om_ready om, lm_node_epoch := Some (om_epoch om)\<rparr>"

definition evidence_json :: "route_lease \<Rightarrow> bool \<Rightarrow> int \<Rightarrow> observed_member \<Rightarrow> json" where
  "evidence_json row contiguous elapsed om = JObj
     [(''node_id'', JStr (lm_node_id (om_row om))), (''ready'', JBool (om_ready om)),
      (''interval_credited'', JBool (interval_valid contiguous om)), (''epoch'', amt (om_epoch om)),
      (''credited_ms'', amt (credited_to contiguous elapsed om)),
      (''paid_microtu'', amt (total_for row contiguous elapsed om))]"

text \<open>One turn of the loop over the members: the check of the projection and the \<open>UPDATE\<close>.\<close>

definition sample_member :: "route_lease \<Rightarrow> bool \<Rightarrow> int \<Rightarrow> observed_member \<Rightarrow> db \<Rightarrow> db result" where
  "sample_member row contiguous elapsed om s =
     (let tot = total_for row contiguous elapsed om in
      need (tot - lm_paid_microtu (om_row om) \<ge> 0 \<and> tot \<le> lm_maximum_microtu (om_row om)) 500 ''lease_projection''
        (update_lease_member (rl_id row) (lm_node_id (om_row om)) (sampled_member row contiguous elapsed om) s))"

definition payment_lines :: "route_lease \<Rightarrow> bool \<Rightarrow> int \<Rightarrow> observed_member list \<Rightarrow> (string \<times> int) list" where
  "payment_lines row contiguous elapsed oms =
     map (\<lambda>om. (availableAccount (lm_provider_id (om_row om)), total_for row contiguous elapsed om - lm_paid_microtu (om_row om)))
       (filter (\<lambda>om. total_for row contiguous elapsed om - lm_paid_microtu (om_row om) > 0) oms)"

text \<open>The interval since the last sample, and the row that the \<open>UPDATE\<close> of an observation leaves.\<close>

definition route_until :: "route_lease \<Rightarrow> ms \<Rightarrow> ms" where
  "route_until row now = max (num (rl_sample_ms row)) (min now (num (rl_ends_ms row)))"

definition route_elapsed :: "route_lease \<Rightarrow> ms \<Rightarrow> int" where
  "route_elapsed row now = route_until row now - num (rl_sample_ms row)"

definition contiguous_sample :: "route_lease \<Rightarrow> ms \<Rightarrow> bool" where
  "contiguous_sample row now \<longleftrightarrow> now - num (rl_sample_ms row) \<le> 6000"

definition joint_interval :: "db \<Rightarrow> route_lease \<Rightarrow> ms \<Rightarrow> bool" where
  "joint_interval s row now \<longleftrightarrow>
     rl_sample_ready row \<and> joint_ready s row now \<and> contiguous_sample row now \<and>
     list_all (interval_valid (contiguous_sample row now)) (observe_members s row now)"

definition observed_route :: "route_lease \<Rightarrow> bool \<Rightarrow> int \<Rightarrow> int \<Rightarrow> ms \<Rightarrow> route_lease \<Rightarrow> route_lease" where
  "observed_route row joint paid joint_ms until r = r\<lparr>
     rl_state := (if joint then rl_state row else L_DRAINING), rl_paid_microtu := paid,
     rl_joint_ready_ms := joint_ms, rl_sample_ms := Some until, rl_sample_ready := joint\<rparr>"

definition ended_route :: "lease_state \<Rightarrow> ms \<Rightarrow> route_lease \<Rightarrow> route_lease" where
  "ended_route state tx_now r =
     r\<lparr>rl_state := state, rl_finished_at := Some tx_now, rl_sample_ready := False\<rparr>"

text \<open>Where the rest of a contract returns to.\<close>

definition refund_account :: "route_lease \<Rightarrow> string" where
  "refund_account row =
     (case rl_cooperative row of
        None \<Rightarrow> availableAccount (rl_sponsor_id row)
      | Some c \<Rightarrow> ''coop:'' @ ct_pool_id c @
          (if ct_funding_source c = From_WORKING then '':working'' else '':reserve''))"

fun ended_kind :: "lease_state \<Rightarrow> string" where
  "ended_kind L_CANCELLED = ''cancelled''"
| "ended_kind L_EXPIRED = ''expired''"
| "ended_kind _ = ''completed''"

definition close_route :: "uuid \<Rightarrow> ms \<Rightarrow> lease_state \<Rightarrow> route_lease \<Rightarrow> int \<Rightarrow> db \<Rightarrow> db result" where
  "close_route j tx_now state row paid s =
     (let remaining = rl_budget_microtu row - paid in
      and_then
        (if remaining > 0 then
           and_then (post j (route_refund (rl_id row)) ''ROUTE_AVAILABILITY_REFUND''
               [(rl_escrow_account row, - remaining), (refund_account row, remaining)]
               [(''lease_id'', JStr (rl_id row)), (''terms_sha256'', JStr (rl_terms_sha256 row)),
                (''policy'', JStr route_policy)] (ledger s))
             (\<lambda>(_, L). Inr (s\<lparr>ledger := L\<rparr>))
         else Inr s)
        (\<lambda>s1.
      and_then (update_route_lease (rl_id row) (ended_route state tx_now) s1) (\<lambda>s2.
      Inr (route_event (rl_id row) (ended_kind state)
        [(''paid_microtu'', amt paid), (''refunded_microtu'', amt remaining)] s2))))"

definition pay_route ::
  "uuid \<Rightarrow> route_lease \<Rightarrow> int \<Rightarrow> (string \<times> int) list \<Rightarrow> json list \<Rightarrow> db \<Rightarrow> db result" where
  "pay_route j row paid lines evidence s =
     (let delta = paid - rl_paid_microtu row in
      if delta > 0 then
        and_then (post j (route_payment (rl_id row) paid) ''ROUTE_AVAILABILITY_PAYMENT''
            (lines @ [(rl_escrow_account row, - delta)])
            [(''lease_id'', JStr (rl_id row)), (''terms_sha256'', JStr (rl_terms_sha256 row)),
             (''policy'', JStr route_policy), (''participants'', JArr evidence)] (ledger s))
          (\<lambda>(_, L). Inr (s\<lparr>ledger := L\<rparr>))
      else Inr s)"

text \<open>The part of \<open>advance\<close> on a running contract whose clock did not go backwards.\<close>

definition observe_route :: "uuid \<Rightarrow> ms \<Rightarrow> route_lease \<Rightarrow> db \<Rightarrow> (int \<times> db) result" where
  "observe_route j now row s =
     (let oms = observe_members s row now; joint = joint_ready s row now;
          contiguous = contiguous_sample row now; elapsed = route_elapsed row now;
          valid = joint_interval s row now;
          paid = sum_list (map (total_for row contiguous elapsed) oms);
          joint_ms = rl_joint_ready_ms row + (if valid then elapsed else 0);
          evidence = map (evidence_json row contiguous elapsed) oms in
      and_then (each (sample_member row contiguous elapsed) oms s) (\<lambda>s1.
      and_then (pay_route j row paid (payment_lines row contiguous elapsed oms) evidence s1) (\<lambda>s2.
      and_then (update_route_lease (rl_id row) (observed_route row joint paid joint_ms (route_until row now)) s2)
        (\<lambda>s3.
      let s4 = route_event (rl_id row) ''observed''
            [(''elapsed_ms'', JNum elapsed), (''joint_ready'', JBool joint),
             (''joint_interval_credited'', JBool valid), (''joint_ready_ms'', amt joint_ms),
             (''participants'', JArr evidence)] s3 in
      Inr (paid, if rl_state row \<noteq> L_DRAINING \<and> \<not> joint
                 then route_event (rl_id row) ''route_degraded''
                   [(''ends_ms'', JNum (num (rl_ends_ms row))), (''accepted_obligations_preserved'', JBool True)] s4
                 else s4)))))"

definition advance_route :: "uuid \<Rightarrow> uuid \<Rightarrow> ms \<Rightarrow> ms \<Rightarrow> route_lease \<Rightarrow> db \<Rightarrow> db result" where
  "advance_route j1 j2 tx_now now row s =
     (if rl_state row = L_OFFERED then
        (if now \<ge> rl_offer_expires_at row then close_route j2 tx_now L_EXPIRED row 0 s else Inr s)
      else if now < num (rl_sample_ms row) then Inr s
      else and_then (observe_route j1 now row s) (\<lambda>(paid, s1).
        if now \<ge> num (rl_ends_ms row) then close_route j2 tx_now L_COMPLETED row paid s1 else Inr s1))"

section \<open>Cancel and reconcile\<close>

text \<open>The members that a leaving provider gives up.\<close>

definition leaving :: "uuid \<Rightarrow> uuid \<Rightarrow> lease_member \<Rightarrow> bool" where
  "leaving i u m \<longleftrightarrow> lm_lease_id m = i \<and> lm_provider_id m = u \<and> lm_withdrawn_at m = None"

definition withdraw_members :: "uuid \<Rightarrow> uuid \<Rightarrow> ms \<Rightarrow> db \<Rightarrow> db" where
  "withdraw_members i u tx_now s = s\<lparr>rt_members := map
     (\<lambda>m. if leaving i u m then m\<lparr>lm_withdrawn_at := Some tx_now, lm_sample_ready := False\<rparr> else m) (rt_members s)\<rparr>"

definition drain_route :: "ms \<Rightarrow> user \<Rightarrow> route_lease \<Rightarrow> db \<Rightarrow> db result" where
  "drain_route tx_now user current s =
     (let i = rl_id current; exited = filter (leaving i (u_id user)) (rt_members s) in
      and_then (update_route_lease i (\<lambda>r. r\<lparr>rl_state := L_DRAINING, rl_sample_ready := False\<rparr>)
          (withdraw_members i (u_id user) tx_now s)) (\<lambda>s1.
      Inr (if rl_state current \<noteq> L_DRAINING \<or> exited \<noteq> []
           then route_event i ''drain_requested''
             [(''actor_id'', JStr (u_id user)), (''withdrawn_nodes'', JArr (map (JStr \<circ> lm_node_id) exited)),
              (''ends_ms'', JNum (num (rl_ends_ms current)))] s1
           else s1)))"

definition cancel_route_lease ::
  "uuid \<Rightarrow> uuid \<Rightarrow> ms \<Rightarrow> ms \<Rightarrow> user \<Rightarrow> uuid \<Rightarrow> route_lease option handler" where
  "cancel_route_lease j1 j2 tx_now now user i s =
     need_row (find (\<lambda>r. rl_id r = i \<and>
         (rl_sponsor_id r = u_id user \<or> u_role user = Admin \<or>
          (\<exists>p \<in> set (rt_members s). lm_lease_id p = i \<and> lm_provider_id p = u_id user))) (rt_leases s))
       404 ''lease_missing'' (\<lambda>row.
     and_then
       (if rl_state row = L_OFFERED then close_route j2 tx_now L_CANCELLED row (rl_paid_microtu row) s
        else if running (rl_state row) then
          and_then (advance_route j1 j2 tx_now now row s) (\<lambda>s1.
          case lookup rl_id i (rt_leases s1) of
            None \<Rightarrow> Inl TypeError
          | Some current \<Rightarrow> if running (rl_state current) then drain_route tx_now user current s1 else Inr s1)
        else Inr s)
       (\<lambda>s'. Inr (lookup rl_id i (rt_leases s'), s')))"

text \<open>One iteration of \<open>reconcile\<close>, a transaction of its own, and the rows it visits.\<close>

definition reconcile_route_lease :: "uuid \<Rightarrow> uuid \<Rightarrow> ms \<Rightarrow> ms \<Rightarrow> uuid \<Rightarrow> unit handler" where
  "reconcile_route_lease j1 j2 tx_now now i s =
     (case lookup rl_id i (rt_leases s) of
        None \<Rightarrow> Inr ((), s)
      | Some row \<Rightarrow>
          if funded (rl_state row)
          then and_then (advance_route j1 j2 tx_now now row s) (\<lambda>s'. Inr ((), s'))
          else Inr ((), s))"

definition routes_due :: "ms \<Rightarrow> db \<Rightarrow> uuid list" where
  "routes_due tx_now s =
     map rl_id (take 100 (sort_key
       (\<lambda>r. [if rl_sample_ms r = None then 0 else 1, num (rl_sample_ms r), rl_created_at r])
       (filter (\<lambda>r. running (rl_state r) \<or> (rl_state r = L_OFFERED \<and> rl_offer_expires_at r \<le> tx_now)) (rt_leases s))))"

fun reconcile_route_leases :: "(uuid \<times> uuid \<times> uuid \<times> ms \<times> ms) list \<Rightarrow> db \<Rightarrow> unit result \<times> db" where
  "reconcile_route_leases [] s = (Inr (), s)"
| "reconcile_route_leases ((i, j1, j2, tx_now, now) # work) s =
     (case commit (reconcile_route_lease j1 j2 tx_now now i) s of
        (Inl e, s') \<Rightarrow> (Inl e, s')
      | (Inr _, s') \<Rightarrow> reconcile_route_leases work s')"

end
