(* ===== verification/Funds.thy ===== *)
theory Funds
  imports Route_Leases
begin

text \<open>
  The operations of the cooperative funds, the rest of \<open>apps/control-api/src/cooperative.ts\<close>, with
  the checks and triggers of \<open>infra/migrations/007\<close> and \<open>009\<close> they run into. A plan names up to four
  groups of alternative routes and freezes them; anyone pays committed credits into its working or
  reserve account; the responsible user, or a bounded renewal, buys one window of a group at a time,
  from the reserve only when the working account cannot pay; a timer records the plan's state.

  The trigger that keeps groups and routes from being added to a committed plan has no case here:
  only \<open>create_pool\<close> inserts them, in the transaction that inserts the plan.
\<close>

section \<open>Keys and requests\<close>

definition cooperativePolicy :: string where
  "cooperativePolicy = ''private-cooperative-floor-first-v2''"

definition group_key_ok :: "string \<Rightarrow> bool" where
  "group_key_ok k \<longleftrightarrow> 1 \<le> length k \<and> length k \<le> 40 \<and> is_lower (hd k) \<and>
     list_all (\<lambda>c. is_lower c \<or> is_digit c \<or> c = CHR ''_'' \<or> c = CHR ''-'') (tl k)"

definition coop_account :: "uuid \<Rightarrow> string \<Rightarrow> string" where
  "coop_account i name = ''coop:'' @ i @ '':'' @ name"

text \<open>A date of a request: its text and its \<open>getTime()\<close>.\<close>

record instant =
  at_text :: string
  at_ms :: ms

record group_request =
  gr_key :: string
  gr_route_ids :: "uuid list"
  gr_rate_microtu_per_second :: int
  gr_duration_seconds :: int

record pool_request =
  pq_name :: string
  pq_support_until :: instant
  pq_idempotency_key :: uuid
  pq_groups :: "group_request list"

definition group_request_ok :: "group_request \<Rightarrow> bool" where
  "group_request_ok g \<longleftrightarrow> group_key_ok (gr_key g) \<and>
     1 \<le> length (gr_route_ids g) \<and> length (gr_route_ids g) \<le> 8 \<and>
     amount_ok (gr_rate_microtu_per_second g) \<and> gr_rate_microtu_per_second g > 0 \<and>
     30 \<le> gr_duration_seconds g \<and> gr_duration_seconds g \<le> 3600"

definition pool_request_ok :: "pool_request \<Rightarrow> bool" where
  "pool_request_ok d \<longleftrightarrow> label_ok (pq_name d) \<and> 1 \<le> length (pq_groups d) \<and>
     length (pq_groups d) \<le> 4 \<and> list_all group_request_ok (pq_groups d)"

definition group_request_json :: "group_request \<Rightarrow> json" where
  "group_request_json g = JObj
     [(''key'', JStr (gr_key g)), (''route_ids'', JArr (map JStr (gr_route_ids g))),
      (''rate_microtu_per_second'', amt (gr_rate_microtu_per_second g)),
      (''duration_seconds'', JNum (gr_duration_seconds g))]"

definition pool_request_json :: "pool_request \<Rightarrow> json" where
  "pool_request_json d = JObj
     [(''name'', JStr (trim (pq_name d))), (''support_until'', JStr (at_text (pq_support_until d))),
      (''idempotency_key'', JStr (pq_idempotency_key d)),
      (''groups'', JArr (map group_request_json (pq_groups d)))]"

text \<open>Operational support of a plan: between a minute and 30 days ahead.\<close>

definition support_window_ok :: "ms \<Rightarrow> ms \<Rightarrow> bool" where
  "support_window_ok date_now t \<longleftrightarrow> t > date_now + 60000 \<and> t \<le> date_now + 30 * 86400000"

section \<open>Freezing a plan\<close>

record frozen_group =
  fg_key :: string
  fg_model_id :: string
  fg_rate_microtu_per_second :: int
  fg_duration_seconds :: int
  fg_routes :: "(uuid \<times> string) list"

text \<open>The variables of the loop: \<open>domainGroup\<close>, \<open>routeIds\<close>, and the \<open>model\<close> and \<open>options\<close> of a group.\<close>

record plan_scan =
  ps_domain_group :: "uuid \<Rightarrow> string option"
  ps_route_ids :: "uuid list"
  ps_model :: "string option"
  ps_options :: "(uuid \<times> string) list"

definition ready_route_offer :: "ms \<Rightarrow> uuid \<Rightarrow> db \<Rightarrow> (execution_route \<times> ready_offer) option" where
  "ready_route_offer tx_now i s =
     (case lookup er_id i (routes s) of
        None \<Rightarrow> None
      | Some r \<Rightarrow> map_option (\<lambda>off. (r, off)) (find (\<lambda>off. of_route off = Some i) (ready_execution_offers tx_now s)))"

definition claim_domain :: "string \<Rightarrow> uuid \<Rightarrow> (uuid \<Rightarrow> string option) \<Rightarrow> (uuid \<Rightarrow> string option) result" where
  "claim_domain k d m = need (m d = None \<or> m d = Some k) 409 ''overlapping_coverage'' (Inr (m(d \<mapsto> k)))"

definition freeze_route :: "ms \<Rightarrow> db \<Rightarrow> string \<Rightarrow> uuid \<Rightarrow> plan_scan \<Rightarrow> plan_scan result" where
  "freeze_route tx_now s k i st =
     need (i \<notin> set (ps_route_ids st)) 400 ''duplicate_route'' (
     need_row (ready_route_offer tx_now i s) 409 ''route_not_ready'' (\<lambda>(r, off).
     need (ps_model st = None \<or> ps_model st = Some (er_model_id r)) 400 ''group_model'' (
     and_then (each (claim_domain k) (of_domains off) (ps_domain_group st)) (\<lambda>m.
     Inr \<lparr>ps_domain_group = m, ps_route_ids = ps_route_ids st @ [i], ps_model = Some (er_model_id r),
          ps_options = ps_options st @ [(i, er_route_sha256 r)]\<rparr>))))"

definition freeze_group ::
  "ms \<Rightarrow> db \<Rightarrow> group_request \<Rightarrow> plan_scan \<times> frozen_group list \<Rightarrow> (plan_scan \<times> frozen_group list) result" where
  "freeze_group tx_now s g = (\<lambda>(st, frozen).
     and_then (each (freeze_route tx_now s (gr_key g)) (gr_route_ids g) (st\<lparr>ps_model := None, ps_options := []\<rparr>)) (\<lambda>st'.
     Inr (st', frozen @ [\<lparr>fg_key = gr_key g, fg_model_id = the (ps_model st'),
        fg_rate_microtu_per_second = gr_rate_microtu_per_second g,
        fg_duration_seconds = gr_duration_seconds g, fg_routes = ps_options st'\<rparr>])))"

definition empty_scan :: plan_scan where
  "empty_scan = \<lparr>ps_domain_group = Map.empty, ps_route_ids = [], ps_model = None, ps_options = []\<rparr>"

definition frozen_json :: "frozen_group \<Rightarrow> json" where
  "frozen_json g = JObj
     [(''key'', JStr (fg_key g)), (''model_id'', JStr (fg_model_id g)),
      (''rate_microtu_per_second'', amt (fg_rate_microtu_per_second g)),
      (''duration_seconds'', JNum (fg_duration_seconds g)),
      (''routes'', JArr (map (\<lambda>(i, h). JObj [(''route_id'', JStr i), (''route_sha256'', JStr h)]) (fg_routes g)))]"

definition pool_policy :: "uuid \<Rightarrow> frozen_group list \<Rightarrow> json" where
  "pool_policy i frozen = JObj
     [(''version'', JStr cooperativePolicy), (''pool_id'', JStr i), (''groups'', JArr (map frozen_json frozen)),
      (''floor_seconds'', JNum 21600), (''working_seconds'', JNum 86400), (''reserve_seconds'', JNum 259200),
      (''recovery_seconds'', JNum 86400), (''compensation'', JStr ''READINESS_ONLY''),
      (''recycling'', JStr ''FLOOR_RESERVE_WORKING_BURN''),
      (''funding'', JStr ''COMMITTED_LAB_CREDITS_NO_REDEMPTION''),
      (''expansion'', JStr ''PRIVATE_DEMAND_BACKED_SEPARATE_AUTHORIZATION''), (''issuance'', JStr ''NONE''),
      (''governance'', JStr ''SINGLE_PRIVATE_COORDINATOR'')]"

section \<open>Creation\<close>

definition created_pool ::
  "(string \<Rightarrow> string) \<Rightarrow> uuid \<Rightarrow> user \<Rightarrow> pool_request \<Rightarrow> frozen_group list \<Rightarrow> cooperative_pool" where
  "created_pool sha i user d frozen =
     \<lparr>cp_id = i, cp_creator_id = u_id user, cp_name = trim (pq_name d),
      cp_idempotency_key = pq_idempotency_key d,
      cp_request_sha256 = sha (canonical (pool_request_json d)),
      cp_policy_sha256 = sha (canonical (pool_policy i frozen)), cp_policy_version = cooperativePolicy,
      cp_expansion_allowed = True, cp_working_account = coop_account i ''working'',
      cp_reserve_account = coop_account i ''reserve'', cp_burn_account = coop_account i ''burn'',
      cp_support_until = at_ms (pq_support_until d), cp_paused = False, cp_state = HIBERNATING,
      cp_healthy_since = None, cp_sample_at = None\<rparr>"

text \<open>One \<open>INSERT\<close> of the three accounts; the columns \<open>UNIQUE\<close> and the checks of the tables.\<close>

definition open_accounts :: "cooperative_pool \<Rightarrow> ledger \<Rightarrow> ledger result" where
  "open_accounts p L =
     and_then (new_account (cp_working_account p) None COOP_WORKING L) (\<lambda>L1.
     and_then (new_account (cp_reserve_account p) None COOP_CORE_RESERVE L1) (\<lambda>L2.
     new_account (cp_burn_account p) None COOP_BURN L2))"

definition insert_pool :: "cooperative_pool \<Rightarrow> db \<Rightarrow> db result" where
  "insert_pool p s =
     (if \<exists>q \<in> set (pools s). cp_policy_sha256 q = cp_policy_sha256 p \<or>
          cp_working_account q = cp_working_account p \<or> cp_reserve_account q = cp_reserve_account p \<or>
          cp_burn_account q = cp_burn_account p \<or>
          (cp_creator_id q = cp_creator_id p \<and> cp_idempotency_key q = cp_idempotency_key p)
        then Inl (DbError ''23505'')
      else and_then (insert_row cp_id p (pools s)) (\<lambda>t. Inr (s\<lparr>pools := t\<rparr>)))"

definition pool_group_key :: "cooperative_group \<Rightarrow> uuid \<times> string" where
  "pool_group_key g = (cg_pool_id g, cg_group_key g)"

definition pool_route_key :: "cooperative_route \<Rightarrow> uuid \<times> uuid" where
  "pool_route_key r = (cr_pool_id r, cr_route_id r)"

definition insert_pool_group :: "cooperative_group \<Rightarrow> db \<Rightarrow> db result" where
  "insert_pool_group g s =
     (if cg_rate_microtu_per_second g \<le> 0 \<or> cg_duration_seconds g < 30 \<or> cg_duration_seconds g > 3600
        then Inl (DbError ''23514'')
      else and_then (insert_row pool_group_key g (pool_groups s)) (\<lambda>t. Inr (s\<lparr>pool_groups := t\<rparr>)))"

definition insert_pool_route :: "cooperative_route \<Rightarrow> db \<Rightarrow> db result" where
  "insert_pool_route r s =
     (if lookup pool_group_key (cr_pool_id r, cr_group_key r) (pool_groups s) = None \<or>
          lookup er_id (cr_route_id r) (routes s) = None
        then Inl (DbError ''23503'')
      else and_then (insert_row pool_route_key r (pool_routes s)) (\<lambda>t. Inr (s\<lparr>pool_routes := t\<rparr>)))"

definition store_group :: "uuid \<Rightarrow> frozen_group \<Rightarrow> db \<Rightarrow> db result" where
  "store_group i g s =
     and_then (insert_pool_group \<lparr>cg_pool_id = i, cg_group_key = fg_key g, cg_model_id = fg_model_id g,
         cg_rate_microtu_per_second = fg_rate_microtu_per_second g,
         cg_duration_seconds = fg_duration_seconds g\<rparr> s) (\<lambda>s1.
     each (\<lambda>(r, h). insert_pool_route
         \<lparr>cr_pool_id = i, cr_group_key = fg_key g, cr_route_id = r, cr_route_sha256 = h\<rparr>) (fg_routes g) s1)"

definition store_pool :: "instant \<Rightarrow> cooperative_pool \<Rightarrow> frozen_group list \<Rightarrow> cooperative_pool handler" where
  "store_pool support p frozen s =
     and_then (open_accounts p (ledger s)) (\<lambda>L.
     and_then (insert_pool p (s\<lparr>ledger := L\<rparr>)) (\<lambda>s1.
     and_then (each (store_group (cp_id p)) frozen s1) (\<lambda>s2.
     Inr (p, cooperative_event (cp_id p) (Some (cp_creator_id p)) ''created''
       [(''policy_sha256'', JStr (cp_policy_sha256 p)), (''support_until'', JStr (at_text support))] s2))))"

definition open_pools :: "ms \<Rightarrow> uuid \<Rightarrow> db \<Rightarrow> nat" where
  "open_pools tx_now u s =
     length (filter (\<lambda>p. cp_creator_id p = u \<and> \<not> cp_paused p \<and> cp_support_until p > tx_now) (pools s))"

definition create_pool ::
  "(string \<Rightarrow> string) \<Rightarrow> uuid \<Rightarrow> ms \<Rightarrow> ms \<Rightarrow> user \<Rightarrow> pool_request \<Rightarrow> cooperative_pool handler" where
  "create_pool sha i date_now tx_now user d s =
     zod (pool_request_ok d) (
     case find (\<lambda>p. cp_creator_id p = u_id user \<and> cp_idempotency_key p = pq_idempotency_key d) (pools s) of
       Some old \<Rightarrow> need (cp_request_sha256 old = sha (canonical (pool_request_json d))) 409 ''idempotency_conflict''
         (Inr (old, s))
     | None \<Rightarrow>
         need (support_window_ok date_now (at_ms (pq_support_until d))) 400 ''support_window'' (
         need (open_pools tx_now (u_id user) s < 4) 429 ''pool_limit'' (
         need (distinct (map gr_key (pq_groups d))) 400 ''duplicate_group'' (
         and_then (each (freeze_group tx_now s) (pq_groups d) (empty_scan, [])) (\<lambda>(_, frozen).
         need (sum_list (map fg_rate_microtu_per_second frozen) * 367200 \<le> MAX_AMOUNT) 400 ''amount_overflow'' (
         store_pool (pq_support_until d) (created_pool sha i user d frozen) frozen s))))))"

section \<open>Contribution\<close>

record fund_request =
  fq_destination :: funding_source
  fq_amount_microtu :: int
  fq_policy_sha256 :: string
  fq_idempotency_key :: uuid

definition fund_request_ok :: "fund_request \<Rightarrow> bool" where
  "fund_request_ok d \<longleftrightarrow> amount_ok (fq_amount_microtu d) \<and> fq_amount_microtu d > 0 \<and> sha256_ok (fq_policy_sha256 d)"

definition fund_request_json :: "uuid \<Rightarrow> fund_request \<Rightarrow> json" where
  "fund_request_json i d = JObj
     [(''pool_id'', JStr i), (''destination'', JStr (source_text (fq_destination d))),
      (''amount_microtu'', amt (fq_amount_microtu d)), (''policy_sha256'', JStr (fq_policy_sha256 d)),
      (''consent'', JStr ''COMMITTED_LAB_CREDITS_NO_REDEMPTION''),
      (''idempotency_key'', JStr (fq_idempotency_key d))]"

definition source_account :: "funding_source \<Rightarrow> cooperative_pool \<Rightarrow> string" where
  "source_account src p = (if src = From_WORKING then cp_working_account p else cp_reserve_account p)"

definition insert_funding :: "cooperative_funding \<Rightarrow> db \<Rightarrow> db result" where
  "insert_funding f s =
     (if fu_amount_microtu f \<le> 0 then Inl (DbError ''23514'')
      else if \<exists>q \<in> set (fundings s). fu_journal_id q = fu_journal_id f \<or>
          (fu_user_id q = fu_user_id f \<and> fu_idempotency_key q = fu_idempotency_key f)
        then Inl (DbError ''23505'')
      else and_then (insert_row fu_id f (fundings s)) (\<lambda>t. Inr (s\<lparr>fundings := t\<rparr>)))"

text \<open>The body of the transaction, once the request is known to be new; \<open>j\<close> is the posting's id.\<close>

definition contribute ::
  "string \<Rightarrow> uuid \<Rightarrow> uuid \<Rightarrow> user \<Rightarrow> fund_request \<Rightarrow> cooperative_pool \<Rightarrow> cooperative_funding handler" where
  "contribute digest f j user d p s =
     and_then (post j (''coop-funding:'' @ f) ''COOPERATIVE_FUNDING''
         [(availableAccount (u_id user), - fq_amount_microtu d),
          (source_account (fq_destination d) p, fq_amount_microtu d)]
         [(''pool_id'', JStr (cp_id p)), (''policy_sha256'', JStr (cp_policy_sha256 p)),
          (''source'', JStr ''EXISTING_LAB_TU''), (''destination'', JStr (source_text (fq_destination d)))]
         (ledger s)) (\<lambda>(j', L).
     let row = \<lparr>fu_id = f, fu_pool_id = cp_id p, fu_user_id = u_id user, fu_destination = fq_destination d,
           fu_amount_microtu = fq_amount_microtu d, fu_policy_sha256 = cp_policy_sha256 p,
           fu_idempotency_key = fq_idempotency_key d, fu_request_sha256 = digest, fu_journal_id = j'\<rparr> in
     and_then (insert_funding row (s\<lparr>ledger := L\<rparr>)) (\<lambda>s'. Inr (row, s')))"

definition fund_pool ::
  "(string \<Rightarrow> string) \<Rightarrow> uuid \<Rightarrow> uuid \<Rightarrow> ms \<Rightarrow> user \<Rightarrow> uuid \<Rightarrow> fund_request \<Rightarrow> cooperative_funding handler" where
  "fund_pool sha f j date_now user i d s =
     zod (fund_request_ok d) (
     let digest = sha (canonical (fund_request_json i d)) in
     case find (\<lambda>q. fu_user_id q = u_id user \<and> fu_idempotency_key q = fq_idempotency_key d) (fundings s) of
       Some prior \<Rightarrow> need (fu_request_sha256 prior = digest) 409 ''idempotency_conflict'' (Inr (prior, s))
     | None \<Rightarrow>
         locked i s (\<lambda>p.
         need (cp_policy_sha256 p = fq_policy_sha256 d) 409 ''pool_terms'' (
         need (\<not> cp_paused p \<and> cp_support_until p > date_now) 409 ''pool_inactive'' (
         contribute digest f j user d p s))))"

section \<open>Operational support\<close>

record manage_request =
  mq_paused :: bool
  mq_support_until :: "instant option"
  mq_reason :: string

definition manage_json :: "manage_request \<Rightarrow> (string \<times> json) list" where
  "manage_json d =
     [(''paused'', JBool (mq_paused d))] @
     (case mq_support_until d of None \<Rightarrow> [] | Some t \<Rightarrow> [(''support_until'', JStr (at_text t))]) @
     [(''reason'', JStr (trim (mq_reason d))), (''accepted_windows_preserved'', JBool True)]"

definition managed_row :: "manage_request \<Rightarrow> cooperative_pool \<Rightarrow> cooperative_pool" where
  "managed_row d p = p\<lparr>cp_paused := mq_paused d,
     cp_support_until := (case mq_support_until d of None \<Rightarrow> cp_support_until p | Some t \<Rightarrow> at_ms t),
     cp_healthy_since := None\<rparr>"

definition manage_pool :: "ms \<Rightarrow> user \<Rightarrow> uuid \<Rightarrow> manage_request \<Rightarrow> cooperative_pool handler" where
  "manage_pool date_now user i d s =
     zod (reason_ok (mq_reason d)) (
     locked i s (\<lambda>p.
     need (cp_creator_id p = u_id user \<or> u_role user = Admin) 403 ''pool_manager'' (
     need (case mq_support_until d of None \<Rightarrow> True | Some t \<Rightarrow> support_window_ok date_now (at_ms t))
       400 ''support_window'' (
     Inr (managed_row d p, cooperative_event i (Some (u_id user)) ''operational_support'' (manage_json d)
       (s\<lparr>pools := update_row cp_id i (managed_row d) (pools s)\<rparr>))))))"

section \<open>Windows\<close>

record window_request =
  wq_group_key :: string
  wq_source :: funding_source
  wq_reason :: string
  wq_idempotency_key :: uuid

text \<open>What a renewal adds: the routes it may use and the evidence it freezes in the terms.\<close>

record window_options =
  wo_eligible :: "uuid list option"
  wo_renewal :: "json option"
  wo_expansion :: "json option"

definition no_options :: window_options where
  "no_options = \<lparr>wo_eligible = None, wo_renewal = None, wo_expansion = None\<rparr>"

definition window_json :: "uuid \<Rightarrow> window_request \<Rightarrow> window_options \<Rightarrow> json" where
  "window_json i d opts = JObj
     ([(''pool_id'', JStr i), (''group_key'', JStr (wq_group_key d)), (''source'', JStr (source_text (wq_source d))),
       (''reason'', JStr (wq_reason d)), (''idempotency_key'', JStr (wq_idempotency_key d))] @
      (case wo_renewal opts of None \<Rightarrow> [] | Some e \<Rightarrow> [(''renewal'', e)]) @
      (case wo_expansion opts of None \<Rightarrow> [] | Some e \<Rightarrow> [(''expansion'', e)]))"

text \<open>A group has a funded window of this kind.\<close>

definition group_occupied :: "uuid \<Rightarrow> string \<Rightarrow> coverage_kind \<Rightarrow> db \<Rightarrow> bool" where
  "group_occupied i k kind s \<longleftrightarrow>
     (\<exists>cw \<in> set (windows s). cw_pool_id cw = i \<and> cw_group_key cw = k \<and> cw_coverage_kind cw = kind \<and>
        (case window_lease s cw of None \<Rightarrow> False | Some l \<Rightarrow> lease_funded l))"

text \<open>
  The creation time of the last window a fund bought on a route, as a sort key: \<open>NULLS FIRST\<close>,
  then the time.
\<close>

definition last_window :: "uuid \<Rightarrow> uuid \<Rightarrow> db \<Rightarrow> int list" where
  "last_window i route s =
     (let ts = concat (map (\<lambda>cw. case window_lease s cw of
            None \<Rightarrow> []
          | Some l \<Rightarrow> if cw_pool_id cw = i \<and> rl_route_id l = route then [rl_created_at l] else []) (windows s)) in
      if ts = [] then [0] else [1, Max (set ts)])"

definition route_free :: "ms \<Rightarrow> uuid \<Rightarrow> db \<Rightarrow> bool" where
  "route_free tx_now route s \<longleftrightarrow>
     (\<exists>off \<in> set (ready_execution_offers tx_now s). of_route off = Some route \<and>
        \<not> (\<exists>d \<in> set (of_domains off). d \<in> fst ` set (domain_claims s)))"

definition window_candidates :: "ms \<Rightarrow> uuid \<Rightarrow> string \<Rightarrow> uuid list option \<Rightarrow> db \<Rightarrow> cooperative_route list" where
  "window_candidates tx_now i k allowed s =
     sort_key (\<lambda>cr. last_window i (cr_route_id cr) s) (sort_key cr_route_id
       (filter (\<lambda>cr. cr_pool_id cr = i \<and> cr_group_key cr = k \<and>
          (case allowed of None \<Rightarrow> True | Some ids \<Rightarrow> cr_route_id cr \<in> set ids) \<and>
          route_free tx_now (cr_route_id cr) s) (pool_routes s)))"

definition insert_incident :: "cooperative_incident \<Rightarrow> db \<Rightarrow> db result" where
  "insert_incident x s =
     (if ci_budget_microtu x \<le> 0 then Inl (DbError ''23514'')
      else and_then (insert_row ci_id x (incidents s)) (\<lambda>t. Inr (s\<lparr>incidents := t\<rparr>)))"

text \<open>Triggers \<open>check_cooperative_window\<close> and \<open>match_coverage_kind\<close>; the lease is of this transaction.\<close>

definition incident_matches :: "cooperative_window \<Rightarrow> route_lease \<Rightarrow> db \<Rightarrow> bool" where
  "incident_matches cw l s \<longleftrightarrow>
     (\<exists>x \<in> set (incidents s). cw_incident_id cw = Some (ci_id x) \<and> ci_pool_id x = cw_pool_id cw \<and>
        ci_group_key x = cw_group_key cw \<and> ci_route_id x = rl_route_id l \<and> ci_budget_microtu x = rl_budget_microtu l)"

definition terms_match :: "cooperative_window \<Rightarrow> cooperative_pool \<Rightarrow> route_lease \<Rightarrow> bool" where
  "terms_match cw p l \<longleftrightarrow>
     (case rl_cooperative l of
        None \<Rightarrow> False
      | Some c \<Rightarrow> ct_pool_id c = cp_id p \<and> ct_policy_sha256 c = cp_policy_sha256 p \<and>
          ct_group_key c = cw_group_key cw \<and> ct_funding_source c = cw_funding_source cw \<and>
          cw_coverage_kind cw = (if ct_expansion c = None then ESSENTIAL else EXPANSION))"

definition window_matches :: "cooperative_window \<Rightarrow> db \<Rightarrow> bool" where
  "window_matches cw s \<longleftrightarrow>
     (case (window_lease s cw, lookup cp_id (cw_pool_id cw) (pools s),
            lookup pool_group_key (cw_pool_id cw, cw_group_key cw) (pool_groups s)) of
        (Some l, Some p, Some g) \<Rightarrow>
          (\<exists>cr \<in> set (pool_routes s). cr_pool_id cr = cp_id p \<and> cr_group_key cr = cw_group_key cw \<and>
             cr_route_id cr = rl_route_id l \<and> cr_route_sha256 cr = rl_route_sha256 l) \<and>
          rl_sponsor_id l = cp_creator_id p \<and> rl_rate_microtu_per_second l = cg_rate_microtu_per_second g \<and>
          rl_duration_seconds l = cg_duration_seconds g \<and> terms_match cw p l \<and>
          (cw_funding_source cw = From_WORKING \<or> incident_matches cw l s)
      | _ \<Rightarrow> False)"

definition insert_window :: "cooperative_window \<Rightarrow> db \<Rightarrow> db result" where
  "insert_window cw s =
     (if \<not> window_matches cw s then Inl (DbError ''P0001'')
      else if (cw_funding_source cw = From_RESERVE) \<noteq> (cw_incident_id cw \<noteq> None) \<or>
          (cw_coverage_kind cw = EXPANSION \<and> cw_funding_source cw \<noteq> From_WORKING)
        then Inl (DbError ''23514'')
      else if cw_incident_id cw \<noteq> None \<and> (\<exists>q \<in> set (windows s). cw_incident_id q = cw_incident_id cw)
        then Inl (DbError ''23505'')
      else and_then (insert_row cw_lease_id cw (windows s)) (\<lambda>t. Inr (s\<lparr>windows := t\<rparr>)))"

fun pool_state_text :: "pool_state \<Rightarrow> string" where
  "pool_state_text NORMAL = ''NORMAL''"
| "pool_state_text DEFENSE = ''DEFENSE''"
| "pool_state_text RECOVERY = ''RECOVERY''"
| "pool_state_text HIBERNATING = ''HIBERNATING''"

text \<open>The reserve opens an incident for the route it pays.\<close>

definition open_incident ::
  "uuid \<Rightarrow> ms \<Rightarrow> cooperative_pool \<Rightarrow> pool_snapshot \<Rightarrow> window_request \<Rightarrow> string \<Rightarrow> cooperative_route \<Rightarrow> int \<Rightarrow>
   db \<Rightarrow> (uuid option \<times> db) result" where
  "open_incident x tx_now p snap d request r budget s =
     (if wq_source d = From_WORKING then Inr (None, s) else
      need (sn_working snap < budget) 409 ''reserve_protected'' (
      need (sn_reserve snap \<ge> budget) 402 ''insufficient_credits'' (
      and_then (insert_incident
        \<lparr>ci_id = x, ci_pool_id = cp_id p, ci_group_key = wq_group_key d, ci_route_id = cr_route_id r,
         ci_policy_sha256 = cp_policy_sha256 p, ci_budget_microtu = budget, ci_deadline = cp_support_until p,
         ci_reason = wq_reason d,
         ci_evidence = JObj [(''working_microtu'', amt (sn_working snap)), (''state'', JStr (pool_state_text (sn_state snap))),
           (''trigger'', JStr ''ESSENTIAL_WORKING_SHORTFALL''), (''request_sha256'', JStr request)],
         ci_created_at = tx_now\<rparr> s) (\<lambda>s'. Inr (Some x, s')))))"

definition window_context ::
  "cooperative_pool \<Rightarrow> window_request \<Rightarrow> window_options \<Rightarrow> string \<Rightarrow> uuid option \<Rightarrow> coop_terms" where
  "window_context p d opts request incident =
     \<lparr>ct_pool_id = cp_id p, ct_group_key = wq_group_key d, ct_policy_sha256 = cp_policy_sha256 p,
      ct_funding_source = wq_source d, ct_request_sha256 = request, ct_support_until = cp_support_until p,
      ct_coverage_kind = (if wo_expansion opts = None then ESSENTIAL else EXPANSION),
      ct_incident_id = incident, ct_renewal = wo_renewal opts, ct_expansion = wo_expansion opts\<rparr>"

definition context_fields :: "(string \<Rightarrow> string) \<Rightarrow> coop_terms \<Rightarrow> (string \<times> json) list" where
  "context_fields sha c = (case coop_terms_json sha c of JObj fs \<Rightarrow> fs | _ \<Rightarrow> [])"

text \<open>The window's contract with the route, its row and its event.\<close>

definition buy_window ::
  "(string \<Rightarrow> string) \<Rightarrow> uuid \<Rightarrow> uuid \<Rightarrow> ms \<Rightarrow> user \<Rightarrow> cooperative_pool \<Rightarrow> cooperative_group \<Rightarrow> uuid \<Rightarrow> window_request \<Rightarrow>
   coop_terms \<Rightarrow> route_lease handler" where
  "buy_window sha w j tx_now user p g route d c s =
     and_then (offer_route_lease sha w j tx_now (cp_creator_id p)
         \<lparr>ro_route_id = route, ro_duration_seconds = cg_duration_seconds g,
          ro_rate_microtu_per_second = cg_rate_microtu_per_second g, ro_purpose = SCHEDULED,
          ro_reason = wq_reason d, ro_idempotency_key = wq_idempotency_key d\<rparr>
         (Some (source_account (wq_source d) p, c)) s) (\<lambda>(l, s1).
     and_then (insert_window \<lparr>cw_lease_id = rl_id l, cw_pool_id = cp_id p, cw_group_key = cg_group_key g,
         cw_funding_source = wq_source d, cw_incident_id = ct_incident_id c,
         cw_coverage_kind = ct_coverage_kind c\<rparr> s1) (\<lambda>s2.
     Inr (l, cooperative_event (cp_id p) (Some (u_id user)) ''window_funded''
       ((''lease_id'', JStr (rl_id l)) # context_fields sha c) s2)))"

definition offer_window ::
  "(string \<Rightarrow> string) \<Rightarrow> uuid \<times> uuid \<times> uuid \<Rightarrow> ms \<Rightarrow> ms \<Rightarrow> user \<Rightarrow> uuid \<Rightarrow> window_request \<Rightarrow> window_options \<Rightarrow>
   route_lease handler" where
  "offer_window sha ids date_now tx_now user i d opts s =
     (let request = sha (canonical (window_json i d opts));
          kind = (if wo_expansion opts = None then ESSENTIAL else EXPANSION) in
      locked i s (\<lambda>p.
      need (cp_creator_id p = u_id user \<or> u_role user = Admin) 403 ''pool_manager'' (
      case find (\<lambda>l. rl_sponsor_id l = cp_creator_id p \<and> rl_idempotency_key l = wq_idempotency_key d) (rt_leases s) of
        Some prior \<Rightarrow>
          need (map_option ct_request_sha256 (rl_cooperative prior) = Some request) 409 ''idempotency_conflict''
            (Inr (prior, s))
      | None \<Rightarrow>
          let snap = cooperativeSnapshot date_now tx_now s p in
          need (kind \<noteq> EXPANSION \<or> cp_expansion_allowed p) 409 ''expansion_policy'' (
          need_row (find (\<lambda>g. cg_group_key g = wq_group_key d) (map gs_group (sn_groups snap))) 404 ''group_missing'' (\<lambda>g.
          need (\<not> cp_paused p \<and> cp_support_until p > date_now + (cg_duration_seconds g + 10) * 1000)
            409 ''support_window'' (
          need (\<not> group_occupied i (cg_group_key g) kind s) 409 ''group_committed'' (
          need (window_candidates tx_now i (cg_group_key g) (wo_eligible opts) s \<noteq> []) 409 ''route_not_ready'' (
          let r = hd (window_candidates tx_now i (cg_group_key g) (wo_eligible opts) s); budget = group_cost g in
          need (kind = EXPANSION \<longrightarrow> wq_source d = From_WORKING \<and> sn_working snap \<ge> sn_floor snap + budget \<and>
              sn_reserve snap \<ge> sn_reserve_target snap \<and> sn_state snap = NORMAL) 409 ''expansion_liquidity'' (
          and_then (open_incident (snd (snd ids)) tx_now p snap d request r budget s) (\<lambda>(incident, s1).
          buy_window sha (fst ids) (fst (snd ids)) tx_now user p g (cr_route_id r) d
            (window_context p d opts request incident) s1))))))))))"

definition fund_offer ::
  "(string \<Rightarrow> string) \<Rightarrow> uuid \<times> uuid \<times> uuid \<Rightarrow> ms \<Rightarrow> ms \<Rightarrow> user \<Rightarrow> uuid \<Rightarrow> window_request \<Rightarrow> route_lease handler" where
  "fund_offer sha ids date_now tx_now user i d s =
     zod (group_key_ok (wq_group_key d) \<and> reason_ok (wq_reason d))
       (offer_window sha ids date_now tx_now user i (d\<lparr>wq_reason := trim (wq_reason d)\<rparr>) no_options s)"

section \<open>Reconcile\<close>

text \<open>One iteration, a transaction of its own, and the rows it visits; \<open>clock_ts\<close> is the sample.\<close>

definition reconcile_pool :: "ms \<Rightarrow> ms \<Rightarrow> ms \<Rightarrow> uuid \<Rightarrow> unit handler" where
  "reconcile_pool date_now tx_now clock_ts i s =
     locked i s (\<lambda>p.
     let snap = cooperativeSnapshot date_now tx_now s p;
         s1 = s\<lparr>pools := update_row cp_id i (\<lambda>q. q\<lparr>cp_state := sn_state snap,
                 cp_healthy_since := sn_healthy_since snap, cp_sample_at := Some clock_ts\<rparr>) (pools s)\<rparr> in
     Inr ((), if sn_state snap \<noteq> cp_state p
              then cooperative_event i None ''state_changed''
                [(''from'', JStr (pool_state_text (cp_state p))), (''to'', JStr (pool_state_text (sn_state snap)))] s1
              else s1))"

definition pools_due :: "ms \<Rightarrow> db \<Rightarrow> uuid list" where
  "pools_due tx_now s = sort (map cp_id
     (filter (\<lambda>p. \<not> cp_paused p \<and> cp_support_until p > tx_now \<or> cp_state p \<noteq> HIBERNATING) (pools s)))"

fun reconcile_pools :: "(uuid \<times> ms \<times> ms \<times> ms) list \<Rightarrow> db \<Rightarrow> unit result \<times> db" where
  "reconcile_pools [] s = (Inr (), s)"
| "reconcile_pools ((i, date_now, tx_now, clock_ts) # work) s =
     (case commit (reconcile_pool date_now tx_now clock_ts i) s of
        (Inl e, s') \<Rightarrow> (Inl e, s')
      | (Inr _, s') \<Rightarrow> reconcile_pools work s')"

end
