(* ===== verification/Market.thy ===== *)
theory Market
  imports Auth Offers
begin

text \<open>
  The market of \<open>apps/control-api/src/market.ts\<close>: models and their qualification, quotes, grants of
  test units, physical domains, and the invitation and the desired state of nodes. API keys are in
  \<open>Auth\<close>. The platform's URL parser is the parameter \<open>parse_url\<close>.
\<close>

section \<open>Node addresses\<close>

record url =
  url_protocol :: string
  url_hostname :: string
  url_port :: string
  url_username :: string
  url_password :: string
  url_pathname :: string
  url_search :: string
  url_hash :: string

text \<open>\<open>Number(port)\<close>: the empty port is 0; \<open>origin\<close> of an \<open>http:\<close> URL with a port of its own.\<close>

definition loopbackNodeUrl :: "url \<Rightarrow> string result" where
  "loopbackNodeUrl u =
     need (url_protocol u = ''http:'' \<and> url_hostname u = ''127.0.0.1'' \<and> url_username u = [] \<and>
         url_password u = [] \<and> url_search u = [] \<and> url_hash u = [] \<and> url_pathname u = ''/'' \<and>
         43103 \<le> read_nat (url_port u) \<and> read_nat (url_port u) \<le> 43299)
       400 ''invalid_node_endpoint''
       (Inr (url_protocol u @ ''//'' @ url_hostname u @ '':'' @ url_port u))"

section \<open>Models\<close>

text \<open>A model with the number of ready offers of it and whether it is available.\<close>

definition market_models :: "ms \<Rightarrow> db \<Rightarrow> (model \<times> nat \<times> bool) list" where
  "market_models tx_now s = map (\<lambda>m.
     let ready = length (filter (\<lambda>off. of_model off = m_id m) (ready_execution_offers tx_now s)) in
     (m, ready, m_state m = M_LOCAL_PREVIEW \<and> 0 < ready)) (models s)"

definition insert_model :: "model \<Rightarrow> db \<Rightarrow> db result" where
  "insert_model m s =
     (if \<exists>q \<in> set (models s). m_manifest_sha256 q = m_manifest_sha256 m then Inl (DbError ''23505'')
      else and_then (insert_row m_id m (models s)) (\<lambda>t. Inr (s\<lparr>models := t\<rparr>)))"

definition publish_model :: "(string \<Rightarrow> string) \<Rightarrow> user \<Rightarrow> model_manifest \<Rightarrow> model handler" where
  "publish_model sha user body s =
     zod (modelManifestSchema body) (
     let manifest = body\<lparr>mm_display_name := trim (mm_display_name body)\<rparr>;
         m = \<lparr>m_id = mm_model_id manifest, m_manifest = manifest,
              m_manifest_sha256 = sha (canonical (manifest_json manifest)), m_state = M_CANDIDATE,
              m_publisher_id = u_id user, m_qualification_note = []\<rparr> in
     and_then (insert_model m s) (\<lambda>s'. Inr (m, s')))"

text \<open>The states that a qualification can ask for, of a model or of a route.\<close>

datatype verdict = To_LOCAL_PREVIEW | To_REVOKED

fun verdict_text :: "verdict \<Rightarrow> string" where
  "verdict_text To_LOCAL_PREVIEW = ''LOCAL_PREVIEW''"
| "verdict_text To_REVOKED = ''REVOKED''"

fun verdict_model :: "verdict \<Rightarrow> model_state" where
  "verdict_model To_LOCAL_PREVIEW = M_LOCAL_PREVIEW"
| "verdict_model To_REVOKED = M_REVOKED"

definition qualification_note_ok :: "string \<Rightarrow> bool" where
  "qualification_note_ok note \<longleftrightarrow> 20 \<le> length note \<and> length note \<le> 1000"

definition qualify_model :: "user \<Rightarrow> string \<Rightarrow> verdict \<Rightarrow> string \<Rightarrow> (string \<times> model_state) handler" where
  "qualify_model user i v note s =
     admin user (
     zod (qualification_note_ok note) (
     need (\<exists>m \<in> set (models s). m_id m = i) 404 ''model_missing'' (
     Inr ((i, verdict_model v), s\<lparr>
       models := update_row m_id i (\<lambda>m. m\<lparr>m_state := verdict_model v, m_qualification_note := note\<rparr>) (models s),
       events := events s @ [actor_event (u_id user) ''model_qualification''
         [(''model_id'', JStr i), (''state'', JStr (verdict_text v)), (''note'', JStr note)]]\<rparr>))))"

section \<open>Quotes\<close>

record quote_request =
  qr_cooperative_pool_id :: "uuid option"
  qr_model :: string
  qr_max_output_tokens :: int

definition quoteSchema :: "quote_request \<Rightarrow> bool" where
  "quoteSchema d \<longleftrightarrow> 1 \<le> length (qr_model d) \<and> length (qr_model d) \<le> 80 \<and>
     1 \<le> qr_max_output_tokens d \<and> qr_max_output_tokens d \<le> 8192"

definition quote_pool :: "ms \<Rightarrow> string \<Rightarrow> uuid \<Rightarrow> db \<Rightarrow> cooperative_pool option" where
  "quote_pool tx_now m i s = find (\<lambda>p. cp_id p = i \<and> \<not> cp_paused p \<and> cp_support_until p > tx_now \<and>
     (\<exists>g \<in> set (pool_groups s). cg_pool_id g = i \<and> cg_model_id g = m)) (pools s)"

definition insert_quote :: "quote \<Rightarrow> db \<Rightarrow> db result" where
  "insert_quote q s =
     (if q_maximum_microtu q < 0 then Inl (DbError ''23514'')
      else and_then (insert_row q_id q (quotes s)) (\<lambda>t. Inr (s\<lparr>quotes := t\<rparr>)))"

definition make_quote :: "uuid \<Rightarrow> ms \<Rightarrow> user \<Rightarrow> quote_request \<Rightarrow> quote handler" where
  "make_quote i tx_now user d s =
     zod (quoteSchema d) (
     need_row (find (\<lambda>m. m_id m = qr_model d \<and> m_state m = M_LOCAL_PREVIEW) (models s))
       404 ''model_unavailable'' (\<lambda>row.
     let manifest = m_manifest row in
     zod (modelManifestSchema manifest) (
     need (qr_max_output_tokens d \<le> mm_max_output_tokens manifest) 400 ''output_limit'' (
     and_then (quoteMaximum manifest (qr_max_output_tokens d)) (\<lambda>maximum.
     let pool = (case qr_cooperative_pool_id d of None \<Rightarrow> None | Some p \<Rightarrow> quote_pool tx_now (qr_model d) p s) in
     need (qr_cooperative_pool_id d = None \<or> pool \<noteq> None) 409 ''pool_unavailable'' (
     let q = \<lparr>q_id = i, q_user_id = u_id user, q_model_id = qr_model d, q_manifest = manifest,
           q_manifest_sha256 = m_manifest_sha256 row, q_max_output_tokens = qr_max_output_tokens d,
           q_maximum_microtu = maximum, q_expires_at = tx_now + 60000,
           q_cooperative_pool_id = map_option cp_id pool,
           q_cooperative_policy_sha256 = map_option cp_policy_sha256 pool\<rparr> in
     and_then (insert_quote q s) (\<lambda>s'. Inr (q, s'))))))))"

section \<open>Grants\<close>

record grant_request =
  gr_user_id :: uuid
  gr_amount_microtu :: int
  gr_idempotency_key :: uuid
  gr_reason :: string

definition grant_fields :: "grant_request \<Rightarrow> (string \<times> json) list" where
  "grant_fields d =
     [(''user_id'', JStr (gr_user_id d)), (''amount_microtu'', amt (gr_amount_microtu d)),
      (''idempotency_key'', JStr (gr_idempotency_key d)), (''reason'', JStr (gr_reason d))]"

definition grant_key :: "uuid \<Rightarrow> string" where "grant_key k = ''grant:'' @ k"

definition grant :: "uuid \<Rightarrow> user \<Rightarrow> grant_request \<Rightarrow> uuid handler" where
  "grant j user d s =
     admin user (
     zod (amount_ok (gr_amount_microtu d) \<and> 10 \<le> length (gr_reason d) \<and> length (gr_reason d) \<le> 200) (
     let v = gr_amount_microtu d in
     need (0 < v \<and> v \<le> 1000000000) 400 ''grant_limit'' (
     need (case find_key (grant_key (gr_idempotency_key d)) (ledger s) of
             None \<Rightarrow> True
           | Some previous \<Rightarrow> canonical (j_metadata previous) = canonical (JObj (grant_fields d)))
       409 ''idempotency_conflict'' (
     and_then (post j (grant_key (gr_idempotency_key d)) ''LAB_GRANT''
         [(''lab:issuer'', - v), (availableAccount (gr_user_id d), v)] (grant_fields d) (ledger s))
       (\<lambda>(k, L). Inr (k, s\<lparr>ledger := L\<rparr>))))))"

section \<open>Domains and nodes\<close>

definition domain :: "uuid \<Rightarrow> user \<Rightarrow> string \<Rightarrow> uuid \<Rightarrow> int \<Rightarrow> resource_domain handler" where
  "domain i user name owner slots s =
     admin user (
     zod (label_ok name \<and> 1 \<le> slots \<and> slots \<le> 16) (
     if lookup u_id owner (users s) = None then Inl (DbError ''23503'') else
     let d = \<lparr>d_id = i, d_name = trim name, d_slots = slots, d_owner_id = owner\<rparr> in
     and_then (insert_row d_id d (domains s)) (\<lambda>t. Inr (d, s\<lparr>domains := t\<rparr>))))"

record invite_request =
  iv_name :: string
  iv_owner_id :: uuid
  iv_resource_domain_id :: uuid
  iv_model_id :: string
  iv_base_url :: string
  iv_node_kind :: "node_kind option"

definition invited_node :: "uuid \<Rightarrow> invite_request \<Rightarrow> string \<Rightarrow> node" where
  "invited_node i d origin =
     \<lparr>n_id = i, n_owner_id = iv_owner_id d, n_name = trim (iv_name d), n_public_key = None,
      n_resource_domain_id = iv_resource_domain_id d, n_model_id = iv_model_id d, n_base_url = origin,
      n_epoch = 0, n_boot_id = None, n_state = N_OFFLINE, n_desired_state = Want_READY,
      n_last_seen = None, n_generation_profile = None, n_loaded_backend_models = [],
      n_node_kind = (case iv_node_kind d of None \<Rightarrow> INFERENCE | Some k \<Rightarrow> k)\<rparr>"

definition insert_node :: "node \<Rightarrow> db \<Rightarrow> db result" where
  "insert_node n s =
     (if lookup u_id (n_owner_id n) (users s) = None \<or> lookup d_id (n_resource_domain_id n) (domains s) = None \<or>
          lookup m_id (n_model_id n) (models s) = None
        then Inl (DbError ''23503'')
      else and_then (insert_row n_id n (nodes s)) (\<lambda>t. Inr (s\<lparr>nodes := t\<rparr>)))"

definition insert_invite :: "node_invite \<Rightarrow> db \<Rightarrow> db result" where
  "insert_invite v s =
     and_then (insert_row ni_token_hash v (node_invites s)) (\<lambda>t. Inr (s\<lparr>node_invites := t\<rparr>))"

text \<open>The reply is the id of the node and the token of the invite.\<close>

definition invite ::
  "(string \<Rightarrow> string) \<Rightarrow> (string \<Rightarrow> url option) \<Rightarrow> string \<Rightarrow> uuid \<Rightarrow> ms \<Rightarrow> user \<Rightarrow> invite_request \<Rightarrow> (uuid \<times> string) handler"
where
  "invite sha parse_url random i tx_now user d s =
     admin user (
     zod (label_ok (iv_name d) \<and> length (iv_model_id d) \<le> 80) (
     case parse_url (iv_base_url d) of
       None \<Rightarrow> Inl ZodError
     | Some u \<Rightarrow>
         and_then (loopbackNodeUrl u) (\<lambda>origin.
         need (\<exists>q \<in> set (domains s). d_id q = iv_resource_domain_id d \<and> d_owner_id q = iv_owner_id d)
           400 ''domain_owner'' (
         and_then (insert_node (invited_node i d origin) s) (\<lambda>s1.
         and_then (insert_invite \<lparr>ni_token_hash = sha (secret random), ni_node_id = i,
             ni_expires_at = tx_now + 86400000, ni_consumed_at = None\<rparr> s1) (\<lambda>s2.
         Inr ((i, secret random), s2)))))))"

text \<open>A node with its domain and whether it was seen in the last 15 seconds (a node never seen was not).\<close>

definition market_nodes :: "ms \<Rightarrow> user \<Rightarrow> db \<Rightarrow> (node \<times> string \<times> int \<times> bool) list" where
  "market_nodes tx_now user s = concat (map (\<lambda>n.
     case lookup d_id (n_resource_domain_id n) (domains s) of
       None \<Rightarrow> [] | Some d \<Rightarrow> [(n, d_name d, d_slots d, seen_recently tx_now n)])
     (filter (\<lambda>n. u_role user = Admin \<or> n_owner_id n = u_id user) (nodes s)))"

definition node_asked :: "desired_state \<Rightarrow> node \<Rightarrow> node" where
  "node_asked want n = n\<lparr>n_desired_state := want,
     n_state := (if want = Want_REVOKED then N_REVOKED else n_state n)\<rparr>"

definition nodeState :: "user \<Rightarrow> uuid \<Rightarrow> desired_state \<Rightarrow> (uuid \<times> desired_state) handler" where
  "nodeState user i want s =
     need_row (find (\<lambda>n. n_id n = i \<and> (u_role user = Admin \<or> n_owner_id n = u_id user) \<and>
         n_desired_state n \<noteq> Want_REVOKED) (nodes s)) 404 ''node_missing'' (\<lambda>n.
     Inr ((i, want), s\<lparr>nodes := update_row n_id i (node_asked want) (nodes s)\<rparr>))"

end
