(* ===== verification/Economics.thy ===== *)
theory Economics
  imports Funds Market
begin

text \<open>
  Private declarations of who is who: \<open>apps/control-api/src/economics.ts\<close> with the tables and
  triggers of \<open>infra/migrations/009\<close>. An administrator declares parties, the party of a user and the
  operating support of a fund; \<open>expansionFacts\<close> decides from them, the fund's snapshot, the queue and
  the leases whether demand-backed expansion is allowed, gate by gate.

  The state is the control API's database with the tables of the migrations 008 and 009. The dates of
  journal rows, settlements and refunds are not columns of the model: the row that the query for
  \<open>flow\<close> returns enters as an argument.
\<close>

section \<open>Tables\<close>

record economic_party =
  py_id :: uuid
  py_name :: string
  py_evidence_sha256 :: string
  py_source_reference :: string
  py_created_by :: uuid
  py_idempotency_key :: uuid
  py_request_sha256 :: string

record affiliation =
  af_id :: uuid
  af_user_id :: uuid
  af_party_id :: uuid
  af_evidence_sha256 :: string
  af_source_reference :: string
  af_created_by :: uuid
  af_expires_at :: ms
  af_revoked_at :: "ms option"
  af_created_at :: ms
  af_idempotency_key :: uuid
  af_request_sha256 :: string

record operating_support =
  os_id :: uuid
  os_pool_id :: uuid
  os_policy_sha256 :: string
  os_created_by :: uuid
  os_scope :: string
  os_evidence_sha256 :: string
  os_source_reference :: string
  os_expires_at :: ms
  os_revoked_at :: "ms option"
  os_created_at :: ms
  os_idempotency_key :: uuid
  os_request_sha256 :: string
  os_terms_sha256 :: string

record expansion_demand =
  ed_lease_id :: uuid
  ed_session_id :: uuid
  ed_consumer_party_id :: uuid
  ed_affiliation_id :: uuid
  ed_evidence :: json
  ed_evidence_sha256 :: string

datatype authority_state = Z_ACTIVE | Z_REVOKED | Z_EXPIRED | Z_EXHAUSTED

record renewal_authority =
  au_id :: uuid
  au_pool_id :: uuid
  au_group_key :: string
  au_authorized_by :: uuid
  au_policy_sha256 :: string
  au_maximum_windows :: int
  au_maximum_working_microtu :: int
  au_maximum_reserve_microtu :: int
  au_windows_used :: int
  au_working_committed_microtu :: int
  au_reserve_committed_microtu :: int
  au_terms_sha256 :: string
  au_expires_at :: ms
  au_state :: authority_state
  au_revoked_at :: "ms option"
  au_idempotency_key :: uuid
  au_request_sha256 :: string
  au_last_status :: string
  au_last_attempt_at :: "ms option"
  au_coverage_kind :: coverage_kind
  au_operating_support_id :: "uuid option"

record provider_mandate =
  pm_id :: uuid
  pm_pool_id :: uuid
  pm_provider_id :: uuid
  pm_route_id :: uuid
  pm_route_sha256 :: string
  pm_policy_sha256 :: string
  pm_maximum_windows :: int
  pm_windows_used :: int
  pm_terms_sha256 :: string
  pm_expires_at :: ms
  pm_state :: authority_state
  pm_revoked_at :: "ms option"
  pm_idempotency_key :: uuid
  pm_request_sha256 :: string
  pm_coverage_kind :: coverage_kind

record renewal_run =
  rw_lease_id :: uuid
  rw_authorization_id :: uuid
  rw_sequence :: int
  rw_source :: funding_source
  rw_committed_microtu :: int

record mandate_usage =
  mu_lease_id :: uuid
  mu_provider_id :: uuid
  mu_mandate_id :: uuid
  mu_terms_sha256 :: string

record renewal_event =
  re_pool_id :: uuid
  re_kind :: string
  re_actor_id :: "uuid option"
  re_authorization_id :: "uuid option"
  re_provider_mandate_id :: "uuid option"
  re_metadata :: json

record fund_db =
  base :: db
  parties :: "economic_party list"
  affiliations :: "affiliation list"
  supports :: "operating_support list"
  demands :: "expansion_demand list"
  authorities :: "renewal_authority list"
  mandates :: "provider_mandate list"
  runs :: "renewal_run list"
  usages :: "mandate_usage list"
  renewal_events :: "renewal_event list"

type_synonym 'a fund_handler = "fund_db \<Rightarrow> ('a \<times> fund_db) result"

section \<open>Declarations\<close>

record evidence_request =
  vq_evidence_sha256 :: string
  vq_source_reference :: string
  vq_idempotency_key :: uuid

definition evidence_ok :: "evidence_request \<Rightarrow> bool" where
  "evidence_ok e \<longleftrightarrow> sha256_ok (vq_evidence_sha256 e) \<and> 20 \<le> length (trim (vq_source_reference e)) \<and>
     length (trim (vq_source_reference e)) \<le> 300"

definition evidence_json :: "evidence_request \<Rightarrow> (string \<times> json) list" where
  "evidence_json e =
     [(''evidence_sha256'', JStr (vq_evidence_sha256 e)), (''source_reference'', JStr (trim (vq_source_reference e))),
      (''idempotency_key'', JStr (vq_idempotency_key e))]"

definition insert_party :: "economic_party \<Rightarrow> fund_db \<Rightarrow> fund_db result" where
  "insert_party p s =
     (if \<exists>q \<in> set (parties s). py_created_by q = py_created_by p \<and> py_idempotency_key q = py_idempotency_key p
        then Inl (DbError ''23505'')
      else and_then (insert_row py_id p (parties s)) (\<lambda>t. Inr (s\<lparr>parties := t\<rparr>)))"

definition declare_party ::
  "(string \<Rightarrow> string) \<Rightarrow> uuid \<Rightarrow> user \<Rightarrow> string \<Rightarrow> evidence_request \<Rightarrow> economic_party fund_handler" where
  "declare_party sha i user name e s =
     admin user (
     zod (evidence_ok e \<and> label_ok name) (
     let digest = sha (canonical (JObj (evidence_json e @ [(''name'', JStr (trim name))]))) in
     case find (\<lambda>p. py_created_by p = u_id user \<and> py_idempotency_key p = vq_idempotency_key e) (parties s) of
       Some old \<Rightarrow> need (py_request_sha256 old = digest) 409 ''idempotency_conflict'' (Inr (old, s))
     | None \<Rightarrow>
         let row = \<lparr>py_id = i, py_name = trim name, py_evidence_sha256 = vq_evidence_sha256 e,
               py_source_reference = trim (vq_source_reference e), py_created_by = u_id user,
               py_idempotency_key = vq_idempotency_key e, py_request_sha256 = digest\<rparr> in
         and_then (insert_party row s) (\<lambda>s'. Inr (row, s'))))"

text \<open>The unique index \<open>one_unrevoked_affiliation\<close>, the check and the foreign keys of the table.\<close>

definition insert_affiliation :: "affiliation \<Rightarrow> fund_db \<Rightarrow> fund_db result" where
  "insert_affiliation a s =
     (if af_expires_at a \<le> af_created_at a then Inl (DbError ''23514'')
      else if lookup u_id (af_user_id a) (users (base s)) = None \<or> lookup py_id (af_party_id a) (parties s) = None
        then Inl (DbError ''23503'')
      else if \<exists>q \<in> set (affiliations s). (af_user_id q = af_user_id a \<and> af_revoked_at q = None) \<or>
          (af_created_by q = af_created_by a \<and> af_idempotency_key q = af_idempotency_key a)
        then Inl (DbError ''23505'')
      else and_then (insert_row af_id a (affiliations s)) (\<lambda>t. Inr (s\<lparr>affiliations := t\<rparr>)))"

definition expire_affiliations :: "ms \<Rightarrow> ms \<Rightarrow> uuid \<Rightarrow> fund_db \<Rightarrow> fund_db" where
  "expire_affiliations tx_now clock_ts u s = s\<lparr>affiliations := map
     (\<lambda>a. if af_user_id a = u \<and> af_revoked_at a = None \<and> af_expires_at a \<le> tx_now
          then a\<lparr>af_revoked_at := Some clock_ts\<rparr> else a) (affiliations s)\<rparr>"

definition affiliate ::
  "(string \<Rightarrow> string) \<Rightarrow> uuid \<Rightarrow> ms \<Rightarrow> ms \<Rightarrow> ms \<Rightarrow> user \<Rightarrow> uuid \<Rightarrow> uuid \<Rightarrow> instant \<Rightarrow> evidence_request \<Rightarrow> affiliation fund_handler"
where
  "affiliate sha i date_now tx_now clock_ts user u party expires e s =
     admin user (
     zod (evidence_ok e) (
     let digest = sha (canonical (JObj (evidence_json e @ [(''user_id'', JStr u), (''party_id'', JStr party),
           (''expires_at'', JStr (at_text expires))]))) in
     case find (\<lambda>a. af_created_by a = u_id user \<and> af_idempotency_key a = vq_idempotency_key e) (affiliations s) of
       Some old \<Rightarrow> need (af_request_sha256 old = digest) 409 ''idempotency_conflict'' (Inr (old, s))
     | None \<Rightarrow>
         need (support_window_ok date_now (at_ms expires)) 400 ''evidence_expiry'' (
         let s1 = expire_affiliations tx_now clock_ts u s in
         need (\<not> (\<exists>a \<in> set (affiliations s1). af_user_id a = u \<and> af_revoked_at a = None)) 409 ''active_affiliation'' (
         let row = \<lparr>af_id = i, af_user_id = u, af_party_id = party, af_evidence_sha256 = vq_evidence_sha256 e,
               af_source_reference = trim (vq_source_reference e), af_created_by = u_id user,
               af_expires_at = at_ms expires, af_revoked_at = None, af_created_at = clock_ts,
               af_idempotency_key = vq_idempotency_key e, af_request_sha256 = digest\<rparr> in
         and_then (insert_affiliation row s1) (\<lambda>s2. Inr (row, s2))))))"

definition insert_support :: "operating_support \<Rightarrow> fund_db \<Rightarrow> fund_db result" where
  "insert_support x s =
     (if os_expires_at x \<le> os_created_at x then Inl (DbError ''23514'')
      else if \<exists>q \<in> set (supports s). os_terms_sha256 q = os_terms_sha256 x \<or>
          (os_created_by q = os_created_by x \<and> os_idempotency_key q = os_idempotency_key x)
        then Inl (DbError ''23505'')
      else and_then (insert_row os_id x (supports s)) (\<lambda>t. Inr (s\<lparr>supports := t\<rparr>)))"

definition support_fields :: "string \<Rightarrow> string \<Rightarrow> instant \<Rightarrow> evidence_request \<Rightarrow> (string \<times> json) list" where
  "support_fields policy scope expires e = evidence_json e @
     [(''policy_sha256'', JStr policy), (''scope'', JStr (trim scope)), (''expires_at'', JStr (at_text expires)),
      (''consent'', JStr ''PRIVATE_IN_KIND_SUPPORT_NO_VERIFIED_CASH_CLAIM'')]"

definition declare_support ::
  "(string \<Rightarrow> string) \<Rightarrow> uuid \<Rightarrow> ms \<Rightarrow> ms \<Rightarrow> user \<Rightarrow> uuid \<Rightarrow> string \<Rightarrow> string \<Rightarrow> instant \<Rightarrow> evidence_request \<Rightarrow>
   operating_support fund_handler" where
  "declare_support sha i date_now clock_ts user pool policy scope expires e s =
     admin user (
     zod (evidence_ok e \<and> sha256_ok policy \<and> 40 \<le> length (trim scope) \<and> length (trim scope) \<le> 1000) (
     let digest = sha (canonical (JObj ((''pool_id'', JStr pool) # support_fields policy scope expires e))) in
     need_row (lookup cp_id pool (pools (base s))) 404 ''pool_missing'' (\<lambda>p.
     case find (\<lambda>x. os_created_by x = u_id user \<and> os_idempotency_key x = vq_idempotency_key e) (supports s) of
       Some old \<Rightarrow> need (os_request_sha256 old = digest) 409 ''idempotency_conflict'' (Inr (old, s))
     | None \<Rightarrow>
         need (cp_policy_sha256 p = policy) 409 ''pool_terms'' (
         need (support_window_ok date_now (at_ms expires)) 400 ''evidence_expiry'' (
         let terms = JObj ([(''policy'', JStr ''private-in-kind-support-v1''), (''id'', JStr i), (''pool_id'', JStr pool),
                 (''actor_id'', JStr (u_id user))] @ support_fields policy scope expires e);
             row = \<lparr>os_id = i, os_pool_id = pool, os_policy_sha256 = policy, os_created_by = u_id user,
               os_scope = trim scope, os_evidence_sha256 = vq_evidence_sha256 e,
               os_source_reference = trim (vq_source_reference e), os_expires_at = at_ms expires,
               os_revoked_at = None, os_created_at = clock_ts, os_idempotency_key = vq_idempotency_key e,
               os_request_sha256 = digest, os_terms_sha256 = sha (canonical terms)\<rparr> in
         and_then (insert_support row s) (\<lambda>s'. Inr (row, s')))))))"

definition revoke_affiliation :: "ms \<Rightarrow> user \<Rightarrow> uuid \<Rightarrow> affiliation fund_handler" where
  "revoke_affiliation clock_ts user i s =
     admin user (
     need_row (lookup af_id i (affiliations s)) 404 ''evidence_missing'' (\<lambda>row.
     if af_revoked_at row \<noteq> None then Inr (row, s)
     else Inr (row\<lparr>af_revoked_at := Some clock_ts\<rparr>,
       s\<lparr>affiliations := update_row af_id i (\<lambda>a. a\<lparr>af_revoked_at := Some clock_ts\<rparr>) (affiliations s)\<rparr>)))"

definition revoke_support :: "ms \<Rightarrow> user \<Rightarrow> uuid \<Rightarrow> operating_support fund_handler" where
  "revoke_support clock_ts user i s =
     admin user (
     need_row (lookup os_id i (supports s)) 404 ''evidence_missing'' (\<lambda>row.
     if os_revoked_at row \<noteq> None then Inr (row, s)
     else Inr (row\<lparr>os_revoked_at := Some clock_ts\<rparr>,
       s\<lparr>supports := update_row os_id i (\<lambda>x. x\<lparr>os_revoked_at := Some clock_ts\<rparr>) (supports s)\<rparr>)))"

section \<open>Independence\<close>

definition declared_at :: "ms \<Rightarrow> affiliation \<Rightarrow> bool" where
  "declared_at t a \<longleftrightarrow> af_created_at a \<le> t \<and> af_expires_at a > t \<and>
     (case af_revoked_at a of None \<Rightarrow> True | Some r \<Rightarrow> r > t)"

text \<open>The providers of a group's routes and the creator of the plan.\<close>

definition plan_actors :: "uuid \<Rightarrow> string \<Rightarrow> db \<Rightarrow> uuid list" where
  "plan_actors pool k s = remdups
     (concat (map (\<lambda>cr. map rm_provider_id (members_of (cr_route_id cr) s))
        (filter (\<lambda>cr. cr_pool_id cr = pool \<and> cr_group_key cr = k) (pool_routes s))) @
      map cp_creator_id (filter (\<lambda>p. cp_id p = pool) (pools s)))"

definition independentAt :: "ms \<Rightarrow> uuid \<Rightarrow> uuid \<Rightarrow> string \<Rightarrow> fund_db \<Rightarrow> bool" where
  "independentAt t consumer pool k s \<longleftrightarrow>
     (\<exists>ca \<in> set (affiliations s). af_user_id ca = consumer \<and> declared_at t ca \<and>
        (\<forall>actor \<in> set (plan_actors pool k (base s)).
           (\<exists>pa \<in> set (affiliations s). af_user_id pa = actor \<and> declared_at t pa) \<and>
           (\<forall>pa \<in> set (affiliations s). af_user_id pa = actor \<and> declared_at t pa \<longrightarrow> af_party_id pa \<noteq> af_party_id ca)))"

section \<open>Expansion\<close>

text \<open>The row of the query for \<open>flow\<close>: what the plan earned back and spent in a day.\<close>

record flow_row =
  fl_net_recycled_microtu :: int
  fl_normal_cost_microtu :: int

record queued_demand =
  qd_session :: session
  qd_affiliation :: affiliation

record expansion_facts =
  ef_cost :: int
  ef_support :: "operating_support option"
  ef_flow :: flow_row
  ef_spare :: int
  ef_candidates :: "uuid list"
  ef_reserved :: int
  ef_covered_groups :: int
  ef_required_groups :: int
  ef_demand :: "queued_demand list"
  ef_gates :: "(string \<times> bool) list"

definition live_support :: "ms \<Rightarrow> cooperative_pool \<Rightarrow> cooperative_group \<Rightarrow> uuid \<Rightarrow> fund_db \<Rightarrow> operating_support option" where
  "live_support clock_ts p g i s =
     (case lookup os_id i (supports s) of
        None \<Rightarrow> None
      | Some x \<Rightarrow>
          if os_pool_id x = cp_id p \<and> os_policy_sha256 x = cp_policy_sha256 p \<and> os_revoked_at x = None \<and>
             (case lookup u_id (os_created_by x) (users (base s)) of None \<Rightarrow> False | Some u \<Rightarrow> \<not> u_disabled u) \<and>
             os_expires_at x > clock_ts + (cg_duration_seconds g + 10) * 1000
          then Some x else None)"

text \<open>The running windows of a plan that keep covering requests, with the offer of their route.\<close>

definition covers :: "ms \<Rightarrow> db \<Rightarrow> route_lease \<Rightarrow> bool" where
  "covers clock_ts s l \<longleftrightarrow> rl_state l = L_ACTIVE \<and>
     (case rl_ends_ms l of None \<Rightarrow> False | Some e \<Rightarrow> e > clock_ts + 10000) \<and>
     \<not> (\<exists>am \<in> set (rt_members s). lm_lease_id am = rl_id l \<and> lm_withdrawn_at am \<noteq> None)"

definition window_offers :: "ms \<Rightarrow> ms \<Rightarrow> db \<Rightarrow> cooperative_window \<Rightarrow> (uuid \<times> ready_offer) list" where
  "window_offers tx_now clock_ts s cw =
     (case window_lease s cw of
        None \<Rightarrow> []
      | Some l \<Rightarrow> if covers clock_ts s l
          then map (\<lambda>off. (rl_id l, off)) (filter (\<lambda>off. of_route off = Some (rl_route_id l)) (ready_execution_offers tx_now s))
          else [])"

definition covered_offers :: "ms \<Rightarrow> ms \<Rightarrow> uuid \<Rightarrow> string \<Rightarrow> db \<Rightarrow> ready_offer list" where
  "covered_offers tx_now clock_ts pool k s = map snd (sort_key fst (concat (map (window_offers tx_now clock_ts s)
     (filter (\<lambda>cw. cw_pool_id cw = pool \<and> cw_group_key cw = k) (windows s)))))"

definition spare_slots :: "ms \<Rightarrow> ms \<Rightarrow> uuid \<Rightarrow> string \<Rightarrow> db \<Rightarrow> int" where
  "spare_slots tx_now clock_ts pool k s =
     (let covered = covered_offers tx_now clock_ts pool k s;
          ds = filter (\<lambda>d. \<exists>off \<in> set covered. d_id d \<in> set (of_domains off)) (domains s) in
      pack_loop (map of_domains covered) (remaining_slots s ds True) 0)"

definition route_idle :: "ms \<Rightarrow> uuid \<Rightarrow> db \<Rightarrow> bool" where
  "route_idle tx_now route s \<longleftrightarrow>
     (\<exists>off \<in> set (ready_execution_offers tx_now s). of_route off = Some route \<and>
        \<not> (\<exists>d \<in> set (of_domains off). d \<in> fst ` set (domain_claims s) \<or> d \<in> snd ` set (active_session_domains s)))"

definition expansion_candidates :: "ms \<Rightarrow> uuid \<Rightarrow> string \<Rightarrow> db \<Rightarrow> uuid list" where
  "expansion_candidates tx_now pool k s = sort (map cr_route_id
     (filter (\<lambda>cr. cr_pool_id cr = pool \<and> cr_group_key cr = k \<and> route_idle tx_now (cr_route_id cr) s) (pool_routes s)))"

text \<open>The contracts of a sponsor and the essential windows his supported plans have yet to open.\<close>

definition unopened_groups :: "ms \<Rightarrow> uuid \<Rightarrow> db \<Rightarrow> cooperative_group list" where
  "unopened_groups tx_now sponsor s = filter
     (\<lambda>g. (case lookup cp_id (cg_pool_id g) (pools s) of
             None \<Rightarrow> False
           | Some p \<Rightarrow> cp_creator_id p = sponsor \<and> \<not> cp_paused p \<and> cp_support_until p > tx_now) \<and>
          \<not> group_occupied (cg_pool_id g) (cg_group_key g) ESSENTIAL s) (pool_groups s)"

definition sponsor_capacity :: "ms \<Rightarrow> uuid \<Rightarrow> db \<Rightarrow> int" where
  "sponsor_capacity tx_now sponsor s =
     int (open_contracts sponsor s + length (unopened_groups tx_now sponsor s))"

definition essential_groups :: "ms \<Rightarrow> ms \<Rightarrow> uuid \<Rightarrow> db \<Rightarrow> int" where
  "essential_groups tx_now clock_ts pool s = int (length (remdups (map cw_group_key
     (filter (\<lambda>cw. cw_pool_id cw = pool \<and> cw_coverage_kind cw = ESSENTIAL \<and> window_offers tx_now clock_ts s cw \<noteq> [])
        (windows s)))))"

text \<open>A queued session of the plan whose hold the journal shows.\<close>

definition funded_hold :: "session \<Rightarrow> db \<Rightarrow> bool" where
  "funded_hold r s \<longleftrightarrow>
     (case find_key (''hold:'' @ s_id r) (ledger s) of
        None \<Rightarrow> False
      | Some j \<Rightarrow> (heldAccount (s_user_id r), s_hold_microtu r) \<in> set (j_lines j))"

definition pressing ::
  "ms \<Rightarrow> ms \<Rightarrow> cooperative_pool \<Rightarrow> cooperative_group \<Rightarrow> fund_db \<Rightarrow> session \<Rightarrow> affiliation \<Rightarrow> bool" where
  "pressing tx_now clock_ts p g s r a \<longleftrightarrow>
     af_user_id a = s_user_id r \<and>
     (case lookup u_id (s_user_id r) (users (base s)) of None \<Rightarrow> False | Some u \<Rightarrow> \<not> u_disabled u) \<and>
     (case lookup m_id (s_model_id r) (models (base s)) of
        None \<Rightarrow> False
      | Some m \<Rightarrow> s_manifest_sha256 r = m_manifest_sha256 m \<and> m_state m = M_LOCAL_PREVIEW) \<and>
     s_cooperative_pool_id r = Some (cp_id p) \<and> s_model_id r = cg_model_id g \<and>
     s_cooperative_policy_sha256 r = Some (cp_policy_sha256 p) \<and>
     s_state r = S_QUEUED \<and> s_billing_state r = B_HELD \<and> s_hold_microtu r > 0 \<and>
     s_created_at r \<le> tx_now - 10000 \<and> s_queue_deadline r > clock_ts + 10000 \<and>
     af_revoked_at a = None \<and> af_expires_at a > tx_now \<and>
     independentAt clock_ts (s_user_id r) (cp_id p) (cg_group_key g) s \<and> funded_hold r (base s) \<and>
     \<not> (\<exists>d \<in> set (demands s). ed_session_id d = s_id r)"

text \<open>\<open>DISTINCT ON(a.party_id)\<close> in the order of the party, the session's age and its id.\<close>

fun first_per_party :: "uuid list \<Rightarrow> queued_demand list \<Rightarrow> queued_demand list" where
  "first_per_party seen [] = []"
| "first_per_party seen (x # xs) =
     (if af_party_id (qd_affiliation x) \<in> set seen then first_per_party seen xs
      else x # first_per_party (af_party_id (qd_affiliation x) # seen) xs)"

definition eligible_demand ::
  "ms \<Rightarrow> ms \<Rightarrow> cooperative_pool \<Rightarrow> cooperative_group \<Rightarrow> fund_db \<Rightarrow> queued_demand list" where
  "eligible_demand tx_now clock_ts p g s = take 100 (first_per_party []
     (sort_key (\<lambda>x. af_party_id (qd_affiliation x)) (sort_key (\<lambda>x. s_created_at (qd_session x))
        (sort_key (\<lambda>x. s_id (qd_session x))
          (concat (map (\<lambda>r. map (\<lambda>a. \<lparr>qd_session = r, qd_affiliation = a\<rparr>)
              (filter (pressing tx_now clock_ts p g s r) (affiliations s))) (sessions (base s))))))))"

definition expansionFacts ::
  "ms \<Rightarrow> ms \<Rightarrow> cooperative_pool \<Rightarrow> cooperative_group \<Rightarrow> pool_snapshot \<Rightarrow> flow_row \<Rightarrow> uuid option \<Rightarrow> fund_db \<Rightarrow>
   expansion_facts" where
  "expansionFacts tx_now clock_ts p g snap flow supportId s =
     (let cost = group_cost g;
          support = (case supportId of None \<Rightarrow> None | Some i \<Rightarrow> live_support clock_ts p g i s);
          spare = spare_slots tx_now clock_ts (cp_id p) (cg_group_key g) (base s);
          candidates = expansion_candidates tx_now (cp_id p) (cg_group_key g) (base s);
          reserved = sponsor_capacity tx_now (cp_creator_id p) (base s);
          covered = essential_groups tx_now clock_ts (cp_id p) (base s);
          required = int (length (sn_groups snap));
          demand = eligible_demand tx_now clock_ts p g s in
      \<lparr>ef_cost = cost, ef_support = support, ef_flow = flow, ef_spare = spare, ef_candidates = candidates,
       ef_reserved = reserved, ef_covered_groups = covered, ef_required_groups = required, ef_demand = demand,
       ef_gates =
         [(''policy_permission'', cp_expansion_allowed p), (''normal_recovery'', sn_state snap = NORMAL),
          (''working_floor'', sn_working snap \<ge> sn_floor snap + cost),
          (''protected_reserve'', sn_reserve snap \<ge> sn_reserve_target snap),
          (''operating_support'', support \<noteq> None), (''essential_coverage'', covered = required),
          (''essential_contract_slots'', reserved < 4),
          (''recurring_flow'', fl_normal_cost_microtu flow > 0 \<and>
             fl_net_recycled_microtu flow \<ge> fl_normal_cost_microtu flow),
          (''funded_pressure'', int (length demand) > spare),
          (''additional_complete_route'', candidates \<noteq> [])]\<rparr>)"

definition blocked_by :: "expansion_facts \<Rightarrow> string list" where
  "blocked_by f = map fst (filter (\<lambda>(_, ok). \<not> ok) (ef_gates f))"

definition approved :: "expansion_facts \<Rightarrow> bool" where
  "approved f \<longleftrightarrow> blocked_by f = []"

text \<open>
  The evidence without the demand and the candidates. The support's \<open>expires_at\<close> is a \<open>Date\<close>, an
  object without keys of its own for \<open>canonical\<close>.
\<close>

definition publicExpansion :: "ms \<Rightarrow> pool_snapshot \<Rightarrow> expansion_facts \<Rightarrow> (string \<times> json) list" where
  "publicExpansion date_now snap f =
     [(''policy'', JStr ''private-demand-backed-expansion-v1''),
      (''qualification_scope'', JStr ''PRIVATE_DECLARED_PARTIES''), (''evaluated_at'', JStr (iso_string date_now)),
      (''approved'', JBool (approved f)), (''blocked_by'', JArr (map JStr (blocked_by f))),
      (''gates'', JObj (map (\<lambda>(name, ok). (name, JBool ok)) (ef_gates f))),
      (''window_budget_microtu'', amt (ef_cost f)), (''free_working_microtu'', amt (sn_working snap)),
      (''essential_floor_microtu'', amt (sn_floor snap)), (''free_reserve_microtu'', amt (sn_reserve snap)),
      (''reserve_target_microtu'', amt (sn_reserve_target snap)),
      (''net_recycled_microtu'', amt (fl_net_recycled_microtu (ef_flow f))),
      (''normal_cost_microtu'', amt (fl_normal_cost_microtu (ef_flow f))),
      (''eligible_funded_parties'', JNum (int (length (ef_demand f)))), (''spare_covered_slots'', JNum (ef_spare f)),
      (''additional_complete_routes'', JNum (int (length (ef_candidates f)))),
      (''essential_groups_covered'', JNum (ef_covered_groups f)),
      (''essential_groups_required'', JNum (ef_required_groups f)),
      (''reserved_sponsor_contract_slots'', JNum (ef_reserved f)),
      (''support'', case ef_support f of
          None \<Rightarrow> JNull
        | Some x \<Rightarrow> JObj [(''id'', JStr (os_id x)), (''terms_sha256'', JStr (os_terms_sha256 x)), (''expires_at'', JObj [])])]"

end
