(* ===== verification/Renewals.thy ===== *)
theory Renewals
  imports Economics
begin

text \<open>
  Bounded renewals: \<open>apps/control-api/src/renewals.ts\<close> with the tables and triggers of
  \<open>infra/migrations/008\<close> and \<open>009\<close>. The responsible user of a fund authorizes a number of windows and
  gross amounts, every provider mandates a number of windows of one route, and the timer's
  \<open>attempt\<close> buys the next window on their behalf: it offers the window, accepts it for every provider,
  and consumes one window of the authorization and of each mandate. Limits only grow used: refunds
  do not restore them.

  Several reads of a clock in one call are one argument: \<open>date_now\<close> for \<open>Date.now()\<close>, \<open>tx_now\<close> for
  SQL's \<open>now()\<close>, \<open>clock_ts\<close> for \<open>clock_timestamp()\<close>.
\<close>

section \<open>Shared steps\<close>

definition renewal_policy :: string where "renewal_policy = ''bounded-essential-renewal-v1''"
definition expansion_policy :: string where "expansion_policy = ''bounded-demand-expansion-v1''"

fun kind_text :: "coverage_kind \<Rightarrow> string" where
  "kind_text ESSENTIAL = ''ESSENTIAL''"
| "kind_text EXPANSION = ''EXPANSION''"

fun authority_state_text :: "authority_state \<Rightarrow> string" where
  "authority_state_text Z_ACTIVE = ''ACTIVE''"
| "authority_state_text Z_REVOKED = ''REVOKED''"
| "authority_state_text Z_EXPIRED = ''EXPIRED''"
| "authority_state_text Z_EXHAUSTED = ''EXHAUSTED''"

definition poolLock :: "uuid \<Rightarrow> fund_db \<Rightarrow> (cooperative_pool \<Rightarrow> 'a result) \<Rightarrow> 'a result" where
  "poolLock i s rest = need_row (lookup cp_id i (pools (base s))) 404 ''pool_missing'' rest"

definition mandate_expiry_ok :: "ms \<Rightarrow> ms \<Rightarrow> int \<Rightarrow> bool" where
  "mandate_expiry_ok date_now t seconds \<longleftrightarrow>
     t > date_now + (seconds + 10) * 1000 \<and> t \<le> date_now + 30 * 86400000"

definition add_renewal_event ::
  "uuid \<Rightarrow> string \<Rightarrow> uuid option \<Rightarrow> uuid option \<Rightarrow> uuid option \<Rightarrow> (string \<times> json) list \<Rightarrow> fund_db \<Rightarrow> fund_db" where
  "add_renewal_event pool kind actor authority mandate metadata s = s\<lparr>renewal_events := renewal_events s @
     [\<lparr>re_pool_id = pool, re_kind = kind, re_actor_id = actor, re_authorization_id = authority,
       re_provider_mandate_id = mandate, re_metadata = JObj metadata\<rparr>]\<rparr>"

section \<open>Authorizations of a fund\<close>

record authorize_request =
  zq_group_key :: string
  zq_policy_sha256 :: string
  zq_maximum_windows :: int
  zq_maximum_working_microtu :: int
  zq_maximum_reserve_microtu :: int
  zq_expires_at :: instant
  zq_idempotency_key :: uuid
  zq_reason :: string
  zq_coverage_kind :: "coverage_kind option"
  zq_operating_support_id :: "uuid option"

definition request_kind :: "coverage_kind option \<Rightarrow> coverage_kind" where
  "request_kind k = (case k of None \<Rightarrow> ESSENTIAL | Some v \<Rightarrow> v)"

definition authorize_request_ok :: "authorize_request \<Rightarrow> bool" where
  "authorize_request_ok d \<longleftrightarrow> group_key_ok (zq_group_key d) \<and> sha256_ok (zq_policy_sha256 d) \<and>
     1 \<le> zq_maximum_windows d \<and> zq_maximum_windows d \<le> 10000 \<and>
     amount_ok (zq_maximum_working_microtu d) \<and> amount_ok (zq_maximum_reserve_microtu d) \<and> reason_ok (zq_reason d)"

text \<open>The fields of an expansion that a request, and its terms, carry beside the others.\<close>

definition expansion_fields :: "authorize_request \<Rightarrow> (string \<times> json) list" where
  "expansion_fields d =
     (if request_kind (zq_coverage_kind d) = EXPANSION
      then [(''coverage_kind'', JStr ''EXPANSION''), (''operating_support_id'', opt_str (zq_operating_support_id d))]
      else [])"

definition authorize_json :: "uuid \<Rightarrow> authorize_request \<Rightarrow> json" where
  "authorize_json pool d = JObj
     ([(''pool_id'', JStr pool), (''policy_sha256'', JStr (zq_policy_sha256 d)),
       (''maximum_windows'', JNum (zq_maximum_windows d)), (''expires_at'', JStr (at_text (zq_expires_at d))),
       (''idempotency_key'', JStr (zq_idempotency_key d)), (''reason'', JStr (trim (zq_reason d))),
       (''group_key'', JStr (zq_group_key d)),
       (''maximum_working_microtu'', amt (zq_maximum_working_microtu d)),
       (''maximum_reserve_microtu'', amt (zq_maximum_reserve_microtu d)),
       (''consent'', JStr ''BOUNDED_GROSS_COMMITMENTS_NO_AUTOMATIC_LIMIT_INCREASE'')] @ expansion_fields d)"

definition authority_terms :: "uuid \<Rightarrow> cooperative_pool \<Rightarrow> cooperative_group \<Rightarrow> authorize_request \<Rightarrow> json" where
  "authority_terms i p g d = JObj
     ([(''policy'', JStr (if request_kind (zq_coverage_kind d) = EXPANSION then expansion_policy else renewal_policy))] @
      expansion_fields d @
      [(''authorization_id'', JStr i), (''pool_id'', JStr (cp_id p)), (''policy_sha256'', JStr (cp_policy_sha256 p)),
       (''group_key'', JStr (cg_group_key g)), (''duration_seconds'', JNum (cg_duration_seconds g)),
       (''window_budget_microtu'', amt (group_cost g)), (''maximum_windows'', JNum (zq_maximum_windows d)),
       (''maximum_working_microtu'', amt (zq_maximum_working_microtu d)),
       (''maximum_reserve_microtu'', amt (zq_maximum_reserve_microtu d)),
       (''expires_at'', JStr (at_text (zq_expires_at d))),
       (''budget_basis'', JStr ''GROSS_COMMITMENTS_REFUNDS_DO_NOT_RESTORE_LIMITS''),
       (''compensation'', JStr ''READINESS_ONLY''), (''reason'', JStr (trim (zq_reason d)))])"

definition new_authority ::
  "(string \<Rightarrow> string) \<Rightarrow> uuid \<Rightarrow> user \<Rightarrow> cooperative_pool \<Rightarrow> cooperative_group \<Rightarrow> authorize_request \<Rightarrow> string \<Rightarrow> renewal_authority"
where
  "new_authority sha i user p g d digest =
     \<lparr>au_id = i, au_pool_id = cp_id p, au_group_key = cg_group_key g, au_authorized_by = u_id user,
      au_policy_sha256 = cp_policy_sha256 p, au_maximum_windows = zq_maximum_windows d,
      au_maximum_working_microtu = zq_maximum_working_microtu d,
      au_maximum_reserve_microtu = zq_maximum_reserve_microtu d, au_windows_used = 0,
      au_working_committed_microtu = 0, au_reserve_committed_microtu = 0,
      au_terms_sha256 = sha (canonical (authority_terms i p g d)), au_expires_at = at_ms (zq_expires_at d),
      au_state = Z_ACTIVE, au_revoked_at = None, au_idempotency_key = zq_idempotency_key d,
      au_request_sha256 = digest, au_last_status = ''WAITING'', au_last_attempt_at = None,
      au_coverage_kind = request_kind (zq_coverage_kind d),
      au_operating_support_id = zq_operating_support_id d\<rparr>"

text \<open>The checks of the table and its indexes, \<open>one_active_renewal_authority\<close> among them.\<close>

definition authority_check :: "renewal_authority \<Rightarrow> bool" where
  "authority_check a \<longleftrightarrow> 1 \<le> au_maximum_windows a \<and> au_maximum_windows a \<le> 10000 \<and>
     0 \<le> au_maximum_working_microtu a \<and> 0 \<le> au_maximum_reserve_microtu a \<and>
     0 \<le> au_windows_used a \<and> au_windows_used a \<le> au_maximum_windows a \<and>
     0 \<le> au_working_committed_microtu a \<and> au_working_committed_microtu a \<le> au_maximum_working_microtu a \<and>
     0 \<le> au_reserve_committed_microtu a \<and> au_reserve_committed_microtu a \<le> au_maximum_reserve_microtu a \<and>
     (au_coverage_kind a = EXPANSION \<longrightarrow> au_maximum_reserve_microtu a = 0 \<and> au_operating_support_id a \<noteq> None)"

definition active_authority :: "uuid \<Rightarrow> string \<Rightarrow> coverage_kind \<Rightarrow> renewal_authority \<Rightarrow> bool" where
  "active_authority pool k kind a \<longleftrightarrow> au_pool_id a = pool \<and> au_group_key a = k \<and> au_coverage_kind a = kind \<and>
     au_state a = Z_ACTIVE"

definition insert_authority :: "renewal_authority \<Rightarrow> fund_db \<Rightarrow> fund_db result" where
  "insert_authority a s =
     (if \<not> authority_check a then Inl (DbError ''23514'')
      else if \<exists>q \<in> set (authorities s). au_terms_sha256 q = au_terms_sha256 a \<or>
          (au_authorized_by q = au_authorized_by a \<and> au_idempotency_key q = au_idempotency_key a) \<or>
          active_authority (au_pool_id a) (au_group_key a) (au_coverage_kind a) q
        then Inl (DbError ''23505'')
      else and_then (insert_row au_id a (authorities s)) (\<lambda>t. Inr (s\<lparr>authorities := t\<rparr>)))"

text \<open>An \<open>UPDATE\<close> of an authorization; the trigger \<open>final_renewal_authority\<close> keeps closed ones closed.\<close>

definition update_authority :: "uuid \<Rightarrow> (renewal_authority \<Rightarrow> renewal_authority) \<Rightarrow> fund_db \<Rightarrow> fund_db result" where
  "update_authority i f s =
     (case lookup au_id i (authorities s) of
        None \<Rightarrow> Inr s
      | Some old \<Rightarrow>
          if au_state old \<noteq> Z_ACTIVE \<and> au_state (f old) \<noteq> au_state old then Inl (DbError ''P0001'')
          else if \<not> authority_check (f old) then Inl (DbError ''23514'')
          else Inr (s\<lparr>authorities := update_row au_id i f (authorities s)\<rparr>))"

definition expire_authorities :: "ms \<Rightarrow> uuid \<Rightarrow> fund_db \<Rightarrow> fund_db" where
  "expire_authorities tx_now pool s = s\<lparr>authorities := map
     (\<lambda>a. if au_pool_id a = pool \<and> au_state a = Z_ACTIVE \<and> au_expires_at a \<le> tx_now
          then a\<lparr>au_state := Z_EXPIRED\<rparr> else a) (authorities s)\<rparr>"

definition store_authority :: "user \<Rightarrow> renewal_authority \<Rightarrow> renewal_authority fund_handler" where
  "store_authority user a s =
     and_then (insert_authority a s) (\<lambda>s'.
     Inr (a, add_renewal_event (au_pool_id a) ''fund_authorized'' (Some (u_id user)) (Some (au_id a)) None
       [(''terms_sha256'', JStr (au_terms_sha256 a))] s'))"

definition authorize_renewal ::
  "(string \<Rightarrow> string) \<Rightarrow> uuid \<Rightarrow> ms \<Rightarrow> ms \<Rightarrow> ms \<Rightarrow> user \<Rightarrow> uuid \<Rightarrow> authorize_request \<Rightarrow> renewal_authority fund_handler" where
  "authorize_renewal sha i date_now tx_now clock_ts user pool d s =
     zod (authorize_request_ok d) (
     let kind = request_kind (zq_coverage_kind d); digest = sha (canonical (authorize_json pool d)) in
     need (if kind = EXPANSION then zq_operating_support_id d \<noteq> None \<and> zq_maximum_reserve_microtu d = 0
           else zq_operating_support_id d = None) 400 ''expansion_authority'' (
     poolLock pool s (\<lambda>p.
     need (u_id user = cp_creator_id p \<or> u_role user = Admin) 403 ''pool_manager'' (
     case find (\<lambda>a. au_authorized_by a = u_id user \<and> au_idempotency_key a = zq_idempotency_key d) (authorities s) of
       Some old \<Rightarrow> need (au_request_sha256 old = digest) 409 ''idempotency_conflict'' (Inr (old, s))
     | None \<Rightarrow>
         need (cp_policy_sha256 p = zq_policy_sha256 d) 409 ''pool_terms'' (
         need (kind \<noteq> EXPANSION \<or> cp_expansion_allowed p) 409 ''expansion_policy'' (
         need_row (lookup pool_group_key (pool, zq_group_key d) (pool_groups (base s))) 404 ''group_missing'' (\<lambda>g.
         need (mandate_expiry_ok date_now (at_ms (zq_expires_at d)) (cg_duration_seconds g)) 400 ''mandate_expiry'' (
         need (kind = EXPANSION \<longrightarrow> (case zq_operating_support_id d of None \<Rightarrow> False
             | Some x \<Rightarrow> live_support clock_ts p g x s \<noteq> None)) 409 ''operating_support'' (
         need (zq_maximum_working_microtu d + zq_maximum_reserve_microtu d \<le> MAX_AMOUNT \<and>
             (zq_maximum_working_microtu d \<ge> group_cost g \<or> zq_maximum_reserve_microtu d \<ge> group_cost g))
           400 ''authorization_budget'' (
         let s1 = expire_authorities tx_now pool s in
         need (\<not> list_ex (active_authority pool (zq_group_key d) kind) (authorities s1)) 409 ''active_authorization'' (
         store_authority user (new_authority sha i user p g d digest) s1)))))))))))"

section \<open>Mandates of a provider\<close>

record mandate_request =
  nq_route_id :: uuid
  nq_policy_sha256 :: string
  nq_maximum_windows :: int
  nq_expires_at :: instant
  nq_idempotency_key :: uuid
  nq_reason :: string
  nq_coverage_kind :: "coverage_kind option"
  nq_consent :: coverage_kind   \<comment> \<open>\<open>READINESS_ONLY_BOUNDED_RENEWALS\<close> or \<open>.._EXPANSION\<close>\<close>

definition mandate_request_ok :: "mandate_request \<Rightarrow> bool" where
  "mandate_request_ok d \<longleftrightarrow> sha256_ok (nq_policy_sha256 d) \<and> 1 \<le> nq_maximum_windows d \<and>
     nq_maximum_windows d \<le> 10000 \<and> reason_ok (nq_reason d)"

fun consent_text :: "coverage_kind \<Rightarrow> string" where
  "consent_text ESSENTIAL = ''READINESS_ONLY_BOUNDED_RENEWALS''"
| "consent_text EXPANSION = ''READINESS_ONLY_BOUNDED_EXPANSION''"

definition mandate_kind_field :: "mandate_request \<Rightarrow> (string \<times> json) list" where
  "mandate_kind_field d =
     (if request_kind (nq_coverage_kind d) = EXPANSION then [(''coverage_kind'', JStr ''EXPANSION'')] else [])"

definition mandate_json :: "uuid \<Rightarrow> mandate_request \<Rightarrow> json" where
  "mandate_json pool d = JObj
     ([(''pool_id'', JStr pool), (''policy_sha256'', JStr (nq_policy_sha256 d)),
       (''maximum_windows'', JNum (nq_maximum_windows d)), (''expires_at'', JStr (at_text (nq_expires_at d))),
       (''idempotency_key'', JStr (nq_idempotency_key d)), (''reason'', JStr (trim (nq_reason d))),
       (''route_id'', JStr (nq_route_id d)), (''consent'', JStr (consent_text (nq_consent d)))] @ mandate_kind_field d)"

text \<open>The query for the route: one of the plan's, qualified, with the provider among its members.\<close>

definition mandate_route :: "uuid \<Rightarrow> uuid \<Rightarrow> uuid \<Rightarrow> db \<Rightarrow> (cooperative_route \<times> cooperative_group) option" where
  "mandate_route pool route provider s =
     (case lookup pool_route_key (pool, route) (pool_routes s) of
        None \<Rightarrow> None
      | Some cr \<Rightarrow>
          (case (lookup pool_group_key (pool, cr_group_key cr) (pool_groups s), lookup er_id route (routes s)) of
             (Some g, Some r) \<Rightarrow>
               if er_state r = R_LOCAL_PREVIEW \<and> (\<exists>m \<in> set (members_of route s). rm_provider_id m = provider)
               then Some (cr, g) else None
           | _ \<Rightarrow> None))"

definition component_json :: "int list \<Rightarrow> route_member \<Rightarrow> json" where
  "component_json shares m = JObj
     [(''node_id'', JStr (rm_node_id m)), (''provider_id'', JStr (rm_provider_id m)),
      (''resource_domain_id'', JStr (rm_resource_domain_id m)), (''ordinal'', JNum (rm_ordinal m)),
      (''role'', JStr (member_role_text (rm_role m))), (''share_bps'', JNum (rm_share_bps m)),
      (''maximum_microtu'', amt (shares ! nat (rm_ordinal m)))]"

definition mandate_terms ::
  "uuid \<Rightarrow> cooperative_pool \<Rightarrow> cooperative_route \<Rightarrow> cooperative_group \<Rightarrow> user \<Rightarrow> mandate_request \<Rightarrow> json list \<Rightarrow> json" where
  "mandate_terms i p cr g user d own = JObj
     ([(''policy'', JStr (if request_kind (nq_coverage_kind d) = EXPANSION then expansion_policy else renewal_policy))] @
      mandate_kind_field d @
      [(''mandate_id'', JStr i), (''pool_id'', JStr (cp_id p)), (''policy_sha256'', JStr (cp_policy_sha256 p)),
       (''provider_id'', JStr (u_id user)), (''route_id'', JStr (cr_route_id cr)),
       (''route_sha256'', JStr (cr_route_sha256 cr)), (''duration_seconds'', JNum (cg_duration_seconds g)),
       (''window_budget_microtu'', amt (group_cost g)), (''maximum_windows'', JNum (nq_maximum_windows d)),
       (''maximum_window_seconds'', JNum (nq_maximum_windows d * cg_duration_seconds g)),
       (''expires_at'', JStr (at_text (nq_expires_at d))), (''compensation'', JStr ''READINESS_ONLY''),
       (''components'', JArr own), (''revocation'', JStr ''FUTURE_WINDOWS_ONLY_ACCEPTED_OBLIGATIONS_PRESERVED''),
       (''reason'', JStr (trim (nq_reason d)))])"

definition new_mandate ::
  "(string \<Rightarrow> string) \<Rightarrow> uuid \<Rightarrow> user \<Rightarrow> cooperative_pool \<Rightarrow> cooperative_route \<Rightarrow> cooperative_group \<Rightarrow> mandate_request \<Rightarrow>
   int list \<Rightarrow> string \<Rightarrow> db \<Rightarrow> provider_mandate" where
  "new_mandate sha i user p cr g d shares digest s =
     \<lparr>pm_id = i, pm_pool_id = cp_id p, pm_provider_id = u_id user, pm_route_id = cr_route_id cr,
      pm_route_sha256 = cr_route_sha256 cr, pm_policy_sha256 = cp_policy_sha256 p,
      pm_maximum_windows = nq_maximum_windows d, pm_windows_used = 0,
      pm_terms_sha256 = sha (canonical (mandate_terms i p cr g user d (map (component_json shares)
        (filter (\<lambda>m. rm_provider_id m = u_id user) (members_of (cr_route_id cr) s))))),
      pm_expires_at = at_ms (nq_expires_at d), pm_state = Z_ACTIVE, pm_revoked_at = None,
      pm_idempotency_key = nq_idempotency_key d, pm_request_sha256 = digest,
      pm_coverage_kind = request_kind (nq_coverage_kind d)\<rparr>"

definition mandate_check :: "provider_mandate \<Rightarrow> bool" where
  "mandate_check m \<longleftrightarrow> 1 \<le> pm_maximum_windows m \<and> pm_maximum_windows m \<le> 10000 \<and>
     0 \<le> pm_windows_used m \<and> pm_windows_used m \<le> pm_maximum_windows m"

definition active_mandate :: "uuid \<Rightarrow> uuid \<Rightarrow> uuid \<Rightarrow> coverage_kind \<Rightarrow> provider_mandate \<Rightarrow> bool" where
  "active_mandate pool route provider kind m \<longleftrightarrow> pm_pool_id m = pool \<and> pm_route_id m = route \<and>
     pm_provider_id m = provider \<and> pm_coverage_kind m = kind \<and> pm_state m = Z_ACTIVE"

definition insert_mandate :: "provider_mandate \<Rightarrow> fund_db \<Rightarrow> fund_db result" where
  "insert_mandate m s =
     (if \<not> mandate_check m then Inl (DbError ''23514'')
      else if \<exists>q \<in> set (mandates s). pm_terms_sha256 q = pm_terms_sha256 m \<or>
          (pm_provider_id q = pm_provider_id m \<and> pm_idempotency_key q = pm_idempotency_key m) \<or>
          active_mandate (pm_pool_id m) (pm_route_id m) (pm_provider_id m) (pm_coverage_kind m) q
        then Inl (DbError ''23505'')
      else and_then (insert_row pm_id m (mandates s)) (\<lambda>t. Inr (s\<lparr>mandates := t\<rparr>)))"

definition update_mandate :: "uuid \<Rightarrow> (provider_mandate \<Rightarrow> provider_mandate) \<Rightarrow> fund_db \<Rightarrow> fund_db result" where
  "update_mandate i f s =
     (case lookup pm_id i (mandates s) of
        None \<Rightarrow> Inr s
      | Some old \<Rightarrow>
          if pm_state old \<noteq> Z_ACTIVE \<and> pm_state (f old) \<noteq> pm_state old then Inl (DbError ''P0001'')
          else if \<not> mandate_check (f old) then Inl (DbError ''23514'')
          else Inr (s\<lparr>mandates := update_row pm_id i f (mandates s)\<rparr>))"

text \<open>The two statements that expire mandates: a provider's in one plan, and everybody's in the timer.\<close>

definition expire_mandates :: "(provider_mandate \<Rightarrow> bool) \<Rightarrow> ms \<Rightarrow> fund_db \<Rightarrow> fund_db" where
  "expire_mandates P tx_now s = s\<lparr>mandates := map
     (\<lambda>m. if P m \<and> pm_state m = Z_ACTIVE \<and> pm_expires_at m \<le> tx_now then m\<lparr>pm_state := Z_EXPIRED\<rparr> else m) (mandates s)\<rparr>"

definition store_mandate :: "user \<Rightarrow> provider_mandate \<Rightarrow> provider_mandate fund_handler" where
  "store_mandate user m s =
     and_then (insert_mandate m s) (\<lambda>s'.
     Inr (m, add_renewal_event (pm_pool_id m) ''provider_authorized'' (Some (u_id user)) None (Some (pm_id m))
       [(''terms_sha256'', JStr (pm_terms_sha256 m))] s'))"

definition mandate_renewals ::
  "(string \<Rightarrow> string) \<Rightarrow> uuid \<Rightarrow> ms \<Rightarrow> ms \<Rightarrow> user \<Rightarrow> uuid \<Rightarrow> mandate_request \<Rightarrow> provider_mandate fund_handler" where
  "mandate_renewals sha i date_now tx_now user pool d s =
     zod (mandate_request_ok d) (
     let kind = request_kind (nq_coverage_kind d); digest = sha (canonical (mandate_json pool d)) in
     need (nq_consent d = kind) 400 ''mandate_kind'' (
     poolLock pool s (\<lambda>p.
     case find (\<lambda>m. pm_provider_id m = u_id user \<and> pm_idempotency_key m = nq_idempotency_key d) (mandates s) of
       Some old \<Rightarrow> need (pm_request_sha256 old = digest) 409 ''idempotency_conflict'' (Inr (old, s))
     | None \<Rightarrow>
         need (cp_policy_sha256 p = nq_policy_sha256 d) 409 ''pool_terms'' (
         need (kind \<noteq> EXPANSION \<or> cp_expansion_allowed p) 409 ''expansion_policy'' (
         need_row (mandate_route pool (nq_route_id d) (u_id user) (base s)) 404 ''provider_route'' (\<lambda>(cr, g).
         need (mandate_expiry_ok date_now (at_ms (nq_expires_at d)) (cg_duration_seconds g)) 400 ''mandate_expiry'' (
         let s1 = expire_mandates (\<lambda>m. pm_pool_id m = pool \<and> pm_provider_id m = u_id user) tx_now s in
         need (\<not> list_ex (active_mandate pool (cr_route_id cr) (u_id user) kind) (mandates s1)) 409 ''active_mandate'' (
         and_then (splitByBps (group_cost g) (map rm_share_bps (members_of (cr_route_id cr) (base s)))) (\<lambda>shares.
         need (list_all (\<lambda>v. v > 0) shares) 400 ''window_budget'' (
         store_mandate user (new_mandate sha i user p cr g d shares digest (base s)) s1))))))))))"

section \<open>Revocation\<close>

definition revoke_authorization :: "ms \<Rightarrow> user \<Rightarrow> uuid \<Rightarrow> authority_state fund_handler" where
  "revoke_authorization clock_ts user i s =
     need_row (lookup au_id i (authorities s)) 404 ''authority_missing'' (\<lambda>a.
     poolLock (au_pool_id a) s (\<lambda>p.
     need (u_role user = Admin \<or> cp_creator_id p = u_id user) 403 ''authority_owner'' (
     if au_state a \<noteq> Z_ACTIVE then Inr (au_state a, s)
     else and_then (update_authority i (\<lambda>a. a\<lparr>au_state := Z_REVOKED, au_revoked_at := Some clock_ts\<rparr>) s) (\<lambda>s'.
       Inr (Z_REVOKED, add_renewal_event (cp_id p) ''fund_revoked'' (Some (u_id user)) (Some i) None
         [(''accepted_windows_preserved'', JBool True)] s')))))"

definition revoke_mandate :: "ms \<Rightarrow> user \<Rightarrow> uuid \<Rightarrow> authority_state fund_handler" where
  "revoke_mandate clock_ts user i s =
     need_row (lookup pm_id i (mandates s)) 404 ''authority_missing'' (\<lambda>m.
     poolLock (pm_pool_id m) s (\<lambda>p.
     need (u_role user = Admin \<or> pm_provider_id m = u_id user) 403 ''authority_owner'' (
     if pm_state m \<noteq> Z_ACTIVE then Inr (pm_state m, s)
     else and_then (update_mandate i (\<lambda>m. m\<lparr>pm_state := Z_REVOKED, pm_revoked_at := Some clock_ts\<rparr>) s) (\<lambda>s'.
       Inr (Z_REVOKED, add_renewal_event (cp_id p) ''provider_revoked'' (Some (u_id user)) None (Some i)
         [(''accepted_windows_preserved'', JBool True)] s')))))"

section \<open>Consumption\<close>

text \<open>\<open>-> key\<close> on JSON.\<close>

definition json_field :: "string \<Rightarrow> json \<Rightarrow> json option" where
  "json_field k j = (case j of JObj fs \<Rightarrow> map_of fs k | _ \<Rightarrow> None)"

definition json_path :: "string list \<Rightarrow> json option \<Rightarrow> json option" where
  "json_path ks j = fold (\<lambda>k x. case x of None \<Rightarrow> None | Some y \<Rightarrow> json_field k y) ks j"

definition terms_renewal :: "route_lease \<Rightarrow> json option" where
  "terms_renewal l = (case rl_cooperative l of None \<Rightarrow> None | Some c \<Rightarrow> ct_renewal c)"

definition terms_expansion :: "route_lease \<Rightarrow> json option" where
  "terms_expansion l = (case rl_cooperative l of None \<Rightarrow> None | Some c \<Rightarrow> ct_expansion c)"

definition not_after :: "ms option \<Rightarrow> ms \<Rightarrow> bool" where
  "not_after t limit \<longleftrightarrow> (case t of None \<Rightarrow> True | Some e \<Rightarrow> e \<le> limit)"

text \<open>Trigger \<open>match_authority_kind\<close>: the support that an expansion cites is still good for its window.\<close>

definition support_stands :: "renewal_authority \<Rightarrow> route_lease \<Rightarrow> fund_db \<Rightarrow> bool" where
  "support_stands a l s \<longleftrightarrow>
     (\<exists>x \<in> set (supports s). au_operating_support_id a = Some (os_id x) \<and> os_pool_id x = au_pool_id a \<and>
        os_policy_sha256 x = au_policy_sha256 a \<and> os_revoked_at x = None \<and>
        (case lookup u_id (os_created_by x) (users (base s)) of None \<Rightarrow> False | Some u \<Rightarrow> \<not> u_disabled u) \<and>
        (case rl_ends_ms l of None \<Rightarrow> False | Some e \<Rightarrow> os_expires_at x \<ge> e) \<and>
        json_path [''support'', ''id''] (terms_expansion l) = Some (JStr (os_id x)) \<and>
        json_path [''support'', ''terms_sha256''] (terms_expansion l) = Some (JStr (os_terms_sha256 x)))"

definition authority_kind_matches :: "renewal_authority \<Rightarrow> cooperative_window \<Rightarrow> route_lease \<Rightarrow> fund_db \<Rightarrow> bool" where
  "authority_kind_matches a w l s \<longleftrightarrow> au_coverage_kind a = cw_coverage_kind w \<and>
     (cw_coverage_kind w = EXPANSION \<longrightarrow> support_stands a l s)"

text \<open>
  The conditions of trigger \<open>consume_renewal_authority\<close>, and the row that its \<open>UPDATE\<close> leaves. That the lease was
  written by this very transaction (\<open>writer_xid\<close>) holds by construction where the renewal inserts the run
  right after it opened the lease; it has no counterpart here.
\<close>

definition run_matches :: "ms \<Rightarrow> renewal_run \<Rightarrow> renewal_authority \<Rightarrow> cooperative_window \<Rightarrow> route_lease \<Rightarrow> bool" where
  "run_matches clock_ts r a w l \<longleftrightarrow>
     au_state a = Z_ACTIVE \<and> au_expires_at a > clock_ts \<and> rl_state l = L_ACTIVE \<and>
     not_after (rl_ends_ms l) (au_expires_at a) \<and> rw_sequence r = au_windows_used a + 1 \<and>
     au_pool_id a = cw_pool_id w \<and> au_group_key a = cw_group_key w \<and> rw_source r = cw_funding_source w \<and>
     rw_committed_microtu r = rl_budget_microtu l \<and>
     map_option ct_policy_sha256 (rl_cooperative l) = Some (au_policy_sha256 a) \<and>
     json_path [''authorization_id''] (terms_renewal l) = Some (JStr (au_id a)) \<and>
     json_path [''sequence''] (terms_renewal l) = Some (JNum (rw_sequence r)) \<and>
     json_path [''authorization_terms_sha256''] (terms_renewal l) = Some (JStr (au_terms_sha256 a))"

definition consumed_authority :: "funding_source \<Rightarrow> int \<Rightarrow> renewal_authority \<Rightarrow> renewal_authority" where
  "consumed_authority src cost a =
     (let w = (if src = From_WORKING then cost else 0); r = (if src = From_RESERVE then cost else 0) in
      a\<lparr>au_windows_used := au_windows_used a + 1,
        au_working_committed_microtu := au_working_committed_microtu a + w,
        au_reserve_committed_microtu := au_reserve_committed_microtu a + r,
        au_state := (if au_windows_used a + 1 \<ge> au_maximum_windows a \<or>
            (au_maximum_working_microtu a - au_working_committed_microtu a - w < cost \<and>
             au_maximum_reserve_microtu a - au_reserve_committed_microtu a - r < cost)
          then Z_EXHAUSTED else Z_ACTIVE)\<rparr>)"

definition run_key :: "renewal_run \<Rightarrow> uuid \<times> int" where
  "run_key r = (rw_authorization_id r, rw_sequence r)"

definition insert_run :: "ms \<Rightarrow> renewal_run \<Rightarrow> fund_db \<Rightarrow> fund_db result" where
  "insert_run clock_ts r s =
     (case (lookup au_id (rw_authorization_id r) (authorities s), lookup rl_id (rw_lease_id r) (rt_leases (base s)),
            lookup cw_lease_id (rw_lease_id r) (windows (base s))) of
        (Some a, Some l, Some w) \<Rightarrow>
          if \<not> authority_kind_matches a w l s then Inl (DbError ''P0001'')
          else if rw_sequence r \<le> 0 \<or> rw_committed_microtu r \<le> 0 then Inl (DbError ''23514'')
          else if run_key r \<in> run_key ` set (runs s) then Inl (DbError ''23505'')
          else and_then (insert_row rw_lease_id r (runs s)) (\<lambda>t.
            if \<not> run_matches clock_ts r a w l then Inl (DbError ''P0001'')
            else update_authority (au_id a) (consumed_authority (rw_source r) (rl_budget_microtu l)) (s\<lparr>runs := t\<rparr>))
      | _ \<Rightarrow> Inl (DbError ''23503''))"

text \<open>Triggers \<open>match_mandate_kind\<close> and \<open>consume_provider_mandate\<close>.\<close>

definition mandate_term :: "provider_mandate \<Rightarrow> json \<Rightarrow> bool" where
  "mandate_term m t \<longleftrightarrow> json_field ''id'' t = Some (JStr (pm_id m)) \<and>
     json_field ''provider_id'' t = Some (JStr (pm_provider_id m)) \<and>
     json_field ''terms_sha256'' t = Some (JStr (pm_terms_sha256 m))"

definition usage_matches ::
  "ms \<Rightarrow> mandate_usage \<Rightarrow> provider_mandate \<Rightarrow> cooperative_window \<Rightarrow> route_lease \<Rightarrow> db \<Rightarrow> bool" where
  "usage_matches clock_ts x m w l s \<longleftrightarrow>
     pm_coverage_kind m = cw_coverage_kind w \<and> pm_state m = Z_ACTIVE \<and> pm_expires_at m > clock_ts \<and>
     not_after (rl_ends_ms l) (pm_expires_at m) \<and> pm_provider_id m = mu_provider_id x \<and>
     pm_terms_sha256 m = mu_terms_sha256 x \<and> pm_route_id m = rl_route_id l \<and> pm_route_sha256 m = rl_route_sha256 l \<and>
     (case rl_cooperative l of None \<Rightarrow> False
      | Some c \<Rightarrow> ct_pool_id c = pm_pool_id m \<and> ct_policy_sha256 c = pm_policy_sha256 m) \<and>
     (\<exists>am \<in> set (rt_members s). lm_lease_id am = rl_id l \<and> lm_provider_id am = pm_provider_id m) \<and>
     (case json_path [''provider_mandates''] (terms_renewal l) of
        Some (JArr ts) \<Rightarrow> list_ex (mandate_term m) ts | _ \<Rightarrow> False) \<and>
     (\<exists>ac \<in> set (rt_acceptances s). la_lease_id ac = rl_id l \<and> la_provider_id ac = pm_provider_id m \<and>
        la_mandate_id ac = Some (pm_id m) \<and> la_terms_sha256 ac = rl_terms_sha256 l)"

definition consumed_mandate :: "provider_mandate \<Rightarrow> provider_mandate" where
  "consumed_mandate m = m\<lparr>pm_windows_used := pm_windows_used m + 1,
     pm_state := (if pm_windows_used m + 1 \<ge> pm_maximum_windows m then Z_EXHAUSTED else Z_ACTIVE)\<rparr>"

definition usage_key :: "mandate_usage \<Rightarrow> uuid \<times> uuid" where
  "usage_key x = (mu_lease_id x, mu_provider_id x)"

definition insert_usage :: "ms \<Rightarrow> mandate_usage \<Rightarrow> fund_db \<Rightarrow> fund_db result" where
  "insert_usage clock_ts x s =
     (case (lookup pm_id (mu_mandate_id x) (mandates s), lookup rl_id (mu_lease_id x) (rt_leases (base s)),
            lookup cw_lease_id (mu_lease_id x) (windows (base s))) of
        (Some m, Some l, Some w) \<Rightarrow>
          if lookup rw_lease_id (mu_lease_id x) (runs s) = None then Inl (DbError ''23503'') else
          and_then (insert_row usage_key x (usages s)) (\<lambda>t.
          if \<not> usage_matches clock_ts x m w l (base s) then Inl (DbError ''P0001'')
          else update_mandate (pm_id m) consumed_mandate (s\<lparr>usages := t\<rparr>))
      | _ \<Rightarrow> Inl (DbError ''23503''))"

text \<open>Constraint trigger \<open>complete_renewal_usage\<close>, checked at the end of the transaction.\<close>

definition usage_complete :: "uuid \<Rightarrow> fund_db \<Rightarrow> bool" where
  "usage_complete i s \<longleftrightarrow> list_all (\<lambda>am. (i, lm_provider_id am) \<in> usage_key ` set (usages s)) (lease_members i (base s))"

text \<open>Trigger \<open>validate_expansion_demand\<close>.\<close>

definition expansion_evidence_matches :: "(string \<Rightarrow> string) \<Rightarrow> expansion_demand \<Rightarrow> route_lease \<Rightarrow> session \<Rightarrow> affiliation \<Rightarrow> bool" where
  "expansion_evidence_matches sha d l r a \<longleftrightarrow>
     terms_expansion l = Some (ed_evidence d) \<and> ed_evidence_sha256 d = sha (canonical (ed_evidence d)) \<and>
     json_path [''selected_demand'', ''session_id''] (Some (ed_evidence d)) = Some (JStr (s_id r)) \<and>
     json_path [''selected_demand'', ''party_id''] (Some (ed_evidence d)) = Some (JStr (af_party_id a)) \<and>
     json_path [''selected_demand'', ''affiliation_id''] (Some (ed_evidence d)) = Some (JStr (af_id a)) \<and>
     json_path [''selected_demand'', ''hold_microtu''] (Some (ed_evidence d)) = Some (amt (s_hold_microtu r)) \<and>
     json_field ''approved'' (ed_evidence d) = Some (JBool True) \<and>
     json_field ''qualification_scope'' (ed_evidence d) = Some (JStr ''PRIVATE_DECLARED_PARTIES'')"

definition parties_separate :: "ms \<Rightarrow> cooperative_pool \<Rightarrow> string \<Rightarrow> affiliation \<Rightarrow> fund_db \<Rightarrow> bool" where
  "parties_separate clock_ts p k a s \<longleftrightarrow>
     list_all (\<lambda>actor. (\<exists>pa \<in> set (affiliations s). af_user_id pa = actor \<and> af_created_at pa \<le> clock_ts \<and>
          af_expires_at pa > clock_ts \<and> af_revoked_at pa = None) \<and>
        (\<forall>pa \<in> set (affiliations s). af_user_id pa = actor \<and> af_created_at pa \<le> clock_ts \<and>
          af_expires_at pa > clock_ts \<and> af_revoked_at pa = None \<longrightarrow> af_party_id pa \<noteq> af_party_id a))
       (plan_actors (cp_id p) k (base s))"

definition plan_liquid :: "ms \<Rightarrow> ms \<Rightarrow> cooperative_pool \<Rightarrow> db \<Rightarrow> bool" where
  "plan_liquid tx_now clock_ts p s \<longleftrightarrow>
     (let groups = filter (\<lambda>g. cg_pool_id g = cp_id p) (pool_groups s);
          rate = sum_list (map cg_rate_microtu_per_second groups);
          held = sum_list (map (\<lambda>g. group_held tx_now s g ESSENTIAL) groups) in
      bal (ledger s) (cp_reserve_account p) \<ge> rate * 259200 \<and>
      bal (ledger s) (cp_working_account p) \<ge> max 0 (rate * 21600 - held) \<and> \<not> cp_paused p \<and>
      (case cp_healthy_since p of None \<Rightarrow> False | Some t \<Rightarrow> t \<le> clock_ts - 86400000) \<and>
      (case cp_sample_at p of None \<Rightarrow> False | Some t \<Rightarrow> t \<ge> clock_ts - 6000))"

text \<open>
  The conditions of trigger \<open>validate_expansion_demand\<close>. The evidence is recorded with its digest by the same insertion, so the
  digest of the canonical text stands for the stored one; the test that the lease was written by this transaction (\<open>writer_xid\<close>)
  holds by construction, as for the runs.
\<close>

definition demand_valid ::
  "(string \<Rightarrow> string) \<Rightarrow> ms \<Rightarrow> ms \<Rightarrow> expansion_demand \<Rightarrow> cooperative_window \<Rightarrow> route_lease \<Rightarrow> session \<Rightarrow> affiliation \<Rightarrow>
   cooperative_pool \<Rightarrow> fund_db \<Rightarrow> bool" where
  "demand_valid sha tx_now clock_ts d w l r a p s \<longleftrightarrow>
     cw_coverage_kind w = EXPANSION \<and> rl_state l = L_ACTIVE \<and> s_state r = S_QUEUED \<and> s_billing_state r = B_HELD \<and>
     s_hold_microtu r > 0 \<and> s_cooperative_pool_id r = Some (cw_pool_id w) \<and>
     (case lookup pool_group_key (cw_pool_id w, cw_group_key w) (pool_groups (base s)) of
        None \<Rightarrow> True | Some g \<Rightarrow> s_model_id r = cg_model_id g) \<and>
     s_created_at r \<le> clock_ts - 10000 \<and> s_queue_deadline r > clock_ts + 10000 \<and>
     af_user_id a = s_user_id r \<and> af_party_id a = ed_consumer_party_id d \<and> af_revoked_at a = None \<and>
     af_expires_at a > clock_ts \<and> expansion_evidence_matches sha d l r a \<and> cp_expansion_allowed p \<and>
     s_cooperative_policy_sha256 r = Some (cp_policy_sha256 p) \<and>
     (case (lookup m_id (s_model_id r) (models (base s)), lookup u_id (s_user_id r) (users (base s))) of
        (Some m, Some u) \<Rightarrow> m_manifest_sha256 m = s_manifest_sha256 r \<and> m_state m = M_LOCAL_PREVIEW \<and> \<not> u_disabled u
      | _ \<Rightarrow> False) \<and>
     parties_separate clock_ts p (cw_group_key w) a s \<and> plan_liquid tx_now clock_ts p (base s) \<and> funded_hold r (base s)"

definition insert_demand :: "(string \<Rightarrow> string) \<Rightarrow> ms \<Rightarrow> ms \<Rightarrow> expansion_demand \<Rightarrow> fund_db \<Rightarrow> fund_db result" where
  "insert_demand sha tx_now clock_ts d s =
     (case (lookup cw_lease_id (ed_lease_id d) (windows (base s)), lookup rl_id (ed_lease_id d) (rt_leases (base s)),
            lookup s_id (ed_session_id d) (sessions (base s)), lookup af_id (ed_affiliation_id d) (affiliations s)) of
        (Some w, Some l, Some r, Some a) \<Rightarrow>
          (case lookup cp_id (cw_pool_id w) (pools (base s)) of
             None \<Rightarrow> Inl (DbError ''P0001'')
           | Some p \<Rightarrow>
               if \<not> demand_valid sha tx_now clock_ts d w l r a p s then Inl (DbError ''P0001'')
               else if lookup rw_lease_id (ed_lease_id d) (runs s) = None \<or>
                   lookup py_id (ed_consumer_party_id d) (parties s) = None then Inl (DbError ''23503'')
               else if \<exists>q \<in> set (demands s). ed_session_id q = ed_session_id d then Inl (DbError ''23505'')
               else and_then (insert_row ed_lease_id d (demands s)) (\<lambda>t. Inr (s\<lparr>demands := t\<rparr>)))
      | _ \<Rightarrow> Inl (DbError ''P0001''))"

text \<open>Constraint trigger \<open>complete_expansion_evidence\<close> on the window of a lease.\<close>

definition expansion_complete :: "uuid \<Rightarrow> fund_db \<Rightarrow> bool" where
  "expansion_complete i s \<longleftrightarrow>
     (case lookup cw_lease_id i (windows (base s)) of
        None \<Rightarrow> True
      | Some w \<Rightarrow> cw_coverage_kind w = EXPANSION \<longrightarrow> lookup ed_lease_id i (demands s) \<noteq> None)"

section \<open>Attempt\<close>

text \<open>The clocks and random ids that one attempt reads; \<open>at_flow\<close> is the row of the query for \<open>flow\<close>.\<close>

record attempt_input =
  at_date_now :: ms
  at_tx_now :: ms
  at_clock_ts :: ms
  at_lease_id :: uuid
  at_journal_id :: uuid
  at_incident_id :: uuid
  at_key :: uuid
  at_flow :: flow_row

definition on_base :: "'a handler \<Rightarrow> 'a fund_handler" where
  "on_base h s = and_then (h (base s)) (\<lambda>(v, b). Inr (v, s\<lparr>base := b\<rparr>))"

definition note_renewal ::
  "ms \<Rightarrow> renewal_authority \<Rightarrow> string \<Rightarrow> (string \<times> json) list \<Rightarrow> fund_db \<Rightarrow> (string \<times> fund_db) result" where
  "note_renewal clock_ts a status metadata s =
     and_then (update_authority (au_id a)
         (\<lambda>q. q\<lparr>au_last_status := status, au_last_attempt_at := Some clock_ts\<rparr>) s) (\<lambda>s1.
     Inr (status,
       if au_last_status a \<noteq> status \<or> status = ''RENEWED''
       then add_renewal_event (au_pool_id a) (if status = ''RENEWED'' then ''window_renewed'' else ''waiting_changed'')
         None (Some (au_id a)) None ((''status'', JStr status) # metadata) s1
       else s1))"

definition close_authority :: "ms \<Rightarrow> renewal_authority \<Rightarrow> authority_state \<Rightarrow> string fund_handler" where
  "close_authority clock_ts a state s =
     and_then (update_authority (au_id a) (\<lambda>q. q\<lparr>au_state := state\<rparr>) s) (\<lambda>s1.
     note_renewal clock_ts a (authority_state_text state) [] s1)"

definition user_disabled :: "uuid \<Rightarrow> db \<Rightarrow> bool" where
  "user_disabled u s \<longleftrightarrow> (\<exists>q \<in> set (users s). u_id q = u \<and> u_disabled q)"

text \<open>What the gross limits leave.\<close>

definition working_limit :: "renewal_authority \<Rightarrow> int" where
  "working_limit a = au_maximum_working_microtu a - au_working_committed_microtu a"

definition reserve_limit :: "renewal_authority \<Rightarrow> int" where
  "reserve_limit a = au_maximum_reserve_microtu a - au_reserve_committed_microtu a"

definition renewal_source :: "pool_snapshot \<Rightarrow> renewal_authority \<Rightarrow> int \<Rightarrow> funding_source option" where
  "renewal_source snap a cost =
     (if sn_working snap \<ge> cost \<and> working_limit a \<ge> cost then Some From_WORKING
      else if sn_working snap < cost \<and> sn_reserve snap \<ge> cost \<and> reserve_limit a \<ge> cost then Some From_RESERVE
      else None)"

text \<open>The mandates that let the fund renew on a route, and the first route with one of every provider.\<close>

definition route_providers :: "uuid \<Rightarrow> db \<Rightarrow> uuid list" where
  "route_providers route s = sort (remdups (map rm_provider_id (members_of route s)))"

definition usable_mandate :: "renewal_authority \<Rightarrow> cooperative_pool \<Rightarrow> ms \<Rightarrow> cooperative_route \<Rightarrow> provider_mandate \<Rightarrow> bool" where
  "usable_mandate a p earliestEnd r m \<longleftrightarrow>
     pm_pool_id m = cp_id p \<and> pm_route_id m = cr_route_id r \<and> pm_route_sha256 m = cr_route_sha256 r \<and>
     pm_policy_sha256 m = cp_policy_sha256 p \<and> pm_state m = Z_ACTIVE \<and>
     pm_windows_used m < pm_maximum_windows m \<and> pm_expires_at m > earliestEnd \<and>
     pm_coverage_kind m = au_coverage_kind a"

definition route_mandates ::
  "renewal_authority \<Rightarrow> cooperative_pool \<Rightarrow> ms \<Rightarrow> cooperative_route \<Rightarrow> fund_db \<Rightarrow> provider_mandate list" where
  "route_mandates a p earliestEnd r s = sort_key pm_id (filter
     (\<lambda>m. usable_mandate a p earliestEnd r m \<and>
        pm_provider_id m \<in> set (route_providers (cr_route_id r) (base s))) (mandates s))"

definition mandated_route ::
  "renewal_authority \<Rightarrow> cooperative_pool \<Rightarrow> ms \<Rightarrow> cooperative_route list \<Rightarrow> fund_db \<Rightarrow> cooperative_route option" where
  "mandated_route a p earliestEnd candidates s =
     find (\<lambda>r. length (route_mandates a p earliestEnd r s) = length (route_providers (cr_route_id r) (base s))) candidates"

text \<open>The evidence of an expansion: the facts and the queued session it answers, re-read and locked.\<close>

definition demand_held :: "ms \<Rightarrow> uuid \<Rightarrow> db \<Rightarrow> session option" where
  "demand_held clock_ts i s = find (\<lambda>r. s_id r = i \<and> s_state r = S_QUEUED \<and> s_billing_state r = B_HELD \<and>
     s_queue_deadline r > clock_ts + 10000) (sessions s)"

definition selected_demand_json :: "session \<Rightarrow> affiliation \<Rightarrow> json" where
  "selected_demand_json r a = JObj
     [(''session_id'', JStr (s_id r)), (''party_id'', JStr (af_party_id a)), (''affiliation_id'', JStr (af_id a)),
      (''hold_microtu'', amt (s_hold_microtu r))]"

definition expansion_evidence ::
  "attempt_input \<Rightarrow> pool_snapshot \<Rightarrow> expansion_facts option \<Rightarrow> fund_db \<Rightarrow> (json \<times> session \<times> affiliation) option result" where
  "expansion_evidence x snap facts s =
     (case facts of
        None \<Rightarrow> Inr None
      | Some f \<Rightarrow>
          (case ef_demand f of
             [] \<Rightarrow> Inr None
           | d # _ \<Rightarrow>
               need_row (demand_held (at_clock_ts x) (s_id (qd_session d)) (base s)) 409 ''demand_changed'' (\<lambda>r.
               Inr (Some (JObj (publicExpansion (at_date_now x) snap f @
                 [(''selected_demand'', selected_demand_json r (qd_affiliation d))]), r, qd_affiliation d)))))"

definition renewal_json :: "renewal_authority \<Rightarrow> provider_mandate list \<Rightarrow> json" where
  "renewal_json a ms = JObj
     [(''authorization_id'', JStr (au_id a)), (''authorization_terms_sha256'', JStr (au_terms_sha256 a)),
      (''sequence'', JNum (au_windows_used a + 1)),
      (''provider_mandates'', JArr (map (\<lambda>m. JObj [(''id'', JStr (pm_id m)), (''provider_id'', JStr (pm_provider_id m)),
         (''terms_sha256'', JStr (pm_terms_sha256 m))]) ms))]"

definition renewal_reason :: "renewal_authority \<Rightarrow> string" where
  "renewal_reason a = ''Bounded '' @
     (case au_coverage_kind a of ESSENTIAL \<Rightarrow> ''essential'' | EXPANSION \<Rightarrow> ''expansion'') @ '' renewal '' @ au_id a @
     ''; fixed policy and gross commitment limits.''"

text \<open>The statements after the window is offered: acceptance for every mandate, the run, the usages.\<close>

definition accept_mandate :: "attempt_input \<Rightarrow> route_lease \<Rightarrow> provider_mandate \<Rightarrow> fund_db \<Rightarrow> fund_db result" where
  "accept_mandate x l m s =
     (case lookup u_id (pm_provider_id m) (users (base s)) of
        None \<Rightarrow> Inl TypeError
      | Some provider \<Rightarrow>
          and_then (on_base (accept_route_lease (at_clock_ts x) (at_clock_ts x) provider (rl_id l) (rl_terms_sha256 l)
              (Some (pm_id m, pm_terms_sha256 m))) s) (\<lambda>(_, s'). Inr s'))"

definition use_mandate :: "attempt_input \<Rightarrow> route_lease \<Rightarrow> provider_mandate \<Rightarrow> fund_db \<Rightarrow> fund_db result" where
  "use_mandate x l m = insert_usage (at_clock_ts x)
     \<lparr>mu_lease_id = rl_id l, mu_provider_id = pm_provider_id m, mu_mandate_id = pm_id m,
      mu_terms_sha256 = pm_terms_sha256 m\<rparr>"

definition use_demand ::
  "(string \<Rightarrow> string) \<Rightarrow> attempt_input \<Rightarrow> route_lease \<Rightarrow> (json \<times> session \<times> affiliation) option \<Rightarrow> fund_db \<Rightarrow> fund_db result" where
  "use_demand sha x l evidence s =
     (case evidence of
        None \<Rightarrow> Inr s
      | Some (e, r, a) \<Rightarrow> insert_demand sha (at_tx_now x) (at_clock_ts x)
          \<lparr>ed_lease_id = rl_id l, ed_session_id = s_id r, ed_consumer_party_id = af_party_id a,
           ed_affiliation_id = af_id a, ed_evidence = e, ed_evidence_sha256 = sha (canonical e)\<rparr> s)"

definition renew_window ::
  "(string \<Rightarrow> string) \<Rightarrow> attempt_input \<Rightarrow> cooperative_pool \<Rightarrow> renewal_authority \<Rightarrow> cooperative_group \<Rightarrow> funding_source \<Rightarrow>
   cooperative_route \<Rightarrow> provider_mandate list \<Rightarrow> (json \<times> session \<times> affiliation) option \<Rightarrow> string fund_handler" where
  "renew_window sha x p a g src r ms evidence s =
     (case lookup u_id (cp_creator_id p) (users (base s)) of
        None \<Rightarrow> Inl TypeError
      | Some creator \<Rightarrow>
          and_then (on_base (offer_window sha (at_lease_id x, at_journal_id x, at_incident_id x) (at_date_now x) (at_tx_now x)
              creator (cp_id p)
              \<lparr>wq_group_key = cg_group_key g, wq_source = src, wq_reason = renewal_reason a, wq_idempotency_key = at_key x\<rparr>
              \<lparr>wo_eligible = Some [cr_route_id r], wo_renewal = Some (renewal_json a ms),
               wo_expansion = map_option fst evidence\<rparr>) s) (\<lambda>(l, s1).
          and_then (each (accept_mandate x l) ms s1) (\<lambda>s2.
          and_then (insert_run (at_clock_ts x)
              \<lparr>rw_lease_id = rl_id l, rw_authorization_id = au_id a, rw_sequence = au_windows_used a + 1,
               rw_source = src, rw_committed_microtu = group_cost g\<rparr> s2) (\<lambda>s3.
          and_then (each (use_mandate x l) ms s3) (\<lambda>s4.
          and_then (use_demand sha x l evidence s4) (\<lambda>s5.
          and_then (note_renewal (at_clock_ts x) a ''RENEWED''
              [(''lease_id'', JStr (rl_id l)), (''source'', JStr (source_text src)),
               (''committed_microtu'', amt (group_cost g)), (''sequence'', JNum (au_windows_used a + 1)),
               (''coverage_kind'', JStr (kind_text (au_coverage_kind a)))] s5) (\<lambda>(status, s6).
          if usage_complete (rl_id l) s6 \<and> expansion_complete (rl_id l) s6 then Inr (status, s6)
          else Inl (DbError ''P0001''))))))))"

definition expansion_of :: "attempt_input \<Rightarrow> cooperative_pool \<Rightarrow> cooperative_group \<Rightarrow> pool_snapshot \<Rightarrow>
   renewal_authority \<Rightarrow> fund_db \<Rightarrow> expansion_facts option" where
  "expansion_of x p g snap a s =
     (if au_coverage_kind a = EXPANSION
      then Some (expansionFacts (at_tx_now x) (at_clock_ts x) p g snap (at_flow x) (au_operating_support_id a) s)
      else None)"

definition upper :: "string \<Rightarrow> string" where
  "upper t = map (\<lambda>c. if is_lower c then char_of (of_char c - 32 :: nat) else c) t"

text \<open>From the snapshot on: the expansion's gates, the source, the routes with mandates, the window.\<close>

definition attempt_window ::
  "(string \<Rightarrow> string) \<Rightarrow> attempt_input \<Rightarrow> cooperative_pool \<Rightarrow> renewal_authority \<Rightarrow> cooperative_group \<Rightarrow> string fund_handler" where
  "attempt_window sha x p a g s =
     (let clock_ts = at_clock_ts x; cost = group_cost g;
          earliestEnd = at_date_now x + (cg_duration_seconds g + 10) * 1000;
          snap = cooperativeSnapshot (at_date_now x) (at_tx_now x) (base s) p;
          facts = expansion_of x p g snap a s;
          candidates = window_candidates (at_tx_now x) (cp_id p) (cg_group_key g) (map_option ef_candidates facts) (base s) in
      if facts \<noteq> None \<and> \<not> approved (the facts) then
        note_renewal clock_ts a (''EXPANSION_'' @ upper (hd (blocked_by (the facts))))
          [(''blocked_by'', JArr (map JStr (blocked_by (the facts))))] s
      else (case renewal_source snap a cost of
        None \<Rightarrow> note_renewal clock_ts a (if sn_working snap \<ge> cost \<or> sn_reserve snap \<ge> cost
          then ''WAITING_FOR_AUTHORIZED_SOURCE'' else ''WAITING_FOR_FUNDS'') [] s
      | Some src \<Rightarrow>
          if candidates = [] then note_renewal clock_ts a ''WAITING_FOR_CAPACITY'' [] s
          else (case mandated_route a p earliestEnd candidates s of
            None \<Rightarrow> note_renewal clock_ts a ''WAITING_FOR_OPERATORS'' [] s
          | Some r \<Rightarrow>
              and_then (expansion_evidence x snap facts s) (\<lambda>evidence.
              renew_window sha x p a g src r (route_mandates a p earliestEnd r s) evidence s))))"

definition attempt_renewal :: "(string \<Rightarrow> string) \<Rightarrow> attempt_input \<Rightarrow> uuid \<Rightarrow> string fund_handler" where
  "attempt_renewal sha x i s =
     (case lookup au_id i (authorities s) of
        None \<Rightarrow> Inr (''MISSING'', s)
      | Some a \<Rightarrow>
          poolLock (au_pool_id a) s (\<lambda>p.
          if au_state a \<noteq> Z_ACTIVE then Inr (authority_state_text (au_state a), s)
          else if au_expires_at a \<le> at_date_now x then close_authority (at_clock_ts x) a Z_EXPIRED s
          else if cp_paused p then note_renewal (at_clock_ts x) a ''PAUSED'' [] s
          else if user_disabled (cp_creator_id p) (base s) \<or> user_disabled (au_authorized_by a) (base s)
            then note_renewal (at_clock_ts x) a ''AUTHORIZER_DISABLED'' [] s
          else need (au_policy_sha256 a = cp_policy_sha256 p) 409 ''pool_terms'' (
          case lookup pool_group_key (cp_id p, au_group_key a) (pool_groups (base s)) of
            None \<Rightarrow> Inl TypeError
          | Some g \<Rightarrow>
              if at_date_now x + (cg_duration_seconds g + 10) * 1000 \<ge> min (au_expires_at a) (cp_support_until p)
                then note_renewal (at_clock_ts x) a ''WAITING_FOR_SUPPORT'' [] s
              else if group_occupied (cp_id p) (cg_group_key g) (au_coverage_kind a) (base s)
                then note_renewal (at_clock_ts x) a ''WAITING_FOR_WINDOW'' [] s
              else if au_windows_used a \<ge> au_maximum_windows a \<or>
                  (working_limit a < group_cost g \<and> reserve_limit a < group_cost g)
                then close_authority (at_clock_ts x) a Z_EXHAUSTED s
              else attempt_window sha x p a g s)))"

section \<open>Reconcile\<close>

text \<open>The order of the timer: the hundred oldest attempts, the essential ones among them first.\<close>

definition attempt_age :: "renewal_authority \<Rightarrow> int list" where
  "attempt_age a = (case au_last_attempt_at a of None \<Rightarrow> [0] | Some t \<Rightarrow> [1, t])"

definition renewals_due :: "fund_db \<Rightarrow> uuid list" where
  "renewals_due s = map au_id (sort_key (\<lambda>a. if au_coverage_kind a = EXPANSION then 1 else 0 :: int)
     (take 100 (sort_key attempt_age (sort_key au_id (filter (\<lambda>a. au_state a = Z_ACTIVE) (authorities s))))))"

definition commit_fund :: "'a fund_handler \<Rightarrow> fund_db \<Rightarrow> 'a result \<times> fund_db" where
  "commit_fund work s = (case work s of Inl e \<Rightarrow> (Inl e, s) | Inr (v, s') \<Rightarrow> (Inr v, s'))"

definition error_code :: "error \<Rightarrow> string" where
  "error_code e = (case e of AppError st c \<Rightarrow> c | DbError c \<Rightarrow> c | _ \<Rightarrow> ''retry_pending'')"

text \<open>After a failed attempt: a transaction of its own that records it.\<close>

definition retry_pending :: "ms \<Rightarrow> error \<Rightarrow> uuid \<Rightarrow> string fund_handler" where
  "retry_pending clock_ts e i s =
     (case lookup au_id i (authorities s) of
        None \<Rightarrow> Inl TypeError
      | Some a \<Rightarrow>
          poolLock (au_pool_id a) s (\<lambda>_.
          if au_state a \<noteq> Z_ACTIVE then Inr (authority_state_text (au_state a), s)
          else note_renewal clock_ts a ''RETRY_PENDING'' [(''error_code'', JStr (error_code e))] s))"

text \<open>The iterations of the timer, each a transaction of its own with clocks and random ids of its own.\<close>

fun reconcile_renewals :: "(string \<Rightarrow> string) \<Rightarrow> (uuid \<times> attempt_input) list \<Rightarrow> fund_db \<Rightarrow> string list result \<times> fund_db" where
  "reconcile_renewals sha [] s = (Inr [], s)"
| "reconcile_renewals sha ((i, x) # work) s =
     (let (first, s1) = commit_fund (attempt_renewal sha x i) s;
          (second, s2) = (case first of
             Inr status \<Rightarrow> (Inr status, s1)
           | Inl e \<Rightarrow> commit_fund (retry_pending (at_clock_ts x) e i) s1) in
      case second of
        Inl e \<Rightarrow> (Inl e, s2)
      | Inr status \<Rightarrow>
          let (rest, s3) = reconcile_renewals sha work s2 in
          (case rest of Inl e \<Rightarrow> Inl e | Inr statuses \<Rightarrow> Inr (status # statuses), s3))"

definition run_renewals ::
  "(string \<Rightarrow> string) \<Rightarrow> ms \<Rightarrow> (uuid \<Rightarrow> attempt_input) \<Rightarrow> fund_db \<Rightarrow> string list result \<times> fund_db" where
  "run_renewals sha tx_now input s =
     (let s0 = expire_mandates (\<lambda>_. True) tx_now s in
      reconcile_renewals sha (map (\<lambda>i. (i, input i)) (renewals_due s0)) s0)"

end
