(* ===== verification/Route_Leases_Demo.thy ===== *)
theory Route_Leases_Demo
  imports Route_Leases
begin

text \<open>
  A route of the demonstration laboratory: Bob's root and Carol's stage on two machines. Alice
  offers it 60 seconds at 100 a second, both accept, and three seconds are observed.
\<close>

definition demo_route :: execution_route where
  "demo_route = \<lparr>er_id = ''r1'', er_publisher_id = ''b2'', er_name = ''route'', er_idempotency_key = ''rk'',
     er_request_sha256 = '''', er_model_id = ''lab-model'', er_manifest_sha256 = m_manifest_sha256 demo_model,
     er_root_node_id = ''nr'', er_route_sha256 = ''rh'', er_state = R_LOCAL_PREVIEW, er_qualification_note = ''''\<rparr>"

definition demo_route_member :: "uuid \<Rightarrow> uuid \<Rightarrow> uuid \<Rightarrow> int \<Rightarrow> member_role \<Rightarrow> int \<Rightarrow> route_member" where
  "demo_route_member n u d k role share = \<lparr>rm_route_id = ''r1'', rm_node_id = n, rm_provider_id = u,
     rm_resource_domain_id = d, rm_ordinal = k, rm_role = role, rm_share_bps = share\<rparr>"

definition demo_consent :: "uuid \<Rightarrow> route_acceptance" where
  "demo_consent u = \<lparr>ra_route_id = ''r1'', ra_provider_id = u, ra_route_sha256 = ''rh'', ra_withdrawn_at = None\<rparr>"

definition demo_routes_db :: db where
  "demo_routes_db = demo_db\<lparr>users := [alice, bob, carol],
     domains := [demo_domain, demo_domain\<lparr>d_id := ''d2'', d_owner_id := ''c3''\<rparr>],
     nodes := [demo_part ''nr'' ''b2'' ''d1'' ROUTE_ROOT, demo_part ''ns'' ''c3'' ''d2'' RPC_STAGE],
     routes := [demo_route],
     route_members := [demo_route_member ''nr'' ''b2'' ''d1'' 0 ROOT 6000, demo_route_member ''ns'' ''c3'' ''d2'' 1 STAGE 4000],
     route_acceptances := [demo_consent ''b2'', demo_consent ''c3''],
     ledger := createAccounts ''c3'' demo_ledger\<rparr>"

definition demo_route_request :: route_request where
  "demo_route_request = \<lparr>ro_route_id = ''r1'', ro_duration_seconds = 60, ro_rate_microtu_per_second = 100,
     ro_purpose = REQUESTED, ro_reason = ''one minute of the demonstration'', ro_idempotency_key = ''offer-1''\<rparr>"

definition demo_sha :: "string \<Rightarrow> string" where "demo_sha x = ''sha''"

definition demo_offered :: "(route_lease \<times> db) result" where
  "demo_offered = offer_route_lease demo_sha ''w1'' ''j1'' 90000 ''a1'' demo_route_request None demo_routes_db"

definition demo_accepts :: "user \<Rightarrow> ms \<Rightarrow> db \<Rightarrow> (route_lease \<times> db) result" where
  "demo_accepts u now s = accept_route_lease now now u ''w1'' ''sha'' None s"

definition demo_observed :: "db \<Rightarrow> (unit \<times> db) result" where
  "demo_observed s = reconcile_route_lease ''j2'' ''j3'' 103000 103000 ''w1'' s"

definition demo_leaves :: "db \<Rightarrow> (route_lease option \<times> db) result" where
  "demo_leaves s = cancel_route_lease ''j2'' ''j3'' 103000 103000 carol ''w1'' s"

definition paid_to :: "db \<Rightarrow> int list" where
  "paid_to s = map lm_paid_microtu (lease_members ''w1'' s)"

definition activated_demo :: "db \<Rightarrow> bool" where
  "activated_demo s \<longleftrightarrow> map rl_state (rt_leases s) = [L_ACTIVE] \<and> map rl_id (rt_leases s) = [''w1''] \<and>
     map rl_sample_ms (rt_leases s) = [Some 100000] \<and> map rl_ends_ms (rt_leases s) = [Some 160000] \<and>
     paid_to s = [0, 0]"

lemma demo_route_runs:
  "returns demo_offered (\<lambda>(r1, s1). returns (demo_accepts bob 95000 s1) (\<lambda>(r2, s2).
     returns (demo_accepts carol 100000 s2) (\<lambda>(r3, s3). activated_demo s3 \<and>
       returns (demo_observed s3) (\<lambda>(u, s4). paid_to s4 = [180, 120] \<and> map rl_id (rt_leases s4) = [''w1'']) \<and>
       returns (demo_leaves s3) (\<lambda>(u, s5). map rl_state (rt_leases s5) = [L_DRAINING] \<and>
         map lm_withdrawn_at (lease_members ''w1'' s5) = [None, Some 103000]))))"
  by code_simp

end
