(* ===== verification/Funds_Demo.thy ===== *)
theory Funds_Demo
  imports Funds Route_Leases_Demo
begin

text \<open>Alice plans one minute of the demonstration route, puts credits into the reserve and buys a window.\<close>

definition plan_sha :: "string \<Rightarrow> string" where "plan_sha x = replicate 64 (CHR ''b'')"

definition demo_plan :: pool_request where
  "demo_plan = \<lparr>pq_name = ''essential minute'', pq_support_until = \<lparr>at_text = ''1970-01-01T02:46:40Z'', at_ms = 10000000\<rparr>,
     pq_idempotency_key = ''plan-1'', pq_groups = [\<lparr>gr_key = ''core'', gr_route_ids = [''r1''],
       gr_rate_microtu_per_second = 100, gr_duration_seconds = 60\<rparr>]\<rparr>"

definition planned_demo :: "(cooperative_pool \<times> db) result" where
  "planned_demo = create_pool plan_sha ''p1'' 90000 90000 alice demo_plan demo_routes_db"

lemma demo_plan_runs:
  "returns planned_demo (\<lambda>(p, s). map cp_id (pools s) = [''p1''] \<and> map cg_group_key (pool_groups s) = [''core''])"
  unfolding planned_demo_def create_pool_def created_pool_def plan_sha_def by code_simp

text \<open>The plan as it stands after contributions of 9000 to its reserve.\<close>

definition coop_row :: "account_kind \<Rightarrow> int \<Rightarrow> account" where
  "coop_row k b = \<lparr>acc_owner = None, acc_kind = k, acc_balance = b\<rparr>"

definition demo_reserve_pool :: cooperative_pool where
  "demo_reserve_pool = demo_pool\<lparr>cp_working_account := coop_account ''p1'' ''working'',
     cp_reserve_account := coop_account ''p1'' ''reserve'', cp_burn_account := coop_account ''p1'' ''burn''\<rparr>"

definition demo_group :: cooperative_group where
  "demo_group = \<lparr>cg_pool_id = ''p1'', cg_group_key = ''core'', cg_model_id = ''lab-model'',
     cg_rate_microtu_per_second = 100, cg_duration_seconds = 60\<rparr>"

definition demo_candidate :: cooperative_route where
  "demo_candidate = \<lparr>cr_pool_id = ''p1'', cr_group_key = ''core'', cr_route_id = ''r1'', cr_route_sha256 = ''rh''\<rparr>"

definition demo_reserve_db :: db where
  "demo_reserve_db = demo_routes_db\<lparr>pools := [demo_reserve_pool],
     pool_groups := [demo_group], pool_routes := [demo_candidate],
     ledger := \<lparr>accounts = [coop_account ''p1'' ''working'' \<mapsto> coop_row COOP_WORKING 0,
         coop_account ''p1'' ''reserve'' \<mapsto> coop_row COOP_CORE_RESERVE 9000,
         coop_account ''p1'' ''burn'' \<mapsto> coop_row COOP_BURN 0], journal = []\<rparr>\<rparr>"

definition demo_window :: window_request where
  "demo_window = \<lparr>wq_group_key = ''core'', wq_source = From_RESERVE, wq_reason = ''the working account is empty'',
     wq_idempotency_key = ''window-1''\<rparr>"

definition windowed_demo :: "(route_lease \<times> db) result" where
  "windowed_demo = offer_window plan_sha (''w1'', ''j2'', ''x1'') 90000 90000 alice ''p1'' demo_window no_options demo_reserve_db"

text \<open>The window, step by step: the snapshot, the candidates, the incident, the purchase.\<close>

definition demo_snap :: pool_snapshot where
  "demo_snap = cooperativeSnapshot 90000 90000 demo_reserve_db demo_reserve_pool"

lemma demo_snap_facts:
  "map gs_group (sn_groups demo_snap) = [demo_group]" "sn_working demo_snap = 0" "sn_reserve demo_snap = 9000"
  "sn_state demo_snap = DEFENSE"
  by code_simp+

lemma demo_candidates: "window_candidates 90000 ''p1'' ''core'' None demo_reserve_db = [demo_candidate]"
  by code_simp

definition demo_incident :: cooperative_incident where
  "demo_incident = \<lparr>ci_id = ''x1'', ci_pool_id = ''p1'', ci_group_key = ''core'', ci_route_id = ''r1'',
     ci_policy_sha256 = cp_policy_sha256 demo_reserve_pool, ci_budget_microtu = 6000,
     ci_deadline = cp_support_until demo_reserve_pool, ci_reason = wq_reason demo_window,
     ci_evidence = JObj [(''working_microtu'', amt 0), (''state'', JStr ''DEFENSE''),
       (''trigger'', JStr ''ESSENTIAL_WORKING_SHORTFALL''), (''request_sha256'', JStr (plan_sha []))],
     ci_created_at = 90000\<rparr>"

definition bought_demo :: "(route_lease \<times> db) result" where
  "bought_demo = buy_window plan_sha ''w1'' ''j2'' 90000 alice demo_reserve_pool demo_group ''r1'' demo_window
     (window_context demo_reserve_pool demo_window no_options (plan_sha []) (Some ''x1''))
     (demo_reserve_db\<lparr>incidents := [demo_incident]\<rparr>)"

lemma demo_bought: "returns bought_demo (\<lambda>(l, s). map cw_lease_id (windows s) = [''w1''])"
  unfolding bought_demo_def buy_window_def offer_route_lease_def plan_sha_def by code_simp

lemma plan_sha_const: "plan_sha x = plan_sha []"
  by (simp add: plan_sha_def)

lemma demo_reserve_tables:
  "lookup cp_id ''p1'' (pools demo_reserve_db) = Some demo_reserve_pool"
  "rt_leases demo_reserve_db = []" "windows demo_reserve_db = []" "incidents demo_reserve_db = []"
  "pool_groups demo_reserve_db = [demo_group]" "journal (ledger demo_reserve_db) = []"
  by (simp_all add: demo_reserve_db_def demo_reserve_pool_def demo_pool_def demo_routes_db_def demo_db_def empty_db_def)

lemma demo_window_incident:
  "open_incident ''x1'' 90000 demo_reserve_pool demo_snap demo_window (plan_sha []) demo_candidate (group_cost demo_group)
     demo_reserve_db = Inr (Some ''x1'', demo_reserve_db\<lparr>incidents := [demo_incident]\<rparr>)"
proof -
  have "group_cost demo_group = 6000" "wq_source demo_window = From_RESERVE" "cp_id demo_reserve_pool = ''p1''"
    "wq_group_key demo_window = ''core''" "cr_route_id demo_candidate = ''r1''"
    by (simp_all add: group_cost_def demo_group_def demo_window_def demo_reserve_pool_def demo_pool_def demo_candidate_def)
  then show ?thesis
    by (simp add: open_incident_def demo_snap_facts insert_incident_def insert_row_def demo_reserve_tables demo_incident_def)
qed

lemma windowed_is_bought: "windowed_demo = bought_demo"
proof -
  have "cp_creator_id demo_reserve_pool = u_id alice" "\<not> cp_paused demo_reserve_pool"
    "cp_support_until demo_reserve_pool > 90000 + (cg_duration_seconds demo_group + 10) * 1000"
    "cg_group_key demo_group = ''core''" "wq_group_key demo_window = ''core''" "cr_route_id demo_candidate = ''r1''"
    by (simp_all add: demo_reserve_pool_def demo_pool_def alice_def demo_group_def demo_window_def demo_candidate_def)
  moreover have "plan_sha (canonical (window_json ''p1'' demo_window no_options)) = plan_sha []" by (rule plan_sha_const)
  ultimately show ?thesis
    unfolding windowed_demo_def offer_window_def locked_def bought_demo_def Let_def demo_snap_def [symmetric]
    by (simp add: demo_reserve_tables demo_snap_facts demo_snap_def [symmetric] no_options_def group_occupied_def
        demo_candidates demo_window_incident)
qed

end
