(* ===== verification/Renewals_Demo.thy ===== *)
theory Renewals_Demo
  imports Renewals Funds_Demo
begin

text \<open>
  Alice authorizes two windows of her plan, Bob mandates them for a route on two machines of his own,
  and the timer's attempt renews: the reserve pays one minute.
\<close>

definition solo_sha :: "string \<Rightarrow> string" where "solo_sha x = ''h''"

definition solo_policy :: string where "solo_policy = ''bbbbbbbbbbbbbbbbbbbbbbbbbbbbbbbbbbbbbbbbbbbbbbbbbbbbbbbbbbbbbbbb''"

lemma solo_sha_const: "solo_sha x = solo_sha []"
  by (simp add: solo_sha_def)

definition solo_pool :: cooperative_pool where
  "solo_pool = demo_reserve_pool\<lparr>cp_policy_sha256 := solo_policy, cp_support_until := 10000000\<rparr>"

text \<open>A small model of its own keeps the evaluation short.\<close>

definition solo_model :: model where
  "solo_model = \<lparr>m_id = ''lab-model'', m_manifest = \<lparr>mm_model_id = ''lab-model'', mm_display_name = ''Lab'',
       mm_backend_model = ''bm'', mm_revision = ''1'', mm_artifact_sha256 = ''ah'', mm_license_id = ''l'',
       mm_source_url = ''u'', mm_source_protocol = ''https:'', mm_max_context_tokens = 2048, mm_max_output_tokens = 512,
       mm_max_input_bytes = 4096, mm_input_rate_microtu = 10, mm_output_rate_microtu = 30, mm_rate_denominator = 7,
       mm_description = [], mm_execution_profile = None, mm_generation_profile = None\<rparr>,
     m_manifest_sha256 = ''mh'', m_state = M_LOCAL_PREVIEW, m_publisher_id = ''b2'', m_qualification_note = []\<rparr>"

definition solo_node :: "uuid \<Rightarrow> uuid \<Rightarrow> node_kind \<Rightarrow> node" where
  "solo_node i d kind = \<lparr>n_id = i, n_owner_id = ''b2'', n_name = i, n_public_key = None, n_resource_domain_id = d,
     n_model_id = ''lab-model'', n_base_url = [], n_epoch = 7, n_boot_id = None, n_state = N_READY,
     n_desired_state = Want_READY, n_last_seen = Some 89000, n_generation_profile = None,
     n_loaded_backend_models = [''bm''], n_node_kind = kind\<rparr>"

definition solo_base :: db where
  "solo_base = empty_db\<lparr>users := [alice, bob], models := [solo_model],
     domains := [demo_domain, demo_domain\<lparr>d_id := ''d2''\<rparr>],
     nodes := [solo_node ''nr'' ''d1'' ROUTE_ROOT, solo_node ''ns'' ''d2'' RPC_STAGE],
     routes := [demo_route\<lparr>er_manifest_sha256 := ''mh''\<rparr>],
     route_members := [demo_route_member ''nr'' ''b2'' ''d1'' 0 ROOT 6000, demo_route_member ''ns'' ''b2'' ''d2'' 1 STAGE 4000],
     route_acceptances := [demo_consent ''b2''],
     pools := [solo_pool], pool_groups := [demo_group], pool_routes := [demo_candidate],
     ledger := \<lparr>accounts = [coop_account ''p1'' ''working'' \<mapsto> coop_row COOP_WORKING 0,
         coop_account ''p1'' ''reserve'' \<mapsto> coop_row COOP_CORE_RESERVE 9000,
         coop_account ''p1'' ''burn'' \<mapsto> coop_row COOP_BURN 0], journal = []\<rparr>\<rparr>"

definition solo_db :: fund_db where
  "solo_db = \<lparr>base = solo_base, parties = [], affiliations = [], supports = [], demands = [], authorities = [],
     mandates = [], runs = [], usages = [], renewal_events = []\<rparr>"

definition solo_until :: instant where
  "solo_until = \<lparr>at_text = ''1970-01-01T01:23:20Z'', at_ms = 5000000\<rparr>"

definition solo_grant :: authorize_request where
  "solo_grant = \<lparr>zq_group_key = ''core'', zq_policy_sha256 = solo_policy, zq_maximum_windows = 2,
     zq_maximum_working_microtu = 0, zq_maximum_reserve_microtu = 12000, zq_expires_at = solo_until,
     zq_idempotency_key = ''grant-1'', zq_reason = ''two minutes of the plan'', zq_coverage_kind = None,
     zq_operating_support_id = None\<rparr>"

definition solo_authority :: renewal_authority where
  "solo_authority = \<lparr>au_id = ''au1'', au_pool_id = ''p1'', au_group_key = ''core'', au_authorized_by = ''a1'',
     au_policy_sha256 = solo_policy, au_maximum_windows = 2, au_maximum_working_microtu = 0,
     au_maximum_reserve_microtu = 12000, au_windows_used = 0, au_working_committed_microtu = 0,
     au_reserve_committed_microtu = 0, au_terms_sha256 = solo_sha [], au_expires_at = 5000000, au_state = Z_ACTIVE,
     au_revoked_at = None, au_idempotency_key = ''grant-1'', au_request_sha256 = solo_sha [],
     au_last_status = ''WAITING'', au_last_attempt_at = None, au_coverage_kind = ESSENTIAL,
     au_operating_support_id = None\<rparr>"

definition solo_authorized :: fund_db where
  "solo_authorized = add_renewal_event ''p1'' ''fund_authorized'' (Some ''a1'') (Some ''au1'') None
     [(''terms_sha256'', JStr (solo_sha []))] (solo_db\<lparr>authorities := [solo_authority]\<rparr>)"

lemma solo_requests_ok: "authorize_request_ok solo_grant"
  by code_simp

lemma solo_simps:
  "cp_id solo_pool = ''p1''" "cp_creator_id solo_pool = ''a1''" "cp_policy_sha256 solo_pool = solo_policy"
  "cp_support_until solo_pool = 10000000" "\<not> cp_paused solo_pool"
  "cp_working_account solo_pool = coop_account ''p1'' ''working''" "cp_reserve_account solo_pool = coop_account ''p1'' ''reserve''"
  by (simp_all add: solo_pool_def demo_reserve_pool_def demo_pool_def)

lemma solo_tables:
  "pools solo_base = [solo_pool]" "pool_groups solo_base = [demo_group]" "windows solo_base = []" "rt_leases solo_base = []"
  "users solo_base = [alice, bob]" "incidents solo_base = []"
  by (simp_all add: solo_base_def empty_db_def)

lemma alice_simps: "u_id alice = ''a1''" "\<not> u_disabled alice" "u_id bob = ''b2''" "\<not> u_disabled bob"
  by (simp_all add: alice_def bob_def)

lemma demo_group_simps:
  "cg_pool_id demo_group = ''p1''" "cg_group_key demo_group = ''core''" "cg_duration_seconds demo_group = 60" "group_cost demo_group = 6000"
  by (simp_all add: demo_group_def group_cost_def)

lemma solo_grant_simps:
  "zq_group_key solo_grant = ''core''" "zq_policy_sha256 solo_grant = solo_policy" "zq_maximum_working_microtu solo_grant = 0"
  "zq_maximum_reserve_microtu solo_grant = 12000" "zq_idempotency_key solo_grant = ''grant-1''" "at_ms (zq_expires_at solo_grant) = 5000000"
  "zq_coverage_kind solo_grant = None" "zq_operating_support_id solo_grant = None"
  by (simp_all add: solo_grant_def solo_until_def)

lemma solo_db_simps:
  "base solo_db = solo_base" "authorities solo_db = []" "mandates solo_db = []" "runs solo_db = []" "usages solo_db = []"
  by (simp_all add: solo_db_def)

lemma solo_authorizes:
  "authorize_renewal solo_sha ''au1'' 90000 90000 90000 alice ''p1'' solo_grant solo_db = Inr (solo_authority, solo_authorized)"
proof -
  have new: "new_authority solo_sha ''au1'' alice solo_pool demo_group solo_grant (solo_sha []) = solo_authority"
    by (simp add: new_authority_def solo_authority_def solo_simps demo_group_simps alice_simps solo_grant_def solo_until_def
        request_kind_def solo_sha_def)
  have exp: "expire_authorities 90000 ''p1'' solo_db = solo_db" by (simp add: expire_authorities_def solo_db_def)
  have store: "store_authority alice solo_authority solo_db = Inr (solo_authority, solo_authorized)"
    by (simp add: store_authority_def insert_authority_def authority_check_def solo_authority_def solo_db_def
        insert_row_def solo_authorized_def alice_simps)
  show ?thesis
    unfolding authorize_renewal_def Let_def solo_sha_const [of "canonical (authorize_json ''p1'' solo_grant)"]
    by (simp add: solo_requests_ok poolLock_def solo_db_simps solo_tables solo_simps alice_simps exp new store
        solo_grant_simps request_kind_def mandate_expiry_ok_def pool_group_key_def demo_group_simps MAX_AMOUNT_def)
qed

text \<open>Bob's mandate for both of his components.\<close>

definition solo_consent :: mandate_request where
  "solo_consent = \<lparr>nq_route_id = ''r1'', nq_policy_sha256 = solo_policy, nq_maximum_windows = 1, nq_expires_at = solo_until,
     nq_idempotency_key = ''consent-1'', nq_reason = ''one minute on my machines'', nq_coverage_kind = None,
     nq_consent = ESSENTIAL\<rparr>"

definition solo_mandate :: provider_mandate where
  "solo_mandate = \<lparr>pm_id = ''m1'', pm_pool_id = ''p1'', pm_provider_id = ''b2'', pm_route_id = ''r1'', pm_route_sha256 = ''rh'',
     pm_policy_sha256 = solo_policy, pm_maximum_windows = 1, pm_windows_used = 0, pm_terms_sha256 = solo_sha [],
     pm_expires_at = 5000000, pm_state = Z_ACTIVE, pm_revoked_at = None, pm_idempotency_key = ''consent-1'',
     pm_request_sha256 = solo_sha [], pm_coverage_kind = ESSENTIAL\<rparr>"

definition solo_ready :: fund_db where
  "solo_ready = add_renewal_event ''p1'' ''provider_authorized'' (Some ''b2'') None (Some ''m1'')
     [(''terms_sha256'', JStr (solo_sha []))] (solo_authorized\<lparr>mandates := [solo_mandate]\<rparr>)"

lemma solo_consent_ok: "mandate_request_ok solo_consent"
  by code_simp

lemma solo_consent_simps:
  "nq_route_id solo_consent = ''r1''" "nq_policy_sha256 solo_consent = solo_policy" "nq_idempotency_key solo_consent = ''consent-1''"
  "at_ms (nq_expires_at solo_consent) = 5000000" "nq_coverage_kind solo_consent = None" "nq_consent solo_consent = ESSENTIAL"
  by (simp_all add: solo_consent_def solo_until_def)

lemma solo_authorized_simps:
  "base solo_authorized = solo_base" "mandates solo_authorized = []" "authorities solo_authorized = [solo_authority]"
  "runs solo_authorized = []" "usages solo_authorized = []"
  by (simp_all add: solo_authorized_def add_renewal_event_def solo_db_simps)

lemma solo_route: "mandate_route ''p1'' ''r1'' ''b2'' solo_base = Some (demo_candidate, demo_group)"
  by code_simp

lemma solo_shares: "splitByBps 6000 (map rm_share_bps (members_of ''r1'' solo_base)) = Inr [3600, 2400]"
  by code_simp

lemma solo_mandates:
  "mandate_renewals solo_sha ''m1'' 90000 90000 bob ''p1'' solo_consent solo_authorized = Inr (solo_mandate, solo_ready)"
proof -
  have route: "cr_route_id demo_candidate = ''r1''" "cr_route_sha256 demo_candidate = ''rh''"
    by (simp_all add: demo_candidate_def)
  have new: "new_mandate solo_sha ''m1'' bob solo_pool demo_candidate demo_group solo_consent [3600, 2400] (solo_sha []) solo_base = solo_mandate"
    by (simp add: new_mandate_def solo_mandate_def solo_simps route alice_simps solo_consent_simps solo_consent_def
        solo_until_def request_kind_def solo_sha_def)
  have exp: "expire_mandates P 90000 solo_authorized = solo_authorized" for P
    by (simp add: expire_mandates_def solo_authorized_simps)
  have store: "store_mandate bob solo_mandate solo_authorized = Inr (solo_mandate, solo_ready)"
    by (simp add: store_mandate_def insert_mandate_def mandate_check_def solo_mandate_def solo_authorized_simps
        insert_row_def solo_ready_def alice_simps)
  show ?thesis
    unfolding mandate_renewals_def Let_def solo_sha_const [of "canonical (mandate_json ''p1'' solo_consent)"]
    by (simp add: solo_consent_ok poolLock_def solo_authorized_simps solo_tables solo_simps alice_simps exp new store
        solo_consent_simps request_kind_def mandate_expiry_ok_def demo_group_simps solo_route solo_shares route)
qed

section \<open>The attempt\<close>

definition solo_attempt :: attempt_input where
  "solo_attempt = \<lparr>at_date_now = 90000, at_tx_now = 90000, at_clock_ts = 90000, at_lease_id = ''w1'', at_journal_id = ''j2'',
     at_incident_id = ''x1'', at_key = ''k1'', at_flow = \<lparr>fl_net_recycled_microtu = 0, fl_normal_cost_microtu = 0\<rparr>\<rparr>"

definition solo_renewed :: "(string \<times> fund_db) result" where
  "solo_renewed = attempt_renewal solo_sha solo_attempt ''au1'' solo_ready"

definition solo_snap :: pool_snapshot where
  "solo_snap = cooperativeSnapshot 90000 90000 solo_base solo_pool"

lemma solo_snap_facts:
  "map gs_group (sn_groups solo_snap) = [demo_group]" "sn_working solo_snap = 0" "sn_reserve solo_snap = 9000"
  by code_simp+

lemma solo_candidates:
  "window_candidates 90000 ''p1'' ''core'' None solo_base = [demo_candidate]"
  "window_candidates 90000 ''p1'' ''core'' (Some [''r1'']) solo_base = [demo_candidate]"
  by code_simp+

lemma solo_ready_simps:
  "base solo_ready = solo_base" "authorities solo_ready = [solo_authority]" "mandates solo_ready = [solo_mandate]"
  "runs solo_ready = []" "usages solo_ready = []"
  by (simp_all add: solo_ready_def add_renewal_event_def solo_authorized_simps)

lemma solo_authority_simps:
  "au_id solo_authority = ''au1''" "au_pool_id solo_authority = ''p1''" "au_group_key solo_authority = ''core''"
  "au_authorized_by solo_authority = ''a1''" "au_policy_sha256 solo_authority = solo_policy" "au_maximum_windows solo_authority = 2"
  "au_windows_used solo_authority = 0" "au_expires_at solo_authority = 5000000" "au_state solo_authority = Z_ACTIVE"
  "au_coverage_kind solo_authority = ESSENTIAL" "working_limit solo_authority = 0" "reserve_limit solo_authority = 12000"
  by (simp_all add: solo_authority_def working_limit_def reserve_limit_def)

lemma solo_attempt_simps:
  "at_date_now solo_attempt = 90000" "at_tx_now solo_attempt = 90000" "at_clock_ts solo_attempt = 90000"
  "at_lease_id solo_attempt = ''w1''" "at_journal_id solo_attempt = ''j2''" "at_incident_id solo_attempt = ''x1''" "at_key solo_attempt = ''k1''"
  by (simp_all add: solo_attempt_def)

lemma solo_route_mandates: "route_mandates solo_authority solo_pool 160000 demo_candidate solo_ready = [solo_mandate]"
  and solo_mandated: "mandated_route solo_authority solo_pool 160000 [demo_candidate] solo_ready = Some demo_candidate"
proof -
  have c: "cr_route_id demo_candidate = ''r1''" "cr_route_sha256 demo_candidate = ''rh''" by (simp_all add: demo_candidate_def)
  have p: "route_providers ''r1'' solo_base = [''b2'']" by code_simp
  show m: "route_mandates solo_authority solo_pool 160000 demo_candidate solo_ready = [solo_mandate]"
    by (simp add: route_mandates_def solo_ready_simps usable_mandate_def c p solo_simps solo_authority_simps solo_mandate_def)
  show "mandated_route solo_authority solo_pool 160000 [demo_candidate] solo_ready = Some demo_candidate"
    by (simp add: mandated_route_def m c p solo_ready_simps)
qed

lemma solo_attempts:
  "solo_renewed = renew_window solo_sha solo_attempt solo_pool solo_authority demo_group From_RESERVE demo_candidate [solo_mandate] None solo_ready"
proof -
  have src: "renewal_source solo_snap solo_authority 6000 = Some From_RESERVE"
    by (simp add: renewal_source_def solo_snap_facts solo_authority_simps)
  have w: "attempt_window solo_sha solo_attempt solo_pool solo_authority demo_group solo_ready =
      renew_window solo_sha solo_attempt solo_pool solo_authority demo_group From_RESERVE demo_candidate [solo_mandate] None solo_ready"
    unfolding attempt_window_def Let_def
    by (simp add: expansion_of_def solo_authority_simps solo_attempt_simps solo_ready_simps solo_snap_def [symmetric]
        demo_group_simps src solo_simps solo_candidates solo_mandated solo_route_mandates expansion_evidence_def)
  show ?thesis
    unfolding solo_renewed_def attempt_renewal_def
    by (simp add: solo_ready_simps solo_authority_simps poolLock_def solo_tables solo_simps solo_attempt_simps user_disabled_def
        alice_simps pool_group_key_def demo_group_simps group_occupied_def w)
qed

definition solo_order :: window_request where
  "solo_order = \<lparr>wq_group_key = ''core'', wq_source = From_RESERVE, wq_reason = renewal_reason solo_authority, wq_idempotency_key = ''k1''\<rparr>"

definition solo_options :: window_options where
  "solo_options = \<lparr>wo_eligible = Some [''r1''], wo_renewal = Some (renewal_json solo_authority [solo_mandate]), wo_expansion = None\<rparr>"

definition solo_incident :: cooperative_incident where
  "solo_incident = \<lparr>ci_id = ''x1'', ci_pool_id = ''p1'', ci_group_key = ''core'', ci_route_id = ''r1'',
     ci_policy_sha256 = solo_policy, ci_budget_microtu = 6000, ci_deadline = 10000000, ci_reason = renewal_reason solo_authority,
     ci_evidence = JObj [(''working_microtu'', amt 0), (''state'', JStr (pool_state_text (sn_state solo_snap))),
       (''trigger'', JStr ''ESSENTIAL_WORKING_SHORTFALL''), (''request_sha256'', JStr (solo_sha []))],
     ci_created_at = 90000\<rparr>"

definition solo_bought :: "(route_lease \<times> db) result" where
  "solo_bought = buy_window solo_sha ''w1'' ''j2'' 90000 alice solo_pool demo_group ''r1'' solo_order
     (window_context solo_pool solo_order solo_options (solo_sha []) (Some ''x1''))
     (solo_base\<lparr>incidents := [solo_incident]\<rparr>)"

lemma solo_offers:
  "offer_window solo_sha (''w1'', ''j2'', ''x1'') 90000 90000 alice ''p1'' solo_order solo_options solo_base = solo_bought"
proof -
  have o: "wq_group_key solo_order = ''core''" "wq_source solo_order = From_RESERVE" "wo_eligible solo_options = Some [''r1'']"
    "wo_expansion solo_options = None" "wq_reason solo_order = renewal_reason solo_authority" "cr_route_id demo_candidate = ''r1''"
    by (simp_all add: solo_order_def solo_options_def demo_candidate_def)
  have inc: "open_incident ''x1'' 90000 solo_pool solo_snap solo_order (solo_sha []) demo_candidate 6000 solo_base =
      Inr (Some ''x1'', solo_base\<lparr>incidents := [solo_incident]\<rparr>)"
    by (simp add: open_incident_def o solo_snap_facts insert_incident_def insert_row_def solo_tables solo_incident_def solo_simps)
  show ?thesis
    unfolding offer_window_def locked_def solo_bought_def Let_def
      solo_sha_const [of "canonical (window_json ''p1'' solo_order solo_options)"]
    by (simp add: solo_tables solo_simps alice_simps solo_snap_def [symmetric] solo_snap_facts o group_occupied_def demo_group_simps
        solo_candidates inc)
qed

text \<open>What follows the purchase: the acceptance, the run, the usage and the note.\<close>

definition solo_note :: "(string \<times> json) list" where
  "solo_note = [(''lease_id'', JStr ''w1''), (''source'', JStr ''RESERVE''), (''committed_microtu'', amt 6000),
     (''sequence'', JNum 1), (''coverage_kind'', JStr ''ESSENTIAL'')]"

definition solo_outcome :: "fund_db \<Rightarrow> bool" where
  "solo_outcome s \<longleftrightarrow> map rw_sequence (runs s) = [1] \<and> map mu_provider_id (usages s) = [''b2''] \<and>
     map au_windows_used (authorities s) = [1] \<and> map pm_state (mandates s) = [Z_EXHAUSTED] \<and>
     map pm_windows_used (mandates s) = [1] \<and> map au_reserve_committed_microtu (authorities s) = [6000]"

lemma solo_steps:
  "returns solo_bought (\<lambda>(l, b). rl_id l = ''w1'' \<and>
     returns (each (accept_mandate solo_attempt l) [solo_mandate] (solo_ready\<lparr>base := b\<rparr>)) (\<lambda>s2.
     returns (insert_run 90000 \<lparr>rw_lease_id = ''w1'', rw_authorization_id = ''au1'', rw_sequence = 1,
       rw_source = From_RESERVE, rw_committed_microtu = 6000\<rparr> s2) (\<lambda>s3.
     returns (each (use_mandate solo_attempt l) [solo_mandate] s3) (\<lambda>s4.
     returns (note_renewal 90000 solo_authority ''RENEWED'' solo_note s4) (\<lambda>(st, s5). st = ''RENEWED'' \<and>
       usage_complete ''w1'' s5 \<and> expansion_complete ''w1'' s5 \<and> solo_outcome s5)))))"
  unfolding solo_bought_def buy_window_def offer_route_lease_def solo_sha_def by code_simp

lemma solo_renews: "returns solo_renewed (\<lambda>(st, s). st = ''RENEWED'' \<and> solo_outcome s)"
proof -
  obtain l b s2 s3 s4 s5 where b: "solo_bought = Inr (l, b)" "rl_id l = ''w1''"
    and 2: "each (accept_mandate solo_attempt l) [solo_mandate] (solo_ready\<lparr>base := b\<rparr>) = Inr s2"
    and 3: "insert_run 90000 \<lparr>rw_lease_id = ''w1'', rw_authorization_id = ''au1'', rw_sequence = 1,
       rw_source = From_RESERVE, rw_committed_microtu = 6000\<rparr> s2 = Inr s3"
    and 4: "each (use_mandate solo_attempt l) [solo_mandate] s3 = Inr s4"
    and 5: "note_renewal 90000 solo_authority ''RENEWED'' solo_note s4 = Inr (''RENEWED'', s5)"
    and 6: "usage_complete ''w1'' s5" "expansion_complete ''w1'' s5" "solo_outcome s5"
    using solo_steps by (auto simp: returns_iff simp del: each.simps)
  have o: "on_base (offer_window solo_sha (''w1'', ''j2'', ''x1'') 90000 90000 alice ''p1'' solo_order solo_options) solo_ready =
      Inr (l, solo_ready\<lparr>base := b\<rparr>)"
    by (simp add: on_base_def solo_ready_simps solo_offers b)
  have order: "\<lparr>wq_group_key = ''core'', wq_source = From_RESERVE, wq_reason = renewal_reason solo_authority,
      wq_idempotency_key = ''k1''\<rparr> = solo_order" by (simp add: solo_order_def)
  have opts: "\<lparr>wo_eligible = Some [cr_route_id demo_candidate], wo_renewal = Some (renewal_json solo_authority [solo_mandate]),
      wo_expansion = None\<rparr> = solo_options" by (simp add: solo_options_def demo_candidate_def)
  have run: "solo_renewed = Inr (''RENEWED'', s5)"
    unfolding solo_attempts renew_window_def
    by (simp add: solo_ready_simps solo_tables solo_simps alice_simps solo_attempt_simps demo_group_simps order opts o
        solo_authority_simps b 2 3 4 5 [unfolded solo_note_def] 6 use_demand_def del: each.simps)
  show ?thesis unfolding run by (simp add: 6)
qed

end
