(* ===== verification/Expansion_Life.thy ===== *)
theory Expansion_Life
  imports Renewals_Demo
begin

text \<open>
  Which queued sessions justify an expansion: only funded ones that were not used before, of declared
  consumers independent of everybody who earns from the group, and one per party
  (\<open>expansion_demand_is_independent\<close>).
\<close>

lemma first_per_party_sub:
  "set (first_per_party seen xs) \<subseteq> set xs"
  "x \<in> set (first_per_party seen xs) \<Longrightarrow> af_party_id (qd_affiliation x) \<notin> set seen"
  by (induction seen xs rule: first_per_party.induct) (auto split: if_splits)

lemma first_per_party_distinct: "distinct (map (\<lambda>x. af_party_id (qd_affiliation x)) (first_per_party seen xs))"
proof (induction seen xs rule: first_per_party.induct)
  case (2 seen x xs)
  have "af_party_id (qd_affiliation x) \<notin> (\<lambda>x. af_party_id (qd_affiliation x)) `
      set (first_per_party (af_party_id (qd_affiliation x) # seen) xs)"
    using first_per_party_sub(2) [of _ "af_party_id (qd_affiliation x) # seen" xs] by force
  with 2 show ?case by simp
qed simp

lemma eligible_demand_pressing:
  assumes "x \<in> set (eligible_demand tx_now clock_ts p g s)"
  shows "qd_session x \<in> set (sessions (base s)) \<and> qd_affiliation x \<in> set (affiliations s) \<and>
    pressing tx_now clock_ts p g s (qd_session x) (qd_affiliation x)"
  using assms first_per_party_sub(1) unfolding eligible_demand_def by (fastforce dest: in_set_takeD)

text \<open>
  The table of affiliations at the time \<open>t\<close>: at most one unrevoked affiliation per user (the index
  \<open>one_unrevoked_affiliation\<close>), and no revocation in the future. Every operation on the table keeps it.
\<close>

definition affiliations_ok :: "ms \<Rightarrow> fund_db \<Rightarrow> bool" where
  "affiliations_ok t s \<longleftrightarrow>
     (\<forall>a \<in> set (affiliations s). \<forall>b \<in> set (affiliations s).
        af_user_id a = af_user_id b \<and> af_revoked_at a = None \<and> af_revoked_at b = None \<longrightarrow> a = b) \<and>
     (\<forall>a \<in> set (affiliations s). \<forall>r. af_revoked_at a = Some r \<longrightarrow> r \<le> t)"

lemma affiliations_ok_later: "affiliations_ok t s \<Longrightarrow> t \<le> u \<Longrightarrow> affiliations_ok u s"
  unfolding affiliations_ok_def by (meson order_trans)

text \<open>Revoking some of the affiliations at the time \<open>u\<close>.\<close>

lemma affiliations_ok_revoke:
  assumes ok: "affiliations_ok t s" and "t \<le> u"
    and s': "affiliations s' = map (\<lambda>a. if P a then a\<lparr>af_revoked_at := Some u\<rparr> else a) (affiliations s)"
  shows "affiliations_ok u s'"
proof -
  let ?f = "\<lambda>a. if P a then a\<lparr>af_revoked_at := Some u\<rparr> else a"
  have "?f a = ?f b" if "a \<in> set (affiliations s)" "b \<in> set (affiliations s)" "af_user_id (?f a) = af_user_id (?f b)"
    "af_revoked_at (?f a) = None" "af_revoked_at (?f b) = None" for a b
  proof -
    have "\<not> P a" "\<not> P b" using that(4,5) by (auto split: if_splits)
    then show ?thesis using ok that by (auto simp: affiliations_ok_def)
  qed
  moreover have "r \<le> u" if "a \<in> set (affiliations s)" "af_revoked_at (?f a) = Some r" for a r
  proof (cases "P a")
    case False
    then have "r \<le> t" using ok that by (auto simp: affiliations_ok_def)
    then show ?thesis using assms(2) by simp
  qed (use that in simp)
  ultimately show ?thesis unfolding affiliations_ok_def s' set_map by blast
qed

lemma affiliate_keeps:
  assumes ok: "affiliations_ok t s" and later: "t \<le> clock_ts"
    and ret: "affiliate sha i date_now tx_now clock_ts user u party expires e s = Inr (row, s')"
  shows "affiliations_ok clock_ts s'"
proof -
  let ?s1 = "expire_affiliations tx_now clock_ts u s"
  have ok1: "affiliations_ok clock_ts ?s1"
    by (rule affiliations_ok_revoke [OF ok later, of _ "\<lambda>a. af_user_id a = u \<and> af_revoked_at a = None \<and> af_expires_at a \<le> tx_now"])
      (simp add: expire_affiliations_def)
  consider "s' = s" | "affiliations s' = affiliations ?s1 @ [row]" "af_revoked_at row = None"
      "\<forall>q \<in> set (affiliations ?s1). \<not> (af_user_id q = af_user_id row \<and> af_revoked_at q = None)"
    using ret unfolding affiliate_def
    by (auto simp: res_Inr Let_def insert_affiliation_def split: option.splits if_splits)
  then show ?thesis
  proof cases
    case 1
    then show ?thesis using affiliations_ok_later [OF ok later] by simp
  next
    case 2
    then show ?thesis using ok1 by (auto simp: affiliations_ok_def)
  qed
qed

lemma revoke_affiliation_keeps:
  assumes ok: "affiliations_ok t s" and later: "t \<le> clock_ts" and ret: "revoke_affiliation clock_ts user i s = Inr (row, s')"
  shows "affiliations_ok clock_ts s'"
proof -
  consider "s' = s" | "affiliations s' = update_row af_id i (\<lambda>a. a\<lparr>af_revoked_at := Some clock_ts\<rparr>) (affiliations s)"
    using ret unfolding revoke_affiliation_def by (auto simp: res_Inr split: if_splits)
  then show ?thesis
  proof cases
    case 1
    then show ?thesis using affiliations_ok_later [OF ok later] by simp
  next
    case 2
    then show ?thesis
      by (intro affiliations_ok_revoke [OF ok later, of _ "\<lambda>a. af_id a = i"]) (simp add: update_row_def)
  qed
qed

text \<open>The affiliation that an entry of the demand counts is the consumer's own declared one.\<close>

lemma pressing_party:
  assumes p: "pressing tx_now clock_ts p g s r a" and a: "a \<in> set (affiliations s)" and ok: "affiliations_ok clock_ts s"
  shows "\<forall>actor \<in> set (plan_actors (cp_id p) (cg_group_key g) (base s)).
      (\<exists>pa \<in> set (affiliations s). af_user_id pa = actor \<and> declared_at clock_ts pa) \<and>
      (\<forall>pa \<in> set (affiliations s). af_user_id pa = actor \<and> declared_at clock_ts pa \<longrightarrow> af_party_id pa \<noteq> af_party_id a)"
proof -
  have "independentAt clock_ts (s_user_id r) (cp_id p) (cg_group_key g) s" using p by (simp add: pressing_def)
  then obtain ca where ca: "ca \<in> set (affiliations s)" "af_user_id ca = s_user_id r" "declared_at clock_ts ca"
    and sep: "\<forall>actor \<in> set (plan_actors (cp_id p) (cg_group_key g) (base s)).
      (\<exists>pa \<in> set (affiliations s). af_user_id pa = actor \<and> declared_at clock_ts pa) \<and>
      (\<forall>pa \<in> set (affiliations s). af_user_id pa = actor \<and> declared_at clock_ts pa \<longrightarrow> af_party_id pa \<noteq> af_party_id ca)"
    unfolding independentAt_def by blast
  have "af_revoked_at ca = None"
  proof (cases "af_revoked_at ca")
    case (Some t)
    then have "t \<le> clock_ts" "t > clock_ts" using ok ca by (auto simp: affiliations_ok_def declared_at_def)
    then show ?thesis by simp
  qed simp
  moreover have "af_user_id a = s_user_id r" "af_revoked_at a = None" using p by (simp_all add: pressing_def)
  ultimately have "ca = a" using ok ca a by (simp add: affiliations_ok_def)
  then show ?thesis using sep by simp
qed

lemma distinct_map_finer:
  assumes d: "distinct (map g xs)"
    and finer: "\<And>x y. x \<in> set xs \<Longrightarrow> y \<in> set xs \<Longrightarrow> f x = f y \<Longrightarrow> g x = g y"
  shows "distinct (map f xs)"
proof -
  have inj: "inj_on g (set xs)" and xs: "distinct xs" using d by (simp_all add: distinct_map)
  have "inj_on f (set xs)" by (rule inj_onI) (metis inj finer inj_onD)
  then show ?thesis using xs by (simp add: distinct_map)
qed

text \<open>
  C35: the demand that an expansion may answer is real and independent. Each entry that
  \<open>expansionFacts\<close> counts pairs a session with the affiliation of that session's own consumer, which is in the table, unrevoked
  and not expired. The session is queued for this plan and this group's model with a hold that the journal shows, by a
  consumer who is not disabled, and answered by no expansion yet. Every provider of
  the group's routes and the creator of the plan has a declared party at this moment, and none of theirs is the party of the entry's
  affiliation. No party and no consumer is counted twice. The table of affiliations is assumed to satisfy its unique index and
  to hold no revocation dated in the future, which every operation on it keeps (\<open>affiliate_keeps\<close>, \<open>revoke_affiliation_keeps\<close>).
\<close>

theorem expansion_demand_is_independent:
  fixes tx_now clock_ts :: ms and p :: cooperative_pool and g :: cooperative_group and snap :: pool_snapshot
    and flow :: flow_row and support :: "uuid option" and s :: fund_db
  assumes ok: "affiliations_ok clock_ts s"
  defines "demand \<equiv> ef_demand (expansionFacts tx_now clock_ts p g snap flow support s)"
  shows "distinct (map (\<lambda>x. af_party_id (qd_affiliation x)) demand) \<and>
    distinct (map (\<lambda>x. s_user_id (qd_session x)) demand) \<and>
    (\<forall>x \<in> set demand.
      qd_session x \<in> set (sessions (base s)) \<and> s_state (qd_session x) = S_QUEUED \<and> s_billing_state (qd_session x) = B_HELD \<and>
      s_cooperative_pool_id (qd_session x) = Some (cp_id p) \<and> s_model_id (qd_session x) = cg_model_id g \<and>
      s_hold_microtu (qd_session x) > 0 \<and> funded_hold (qd_session x) (base s) \<and>
      (\<exists>u. lookup u_id (s_user_id (qd_session x)) (users (base s)) = Some u \<and> \<not> u_disabled u) \<and>
      s_id (qd_session x) \<notin> ed_session_id ` set (demands s) \<and>
      qd_affiliation x \<in> set (affiliations s) \<and> af_user_id (qd_affiliation x) = s_user_id (qd_session x) \<and>
      af_revoked_at (qd_affiliation x) = None \<and> af_expires_at (qd_affiliation x) > tx_now \<and>
      (\<forall>actor \<in> set (plan_actors (cp_id p) (cg_group_key g) (base s)).
         (\<exists>pa \<in> set (affiliations s). af_user_id pa = actor \<and> declared_at clock_ts pa) \<and>
         (\<forall>pa \<in> set (affiliations s). af_user_id pa = actor \<and> declared_at clock_ts pa \<longrightarrow>
            af_party_id pa \<noteq> af_party_id (qd_affiliation x))))"
proof -
  have d: "demand = eligible_demand tx_now clock_ts p g s"
    by (simp add: demand_def expansionFacts_def Let_def)
  have press: "qd_session x \<in> set (sessions (base s))" "qd_affiliation x \<in> set (affiliations s)"
    "pressing tx_now clock_ts p g s (qd_session x) (qd_affiliation x)" if "x \<in> set demand" for x
    using eligible_demand_pressing that unfolding d by blast+
  have own: "af_user_id (qd_affiliation x) = s_user_id (qd_session x)" "af_revoked_at (qd_affiliation x) = None"
    if "x \<in> set demand" for x using press(3) [OF that] by (simp_all add: pressing_def)
  have parties: "distinct (map (\<lambda>x. af_party_id (qd_affiliation x)) demand)"
    unfolding d eligible_demand_def take_map [symmetric] by (intro distinct_take first_per_party_distinct)
  then have "distinct (map (\<lambda>x. s_user_id (qd_session x)) demand)"
  proof (rule distinct_map_finer)
    fix x y
    assume x: "x \<in> set demand" and y: "y \<in> set demand" and u: "s_user_id (qd_session x) = s_user_id (qd_session y)"
    then have "qd_affiliation x = qd_affiliation y"
      using ok press(2) [OF x] press(2) [OF y] own [OF x] own [OF y] by (simp add: affiliations_ok_def)
    then show "af_party_id (qd_affiliation x) = af_party_id (qd_affiliation y)" by simp
  qed
  moreover have facts: "s_state r = S_QUEUED \<and> s_billing_state r = B_HELD \<and> s_cooperative_pool_id r = Some (cp_id p) \<and>
      s_model_id r = cg_model_id g \<and> s_hold_microtu r > 0 \<and> funded_hold r (base s) \<and>
      (\<exists>u. lookup u_id (s_user_id r) (users (base s)) = Some u \<and> \<not> u_disabled u) \<and>
      s_id r \<notin> ed_session_id ` set (demands s) \<and> af_expires_at a > tx_now"
    if "pressing tx_now clock_ts p g s r a" for r a
    using that by (auto simp: pressing_def split: option.splits)
  moreover have "qd_session x \<in> set (sessions (base s)) \<and> s_state (qd_session x) = S_QUEUED \<and> s_billing_state (qd_session x) = B_HELD \<and>
      s_cooperative_pool_id (qd_session x) = Some (cp_id p) \<and> s_model_id (qd_session x) = cg_model_id g \<and>
      s_hold_microtu (qd_session x) > 0 \<and> funded_hold (qd_session x) (base s) \<and>
      (\<exists>u. lookup u_id (s_user_id (qd_session x)) (users (base s)) = Some u \<and> \<not> u_disabled u) \<and>
      s_id (qd_session x) \<notin> ed_session_id ` set (demands s) \<and>
      qd_affiliation x \<in> set (affiliations s) \<and> af_user_id (qd_affiliation x) = s_user_id (qd_session x) \<and>
      af_revoked_at (qd_affiliation x) = None \<and> af_expires_at (qd_affiliation x) > tx_now \<and>
      (\<forall>actor \<in> set (plan_actors (cp_id p) (cg_group_key g) (base s)).
         (\<exists>pa \<in> set (affiliations s). af_user_id pa = actor \<and> declared_at clock_ts pa) \<and>
         (\<forall>pa \<in> set (affiliations s). af_user_id pa = actor \<and> declared_at clock_ts pa \<longrightarrow>
            af_party_id pa \<noteq> af_party_id (qd_affiliation x)))"
    if x: "x \<in> set demand" for x
    using press(1,2) [OF x] own [OF x] facts [OF press(3) [OF x]] pressing_party [OF press(3) [OF x] press(2) [OF x] ok]
    by (elim conjE) (intro conjI; assumption)
  ultimately show ?thesis using parties by blast
qed

text \<open>Carol, of another laboratory than Alice and Bob, waits with a funded hold.\<close>

definition waiting_session :: session where
  "waiting_session = \<lparr>s_id = ''s1'', s_user_id = ''c3'', s_quote_id = ''q1'', s_model_id = ''lab-model'',
     s_manifest_sha256 = ''mh'', s_idempotency_key = ''sk'', s_request_sha256 = ''sh'', s_request_bytes = 10,
     s_state = S_QUEUED, s_billing_state = B_HELD, s_hold_microtu = 700, s_charged_microtu = 0, s_node_id = None,
     s_resource_domain_id = None, s_attempt_id = None, s_node_epoch = None, s_prepare_id = None,
     s_queue_deadline = 200000, s_execution_deadline = None, s_error_code = None, s_prompt_tokens = None,
     s_completion_tokens = None, s_elapsed_ms = None, s_created_at = 70000, s_started_at = None, s_finished_at = None,
     s_route_id = None, s_route_sha256 = None, s_cooperative_pool_id = Some ''p1'',
     s_cooperative_policy_sha256 = Some solo_policy, s_coverage_lease_id = None, s_coverage_terms_sha256 = None\<rparr>"

definition declared_member :: "uuid \<Rightarrow> uuid \<Rightarrow> uuid \<Rightarrow> affiliation" where
  "declared_member i u party = \<lparr>af_id = i, af_user_id = u, af_party_id = party, af_evidence_sha256 = [],
     af_source_reference = [], af_created_by = ''r0'', af_expires_at = 900000, af_revoked_at = None, af_created_at = 1000,
     af_idempotency_key = i, af_request_sha256 = []\<rparr>"

definition waiting_db :: fund_db where
  "waiting_db = solo_db\<lparr>base := solo_base\<lparr>users := [alice, bob, carol], sessions := [waiting_session],
       ledger := \<lparr>accounts = Map.empty, journal = [\<lparr>j_id = ''j1'', j_business_key = ''hold:s1'', j_kind = ''SESSION_HOLD'',
         j_metadata = JNull, j_lines = [(availableAccount ''c3'', - 700), (heldAccount ''c3'', 700)]\<rparr>]\<rparr>\<rparr>,
     affiliations := [declared_member ''f1'' ''a1'' ''P'', declared_member ''f2'' ''b2'' ''P'', declared_member ''f3'' ''c3'' ''Q'']\<rparr>"

lemma waiting_eligible:
  "map (\<lambda>x. s_id (qd_session x)) (eligible_demand 90000 90000 solo_pool demo_group waiting_db) = [''s1'']"
  by code_simp

lemma waiting_affiliations: "affiliations_ok 90000 waiting_db"
  by (simp add: affiliations_ok_def waiting_db_def declared_member_def)

theorem expansion_demand_is_independent_witness:
  "\<exists>(x :: queued_demand). x \<in> set (eligible_demand 90000 90000 solo_pool demo_group waiting_db) \<and> s_id (qd_session x) = ''s1'' \<and>
     funded_hold (qd_session x) (base waiting_db) \<and> qd_affiliation x \<in> set (affiliations waiting_db) \<and>
     af_user_id (qd_affiliation x) = s_user_id (qd_session x)"
proof -
  define f where "f = expansionFacts 90000 90000 solo_pool demo_group solo_snap
     \<lparr>fl_net_recycled_microtu = 0, fl_normal_cost_microtu = 0\<rparr> None waiting_db"
  have d: "ef_demand f = eligible_demand 90000 90000 solo_pool demo_group waiting_db"
    by (simp add: f_def expansionFacts_def Let_def)
  then obtain x where x: "x \<in> set (ef_demand f)" "s_id (qd_session x) = ''s1''"
    using waiting_eligible by (metis (no_types, lifting) Cons_eq_map_D list.set_intros(1))
  have all: "\<forall>x \<in> set (ef_demand f). funded_hold (qd_session x) (base waiting_db) \<and>
      qd_affiliation x \<in> set (affiliations waiting_db) \<and> af_user_id (qd_affiliation x) = s_user_id (qd_session x)"
    using expansion_demand_is_independent [OF waiting_affiliations, of 90000 solo_pool demo_group solo_snap
      "\<lparr>fl_net_recycled_microtu = 0, fl_normal_cost_microtu = 0\<rparr>" None] unfolding f_def [symmetric] by blast
  from bspec [OF all x(1)] x show ?thesis unfolding d [symmetric] by blast
qed

end
