(* ===== verification/Funds_Life.thy ===== *)
theory Funds_Life
  imports Funds_Demo
begin

text \<open>
  What the funds guarantee: a plan counts every route and every physical domain in one group only and
  stays within the accounting limit, whatever is created, funded, managed, offered and reconciled
  (\<open>plans_stay_disjoint\<close>); and one window takes exactly its price from the account it may take it
  from (\<open>window_protects_reserve\<close>).
\<close>

section \<open>Freezing\<close>

definition route_domains :: "uuid \<Rightarrow> db \<Rightarrow> uuid set" where
  "route_domains i s = rm_resource_domain_id ` set (members_of i s)"

lemma ready_route_offer_Some:
  assumes "ready_route_offer tx_now i s = Some (r, off)"
  shows "lookup er_id i (routes s) = Some r" and "off \<in> set (ready_execution_offers tx_now s)"
    and "of_route off = Some i" and "set (of_domains off) = route_domains i s"
proof -
  show "lookup er_id i (routes s) = Some r" and off: "off \<in> set (ready_execution_offers tx_now s)" "of_route off = Some i"
    using assms by (auto simp: ready_route_offer_def split: option.splits dest: find_SomeD)
  from off show "set (of_domains off) = route_domains i s"
    by (auto simp: ready_execution_offers_def node_offer_def route_offer_def route_domains_def
        split: option.splits if_splits)
qed

lemma claim_domain_Inr: "claim_domain k d m = Inr m' \<longleftrightarrow> (m d = None \<or> m d = Some k) \<and> m' = m(d \<mapsto> k)"
  by (auto simp: claim_domain_def res_Inr)

lemma claim_domains:
  assumes "each (claim_domain k) ds m = Inr m'"
  shows "m \<subseteq>\<^sub>m m' \<and> (\<forall>d \<in> set ds. m' d = Some k)"
  using assms
proof (induction ds arbitrary: m)
  case Nil
  then show ?case by simp
next
  case (Cons d ds)
  then have d: "m d = None \<or> m d = Some k" and rest: "each (claim_domain k) ds (m(d \<mapsto> k)) = Inr m'"
    by (auto simp: claim_domain_Inr and_then_Inr)
  have A: "m(d \<mapsto> k) \<subseteq>\<^sub>m m'" and B: "\<forall>d \<in> set ds. m' d = Some k" using Cons.IH [OF rest] by blast+
  have "m \<subseteq>\<^sub>m m(d \<mapsto> k)" using d by (auto simp: map_le_def)
  then have "m \<subseteq>\<^sub>m m'" using A by (rule map_le_trans)
  moreover have "m' d = Some k" using A unfolding map_le_def by (metis domI fun_upd_same)
  ultimately show ?case using B by simp
qed

text \<open>Route \<open>i\<close> was frozen into group \<open>k\<close>, which serves \<open>model\<close>.\<close>

definition frozen_in :: "ms \<Rightarrow> db \<Rightarrow> (uuid \<Rightarrow> string option) \<Rightarrow> string \<Rightarrow> string \<Rightarrow> uuid \<times> string \<Rightarrow> bool" where
  "frozen_in tx_now s m k model = (\<lambda>(i, h).
     (\<exists>r off. ready_route_offer tx_now i s = Some (r, off) \<and> er_model_id r = model \<and> er_route_sha256 r = h) \<and>
     (\<forall>d \<in> route_domains i s. m d = Some k))"

lemma frozen_in_mono: "frozen_in tx_now s m k model x \<Longrightarrow> m \<subseteq>\<^sub>m m' \<Longrightarrow> frozen_in tx_now s m' k model x"
  by (cases x) (force simp: frozen_in_def map_le_def)

definition scan_ok :: "ms \<Rightarrow> db \<Rightarrow> string \<Rightarrow> plan_scan \<Rightarrow> bool" where
  "scan_ok tx_now s k st \<longleftrightarrow> (ps_options st \<noteq> [] \<longrightarrow> ps_model st \<noteq> None) \<and>
     (\<forall>x \<in> set (ps_options st). frozen_in tx_now s (ps_domain_group st) k (the (ps_model st)) x)"

lemma freeze_route_Inr:
  assumes "freeze_route tx_now s k i st = Inr st'" and "scan_ok tx_now s k st"
  shows "ps_domain_group st \<subseteq>\<^sub>m ps_domain_group st'" and "scan_ok tx_now s k st'" and "i \<notin> set (ps_route_ids st)"
    and "ps_route_ids st' = ps_route_ids st @ [i]" and "\<exists>h. ps_options st' = ps_options st @ [(i, h)]"
proof -
  obtain r off m where i: "i \<notin> set (ps_route_ids st)" and r: "ready_route_offer tx_now i s = Some (r, off)"
    and model: "ps_model st = None \<or> ps_model st = Some (er_model_id r)"
    and m: "each (claim_domain k) (of_domains off) (ps_domain_group st) = Inr m"
    and st': "st' = \<lparr>ps_domain_group = m, ps_route_ids = ps_route_ids st @ [i], ps_model = Some (er_model_id r),
          ps_options = ps_options st @ [(i, er_route_sha256 r)]\<rparr>"
    using assms(1) by (auto simp: freeze_route_def res_Inr)
  note C = claim_domains [OF m]
  show "ps_domain_group st \<subseteq>\<^sub>m ps_domain_group st'" "i \<notin> set (ps_route_ids st)"
    "ps_route_ids st' = ps_route_ids st @ [i]" "\<exists>h. ps_options st' = ps_options st @ [(i, h)]"
    using C i by (simp_all add: st')
  have "frozen_in tx_now s m k (er_model_id r) (i, er_route_sha256 r)"
    using C r ready_route_offer_Some(4) [OF r] by (simp add: frozen_in_def)
  moreover have "frozen_in tx_now s m k (er_model_id r) x" if "x \<in> set (ps_options st)" for x
    using assms(2) that model C frozen_in_mono unfolding scan_ok_def by (metis length_pos_if_in_set less_numeral_extra(3) list.size(3) option.sel)
  ultimately show "scan_ok tx_now s k st'" by (auto simp: scan_ok_def st')
qed

lemma freeze_routes_Inr:
  assumes "each (freeze_route tx_now s k) is st = Inr st'" and "scan_ok tx_now s k st"
  shows "ps_domain_group st \<subseteq>\<^sub>m ps_domain_group st'" and "scan_ok tx_now s k st'"
    and "ps_route_ids st' = ps_route_ids st @ is" and "map fst (ps_options st') = map fst (ps_options st) @ is"
    and "distinct is \<and> set (ps_route_ids st) \<inter> set is = {}"
proof -
  have "ps_domain_group st \<subseteq>\<^sub>m ps_domain_group st' \<and> scan_ok tx_now s k st' \<and>
    ps_route_ids st' = ps_route_ids st @ is \<and> map fst (ps_options st') = map fst (ps_options st) @ is \<and>
    distinct is \<and> set (ps_route_ids st) \<inter> set is = {}"
    using assms
  proof (induction "is" arbitrary: st)
    case Nil
    then show ?case by simp
  next
    case (Cons i "is")
    then obtain st1 where 1: "freeze_route tx_now s k i st = Inr st1" and 2: "each (freeze_route tx_now s k) is st1 = Inr st'"
      by (auto simp: res_Inr)
    note F = freeze_route_Inr [OF 1 Cons.prems(2)]
    from Cons.IH [OF 2 F(2)] F show ?case by (auto intro: map_le_trans)
  qed
  then show "ps_domain_group st \<subseteq>\<^sub>m ps_domain_group st'" "scan_ok tx_now s k st'"
    "ps_route_ids st' = ps_route_ids st @ is" "map fst (ps_options st') = map fst (ps_options st) @ is"
    "distinct is \<and> set (ps_route_ids st) \<inter> set is = {}" by blast+
qed

text \<open>What the loop over the groups has frozen.\<close>

definition frozen_ok :: "ms \<Rightarrow> db \<Rightarrow> plan_scan \<Rightarrow> frozen_group list \<Rightarrow> bool" where
  "frozen_ok tx_now s st frozen \<longleftrightarrow>
     ps_route_ids st = concat (map (\<lambda>g. map fst (fg_routes g)) frozen) \<and> distinct (ps_route_ids st) \<and>
     (\<forall>g \<in> set frozen. \<forall>x \<in> set (fg_routes g). frozen_in tx_now s (ps_domain_group st) (fg_key g) (fg_model_id g) x)"

lemma freeze_group_Inr:
  assumes "freeze_group tx_now s g (st, frozen) = Inr (st', frozen')" and "frozen_ok tx_now s st frozen"
  shows "frozen_ok tx_now s st' frozen' \<and> map fg_key frozen' = map fg_key frozen @ [gr_key g] \<and>
    map fg_rate_microtu_per_second frozen' = map fg_rate_microtu_per_second frozen @ [gr_rate_microtu_per_second g]"
proof -
  let ?st = "st\<lparr>ps_model := None, ps_options := []\<rparr>"
  let ?new = "\<lambda>st'. \<lparr>fg_key = gr_key g, fg_model_id = the (ps_model st'),
        fg_rate_microtu_per_second = gr_rate_microtu_per_second g,
        fg_duration_seconds = gr_duration_seconds g, fg_routes = ps_options st'\<rparr>"
  have e: "each (freeze_route tx_now s (gr_key g)) (gr_route_ids g) ?st = Inr st'" and f: "frozen' = frozen @ [?new st']"
    using assms(1) by (auto simp: freeze_group_def res_Inr)
  have "scan_ok tx_now s (gr_key g) ?st" by (simp add: scan_ok_def)
  note F = freeze_routes_Inr [OF e this]
  have le: "ps_domain_group st \<subseteq>\<^sub>m ps_domain_group st'" using F(1) by simp
  have old: "frozen_in tx_now s (ps_domain_group st') (fg_key h) (fg_model_id h) x"
    if "h \<in> set frozen" "x \<in> set (fg_routes h)" for h x
    using assms(2) that frozen_in_mono [OF _ le] unfolding frozen_ok_def by blast
  have new: "\<forall>x \<in> set (ps_options st'). frozen_in tx_now s (ps_domain_group st') (gr_key g) (the (ps_model st')) x"
    using F(2) by (simp add: scan_ok_def)
  have ids: "ps_route_ids st' = ps_route_ids st @ gr_route_ids g" "map fst (ps_options st') = gr_route_ids g"
    using F(3,4) by simp_all
  then have "ps_route_ids st' = concat (map (\<lambda>g. map fst (fg_routes g)) frozen')" "distinct (ps_route_ids st')"
    using assms(2) F(5) by (auto simp: frozen_ok_def f)
  with old new show ?thesis by (auto simp: frozen_ok_def f)
qed

lemma freeze_plan:
  assumes "each (freeze_group tx_now s) gs (st, frozen) = Inr (st', frozen')" and "frozen_ok tx_now s st frozen"
  shows "frozen_ok tx_now s st' frozen' \<and> map fg_key frozen' = map fg_key frozen @ map gr_key gs"
  using assms
proof (induction gs arbitrary: st frozen)
  case Nil
  then show ?case by simp
next
  case (Cons g gs)
  then obtain st1 frozen1 where 1: "freeze_group tx_now s g (st, frozen) = Inr (st1, frozen1)"
    and 2: "each (freeze_group tx_now s) gs (st1, frozen1) = Inr (st', frozen')"
    by (auto simp: res_Inr)
  note F = freeze_group_Inr [OF 1 Cons.prems(2)]
  from Cons.IH [OF 2] F show ?case by simp
qed

section \<open>The invariant of the plans\<close>

definition accounts_named :: "cooperative_pool \<Rightarrow> bool" where
  "accounts_named p \<longleftrightarrow> cp_working_account p = coop_account (cp_id p) ''working'' \<and>
     cp_reserve_account p = coop_account (cp_id p) ''reserve'' \<and> cp_burn_account p = coop_account (cp_id p) ''burn''"

definition groups_of :: "uuid \<Rightarrow> db \<Rightarrow> cooperative_group list" where
  "groups_of i s = filter (\<lambda>g. cg_pool_id g = i) (pool_groups s)"

text \<open>A reserve window has its own incident, whose budget is the price of the group's window.\<close>

definition window_accounted :: "db \<Rightarrow> cooperative_window \<Rightarrow> bool" where
  "window_accounted s cw \<longleftrightarrow>
     (case cw_incident_id cw of
        None \<Rightarrow> cw_funding_source cw = From_WORKING
      | Some x \<Rightarrow> cw_funding_source cw = From_RESERVE \<and> cw_coverage_kind cw = ESSENTIAL \<and>
          (\<exists>c \<in> set (incidents s). ci_id c = x \<and>
            (\<exists>g \<in> set (pool_groups s). cg_pool_id g = cw_pool_id cw \<and> cg_group_key g = cw_group_key cw \<and>
               ci_budget_microtu c = group_cost g)))"

lemma window_accounted_mono:
  assumes "window_accounted s cw" and "set (incidents s) \<subseteq> set (incidents s')" and "set (pool_groups s) \<subseteq> set (pool_groups s')"
  shows "window_accounted s' cw"
proof (cases "cw_incident_id cw")
  case (Some x)
  then show ?thesis using assms unfolding window_accounted_def by simp blast
qed (use assms in \<open>simp add: window_accounted_def\<close>)

definition plans_ok :: "db \<Rightarrow> bool" where
  "plans_ok s \<longleftrightarrow>
     keyed cp_id (pools s) \<and> keyed pool_group_key (pool_groups s) \<and> keyed pool_route_key (pool_routes s) \<and>
     (\<forall>p \<in> set (pools s). accounts_named p \<and>
        sum_list (map cg_rate_microtu_per_second (groups_of (cp_id p) s)) * 367200 \<le> MAX_AMOUNT) \<and>
     (\<forall>g \<in> set (pool_groups s). cg_pool_id g \<in> cp_id ` set (pools s)) \<and>
     (\<forall>r \<in> set (pool_routes s). cr_pool_id r \<in> cp_id ` set (pools s)) \<and>
     (\<forall>r \<in> set (pool_routes s). \<forall>q \<in> set (pool_routes s). cr_pool_id r = cr_pool_id q \<and> cr_group_key r \<noteq> cr_group_key q \<longrightarrow>
        route_domains (cr_route_id r) s \<inter> route_domains (cr_route_id q) s = {}) \<and>
     (\<forall>cw \<in> set (windows s). window_accounted s cw)"

text \<open>The steps of other components: the tables of the plans and the members of their routes stay.\<close>

definition beside_funds :: "db \<Rightarrow> db \<Rightarrow> bool" where
  "beside_funds s s' \<longleftrightarrow> pools s' = pools s \<and> pool_groups s' = pool_groups s \<and> pool_routes s' = pool_routes s \<and>
     incidents s' = incidents s \<and> windows s' = windows s \<and>
     (\<forall>r \<in> set (pool_routes s). members_of (cr_route_id r) s' = members_of (cr_route_id r) s)"

lemma plans_ok_cong:
  assumes "plans_ok s" and "beside_funds s s'"
  shows "plans_ok s'"
proof -
  have "route_domains (cr_route_id r) s' = route_domains (cr_route_id r) s" if "r \<in> set (pool_routes s)" for r
    using assms(2) that by (simp add: beside_funds_def route_domains_def)
  moreover have "window_accounted s' cw" if "window_accounted s cw" for cw
    using window_accounted_mono [OF that] assms(2) by (simp add: beside_funds_def)
  ultimately show ?thesis
    using assms unfolding plans_ok_def beside_funds_def groups_of_def by simp
qed

lemma same_members: "route_members s' = route_members s \<Longrightarrow> members_of i s' = members_of i s"
  by (simp add: members_of_def)

lemma beside_fundsI:
  "pools s' = pools s \<Longrightarrow> pool_groups s' = pool_groups s \<Longrightarrow> pool_routes s' = pool_routes s \<Longrightarrow>
   incidents s' = incidents s \<Longrightarrow> windows s' = windows s \<Longrightarrow> route_members s' = route_members s \<Longrightarrow> beside_funds s s'"
  by (simp add: beside_funds_def members_of_def)

section \<open>Creation\<close>

definition group_row :: "uuid \<Rightarrow> frozen_group \<Rightarrow> cooperative_group" where
  "group_row i g = \<lparr>cg_pool_id = i, cg_group_key = fg_key g, cg_model_id = fg_model_id g,
     cg_rate_microtu_per_second = fg_rate_microtu_per_second g, cg_duration_seconds = fg_duration_seconds g\<rparr>"

definition route_rows :: "uuid \<Rightarrow> frozen_group \<Rightarrow> cooperative_route list" where
  "route_rows i g = map (\<lambda>(r, h). \<lparr>cr_pool_id = i, cr_group_key = fg_key g, cr_route_id = r, cr_route_sha256 = h\<rparr>) (fg_routes g)"

lemma insert_pool_group_Inr:
  "insert_pool_group g s = Inr s' \<Longrightarrow>
   s' = s\<lparr>pool_groups := pool_groups s @ [g]\<rparr> \<and> pool_group_key g \<notin> pool_group_key ` set (pool_groups s)"
  by (auto simp: insert_pool_group_def res_Inr split: if_splits)

lemma insert_pool_route_Inr:
  "insert_pool_route r s = Inr s' \<Longrightarrow>
   s' = s\<lparr>pool_routes := pool_routes s @ [r]\<rparr> \<and> pool_route_key r \<notin> pool_route_key ` set (pool_routes s)"
  by (auto simp: insert_pool_route_def res_Inr split: if_splits)

lemma insert_pool_routes_Inr:
  assumes "each (\<lambda>(r, h). insert_pool_route \<lparr>cr_pool_id = i, cr_group_key = k, cr_route_id = r, cr_route_sha256 = h\<rparr>) rs s = Inr s'"
    and "keyed pool_route_key (pool_routes s)"
  shows "s' = s\<lparr>pool_routes := pool_routes s @
      map (\<lambda>(r, h). \<lparr>cr_pool_id = i, cr_group_key = k, cr_route_id = r, cr_route_sha256 = h\<rparr>) rs\<rparr> \<and>
    keyed pool_route_key (pool_routes s')"
  using assms
proof (induction rs arbitrary: s)
  case Nil
  then show ?case by simp
next
  case (Cons x rs)
  obtain r h where x: "x = (r, h)" by (cases x)
  let ?row = "\<lparr>cr_pool_id = i, cr_group_key = k, cr_route_id = r, cr_route_sha256 = h\<rparr>"
  obtain s1 where 1: "insert_pool_route ?row s = Inr s1"
    and 2: "each (\<lambda>(r, h). insert_pool_route \<lparr>cr_pool_id = i, cr_group_key = k, cr_route_id = r, cr_route_sha256 = h\<rparr>) rs s1 = Inr s'"
    using Cons.prems(1) by (auto simp: x and_then_Inr)
  note I = insert_pool_route_Inr [OF 1]
  have "keyed pool_route_key (pool_routes s1)" using I Cons.prems(2) by (simp add: keyed_insert)
  note IH = Cons.IH [OF 2 this]
  have "s' = s\<lparr>pool_routes := pool_routes s @
      map (\<lambda>(r, h). \<lparr>cr_pool_id = i, cr_group_key = k, cr_route_id = r, cr_route_sha256 = h\<rparr>) (x # rs)\<rparr>"
    using conjunct1 [OF IH] I by (simp add: x)
  with conjunct2 [OF IH] show ?case by blast
qed

lemma store_groups_Inr:
  assumes "each (store_group i) frozen s = Inr s'"
    and "keyed pool_group_key (pool_groups s)" and "keyed pool_route_key (pool_routes s)"
  shows "s' = s\<lparr>pool_groups := pool_groups s @ map (group_row i) frozen,
      pool_routes := pool_routes s @ concat (map (route_rows i) frozen)\<rparr> \<and>
    keyed pool_group_key (pool_groups s') \<and> keyed pool_route_key (pool_routes s')"
  using assms
proof (induction frozen arbitrary: s)
  case Nil
  then show ?case by simp
next
  case (Cons g frozen)
  obtain s2 where 0: "store_group i g s = Inr s2" and 3: "each (store_group i) frozen s2 = Inr s'"
    using Cons.prems(1) by (auto simp: and_then_Inr)
  obtain s1 where 1: "insert_pool_group (group_row i g) s = Inr s1"
    and 2: "each (\<lambda>(r, h). insert_pool_route
         \<lparr>cr_pool_id = i, cr_group_key = fg_key g, cr_route_id = r, cr_route_sha256 = h\<rparr>) (fg_routes g) s1 = Inr s2"
    using 0 by (auto simp: store_group_def group_row_def and_then_Inr)
  note I = insert_pool_group_Inr [OF 1]
  have kg: "keyed pool_group_key (pool_groups s1)" and kr: "keyed pool_route_key (pool_routes s1)"
    using I Cons.prems(2,3) by (simp_all add: keyed_insert)
  note R = insert_pool_routes_Inr [OF 2 kr]
  have s2: "s2 = s1\<lparr>pool_routes := pool_routes s1 @ route_rows i g\<rparr>" using R by (simp add: route_rows_def)
  have kg2: "keyed pool_group_key (pool_groups s2)" and kr2: "keyed pool_route_key (pool_routes s2)"
    using kg conjunct2 [OF R] by (simp_all add: s2)
  note IH = Cons.IH [OF 3 kg2 kr2]
  have "s' = s\<lparr>pool_groups := pool_groups s @ map (group_row i) (g # frozen),
      pool_routes := pool_routes s @ concat (map (route_rows i) (g # frozen))\<rparr>"
    using conjunct1 [OF IH] I by (simp add: s2)
  with conjunct2 [OF IH] show ?case by blast
qed

lemma create_pool_Inr:
  assumes ret: "create_pool sha i date_now tx_now user d s = Inr (p, s')"
    and new: "find (\<lambda>p. cp_creator_id p = u_id user \<and> cp_idempotency_key p = pq_idempotency_key d) (pools s) = None"
  obtains st frozen L s1 s2 where "each (freeze_group tx_now s) (pq_groups d) (empty_scan, []) = Inr (st, frozen)"
    "distinct (map gr_key (pq_groups d))" "sum_list (map fg_rate_microtu_per_second frozen) * 367200 \<le> MAX_AMOUNT"
    "p = created_pool sha i user d frozen" "open_accounts p (ledger s) = Inr L"
    "s1 = s\<lparr>ledger := L, pools := pools s @ [p]\<rparr>" "i \<notin> cp_id ` set (pools s)"
    "each (store_group i) frozen s1 = Inr s2"
    "s' = cooperative_event i (Some (u_id user)) ''created''
       [(''policy_sha256'', JStr (cp_policy_sha256 p)), (''support_until'', JStr (at_text (pq_support_until d)))] s2"
proof -
  obtain st frozen where e: "each (freeze_group tx_now s) (pq_groups d) (empty_scan, []) = Inr (st, frozen)"
    and di: "distinct (map gr_key (pq_groups d))" "sum_list (map fg_rate_microtu_per_second frozen) * 367200 \<le> MAX_AMOUNT"
    and st: "store_pool (pq_support_until d) (created_pool sha i user d frozen) frozen s = Inr (p, s')"
    using ret new by (auto simp: create_pool_def zod_Inr need_Inr and_then_Inr)
  have ids: "cp_id (created_pool sha i user d frozen) = i" "cp_creator_id (created_pool sha i user d frozen) = u_id user"
    by (simp_all add: created_pool_def)
  show thesis
    using st that [OF e di] by (auto simp: store_pool_def and_then_Inr ids insert_pool_def insert_row_Inr split: if_splits)
qed

lemma create_pool_replay:
  assumes "create_pool sha i date_now tx_now user d s = Inr (p, s')"
    and "find (\<lambda>p. cp_creator_id p = u_id user \<and> cp_idempotency_key p = pq_idempotency_key d) (pools s) = Some old"
  shows "s' = s"
  using assms by (auto simp: create_pool_def zod_Inr need_Inr)

lemma created_pool_simps [simp]:
  "cp_id (created_pool sha i user d frozen) = i" "accounts_named (created_pool sha i user d frozen)"
  by (simp_all add: created_pool_def accounts_named_def)

lemma route_rows_set:
  "r \<in> set (route_rows i g) \<longleftrightarrow>
     (\<exists>x \<in> set (fg_routes g). r = \<lparr>cr_pool_id = i, cr_group_key = fg_key g, cr_route_id = fst x, cr_route_sha256 = snd x\<rparr>)"
  by (force simp: route_rows_def)

lemma create_pool_ok:
  assumes ok: "plans_ok s" and ret: "create_pool sha i date_now tx_now user d s = Inr (p, s')"
  shows "plans_ok s'"
proof (cases "find (\<lambda>p. cp_creator_id p = u_id user \<and> cp_idempotency_key p = pq_idempotency_key d) (pools s)")
  case (Some old)
  then show ?thesis using create_pool_replay [OF ret] ok by simp
next
  case None
  obtain st frozen L s1 s2 where F: "each (freeze_group tx_now s) (pq_groups d) (empty_scan, []) = Inr (st, frozen)"
    and dk: "distinct (map gr_key (pq_groups d))" and bound: "sum_list (map fg_rate_microtu_per_second frozen) * 367200 \<le> MAX_AMOUNT"
    and p: "p = created_pool sha i user d frozen" and s1: "s1 = s\<lparr>ledger := L, pools := pools s @ [p]\<rparr>"
    and fresh: "i \<notin> cp_id ` set (pools s)" and 2: "each (store_group i) frozen s1 = Inr s2"
    and s': "s' = cooperative_event i (Some (u_id user)) ''created''
       [(''policy_sha256'', JStr (cp_policy_sha256 p)), (''support_until'', JStr (at_text (pq_support_until d)))] s2"
    using create_pool_Inr [OF ret None] by metis
  have K: "keyed cp_id (pools s)" "keyed pool_group_key (pool_groups s1)" "keyed pool_route_key (pool_routes s1)"
    using ok by (simp_all add: plans_ok_def s1)
  note S = store_groups_Inr [OF 2 K(2,3)]
  have T: "pools s' = pools s @ [p]" "pool_groups s' = pool_groups s @ map (group_row i) frozen"
    "pool_routes s' = pool_routes s @ concat (map (route_rows i) frozen)" "windows s' = windows s"
    "incidents s' = incidents s" "route_members s' = route_members s"
    using S by (simp_all add: s' cooperative_event_def s1)
  have keyed: "keyed cp_id (pools s')" "keyed pool_group_key (pool_groups s')" "keyed pool_route_key (pool_routes s')"
    using keyed_insert [OF K(1)] fresh conjunct2 [OF S] by (simp_all add: T(1) p) (simp_all add: s' cooperative_event_def)
  have dom: "route_domains k s' = route_domains k s" for k
    by (simp add: route_domains_def same_members [OF T(6)])
  have oldg: "cg_pool_id g \<noteq> i" if "g \<in> set (pool_groups s)" for g
    using ok that fresh unfolding plans_ok_def by metis
  have oldr: "cr_pool_id r \<noteq> i" if "r \<in> set (pool_routes s)" for r
    using ok that fresh unfolding plans_ok_def by metis
  have "frozen_ok tx_now s empty_scan []" by (simp add: frozen_ok_def empty_scan_def)
  note fr = freeze_plan [OF F this]
  have disj: "route_domains (fst x) s \<inter> route_domains (fst y) s = {}"
    if "g \<in> set frozen" "h \<in> set frozen" "x \<in> set (fg_routes g)" "y \<in> set (fg_routes h)" "fg_key g \<noteq> fg_key h" for g h x y
  proof -
    have "frozen_in tx_now s (ps_domain_group st) (fg_key g) (fg_model_id g) x"
      "frozen_in tx_now s (ps_domain_group st) (fg_key h) (fg_model_id h) y"
      using fr that unfolding frozen_ok_def by blast+
    then have "\<forall>d \<in> route_domains (fst x) s. ps_domain_group st d = Some (fg_key g)"
      "\<forall>d \<in> route_domains (fst y) s. ps_domain_group st d = Some (fg_key h)"
      by (simp_all add: frozen_in_def split: prod.splits)
    then show ?thesis using that(5) by force
  qed
  have pair: "route_domains (cr_route_id r) s' \<inter> route_domains (cr_route_id q) s' = {}"
    if "r \<in> set (pool_routes s')" "q \<in> set (pool_routes s')" "cr_pool_id r = cr_pool_id q" "cr_group_key r \<noteq> cr_group_key q" for r q
  proof (cases "cr_pool_id r = i")
    case True
    then have "r \<in> set (concat (map (route_rows i) frozen))" "q \<in> set (concat (map (route_rows i) frozen))"
      using that(1-3) oldr by (auto simp: T(3))
    then obtain g x h y where "g \<in> set frozen" "x \<in> set (fg_routes g)" "h \<in> set frozen" "y \<in> set (fg_routes h)"
      "cr_group_key r = fg_key g" "cr_route_id r = fst x" "cr_group_key q = fg_key h" "cr_route_id q = fst y"
      by (auto simp: route_rows_set)
    then show ?thesis using disj [of g h x y] that(4) by (simp add: dom)
  next
    case False
    then have "r \<in> set (pool_routes s)" "q \<in> set (pool_routes s)"
      using that(1-3) by (auto simp: T(3) route_rows_set)
    then show ?thesis using ok that(3,4) unfolding plans_ok_def dom by blast
  qed
  have mine: "groups_of i s' = map (group_row i) frozen"
    using oldg by (simp add: groups_of_def T(2) group_row_def filter_empty_conv o_def)
  have rates: "map cg_rate_microtu_per_second (map (group_row i) frozen) = map fg_rate_microtu_per_second frozen"
    by (simp add: group_row_def)
  have other: "groups_of k s' = groups_of k s" if "k \<noteq> i" for k
    using that by (simp add: groups_of_def T(2) group_row_def filter_empty_conv)
  have rows: "accounts_named q \<and> sum_list (map cg_rate_microtu_per_second (groups_of (cp_id q) s')) * 367200 \<le> MAX_AMOUNT"
    if "q \<in> set (pools s')" for q
  proof (cases "q = p")
    case True
    then show ?thesis using bound by (simp only: p created_pool_simps mine rates)
  next
    case False
    then have q: "q \<in> set (pools s)" using that by (simp add: T(1))
    then have "cp_id q \<noteq> i" using fresh by (metis imageI)
    then show ?thesis using ok q by (simp add: other plans_ok_def)
  qed
  have win: "window_accounted s' cw" if "cw \<in> set (windows s')" for cw
  proof (rule window_accounted_mono)
    show "window_accounted s cw" using ok that unfolding plans_ok_def T(4) by blast
  qed (simp_all add: T(2,5))
  have refs: "\<forall>g \<in> set (pool_groups s'). cg_pool_id g \<in> cp_id ` set (pools s')"
    "\<forall>r \<in> set (pool_routes s'). cr_pool_id r \<in> cp_id ` set (pools s')"
    using ok unfolding plans_ok_def by (auto simp: T p group_row_def route_rows_set)
  show ?thesis unfolding plans_ok_def using keyed rows refs pair win by blast
qed

section \<open>A contract leaves the plans alone\<close>

definition same_plans :: "db \<Rightarrow> db \<Rightarrow> bool" where
  "same_plans s s' \<longleftrightarrow> pools s' = pools s \<and> pool_groups s' = pool_groups s \<and> pool_routes s' = pool_routes s \<and>
     incidents s' = incidents s \<and> windows s' = windows s \<and> route_members s' = route_members s \<and>
     nodes s' = nodes s \<and> routes s' = routes s \<and> domain_claims s' = domain_claims s"

lemma same_plans_beside: "same_plans s s' \<Longrightarrow> beside_funds s s'"
  by (auto simp: same_plans_def intro: beside_fundsI)

lemma insert_members_frame:
  assumes "each insert_lease_member ms s = Inr s'"
  shows "same_plans s s' \<and> rt_leases s' = rt_leases s \<and> ledger s' = ledger s"
  using assms
  by (rule each_keeps) (auto simp: same_plans_def insert_lease_member_def insert_row_Inr and_then_Inr split: if_splits)

lemma open_route_Inr:
  assumes "open_route j owner payer row ms s = Inr (row', s')"
  obtains L1 j' md L where "new_account (rl_escrow_account row) owner LEASE_ESCROW (ledger s) = Inr L1"
    "post j (route_fund (rl_id row)) ''ROUTE_AVAILABILITY_RESERVE''
       [(payer, - rl_budget_microtu row), (rl_escrow_account row, rl_budget_microtu row)] md L1 = Inr (j', L)"
    "ledger s' = L" "row' = row" "same_plans s s'" "rt_leases s' = rt_leases s @ [row]" "route_lease_check row"
    "rl_id row \<notin> rl_id ` set (rt_leases s)"
proof -
  let ?md = "[(''lease_id'', JStr (rl_id row)), (''terms_sha256'', JStr (rl_terms_sha256 row)), (''policy'', JStr route_policy)]"
  let ?ev = "[(''terms_sha256'', JStr (rl_terms_sha256 row)), (''budget_microtu'', amt (rl_budget_microtu row)),
    (''policy'', JStr route_policy)]"
  obtain L1 j' L s1 s2 where acc: "new_account (rl_escrow_account row) owner LEASE_ESCROW (ledger s) = Inr L1"
    and fund: "post j (route_fund (rl_id row)) ''ROUTE_AVAILABILITY_RESERVE''
       [(payer, - rl_budget_microtu row), (rl_escrow_account row, rl_budget_microtu row)] ?md L1 = Inr (j', L)"
    and 1: "insert_route_lease row (s\<lparr>ledger := L\<rparr>) = Inr s1" and 2: "each insert_lease_member ms s1 = Inr s2"
    and end_: "row' = row" "s' = route_event (rl_id row) ''offered'' ?ev s2"
    using assms unfolding open_route_def Let_def by (auto simp: and_then_Inr split: if_splits)
  have s1: "s1 = s\<lparr>ledger := L, rt_leases := rt_leases s @ [row]\<rparr>" "route_lease_check row" "rl_id row \<notin> rl_id ` set (rt_leases s)"
    using 1 by (auto simp: insert_route_lease_def insert_row_Inr and_then_Inr split: if_splits)
  note F = insert_members_frame [OF 2]
  have "ledger s' = L" "same_plans s s'" "rt_leases s' = rt_leases s @ [row]"
    using F end_(2) by (auto simp: s1(1) route_event_def same_plans_def)
  then show thesis using that [OF acc fund] end_(1) s1(2,3) by blast
qed

lemma offer_route_lease_Inr:
  assumes ret: "offer_route_lease sha w j tx_now sponsor d (Some (payer, c)) s = Inr (l, s')"
    and new: "find (\<lambda>r. rl_sponsor_id r = sponsor \<and> rl_idempotency_key r = ro_idempotency_key d) (rt_leases s) = None"
  obtains r h g ms where "ready_route tx_now (ro_route_id d) s = Some r"
    "l = offered_route w tx_now sponsor r d (ro_rate_microtu_per_second d * ro_duration_seconds d) (Some (payer, c)) h g"
    "open_route j None payer l ms s = Inr (l, s')"
proof -
  obtain r h g ms where r: "ready_route tx_now (ro_route_id d) s = Some r"
    and o: "open_route j None payer (offered_route w tx_now sponsor r d (ro_rate_microtu_per_second d * ro_duration_seconds d)
      (Some (payer, c)) h g) ms s = Inr (l, s')"
    using ret new unfolding offer_route_lease_def Let_def by (auto simp: need_Inr need_row_Inr and_then_Inr)
  from o have "l = offered_route w tx_now sponsor r d (ro_rate_microtu_per_second d * ro_duration_seconds d)
      (Some (payer, c)) h g" by (rule open_route_Inr)
  with o show thesis by (intro that [OF r]) simp_all
qed

lemma ready_route_id: "ready_route tx_now i s = Some r \<Longrightarrow> er_id r = i"
  by (auto simp: ready_route_def split: option.splits if_splits dest: lookup_SomeD)

section \<open>One window\<close>

text \<open>The facts of a new window: the row \<open>g\<close> of its group, the route \<open>cr\<close> it uses, and the database after it.\<close>

lemma insert_window_Inr:
  assumes "insert_window cw s = Inr s'"
  shows "s' = s\<lparr>windows := windows s @ [cw]\<rparr>" and "window_matches cw s"
    and "(cw_funding_source cw = From_RESERVE) = (cw_incident_id cw \<noteq> None)"
    and "cw_coverage_kind cw = EXPANSION \<Longrightarrow> cw_funding_source cw = From_WORKING"
  using assms by (auto simp: insert_window_def insert_row_Inr and_then_Inr split: if_splits)

lemma open_incident_Inr:
  assumes "open_incident x tx_now p snap d request r budget s = Inr (incident, s')"
  shows "(wq_source d = From_WORKING \<and> incident = None \<and> s' = s) \<or>
    (wq_source d = From_RESERVE \<and> incident = Some x \<and> sn_working snap < budget \<and> budget \<le> sn_reserve snap \<and>
     (\<exists>c. s' = s\<lparr>incidents := incidents s @ [c]\<rparr> \<and> ci_id c = x \<and> ci_pool_id c = cp_id p \<and>
        ci_group_key c = wq_group_key d \<and> ci_route_id c = cr_route_id r \<and> ci_budget_microtu c = budget))"
  using assms by (cases "wq_source d")
    (auto simp: open_incident_def insert_incident_def insert_row_Inr need_Inr and_then_Inr split: if_splits)

lemma candidates_sound:
  assumes "cr \<in> set (window_candidates tx_now i k allowed s)"
  shows "cr \<in> set (pool_routes s)" "cr_pool_id cr = i" "cr_group_key cr = k" "route_free tx_now (cr_route_id cr) s"
  using assms by (auto simp: window_candidates_def)

lemma offer_window_Inr:
  assumes ret: "offer_window sha (w, j, x) date_now tx_now user i d opts s = Inr (l, s')"
    and p: "lookup cp_id i (pools s) = Some p"
    and new: "find (\<lambda>l. rl_sponsor_id l = cp_creator_id p \<and> rl_idempotency_key l = wq_idempotency_key d) (rt_leases s) = None"
  obtains g cr incident s1 where
    "cp_creator_id p = u_id user \<or> u_role user = Admin" "\<not> cp_paused p"
    "cp_support_until p > date_now + (cg_duration_seconds g + 10) * 1000"
    "g \<in> set (pool_groups s)" "cg_pool_id g = i" "cg_group_key g = wq_group_key d"
    "cr \<in> set (window_candidates tx_now i (wq_group_key d) (wo_eligible opts) s)"
    "\<not> group_occupied i (wq_group_key d) (if wo_expansion opts = None then ESSENTIAL else EXPANSION) s"
    "open_incident x tx_now p (cooperativeSnapshot date_now tx_now s p) d (sha (canonical (window_json i d opts))) cr
       (group_cost g) s = Inr (incident, s1)"
    "wo_expansion opts \<noteq> None \<longrightarrow> wq_source d = From_WORKING \<and>
       sn_working (cooperativeSnapshot date_now tx_now s p) \<ge> sn_floor (cooperativeSnapshot date_now tx_now s p) + group_cost g"
    "buy_window sha w j tx_now user p g (cr_route_id cr) d
       (window_context p d opts (sha (canonical (window_json i d opts))) incident) s1 = Inr (l, s')"
proof -
  let ?snap = "cooperativeSnapshot date_now tx_now s p"
  note R = ret [unfolded offer_window_def locked_def Let_def p need_row_simps new option.case need_Inr need_row_Inr and_then_Inr fst_conv snd_conv]
  from R obtain g where find: "find (\<lambda>g. cg_group_key g = wq_group_key d) (map gs_group (sn_groups ?snap)) = Some g"
    by blast
  have "sn_groups ?snap = snapshot_groups tx_now s (cp_id p)" by (simp add: cooperativeSnapshot_def Let_def)
  then have g: "g \<in> set (pool_groups s)" "cg_pool_id g = i" "cg_group_key g = wq_group_key d"
    using find_SomeD [OF find] lookup_SomeD [OF p] by (auto simp: snapshot_groups_def)
  note R1 = R [unfolded find option.inject ex_simps simp_thms g(3)]
  let ?cs = "window_candidates tx_now i (wq_group_key d) (wo_eligible opts) s"
  show thesis
    using R1 g hd_in_set [of ?cs] by (elim conjE exE) (auto intro!: that [of g "hd ?cs"])
qed

lemma buy_window_Inr:
  assumes ret: "buy_window sha w j tx_now user p g route d c s = Inr (l, s')"
    and new: "find (\<lambda>l. rl_sponsor_id l = cp_creator_id p \<and> rl_idempotency_key l = wq_idempotency_key d) (rt_leases s) = None"
  obtains r h h' ms s1 cw ev where "ready_route tx_now route s = Some r"
    "l = offered_route w tx_now (cp_creator_id p) r
       \<lparr>ro_route_id = route, ro_duration_seconds = cg_duration_seconds g,
        ro_rate_microtu_per_second = cg_rate_microtu_per_second g, ro_purpose = SCHEDULED,
        ro_reason = wq_reason d, ro_idempotency_key = wq_idempotency_key d\<rparr> (group_cost g)
       (Some (source_account (wq_source d) p, c)) h h'"
    "open_route j None (source_account (wq_source d) p) l ms s = Inr (l, s1)"
    "cw = \<lparr>cw_lease_id = w, cw_pool_id = cp_id p, cw_group_key = cg_group_key g,
       cw_funding_source = wq_source d, cw_incident_id = ct_incident_id c, cw_coverage_kind = ct_coverage_kind c\<rparr>"
    "insert_window cw s1 = Inr (s1\<lparr>windows := windows s1 @ [cw]\<rparr>)"
    "s' = cooperative_event (cp_id p) (Some (u_id user)) ''window_funded'' ev (s1\<lparr>windows := windows s1 @ [cw]\<rparr>)"
proof -
  let ?q = "\<lparr>ro_route_id = route, ro_duration_seconds = cg_duration_seconds g,
        ro_rate_microtu_per_second = cg_rate_microtu_per_second g, ro_purpose = SCHEDULED,
        ro_reason = wq_reason d, ro_idempotency_key = wq_idempotency_key d\<rparr>"
  let ?cw = "\<lparr>cw_lease_id = rl_id l, cw_pool_id = cp_id p, cw_group_key = cg_group_key g,
       cw_funding_source = wq_source d, cw_incident_id = ct_incident_id c, cw_coverage_kind = ct_coverage_kind c\<rparr>"
  obtain s1 s2 ev where 1: "offer_route_lease sha w j tx_now (cp_creator_id p) ?q (Some (source_account (wq_source d) p, c)) s = Inr (l, s1)"
    and 2: "insert_window ?cw s1 = Inr s2" and s': "s' = cooperative_event (cp_id p) (Some (u_id user)) ''window_funded'' ev s2"
    using ret by (auto simp: buy_window_def and_then_Inr)
  have new': "find (\<lambda>r. rl_sponsor_id r = cp_creator_id p \<and> rl_idempotency_key r = ro_idempotency_key ?q) (rt_leases s) = None"
    using new by simp
  obtain r h h' ms where o: "ready_route tx_now (ro_route_id ?q) s = Some r"
    "l = offered_route w tx_now (cp_creator_id p) r ?q (ro_rate_microtu_per_second ?q * ro_duration_seconds ?q)
      (Some (source_account (wq_source d) p, c)) h h'"
    "open_route j None (source_account (wq_source d) p) l ms s = Inr (l, s1)"
    by (rule offer_route_lease_Inr [OF 1 new'])
  have w: "rl_id l = w" using o(2) by (simp add: offered_route_def)
  have ins: "insert_window (?cw\<lparr>cw_lease_id := w\<rparr>) s1 = Inr s2" using 2 w by simp
  have "s2 = s1\<lparr>windows := windows s1 @ [?cw\<lparr>cw_lease_id := w\<rparr>]\<rparr>" by (rule insert_window_Inr(1) [OF ins])
  with o ins s' show thesis by (intro that [of r h h' ms s1 "?cw\<lparr>cw_lease_id := w\<rparr>" ev]) (simp_all add: group_cost_def)
qed

lemma context_simps [simp]:
  "ct_incident_id (window_context p d opts request incident) = incident"
  "ct_coverage_kind (window_context p d opts request incident) = (if wo_expansion opts = None then ESSENTIAL else EXPANSION)"
  by (simp_all add: window_context_def)

lemma offer_window_ok:
  assumes ok: "plans_ok s" and ret: "offer_window sha ids date_now tx_now user i d opts s = Inr (l, s')"
  shows "plans_ok s'"
proof -
  obtain w j x where ids: "ids = (w, j, x)" by (cases ids)
  obtain p where p: "lookup cp_id i (pools s) = Some p"
    using ret by (auto simp: offer_window_def locked_def need_row_Inr Let_def)
  have i: "cp_id p = i" using lookup_SomeD [OF p] by simp
  show ?thesis
  proof (cases "find (\<lambda>l. rl_sponsor_id l = cp_creator_id p \<and> rl_idempotency_key l = wq_idempotency_key d) (rt_leases s)")
    case (Some prior)
    then show ?thesis using ret ok by (auto simp: offer_window_def locked_def need_row_Inr need_Inr Let_def p)
  next
    case None
    obtain g cr incident s1 where g: "g \<in> set (pool_groups s)" "cg_pool_id g = i" "cg_group_key g = wq_group_key d"
      and inc: "open_incident x tx_now p (cooperativeSnapshot date_now tx_now s p) d (sha (canonical (window_json i d opts))) cr
       (group_cost g) s = Inr (incident, s1)"
      and buy: "buy_window sha w j tx_now user p g (cr_route_id cr) d
       (window_context p d opts (sha (canonical (window_json i d opts))) incident) s1 = Inr (l, s')"
      using ret p None unfolding ids by (rule offer_window_Inr)
    note I = open_incident_Inr [OF inc]
    have new: "find (\<lambda>l. rl_sponsor_id l = cp_creator_id p \<and> rl_idempotency_key l = wq_idempotency_key d) (rt_leases s1) = None"
      using I None by auto
    obtain r h h' ms s2 cw ev where "ready_route tx_now (cr_route_id cr) s1 = Some r"
      and "l = offered_route w tx_now (cp_creator_id p) r
       \<lparr>ro_route_id = cr_route_id cr, ro_duration_seconds = cg_duration_seconds g,
        ro_rate_microtu_per_second = cg_rate_microtu_per_second g, ro_purpose = SCHEDULED,
        ro_reason = wq_reason d, ro_idempotency_key = wq_idempotency_key d\<rparr> (group_cost g)
       (Some (source_account (wq_source d) p, window_context p d opts (sha (canonical (window_json i d opts))) incident)) h h'"
      and o: "open_route j None (source_account (wq_source d) p) l ms s1 = Inr (l, s2)"
      and cw: "cw = \<lparr>cw_lease_id = w, cw_pool_id = cp_id p, cw_group_key = cg_group_key g,
       cw_funding_source = wq_source d, cw_incident_id = incident,
       cw_coverage_kind = (if wo_expansion opts = None then ESSENTIAL else EXPANSION)\<rparr>"
      and ins: "insert_window cw s2 = Inr (s2\<lparr>windows := windows s2 @ [cw]\<rparr>)"
      and s': "s' = cooperative_event (cp_id p) (Some (u_id user)) ''window_funded'' ev (s2\<lparr>windows := windows s2 @ [cw]\<rparr>)"
      by (rule buy_window_Inr [OF buy new, unfolded context_simps])
    have same: "same_plans s1 s2" by (rule open_route_Inr [OF o])
    note W = insert_window_Inr [OF ins]
    have T: "pools s' = pools s" "pool_groups s' = pool_groups s" "pool_routes s' = pool_routes s"
      "windows s' = windows s @ [cw]" "route_members s' = route_members s" "incidents s' = incidents s1"
      using same I by (auto simp: s' cooperative_event_def same_plans_def)
    have inc_sub: "set (incidents s) \<subseteq> set (incidents s1)" using I by auto
    have new_ok: "window_accounted s' cw"
    proof (cases "wq_source d")
      case From_WORKING
      then show ?thesis using I by (simp add: window_accounted_def cw)
    next
      case From_RESERVE
      then obtain c where c: "incident = Some x" "incidents s1 = incidents s @ [c]" "ci_id c = x" "ci_budget_microtu c = group_cost g"
        using I by auto
      have "cw_coverage_kind cw = ESSENTIAL" using W(4) From_RESERVE unfolding cw by (cases "wo_expansion opts") simp_all
      then show ?thesis using From_RESERVE c g i by (auto simp: window_accounted_def cw T(2,6))
    qed
    have dom: "route_domains k s' = route_domains k s" for k
      by (simp add: route_domains_def same_members [OF T(5)])
    have win: "\<forall>v \<in> set (windows s'). window_accounted s' v"
    proof
      fix v assume v: "v \<in> set (windows s')"
      show "window_accounted s' v"
      proof (cases "v = cw")
        case False
        then have "window_accounted s v" using v ok by (simp add: T(4) plans_ok_def)
        then show ?thesis by (rule window_accounted_mono) (use inc_sub in \<open>simp_all add: T(2,6)\<close>)
      qed (simp add: new_ok)
    qed
    show ?thesis
      using ok win unfolding plans_ok_def T(1-3) dom groups_of_def by blast
  qed
qed

lemma fund_pool_ok:
  assumes "plans_ok s" and "fund_pool sha f j date_now user i d s = Inr (row, s')"
  shows "plans_ok s'"
proof (rule plans_ok_cong [OF assms(1)])
  show "beside_funds s s'"
    using assms(2) unfolding fund_pool_def Let_def locked_def contribute_def
    by (intro beside_fundsI) (auto simp: zod_Inr need_Inr need_row_Inr and_then_Inr insert_funding_def insert_row_Inr
        split: option.splits if_splits)
qed

text \<open>An update of one plan's row that keeps its id and accounts.\<close>

lemma pool_update_ok:
  assumes ok: "plans_ok s"
    and f: "\<And>p. cp_id (f p) = cp_id p \<and> cp_working_account (f p) = cp_working_account p \<and>
      cp_reserve_account (f p) = cp_reserve_account p \<and> cp_burn_account (f p) = cp_burn_account p"
    and s': "pools s' = update_row cp_id i f (pools s)" "pool_groups s' = pool_groups s" "pool_routes s' = pool_routes s"
      "incidents s' = incidents s" "windows s' = windows s" "route_members s' = route_members s"
  shows "plans_ok s'"
proof -
  let ?s = "s'\<lparr>pools := pools s\<rparr>"
  have "plans_ok ?s" using ok by (rule plans_ok_cong) (rule beside_fundsI; simp add: s')
  moreover have "keyed cp_id (pools s')" using ok f unfolding s'(1) plans_ok_def by blast
  moreover have "cp_id ` set (pools s') = cp_id ` set (pools s)"
    using update_row_keys [of cp_id f i "pools s"] f unfolding s'(1) by (metis set_map)
  moreover have "accounts_named p \<and> sum_list (map cg_rate_microtu_per_second (groups_of (cp_id p) s')) * 367200 \<le> MAX_AMOUNT"
    if "p \<in> set (pools s')" for p
  proof -
    have "p \<in> set (update_row cp_id i f (pools s))" using that by (simp only: s'(1))
    then obtain q where q: "q \<in> set (pools s)" "p = f q \<or> p = q" unfolding in_update_row by blast
    have "accounts_named q \<and> sum_list (map cg_rate_microtu_per_second (groups_of (cp_id q) ?s)) * 367200 \<le> MAX_AMOUNT"
      using calculation(1) q(1) unfolding plans_ok_def by simp
    then show ?thesis using q(2) f by (auto simp: accounts_named_def groups_of_def)
  qed
  moreover have "window_accounted s' cw" if "window_accounted ?s cw" for cw
    using that by (rule window_accounted_mono) simp_all
  moreover have "route_domains k s' = route_domains k ?s" for k
    by (simp add: route_domains_def members_of_def)
  ultimately show ?thesis unfolding plans_ok_def by simp
qed

lemma manage_pool_ok:
  assumes "plans_ok s" and "manage_pool date_now user i d s = Inr (row, s')"
  shows "plans_ok s'"
  using assms(1)
  by (rule pool_update_ok [where f = "managed_row d" and i = i])
    (use assms(2) in \<open>auto simp: manage_pool_def locked_def zod_Inr need_Inr need_row_Inr managed_row_def cooperative_event_def\<close>)

lemma reconcile_pool_ok:
  assumes ok: "plans_ok s" and ret: "reconcile_pool date_now tx_now clock_ts i s = Inr (u, s')"
  shows "plans_ok s'"
proof -
  obtain p where p: "lookup cp_id i (pools s) = Some p"
    using ret by (auto simp: reconcile_pool_def locked_def need_row_Inr)
  define snap where "snap = cooperativeSnapshot date_now tx_now s p"
  define f where "f = (\<lambda>q :: cooperative_pool. q\<lparr>cp_state := sn_state snap, cp_healthy_since := sn_healthy_since snap, cp_sample_at := Some clock_ts\<rparr>)"
  have T: "pools s' = update_row cp_id i f (pools s)" "pool_groups s' = pool_groups s" "pool_routes s' = pool_routes s"
    "incidents s' = incidents s" "windows s' = windows s" "route_members s' = route_members s"
    using ret unfolding reconcile_pool_def locked_def p need_row_simps Let_def snap_def [symmetric] f_def [symmetric]
    by (auto simp: cooperative_event_def)
  show ?thesis by (rule pool_update_ok [OF ok _ T]) (simp add: f_def)
qed

section \<open>Reachable plans\<close>

inductive fund_step :: "(string \<Rightarrow> string) \<Rightarrow> db \<Rightarrow> db \<Rightarrow> bool" for sha where
  created: "create_pool sha i date_now tx_now user d s = Inr (p, s') \<Longrightarrow> fund_step sha s s'"
| funded: "fund_pool sha f j date_now user i q s = Inr (row, s') \<Longrightarrow> fund_step sha s s'"
| managed: "manage_pool date_now user i m s = Inr (p, s') \<Longrightarrow> fund_step sha s s'"
| offered: "offer_window sha ids date_now tx_now user i w opts s = Inr (l, s') \<Longrightarrow> fund_step sha s s'"
| reconciled: "reconcile_pool date_now tx_now clock_ts i s = Inr (u, s') \<Longrightarrow> fund_step sha s s'"
| other: "beside_funds s s' \<Longrightarrow> fund_step sha s s'"

inductive_cases fund_stepE: "fund_step sha s s'"

lemmas fund_handlers_ok = create_pool_ok fund_pool_ok manage_pool_ok offer_window_ok reconcile_pool_ok plans_ok_cong

lemma fund_step_ok: "fund_step sha s s' \<Longrightarrow> plans_ok s \<Longrightarrow> plans_ok s'"
  by (elim fund_stepE) (blast intro: fund_handlers_ok)+

definition no_plans :: "db \<Rightarrow> bool" where
  "no_plans s \<longleftrightarrow> pools s = [] \<and> pool_groups s = [] \<and> pool_routes s = [] \<and> windows s = []"

text \<open>
  C19: whatever is created, funded, managed, offered and reconciled, no plan counts capacity twice: the
  groups of a plan have different names, a route is in one group of it, routes of different groups
  share no physical domain, and the horizons of a plan fit the accounting limit. A window paid by
  the reserve is an essential one that has an incident of exactly its price, and every other window
  is paid by the working account.
\<close>

theorem plans_stay_disjoint:
  assumes "(fund_step sha)\<^sup>*\<^sup>* s0 s" and "no_plans s0"
  shows "(\<forall>p \<in> set (pools s). distinct (map cg_group_key (groups_of (cp_id p) s)) \<and>
      sum_list (map cg_rate_microtu_per_second (groups_of (cp_id p) s)) * 367200 \<le> MAX_AMOUNT) \<and>
    (\<forall>r \<in> set (pool_routes s). \<forall>q \<in> set (pool_routes s). cr_pool_id r = cr_pool_id q \<and> r \<noteq> q \<longrightarrow>
      cr_route_id r \<noteq> cr_route_id q \<and>
      (cr_group_key r \<noteq> cr_group_key q \<longrightarrow> route_domains (cr_route_id r) s \<inter> route_domains (cr_route_id q) s = {})) \<and>
    (\<forall>cw \<in> set (windows s). window_accounted s cw)"
proof -
  have "plans_ok s0" using assms(2) by (simp add: no_plans_def plans_ok_def keyed_def)
  then have ok: "plans_ok s" by (rule rtranclp_keeps [OF assms(1) _ fund_step_ok])
  have "distinct (map cg_group_key (groups_of i s))" for i
  proof -
    have "distinct (map pool_group_key (groups_of i s))"
      using ok unfolding plans_ok_def keyed_def groups_of_def by (simp add: distinct_map_filter)
    then have "inj_on pool_group_key (set (groups_of i s))" "distinct (groups_of i s)" by (simp_all add: distinct_map)
    moreover have "cg_pool_id g = i" if "g \<in> set (groups_of i s)" for g using that by (simp add: groups_of_def)
    ultimately show ?thesis by (auto simp: distinct_map inj_on_def pool_group_key_def)
  qed
  moreover have "cr_route_id r \<noteq> cr_route_id q"
    if "r \<in> set (pool_routes s)" "q \<in> set (pool_routes s)" "cr_pool_id r = cr_pool_id q" "r \<noteq> q" for r q
    using that ok keyed_unique [of pool_route_key "pool_routes s" r q] by (auto simp: plans_ok_def pool_route_key_def)
  ultimately show ?thesis using ok unfolding plans_ok_def by blast
qed

section \<open>One window, to the unit\<close>

lemma buy_window_moves:
  assumes buy: "buy_window sha w j tx_now user p g route d c s = Inr (l, s')"
    and new: "find (\<lambda>l. rl_sponsor_id l = cp_creator_id p \<and> rl_idempotency_key l = wq_idempotency_key d) (rt_leases s) = None"
    and fresh: "route_fund w \<notin> posted (ledger s)"
  shows "rl_route_id l = route" and "rl_budget_microtu l = group_cost g" and "rl_duration_seconds l = cg_duration_seconds g"
    and "bal (ledger s') a = bal (ledger s) a + (if a = route_escrow w then group_cost g else 0) -
       (if a = source_account (wq_source d) p then group_cost g else 0)" and "rl_id l = w"
proof -
  obtain r h h' ms s2 cw ev where r: "ready_route tx_now route s = Some r"
    and l: "l = offered_route w tx_now (cp_creator_id p) r
       \<lparr>ro_route_id = route, ro_duration_seconds = cg_duration_seconds g,
        ro_rate_microtu_per_second = cg_rate_microtu_per_second g, ro_purpose = SCHEDULED,
        ro_reason = wq_reason d, ro_idempotency_key = wq_idempotency_key d\<rparr> (group_cost g)
       (Some (source_account (wq_source d) p, c)) h h'"
    and o: "open_route j None (source_account (wq_source d) p) l ms s = Inr (l, s2)"
    and "cw = \<lparr>cw_lease_id = w, cw_pool_id = cp_id p, cw_group_key = cg_group_key g,
       cw_funding_source = wq_source d, cw_incident_id = ct_incident_id c, cw_coverage_kind = ct_coverage_kind c\<rparr>"
    and "insert_window cw s2 = Inr (s2\<lparr>windows := windows s2 @ [cw]\<rparr>)"
    and s': "s' = cooperative_event (cp_id p) (Some (u_id user)) ''window_funded'' ev (s2\<lparr>windows := windows s2 @ [cw]\<rparr>)"
    by (rule buy_window_Inr [OF buy new])
  have lf: "rl_id l = w" "rl_route_id l = route" "rl_budget_microtu l = group_cost g"
    "rl_duration_seconds l = cg_duration_seconds g" "rl_escrow_account l = route_escrow w"
    using ready_route_id [OF r] by (simp_all add: l offered_route_def)
  then show "rl_route_id l = route" "rl_budget_microtu l = group_cost g" "rl_duration_seconds l = cg_duration_seconds g"
    "rl_id l = w" by simp_all
  obtain La j' md L where acc: "new_account (rl_escrow_account l) None LEASE_ESCROW (ledger s) = Inr La"
    and post: "post j (route_fund (rl_id l)) ''ROUTE_AVAILABILITY_RESERVE''
       [(source_account (wq_source d) p, - rl_budget_microtu l), (rl_escrow_account l, rl_budget_microtu l)] md La = Inr (j', L)"
    and L: "ledger s2 = L" by (rule open_route_Inr [OF o])
  have La: "La = insert_account (route_escrow w) None LEASE_ESCROW (ledger s)" using acc by (simp add: lf new_account_Inr)
  have "route_fund w \<notin> posted La" using fresh by (simp add: La)
  from led.moves [OF this post [unfolded lf]]
  show "bal (ledger s') a = bal (ledger s) a + (if a = route_escrow w then group_cost g else 0) -
       (if a = source_account (wq_source d) p then group_cost g else 0)"
    by (simp add: s' cooperative_event_def L La)
qed

lemma offer_window_moves:
  assumes ret: "offer_window sha (w, j, x) date_now tx_now user i d opts s = Inr (l, s')"
    and p: "lookup cp_id i (pools s) = Some p"
    and new: "find (\<lambda>l. rl_sponsor_id l = cp_creator_id p \<and> rl_idempotency_key l = wq_idempotency_key d) (rt_leases s) = None"
    and fresh: "route_fund w \<notin> posted (ledger s)"
  shows "\<exists>g \<in> set (pool_groups s). pool_group_key g = (i, wq_group_key d) \<and> rl_id l = w \<and>
    (\<forall>a. bal (ledger s') a = bal (ledger s) a + (if a = route_escrow w then group_cost g else 0) -
       (if a = source_account (wq_source d) p then group_cost g else 0))"
proof -
  obtain g cr incident s1 where g: "g \<in> set (pool_groups s)" "cg_pool_id g = i" "cg_group_key g = wq_group_key d"
    and inc: "open_incident x tx_now p (cooperativeSnapshot date_now tx_now s p) d (sha (canonical (window_json i d opts))) cr
       (group_cost g) s = Inr (incident, s1)"
    and buy: "buy_window sha w j tx_now user p g (cr_route_id cr) d
       (window_context p d opts (sha (canonical (window_json i d opts))) incident) s1 = Inr (l, s')"
    using ret p new by (rule offer_window_Inr)
  note I = open_incident_Inr [OF inc]
  have L1: "ledger s1 = ledger s" using I by auto
  have new1: "find (\<lambda>l. rl_sponsor_id l = cp_creator_id p \<and> rl_idempotency_key l = wq_idempotency_key d) (rt_leases s1) = None"
    using I new by auto
  note lf = buy_window_moves [OF buy new1 fresh [folded L1]]
  show ?thesis using g lf(4,5) by (intro bexI [of _ g]) (simp_all add: L1 pool_group_key_def)
qed

text \<open>
  C14: a new window takes exactly its price, once, from the account it may take it from. It is bought
  by the responsible user or an administrator, for a group of the plan whose support covers it and
  that has no funded window of the kind, on a ready route of the group whose physical domains nobody
  else has claimed; its contract has the group's rate and duration, its escrow receives the price,
  the source account pays it and no other account moves. The reserve pays only an essential window
  that the working account cannot pay; an expansion leaves the working account at its floor or above.
\<close>

theorem window_protects_reserve:
  assumes ret: "offer_window sha (w, j, x) date_now tx_now user i d opts s = Inr (l, s')"
    and p: "lookup cp_id i (pools s) = Some p" and named: "accounts_named p"
    and new: "find (\<lambda>l. rl_sponsor_id l = cp_creator_id p \<and> rl_idempotency_key l = wq_idempotency_key d) (rt_leases s) = None"
    and fresh: "route_fund w \<notin> posted (ledger s)"
  shows "\<exists>g \<in> set (pool_groups s). cg_pool_id g = i \<and> cg_group_key g = wq_group_key d \<and>
    (cp_creator_id p = u_id user \<or> u_role user = Admin) \<and>
    \<not> cp_paused p \<and> cp_support_until p > date_now + (cg_duration_seconds g + 10) * 1000 \<and>
    \<not> group_occupied i (wq_group_key d) (if wo_expansion opts = None then ESSENTIAL else EXPANSION) s \<and>
    (\<exists>cr \<in> set (pool_routes s). cr_pool_id cr = i \<and> cr_group_key cr = wq_group_key d \<and>
       cr_route_id cr = rl_route_id l \<and> route_free tx_now (rl_route_id l) s) \<and>
    rl_budget_microtu l = group_cost g \<and> rl_duration_seconds l = cg_duration_seconds g \<and>
    (\<forall>a. bal (ledger s') a = bal (ledger s) a + (if a = route_escrow w then group_cost g else 0) -
       (if a = source_account (wq_source d) p then group_cost g else 0)) \<and>
    (wq_source d = From_RESERVE \<longrightarrow> wo_expansion opts = None \<and> bal (ledger s) (cp_working_account p) < group_cost g \<and>
       group_cost g \<le> bal (ledger s) (cp_reserve_account p)) \<and>
    (wo_expansion opts \<noteq> None \<longrightarrow>
       bal (ledger s') (cp_working_account p) \<ge> sn_floor (cooperativeSnapshot date_now tx_now s p))"
proof -
  let ?snap = "cooperativeSnapshot date_now tx_now s p"
  have i: "cp_id p = i" using lookup_SomeD [OF p] by simp
  obtain g cr incident s1 where g: "cp_creator_id p = u_id user \<or> u_role user = Admin" "\<not> cp_paused p"
    "cp_support_until p > date_now + (cg_duration_seconds g + 10) * 1000"
    "g \<in> set (pool_groups s)" "cg_pool_id g = i" "cg_group_key g = wq_group_key d"
    and cr: "cr \<in> set (window_candidates tx_now i (wq_group_key d) (wo_eligible opts) s)"
    and free: "\<not> group_occupied i (wq_group_key d) (if wo_expansion opts = None then ESSENTIAL else EXPANSION) s"
    and inc: "open_incident x tx_now p ?snap d (sha (canonical (window_json i d opts))) cr (group_cost g) s = Inr (incident, s1)"
    and exp: "wo_expansion opts \<noteq> None \<longrightarrow> wq_source d = From_WORKING \<and> sn_working ?snap \<ge> sn_floor ?snap + group_cost g"
    and buy: "buy_window sha w j tx_now user p g (cr_route_id cr) d
       (window_context p d opts (sha (canonical (window_json i d opts))) incident) s1 = Inr (l, s')"
    using ret p new by (rule offer_window_Inr)
  note I = open_incident_Inr [OF inc]
  have L1: "ledger s1 = ledger s" using I by auto
  have new1: "find (\<lambda>l. rl_sponsor_id l = cp_creator_id p \<and> rl_idempotency_key l = wq_idempotency_key d) (rt_leases s1) = None"
    using I new by auto
  note lf = buy_window_moves [OF buy new1 fresh [folded L1]]
  have moves: "bal (ledger s') a = bal (ledger s) a + (if a = route_escrow w then group_cost g else 0) -
       (if a = source_account (wq_source d) p then group_cost g else 0)" for a
    using lf(4) by (simp add: L1)
  have sn: "sn_working ?snap = bal (ledger s) (cp_working_account p)" "sn_reserve ?snap = bal (ledger s) (cp_reserve_account p)"
    by (simp_all add: cooperativeSnapshot_def Let_def)
  have reserve: "wo_expansion opts = None \<and> bal (ledger s) (cp_working_account p) < group_cost g \<and>
       group_cost g \<le> bal (ledger s) (cp_reserve_account p)" if "wq_source d = From_RESERVE"
    using that I exp sn by auto
  have "cp_working_account p \<noteq> route_escrow w"
    using named by (simp add: accounts_named_def coop_account_def route_escrow_def)
  then have floor: "bal (ledger s') (cp_working_account p) \<ge> sn_floor ?snap" if "wo_expansion opts \<noteq> None"
    using exp that sn by (simp add: moves source_account_def)
  show ?thesis
    using g free candidates_sound [OF cr] lf(1-3) moves reserve floor by (intro bexI [of _ g] conjI bexI [of _ cr]) auto
qed

lemma demo_reserve_facts:
  "accounts_named demo_reserve_pool" "bal (ledger demo_reserve_db) (coop_account ''p1'' ''reserve'') = 9000"
  "cp_reserve_account demo_reserve_pool = coop_account ''p1'' ''reserve''"
  "route_fund ''w1'' \<notin> posted (ledger demo_reserve_db)"
  by (simp_all add: accounts_named_def demo_reserve_pool_def demo_pool_def demo_reserve_db_def bal_def coop_row_def
      coop_account_def posted_def)

theorem plans_stay_disjoint_witness:
  "\<exists>s. (fund_step plan_sha)\<^sup>*\<^sup>* demo_routes_db s \<and> map cp_id (pools s) = [''p1''] \<and>
     (\<forall>p \<in> set (pools s). distinct (map cg_group_key (groups_of (cp_id p) s)))"
proof -
  obtain p s where s: "planned_demo = Inr (p, s)" "map cp_id (pools s) = [''p1'']"
    using demo_plan_runs by (auto simp: returns_iff)
  from fund_step.created [OF s(1) [unfolded planned_demo_def]] have r: "(fund_step plan_sha)\<^sup>*\<^sup>* demo_routes_db s" by (rule r_into_rtranclp)
  have "no_plans demo_routes_db" by (simp add: no_plans_def demo_routes_db_def demo_db_def empty_db_def)
  from conjunct1 [OF plans_stay_disjoint [OF r this]] r s(2) show ?thesis by (intro exI [of _ s]) simp
qed

theorem window_protects_reserve_witness:
  "\<exists>l s'. windowed_demo = Inr (l, s') \<and> bal (ledger s') (coop_account ''p1'' ''reserve'') = 3000"
proof -
  obtain l s' where ret: "windowed_demo = Inr (l, s')" using demo_bought windowed_is_bought by (auto simp: returns_iff)
  note F = demo_reserve_facts
  have new: "find (\<lambda>l. rl_sponsor_id l = cp_creator_id demo_reserve_pool \<and>
      rl_idempotency_key l = wq_idempotency_key demo_window) (rt_leases demo_reserve_db) = None"
    by (simp add: demo_reserve_tables)
  obtain g where g: "g \<in> set (pool_groups demo_reserve_db)" and moves: "\<forall>a. bal (ledger s') a =
      bal (ledger demo_reserve_db) a + (if a = route_escrow ''w1'' then group_cost g else 0) -
      (if a = source_account (wq_source demo_window) demo_reserve_pool then group_cost g else 0)"
    using window_protects_reserve [OF ret [unfolded windowed_demo_def] demo_reserve_tables(1) F(1) new F(4)] by blast
  have "group_cost g = 6000" using g by (simp add: demo_reserve_tables group_cost_def demo_group_def)
  moreover have "coop_account ''p1'' ''reserve'' \<noteq> route_escrow ''w1''" by code_simp
  ultimately have "bal (ledger s') (coop_account ''p1'' ''reserve'') = 3000"
    using moves [rule_format, of "coop_account ''p1'' ''reserve''"] F(2,3)
    by (simp add: source_account_def demo_window_def)
  then show ?thesis using ret by blast
qed

end
