(* ===== verification/Metered.thy ===== *)
theory Metered
  imports Prelude
begin

text \<open>
  Grants that are used up: a table of grants with counters and limits, and the history of their uses.
  The contract of a use is the locale \<open>metered\<close>; its lemmas say that counters and history stay
  equal, that limits are kept and that a closed grant stays as it is. The fund's authorizations and
  the providers' mandates are its two instances.
\<close>

definition spent :: "('u \<Rightarrow> 'k) \<Rightarrow> ('u \<Rightarrow> int) \<Rightarrow> 'k \<Rightarrow> 'u list \<Rightarrow> int" where
  "spent grant w k us = sum_list (map w (filter (\<lambda>u. grant u = k) us))"

lemma spent_append [simp]:
  "spent grant w k (us @ [u]) = spent grant w k us + (if grant u = k then w u else 0)"
  by (simp add: spent_def)

lemma spent_none: "(\<And>u. u \<in> set us \<Longrightarrow> grant u \<noteq> k) \<Longrightarrow> spent grant w k us = 0"
  by (simp add: spent_def filter_False)

text \<open>Every counter of every grant is the sum over its uses and within its limit.\<close>

definition counted ::
  "('r \<Rightarrow> 'k) \<Rightarrow> ('c \<Rightarrow> 'r \<Rightarrow> int) \<Rightarrow> ('c \<Rightarrow> 'r \<Rightarrow> int) \<Rightarrow> ('u \<Rightarrow> 'k) \<Rightarrow> ('c \<Rightarrow> 'u \<Rightarrow> int) \<Rightarrow> 'r list \<Rightarrow> 'u list \<Rightarrow> bool" where
  "counted key used limit grant weight t us \<longleftrightarrow> keyed key t \<and>
     (\<forall>r \<in> set t. \<forall>c. used c r = spent grant (weight c) (key r) us \<and> used c r \<le> limit c r) \<and>
     grant ` set us \<subseteq> key ` set t"

lemma countedD:
  assumes "counted key used limit grant weight t us"
  shows "keyed key t" and "r \<in> set t \<Longrightarrow> used c r = spent grant (weight c) (key r) us"
    and "r \<in> set t \<Longrightarrow> used c r \<le> limit c r" and "u \<in> set us \<Longrightarrow> grant u \<in> key ` set t"
  using assms unfolding counted_def by blast+

text \<open>A closed grant is still there, with its status, its counters and its uses.\<close>

definition kept ::
  "('r \<Rightarrow> 'k) \<Rightarrow> ('c \<Rightarrow> 'r \<Rightarrow> int) \<Rightarrow> ('r \<Rightarrow> 's) \<Rightarrow> ('s \<Rightarrow> bool) \<Rightarrow> ('u \<Rightarrow> 'k) \<Rightarrow> 'r list \<times> 'u list \<Rightarrow> 'r list \<times> 'u list \<Rightarrow> bool"
where
  "kept key used status live grant x y \<longleftrightarrow> (\<forall>r \<in> set (fst x). \<not> live (status r) \<longrightarrow>
     (\<exists>q \<in> set (fst y). key q = key r \<and> status q = status r \<and> (\<forall>c. used c q = used c r)) \<and>
     filter (\<lambda>u. grant u = key r) (snd y) = filter (\<lambda>u. grant u = key r) (snd x))"

lemma keptD:
  assumes "kept key used status live grant (t, us) (t', us')" and "r \<in> set t" and "\<not> live (status r)"
  shows "\<exists>q \<in> set t'. key q = key r \<and> status q = status r \<and> (\<forall>c. used c q = used c r)"
    and "filter (\<lambda>u. grant u = key r) us' = filter (\<lambda>u. grant u = key r) us"
  using assms unfolding kept_def by simp_all

lemma kept_refl [simp]: "kept key used status live grant x x"
  by (auto simp: kept_def)

lemma kept_trans:
  assumes "kept key used status live grant x y" and "kept key used status live grant y z"
  shows "kept key used status live grant x z"
  unfolding kept_def
proof (intro ballI impI)
  fix r assume r: "r \<in> set (fst x)" "\<not> live (status r)"
  then obtain q where q: "q \<in> set (fst y)" "key q = key r" "status q = status r" "\<forall>c. used c q = used c r"
    and 1: "filter (\<lambda>u. grant u = key r) (snd y) = filter (\<lambda>u. grant u = key r) (snd x)"
    using assms(1) unfolding kept_def by blast
  then have "\<not> live (status q)" using r by simp
  with q(1) assms(2) obtain q' where q': "q' \<in> set (fst z)" "key q' = key q" "status q' = status q" "\<forall>c. used c q' = used c q"
    and 2: "filter (\<lambda>u. grant u = key q) (snd z) = filter (\<lambda>u. grant u = key q) (snd y)"
    unfolding kept_def by blast
  show "(\<exists>q \<in> set (fst z). key q = key r \<and> status q = status r \<and> (\<forall>c. used c q = used c r)) \<and>
     filter (\<lambda>u. grant u = key r) (snd z) = filter (\<lambda>u. grant u = key r) (snd x)"
    using q q' 1 2 by (intro conjI bexI [of _ q']) simp_all
qed

locale metered =
  fixes key :: "'r \<Rightarrow> 'k" and used :: "'c \<Rightarrow> 'r \<Rightarrow> int" and limit :: "'c \<Rightarrow> 'r \<Rightarrow> int"
    and status :: "'r \<Rightarrow> 's" and live :: "'s \<Rightarrow> bool"
    and grant :: "'u \<Rightarrow> 'k" and weight :: "'c \<Rightarrow> 'u \<Rightarrow> int" and consume :: "'u \<Rightarrow> 'r \<Rightarrow> 'r"
  assumes consume_key: "key (consume u r) = key r"
    and consume_used: "used c (consume u r) = used c r + weight c u"
    and consume_limit: "limit c (consume u r) = limit c r"
begin

text \<open>One step of the table and its history.\<close>

definition advances :: "'r list \<times> 'u list \<Rightarrow> 'r list \<times> 'u list \<Rightarrow> bool" where
  "advances x y \<longleftrightarrow> (counted key used limit grant weight (fst x) (snd x) \<longrightarrow>
     counted key used limit grant weight (fst y) (snd y) \<and> kept key used status live grant x y)"

lemma advances_refl [simp]: "advances x x"
  by (simp add: advances_def)

lemma advances_keyed: "(keyed key (fst x) \<Longrightarrow> advances x y) \<Longrightarrow> advances x y"
  unfolding advances_def using countedD(1) by blast

lemma advances_trans: "advances x y \<Longrightarrow> advances y z \<Longrightarrow> advances x z"
  unfolding advances_def by (blast intro: kept_trans)

lemma advances_insert:
  assumes "key r \<notin> key ` set t" and "\<And>c. used c r = 0 \<and> 0 \<le> limit c r"
  shows "advances (t, us) (t @ [r], us)"
proof -
  have none: "spent grant (weight c) (key r) us = 0" if "counted key used limit grant weight t us" for c
    by (rule spent_none) (metis countedD(4) [OF that] assms(1))
  have "counted key used limit grant weight (t @ [r]) us" if C: "counted key used limit grant weight t us"
    unfolding counted_def
  proof (intro conjI ballI allI)
    show "keyed key (t @ [r])" by (rule keyed_insert [OF countedD(1) [OF C] assms(1)])
    show "grant ` set us \<subseteq> key ` set (t @ [r])" using C by (auto simp: counted_def)
    fix q d assume "q \<in> set (t @ [r])"
    then have "q \<in> set t \<or> q = r" by auto
    then show "used d q = spent grant (weight d) (key q) us" "used d q \<le> limit d q"
      using countedD(2,3) [OF C, of q d] assms(2) [of d] none [OF C, of d] by (elim disjE; simp)+
  qed
  then show ?thesis by (auto simp: advances_def kept_def)
qed

lemma advances_revise:
  assumes "\<And>r. key (f r) = key r" and "\<And>r c. used c (f r) = used c r" and "\<And>r c. limit c (f r) = limit c r"
    and "\<And>r. r \<in> set t \<Longrightarrow> P r \<Longrightarrow> \<not> live (status r) \<Longrightarrow> status (f r) = status r"
  shows "advances (t, us) (map (\<lambda>r. if P r then f r else r) t, us)"
proof -
  have k: "key (if P r then f r else r) = key r" for r using assms(1) by simp
  have c: "counted key used limit grant weight (map (\<lambda>r. if P r then f r else r) t) us"
    if "counted key used limit grant weight t us"
    unfolding counted_def
  proof (intro conjI ballI allI)
    have img: "map key (map (\<lambda>r. if P r then f r else r) t) = map key t" by (simp add: o_def k)
    show "keyed key (map (\<lambda>r. if P r then f r else r) t)" using that by (simp add: counted_def keyed_def img del: map_map)
    show "grant ` set us \<subseteq> key ` set (map (\<lambda>r. if P r then f r else r) t)"
      using that unfolding counted_def by (metis img list.set_map)
    fix q d assume "q \<in> set (map (\<lambda>r. if P r then f r else r) t)"
    then obtain r where r: "r \<in> set t" "q = (if P r then f r else r)" by auto
    have e: "key q = key r" "used d q = used d r" "limit d q = limit d r" using assms(1-3) by (simp_all add: r(2))
    show "used d q = spent grant (weight d) (key q) us" "used d q \<le> limit d q"
      unfolding e by (rule countedD(2,3) [OF that r(1)])+
  qed
  moreover have "kept key used status live grant (t, us) (map (\<lambda>r. if P r then f r else r) t, us)"
    unfolding kept_def
  proof (intro ballI impI conjI refl)
    fix r assume "r \<in> set (fst (t, us))" "\<not> live (status r)"
    then show "\<exists>q \<in> set (fst (map (\<lambda>r. if P r then f r else r) t, us)).
        key q = key r \<and> status q = status r \<and> (\<forall>c. used c q = used c r)"
      by (intro bexI [of _ "if P r then f r else r"]) (use assms in auto)
  qed simp
  ultimately show ?thesis by (simp add: advances_def)
qed

lemma advances_use:
  assumes r: "lookup key (grant u) t = Some r" and active: "live (status r)"
    and room: "\<And>c. used c (consume u r) \<le> limit c (consume u r)"
  shows "advances (t, us) (update_row key (grant u) (consume u) t, us @ [u])"
  unfolding advances_def
proof (intro impI conjI)
  assume "counted key used limit grant weight (fst (t, us)) (snd (t, us))"
  then have C: "counted key used limit grant weight t us" by simp
  note c = countedD(1) [OF C]
  note R = lookup_SomeD [OF r]
  have only: "q = r" if "q \<in> set t" "key q = grant u" for q using keyed_unique [OF c, of q r] that R by simp
  have img: "key ` set (update_row key (grant u) (consume u) t) = key ` set t"
    by (metis consume_key list.set_map update_row_keys)
  show "counted key used limit grant weight (fst (update_row key (grant u) (consume u) t, us @ [u]))
      (snd (update_row key (grant u) (consume u) t, us @ [u]))"
    unfolding counted_def fst_conv snd_conv
  proof (intro conjI ballI allI)
    show "keyed key (update_row key (grant u) (consume u) t)" using c by (intro keyed_update consume_key)
    have "grant u \<in> key ` set t" using R by (metis imageI)
    then show "grant ` set (us @ [u]) \<subseteq> key ` set (update_row key (grant u) (consume u) t)"
      using C by (simp add: img counted_def)
    fix q d assume "q \<in> set (update_row key (grant u) (consume u) t)"
    then have q: "(q = consume u r) \<or> (q \<in> set t \<and> key q \<noteq> grant u)" using only by (auto simp: in_update_row)
    show "used d q = spent grant (weight d) (key q) (us @ [u])" 
      using q countedD(2) [OF C, of q d] countedD(2) [OF C, of r d] R by (elim disjE) (auto simp: consume_key consume_used)
    show "used d q \<le> limit d q" using q countedD(3) [OF C, of q d] room by (elim disjE) simp_all
  qed
  show "kept key used status live grant (t, us) (update_row key (grant u) (consume u) t, us @ [u])"
    unfolding kept_def
  proof (intro ballI impI)
    fix q assume q: "q \<in> set (fst (t, us))" "\<not> live (status q)"
    then have other: "key q \<noteq> grant u" using only active by auto
    then have "q \<in> set (update_row key (grant u) (consume u) t)" using q by (auto simp: in_update_row)
    then show "(\<exists>p \<in> set (fst (update_row key (grant u) (consume u) t, us @ [u])). key p = key q \<and> status p = status q \<and>
        (\<forall>c. used c p = used c q)) \<and>
      filter (\<lambda>v. grant v = key q) (snd (update_row key (grant u) (consume u) t, us @ [u])) =
        filter (\<lambda>v. grant v = key q) (snd (t, us))"
      using other by auto
  qed
qed

lemma advances_counted:
  "advances x y \<Longrightarrow> counted key used limit grant weight (fst x) (snd x) \<Longrightarrow>
   counted key used limit grant weight (fst y) (snd y)"
  by (simp add: advances_def)

end

end
