(* ===== verification/Node_Life.thy ===== *)
theory Node_Life
  imports Market
begin

text \<open>
  What the identity of a node keeps over any activity: a signed request counts once, a node keeps
  its owner, place, model and key, an epoch names one boot, and a revocation is final.
\<close>

section \<open>Steps\<close>

definition beside_nodes :: "db \<Rightarrow> db \<Rightarrow> bool" where
  "beside_nodes s s' \<longleftrightarrow> nodes s' = nodes s \<and> node_nonces s' = node_nonces s"

text \<open>A step at the process clock \<open>d\<close> and the database clock \<open>t\<close>.\<close>

inductive node_step :: "(string \<Rightarrow> string) \<Rightarrow> verifier \<Rightarrow> ms \<Rightarrow> ms \<Rightarrow> db \<Rightarrow> db \<Rightarrow> bool" for sha ed d t where
  signed: "signed sha ed d t req i s = Inr (row, s') \<Longrightarrow> node_step sha ed d t s s'"
| registered: "register_node sha ed d t data s = Inr (r, s') \<Longrightarrow> node_step sha ed d t s s'"
| resumed: "resume t i boot s = Inr (r, s') \<Longrightarrow> node_step sha ed d t s s'"
| beaten: "beat t i hb s = Inr (r, s') \<Longrightarrow> node_step sha ed d t s s'"
| invited: "invite sha parse_url random i t user data s = Inr (r, s') \<Longrightarrow> node_step sha ed d t s s'"
| asked: "nodeState user i want s = Inr (r, s') \<Longrightarrow> node_step sha ed d t s s'"
| cleaned: "node_step sha ed d t s (clean_up t s)"
| other: "beside_nodes s s' \<Longrightarrow> node_step sha ed d t s s'"

text \<open>A run under a process clock that does not go back and a database clock within \<open>skew\<close> of it.\<close>

inductive node_run :: "(string \<Rightarrow> string) \<Rightarrow> verifier \<Rightarrow> int \<Rightarrow> ms \<times> db \<Rightarrow> ms \<times> db \<Rightarrow> bool" for sha ed skew where
  start: "node_run sha ed skew c c"
| onward: "node_run sha ed skew c (d1, s1) \<Longrightarrow> d1 \<le> d \<Longrightarrow> \<bar>t - d\<bar> \<le> skew \<Longrightarrow>
    node_step sha ed d t s1 s2 \<Longrightarrow> node_run sha ed skew c (d, s2)"

lemma node_run_step:
  assumes "node_step sha ed d t s s'" and "\<bar>t - d\<bar> \<le> skew"
  shows "node_run sha ed skew (d, s) (d, s')"
  using node_run.onward [OF node_run.start order.refl assms(2) assms(1)] .

text \<open>An invariant of the steps, whatever the clocks.\<close>

lemma node_run_keeps:
  assumes "node_run sha ed skew c c'" and "I (snd c)" and "\<And>d t s s'. node_step sha ed d t s s' \<Longrightarrow> I s \<Longrightarrow> I s'"
  shows "I (snd c')"
  using assms by (induction rule: node_run.induct) auto

section \<open>A signed request counts once\<close>

lemma signedD:
  assumes "signed sha ed d t req i s = Inr (row, s')"
  obtains timestamp nonce signature where "rq_timestamp req = Some timestamp" "rq_nonce req = Some nonce"
    "rq_signature req = Some signature" "in_window d timestamp" "(i, nonce) \<notin> nonce_key ` set (node_nonces s)"
    "s' = s\<lparr>node_nonces := node_nonces s @ [\<lparr>nn_node_id = i, nn_nonce = nonce, nn_seen_at = t\<rparr>]\<rparr>"
    "row \<in> set (nodes s)" "n_id row = i" "n_desired_state row \<noteq> Want_REVOKED"
    "\<exists>k. n_public_key row = Some k \<and> verifyNodeSignature ed k (signed_message sha req timestamp nonce) signature"
  using assms by (auto simp: signed_def res_Inr find_Some_iff in_set_conv_nth split: option.splits)

lemma node_nonces_step:
  assumes "node_step sha ed d t s s'"
  shows "(\<exists>v. node_nonces s' = node_nonces s @ v) \<or>
    node_nonces s' = filter (\<lambda>v. \<not> nn_seen_at v < t - 300000) (node_nonces s)"
  using assms
proof (cases rule: node_step.cases)
  case (signed req i row)
  then show ?thesis by (auto elim: signedD)
qed (auto simp: register_node_def resume_def beat_def invite_def nodeState_def clean_up_def beside_nodes_def
    insert_node_def insert_invite_def update_node_def consume_invite_def res_Inr split: option.splits if_splits)

lemma nonce_kept:
  assumes "node_run sha ed skew (d0, s0) (d, s)" and "v \<in> set (node_nonces s0)"
    and "d \<le> e" and "e + skew \<le> nn_seen_at v + 300000"
  shows "v \<in> set (node_nonces s)"
  using assms(1,3)
proof (induction "(d0, s0)" "(d, s)" arbitrary: d s rule: node_run.induct)
  case start
  then show ?case using assms(2) by simp
next
  case (onward d1 s1 d t s2)
  then have "v \<in> set (node_nonces s1)" by simp
  moreover have "\<not> nn_seen_at v < t - 300000" using onward assms(4) by auto
  ultimately show ?case using node_nonces_step [OF onward(5)] by auto
qed

text \<open>
  C12: a request of a node is processed once. When the clocks of the process and of the database
  differ by at most two minutes, a request that was accepted is never accepted again: until its
  timestamp leaves the window its nonce is still stored, though the reaper deletes nonces.
\<close>

theorem signed_request_once:
  assumes first: "signed sha ed d1 t1 req i s0 = Inr (row, s1)" and t1: "\<bar>t1 - d1\<bar> \<le> skew"
    and run: "node_run sha ed skew (d1, s1) (d2, s2)" and later: "d2 \<le> d3"
    and skew: "skew \<le> 120000"
  shows "signed sha ed d3 t3 req i s2 \<noteq> Inr r"
proof
  assume again: "signed sha ed d3 t3 req i s2 = Inr r"
  obtain row' s3 where r: "r = (row', s3)" by (cases r)
  from first obtain timestamp nonce where req: "rq_timestamp req = Some timestamp" "rq_nonce req = Some nonce"
      "in_window d1 timestamp"
      and s1: "s1 = s0\<lparr>node_nonces := node_nonces s0 @ [\<lparr>nn_node_id = i, nn_nonce = nonce, nn_seen_at = t1\<rparr>]\<rparr>"
    by (rule signedD) blast
  from again [unfolded r] have a: "in_window d3 timestamp" "(i, nonce) \<notin> nonce_key ` set (node_nonces s2)"
    using req by (auto elim!: signedD)
  let ?v = "\<lparr>nn_node_id = i, nn_nonce = nonce, nn_seen_at = t1\<rparr>"
  have "d2 \<le> d1 + 60000" using req(3) a(1) later by (auto simp: in_window_def)
  then have "?v \<in> set (node_nonces s2)"
    using nonce_kept [OF run, of ?v "d1 + 60000"] s1 t1 skew by auto
  then have "nonce_key ?v \<in> nonce_key ` set (node_nonces s2)" by (rule imageI)
  with a(2) show False by (simp add: nonce_key_def)
qed

section \<open>What a node keeps\<close>

text \<open>
  A later row \<open>n'\<close> of the node \<open>n\<close>: the same owner, place, model, role and address, the key it
  registered, an epoch that grew unless the boot is the same, and nothing new after a revocation.
\<close>

definition node_follows :: "node \<Rightarrow> node \<Rightarrow> bool" where
  "node_follows n n' \<longleftrightarrow>
     n_id n' = n_id n \<and> n_owner_id n' = n_owner_id n \<and> n_resource_domain_id n' = n_resource_domain_id n \<and>
     n_model_id n' = n_model_id n \<and> n_node_kind n' = n_node_kind n \<and> n_base_url n' = n_base_url n \<and>
     (n_public_key n \<noteq> None \<longrightarrow> n_public_key n' = n_public_key n) \<and>
     n_epoch n \<le> n_epoch n' \<and> (n_epoch n' = n_epoch n \<longrightarrow> n_boot_id n' = n_boot_id n) \<and>
     (n_desired_state n = Want_REVOKED \<longrightarrow> n' = n)"

lemma node_follows_refl [simp]: "node_follows n n"
  by (simp add: node_follows_def)

lemma node_follows_trans: "node_follows n m \<Longrightarrow> node_follows m k \<Longrightarrow> node_follows n k"
  unfolding node_follows_def by fastforce

definition nodes_move :: "node list \<Rightarrow> node list \<Rightarrow> bool" where
  "nodes_move ns ns' \<longleftrightarrow> ns' = ns \<or> (\<exists>n. ns' = ns @ [n] \<and> n_id n \<notin> n_id ` set ns) \<or>
     (\<exists>f m. m \<in> set ns \<and> ns' = update_row n_id (n_id m) f ns \<and> (\<forall>x. n_id (f x) = n_id x) \<and> node_follows m (f m))"

lemma nodes_moveI:
  assumes "find P ns = Some m" and "\<And>x. n_id (f x) = n_id x" and "node_follows m (f m)" and "n_id m = i"
  shows "nodes_move ns (update_row n_id i f ns)"
proof -
  have "m \<in> set ns" using find_SomeD [OF assms(1)] by simp
  with assms(2-4) show ?thesis unfolding nodes_move_def by (intro disjI2 exI [of _ f] exI [of _ m]) simp
qed

lemma nodes_move_refl [simp]: "nodes_move ns ns"
  by (simp add: nodes_move_def)

lemma update_node_Inr:
  "update_node i f s = Inr s' \<Longrightarrow> s' = s \<or> s' = s\<lparr>nodes := update_row n_id i f (nodes s)\<rparr>"
  by (auto simp: update_node_def split: option.splits if_splits)

lemma node_step_moves:
  assumes "node_step sha ed d t s s'"
  shows "nodes_move (nodes s) (nodes s')"
  using assms
proof (cases rule: node_step.cases)
  case (signed req i row)
  then show ?thesis by (auto elim: signedD simp: nodes_move_def)
next
  case (registered data r)
  then obtain invite :: node_invite and n s1 where f: "find (\<lambda>n. n_id n = ni_node_id invite \<and> n_public_key n = None \<and>
        n_desired_state n \<noteq> Want_REVOKED) (nodes s) = Some n"
    and u: "update_node (n_id n) (Nodes.registered (rg_public_key data) (rg_boot_id data) t) s = Inr s1"
    and s': "s' = consume_invite (sha (rg_invite data)) t s1"
    by (auto simp: register_node_def res_Inr)
  have "n_public_key n = None" "n_desired_state n \<noteq> Want_REVOKED" using f by (auto simp: find_Some_iff)
  then have "nodes_move (nodes s) (update_row n_id (n_id n) (Nodes.registered (rg_public_key data) (rg_boot_id data) t) (nodes s))"
    by (intro nodes_moveI [OF f]) (simp_all add: Nodes.registered_def node_follows_def)
  with update_node_Inr [OF u] s' show ?thesis by (auto simp: consume_invite_def)
next
  case (resumed i boot r)
  then obtain n where f: "find (\<lambda>n. n_id n = i \<and> n_desired_state n \<noteq> Want_REVOKED) (nodes s) = Some n"
    and u: "update_node i (Nodes.resumed boot t) s = Inr s'" by (auto simp: resume_def res_Inr)
  have n: "n_id n = i" "n_desired_state n \<noteq> Want_REVOKED" using f by (auto simp: find_Some_iff)
  then have "nodes_move (nodes s) (update_row n_id i (Nodes.resumed boot t) (nodes s))"
    by (intro nodes_moveI [OF f]) (simp_all add: Nodes.resumed_def node_follows_def)
  with update_node_Inr [OF u] show ?thesis by auto
next
  case (beaten i hb r)
  then obtain n where f: "find (\<lambda>n. n_id n = i \<and> n_epoch n = hb_epoch hb \<and> n_boot_id n = Some (hb_boot_id hb) \<and>
        n_desired_state n \<noteq> Want_REVOKED) (nodes s) = Some n"
    and u: "update_node i (reported s hb t) s = Inr s'" by (auto simp: beat_def res_Inr)
  have "n_id n = i" "n_desired_state n \<noteq> Want_REVOKED" using f by (auto simp: find_Some_iff)
  then have "nodes_move (nodes s) (update_row n_id i (reported s hb t) (nodes s))"
    by (intro nodes_moveI [OF f]) (simp_all add: reported_def node_follows_def)
  with update_node_Inr [OF u] show ?thesis by auto
next
  case (invited parse_url random i user data r)
  then show ?thesis
    by (auto simp: invite_def insert_node_def insert_invite_def res_Inr nodes_move_def split: option.splits if_splits)
next
  case (asked user i want r)
  then obtain n where f: "find (\<lambda>n. n_id n = i \<and> (u_role user = Admin \<or> n_owner_id n = u_id user) \<and>
        n_desired_state n \<noteq> Want_REVOKED) (nodes s) = Some n"
    and s': "nodes s' = update_row n_id i (node_asked want) (nodes s)" by (auto simp: nodeState_def res_Inr)
  have "n_id n = i" "n_desired_state n \<noteq> Want_REVOKED" using f by (auto simp: find_Some_iff)
  then show ?thesis unfolding s'
    by (intro nodes_moveI [OF f]) (simp_all add: node_asked_def node_follows_def)
next
  case cleaned
  then show ?thesis by (simp add: clean_up_def nodes_move_def)
next
  case other
  then show ?thesis by (simp add: beside_nodes_def nodes_move_def)
qed

lemma nodes_move_keyed: "nodes_move ns ns' \<Longrightarrow> keyed n_id ns \<Longrightarrow> keyed n_id ns'"
  unfolding nodes_move_def by (auto intro: keyed_insert keyed_update)

lemma nodes_move_follows:
  assumes "nodes_move ns ns'" and "keyed n_id ns" and "lookup n_id i ns = Some n"
  shows "\<exists>n'. lookup n_id i ns' = Some n' \<and> node_follows n n'"
  using assms(1) unfolding nodes_move_def
proof (elim disjE exE conjE)
  fix f m assume m: "m \<in> set ns" "ns' = update_row n_id (n_id m) f ns" "\<forall>x. n_id (f x) = n_id x" "node_follows m (f m)"
  have "lookup n_id (n_id m) ns = Some m" by (rule keyed_lookup [OF assms(2) m(1)])
  with m assms(3) show ?thesis by (auto simp: lookup_update)
qed (use assms(3) in auto)

lemma node_run_follows:
  assumes run: "node_run sha ed skew (d, s) (d', s')" and "keyed n_id (nodes s)" and "lookup n_id i (nodes s) = Some n"
  shows "keyed n_id (nodes s')" and "\<exists>n'. lookup n_id i (nodes s') = Some n' \<and> node_follows n n'"
proof -
  have "keyed n_id (nodes (snd (d', s'))) \<and> (\<exists>n'. lookup n_id i (nodes (snd (d', s'))) = Some n' \<and> node_follows n n')"
  proof (rule node_run_keeps [OF run])
    show "keyed n_id (nodes (snd (d, s))) \<and> (\<exists>n'. lookup n_id i (nodes (snd (d, s))) = Some n' \<and> node_follows n n')"
      using assms(2,3) by simp
  next
    fix d t s s' assume "node_step sha ed d t s s'"
      and I: "keyed n_id (nodes s) \<and> (\<exists>n'. lookup n_id i (nodes s) = Some n' \<and> node_follows n n')"
    then have m: "nodes_move (nodes s) (nodes s')" by (blast intro: node_step_moves)
    from I m show "keyed n_id (nodes s') \<and> (\<exists>n'. lookup n_id i (nodes s') = Some n' \<and> node_follows n n')"
      by (blast intro: nodes_move_keyed node_follows_trans dest: nodes_move_follows)
  qed
  then show "keyed n_id (nodes s')" and "\<exists>n'. lookup n_id i (nodes s') = Some n' \<and> node_follows n n'" by simp_all
qed

text \<open>
  C29: a report of an earlier boot is refused for good. Once a heartbeat of one boot was accepted and
  the node has resumed with another boot, the new epoch is larger, and every later heartbeat under
  the old epoch is answered \<open>epoch_fenced\<close>, whatever its boot.
\<close>

theorem stale_boot_is_fenced:
  assumes keys: "keyed n_id (nodes s0)" and first: "beat t1 i hb s0 = Inr (r1, s1)"
    and run1: "node_run sha ed skew (d1, s1) (d2, s2)"
    and again: "resume t2 i boot s2 = Inr ((j, epoch), s3)" and other: "boot \<noteq> hb_boot_id hb"
    and run2: "node_run sha ed skew (d3, s3) (d4, s4)"
  shows "j = i \<and> hb_epoch hb < epoch \<and>
    (\<forall>hb'. heartbeatSchema hb' \<and> hb_epoch hb' = hb_epoch hb \<longrightarrow> beat t4 i hb' s4 = Inl (AppError 409 ''epoch_fenced''))"
proof -
  have step: "nodes_move (nodes s) (nodes s')" if "beat t i h s = Inr (x, s')" for t h s x s'
    using node_step_moves [OF node_step.beaten [OF that]] by simp
  obtain n where n: "find (\<lambda>n. n_id n = i \<and> n_epoch n = hb_epoch hb \<and> n_boot_id n = Some (hb_boot_id hb) \<and>
      n_desired_state n \<noteq> Want_REVOKED) (nodes s0) = Some n" using first by (auto simp: beat_def res_Inr)
  have n': "n \<in> set (nodes s0)" "n_id n = i" "n_epoch n = hb_epoch hb" "n_boot_id n = Some (hb_boot_id hb)"
    using find_SomeD [OF n] by simp_all
  have l0: "lookup n_id i (nodes s0) = Some n" using keyed_lookup [OF keys n'(1)] n'(2) by simp
  have k1: "keyed n_id (nodes s1)" by (rule nodes_move_keyed [OF step [OF first] keys])
  obtain n1 where n1: "lookup n_id i (nodes s1) = Some n1" "node_follows n n1"
    using nodes_move_follows [OF step [OF first] keys l0] by blast
  obtain n2 where n2: "lookup n_id i (nodes s2) = Some n2" "node_follows n1 n2" and k2: "keyed n_id (nodes s2)"
    using node_run_follows [OF run1 k1 n1(1)] by blast
  have f2: "node_follows n n2" by (rule node_follows_trans [OF n1(2) n2(2)])
  obtain m where m: "find (\<lambda>n. n_id n = i \<and> n_desired_state n \<noteq> Want_REVOKED) (nodes s2) = Some m"
    and j: "j = i" "epoch = n_epoch (resumed boot t2 m)"
    and u: "update_node i (resumed boot t2) s2 = Inr s3" using again by (auto simp: resume_def res_Inr)
  have "m = n2" using find_SomeD [OF m] keyed_lookup [OF k2, of m] n2(1) by simp
  have e: "hb_epoch hb < epoch" using f2 other n'(3,4) j(2) \<open>m = n2\<close>
    by (auto simp: node_follows_def resumed_def split: if_splits)
  have s3: "nodes s3 = update_row n_id i (resumed boot t2) (nodes s2)"
    using u n2(1) by (auto simp: update_node_def split: if_splits)
  have l3: "lookup n_id i (nodes s3) = Some (resumed boot t2 n2)" unfolding s3
    using n2(1) by (simp add: lookup_update resumed_def)
  have k3: "keyed n_id (nodes s3)" unfolding s3 by (rule keyed_update [OF k2]) (simp add: resumed_def)
  obtain n4 where n4: "lookup n_id i (nodes s4) = Some n4" "node_follows (resumed boot t2 n2) n4"
      and k4: "keyed n_id (nodes s4)" using node_run_follows [OF run2 k3 l3] by blast
  have e4: "hb_epoch hb < n_epoch n4" using e j(2) \<open>m = n2\<close> n4(2) by (auto simp: node_follows_def)
  have "beat t4 i hb' s4 = Inl (AppError 409 ''epoch_fenced'')"
    if "heartbeatSchema hb'" "hb_epoch hb' = hb_epoch hb" for hb'
  proof -
    have "x = n4" if "x \<in> set (nodes s4)" "n_id x = i" for x
      using keyed_lookup [OF k4 that(1)] that(2) n4(1) by simp
    then have "find (\<lambda>n. n_id n = i \<and> n_epoch n = hb_epoch hb' \<and> n_boot_id n = Some (hb_boot_id hb') \<and>
        n_desired_state n \<noteq> Want_REVOKED) (nodes s4) = None"
      using e4 that(2) by (auto simp: find_None_iff)
    with that(1) show ?thesis by (simp add: beat_def)
  qed
  with j(1) e show ?thesis by simp
qed

section \<open>Revocation\<close>

lemma revoked_row:
  assumes "nodeState user i Want_REVOKED s = Inr (r, s1)" and "keyed n_id (nodes s)"
  obtains n where "lookup n_id i (nodes s1) = Some n" "n_desired_state n = Want_REVOKED" "n_state n = N_REVOKED"
    "keyed n_id (nodes s1)"
proof -
  obtain m where m: "find (\<lambda>n. n_id n = i \<and> (u_role user = Admin \<or> n_owner_id n = u_id user) \<and>
        n_desired_state n \<noteq> Want_REVOKED) (nodes s) = Some m"
    and s1: "nodes s1 = update_row n_id i (node_asked Want_REVOKED) (nodes s)"
    using assms(1) by (auto simp: nodeState_def res_Inr)
  have "lookup n_id i (nodes s) = Some m" using find_SomeD [OF m] keyed_lookup [OF assms(2), of m] by simp
  then have "lookup n_id i (nodes s1) = Some (node_asked Want_REVOKED m)"
    unfolding s1 by (simp add: lookup_update node_asked_def)
  moreover have "keyed n_id (nodes s1)" unfolding s1
    by (rule keyed_update [OF assms(2)]) (simp add: node_asked_def)
  ultimately show thesis by (intro that [of "node_asked Want_REVOKED m"]) (simp_all add: node_asked_def)
qed

lemma ready_offer_nodes:
  assumes "off \<in> set (ready_execution_offers now s)" and "i \<in> set (of_nodes off)"
    and "lookup n_id i (nodes s) = Some n" and "keyed n_id (nodes s)"
    and "\<forall>rm \<in> set (route_members s). lookup u_id (rm_provider_id rm) (users s) \<noteq> None"
  shows "n_state n = N_READY"
proof -
  consider (node) p where "p \<in> set (nodes s)" "off \<in> set (node_offer now s p)"
    | (route) r where "off \<in> set (route_offer now s r)"
    using assms(1) by (auto simp: ready_execution_offers_def)
  then show ?thesis
  proof cases
    case node
    then have "n_id p = i" "n_state p = N_READY" using assms(2)
      by (auto simp: node_offer_def split: option.splits if_splits)
    then show ?thesis using keyed_lookup [OF assms(4) node(1)] assms(3) by simp
  next
    case (route r)
    then obtain m :: model where m: "list_all (\<lambda>rm. \<not> blocks_route now s r m rm) (members_of (er_id r) s)"
        "of_nodes off = map rm_node_id (members_of (er_id r) s)"
      by (auto simp: route_offer_def split: option.splits if_splits)
    then obtain rm where rm: "rm \<in> set (members_of (er_id r) s)" "rm_node_id rm = i" "\<not> blocks_route now s r m rm"
      using assms(2) by (auto simp: list_all_iff)
    then have "rm \<in> set (route_members s)" by (auto simp: members_of_def)
    with assms(5) obtain u where "lookup u_id (rm_provider_id rm) (users s) = Some u" by blast
    with rm assms(3) show ?thesis by (simp add: blocks_route_def)
  qed
qed

text \<open>
  C30: revoking a node is final. Whatever happens later, no request signed with its key is accepted,
  it cannot resume, report or be given another desired state, and no ready offer contains it (every
  provider of a route being a user, which the database's foreign key says).
\<close>

theorem revocation_is_final:
  assumes keys: "keyed n_id (nodes s)" and revoke: "nodeState user i Want_REVOKED s = Inr (r, s1)"
    and run: "node_run sha ed skew (d1, s1) (d2, s2)"
    and fk: "\<forall>rm \<in> set (route_members s2). lookup u_id (rm_provider_id rm) (users s2) \<noteq> None"
  shows "(\<forall>d t req x. signed sha ed d t req i s2 \<noteq> Inr x) \<and>
    resume t i boot s2 = Inl (AppError 401 ''node_revoked'') \<and>
    (heartbeatSchema hb \<longrightarrow> beat t i hb s2 = Inl (AppError 409 ''epoch_fenced'')) \<and>
    nodeState user' i want s2 = Inl (AppError 404 ''node_missing'') \<and>
    (\<forall>off \<in> set (ready_execution_offers now s2). i \<notin> set (of_nodes off))"
proof -
  obtain n where n: "lookup n_id i (nodes s1) = Some n" "n_desired_state n = Want_REVOKED" "n_state n = N_REVOKED"
      "keyed n_id (nodes s1)" by (rule revoked_row [OF revoke keys])
  obtain n2 where n2: "lookup n_id i (nodes s2) = Some n2" "node_follows n n2" and k2: "keyed n_id (nodes s2)"
    using node_run_follows [OF run n(4) n(1)] by blast
  have eq: "n2 = n" using n2(2) n(2) by (simp add: node_follows_def)
  have only: "x = n" if "x \<in> set (nodes s2)" "n_id x = i" for x
    using keyed_lookup [OF k2 that(1)] that(2) n2(1) eq by simp
  have none: "find (\<lambda>x. n_id x = i \<and> P x \<and> n_desired_state x \<noteq> Want_REVOKED) (nodes s2) = None"
    "find (\<lambda>x. n_id x = i \<and> n_desired_state x \<noteq> Want_REVOKED) (nodes s2) = None" for P
    using only n(2) by (auto simp: find_None_iff)
  have "signed sha ed d t req i s2 \<noteq> Inr x" for d t req x
    using only n(2) by (cases x) (auto elim!: signedD)
  moreover have "i \<notin> set (of_nodes off)" if "off \<in> set (ready_execution_offers now s2)" for off
    using ready_offer_nodes [OF that _ n2(1) k2 fk] eq n(3) by auto
  moreover have "heartbeatSchema hb \<longrightarrow> beat t i hb s2 = Inl (AppError 409 ''epoch_fenced'')"
    using none(1) [of "\<lambda>x. n_epoch x = hb_epoch hb \<and> n_boot_id x = Some (hb_boot_id hb)"]
    by (simp add: beat_def conj_assoc)
  moreover have "nodeState user' i want s2 = Inl (AppError 404 ''node_missing'')"
    using none(1) [of "\<lambda>x. u_role user' = Admin \<or> n_owner_id x = u_id user'"] by (simp add: nodeState_def)
  ultimately show ?thesis using none(2) by (simp add: resume_def)
qed

section \<open>A demonstration\<close>

definition demo_ed :: verifier where "demo_ed key message signature \<longleftrightarrow> length signature = 64"

definition keyed_db :: db where
  "keyed_db = demo_db\<lparr>nodes := [demo_node\<lparr>n_public_key := Some (replicate 43 (CHR ''A''))\<rparr>]\<rparr>"

definition demo_signed_request :: node_request where
  "demo_signed_request = \<lparr>rq_method = ''POST'', rq_url = ''/api/v1/nodes/n1/claim'', rq_body = [],
     rq_timestamp = Some 100, rq_nonce = Some (replicate 20 (CHR ''n'')), rq_signature = Some (replicate 86 (CHR ''A''))\<rparr>"

definition demo_beat :: heartbeat where
  "demo_beat = \<lparr>hb_boot_id = ''boot'', hb_epoch = 7, hb_state = N_READY, hb_loaded = [], hb_running_sessions = [],
     hb_os = [], hb_gpu_name = None, hb_memory_total_mib = None, hb_memory_free_mib = None,
     hb_physical_domain_hint = [], hb_generation_profile = None\<rparr>"

lemma keyed_db_keys: "keyed n_id (nodes keyed_db)"
  by (simp add: keyed_db_def keyed_def)

theorem signed_request_once_witness:
  "\<exists>row s1. signed (\<lambda>x. x) demo_ed 100000 100500 demo_signed_request ''n1'' keyed_db = Inr (row, s1) \<and>
     (\<forall>r. signed (\<lambda>x. x) demo_ed 120000 120000 demo_signed_request ''n1'' (clean_up 110000 s1) \<noteq> Inr r)"
proof -
  have "returns (signed (\<lambda>x. x) demo_ed 100000 100500 demo_signed_request ''n1'' keyed_db) (\<lambda>_. True)" by code_simp
  then obtain row s1 where f: "signed (\<lambda>x. x) demo_ed 100000 100500 demo_signed_request ''n1'' keyed_db = Inr (row, s1)"
    by (auto simp: returns_iff)
  have run: "node_run (\<lambda>x. x) demo_ed 1000 (100000, s1) (110000, clean_up 110000 s1)"
    by (rule node_run.onward [OF node_run.start _ _ node_step.cleaned]) simp_all
  show ?thesis using f signed_request_once [OF f _ run] by force
qed

theorem stale_boot_is_fenced_witness:
  "\<exists>r1 s1 epoch s3. beat 101000 ''n1'' demo_beat keyed_db = Inr (r1, s1) \<and>
     resume 102000 ''n1'' ''boot2'' s1 = Inr ((''n1'', epoch), s3) \<and> 7 < epoch \<and>
     beat 103000 ''n1'' demo_beat s3 = Inl (AppError 409 ''epoch_fenced'')"
proof -
  have "returns (beat 101000 ''n1'' demo_beat keyed_db) (\<lambda>(r1, s1).
      returns (resume 102000 ''n1'' ''boot2'' s1) (\<lambda>(r2, s3). fst r2 = ''n1''))" by code_simp
  then obtain r1 s1 epoch s3 where b: "beat 101000 ''n1'' demo_beat keyed_db = Inr (r1, s1)"
      and r: "resume 102000 ''n1'' ''boot2'' s1 = Inr ((''n1'', epoch), s3)" by (auto simp: returns_iff)
  have run: "node_run (\<lambda>x. x) demo_ed 0 (0, s) (0, s)" for s by (rule node_run.start)
  have "''boot2'' \<noteq> hb_boot_id demo_beat" "heartbeatSchema demo_beat" "hb_epoch demo_beat = 7"
    by (simp_all add: demo_beat_def heartbeatSchema_def)
  then show ?thesis using b r stale_boot_is_fenced [OF keyed_db_keys b run r _ run] by auto
qed

theorem revocation_is_final_witness:
  "\<exists>r s1. nodeState bob ''n1'' Want_REVOKED keyed_db = Inr (r, s1) \<and>
     resume 102000 ''n1'' ''boot2'' s1 = Inl (AppError 401 ''node_revoked'')"
proof -
  have "returns (nodeState bob ''n1'' Want_REVOKED keyed_db) (\<lambda>(r, s1). route_members s1 = [])" by code_simp
  then obtain r s1 where n: "nodeState bob ''n1'' Want_REVOKED keyed_db = Inr (r, s1)" and m: "route_members s1 = []"
    by (auto simp: returns_iff)
  have run: "node_run (\<lambda>x. x) demo_ed 0 (0, s1) (0, s1)" by (rule node_run.start)
  have fk: "\<forall>rm \<in> set (route_members s1). lookup u_id (rm_provider_id rm) (users s1) \<noteq> None" using m by simp
  show ?thesis using n revocation_is_final [OF keyed_db_keys n run fk] by blast
qed

end
