(* ===== verification/Renewals_Life.thy ===== *)
theory Renewals_Life
  imports Renewals_Demo Metered Funds_Life
begin

text \<open>
  What bounded renewals guarantee: in every reachable database the windows and the gross amounts that
  authorizations and mandates have given are exactly the ones their runs and usages record, and stay
  within what was signed (\<open>renewals_within_authority\<close>); a closed one is never used again
  (\<open>closed_authority_is_final\<close>); and a renewal is paid and covered as its authorization says
  (\<open>renewal_spends_authority\<close>).
\<close>

section \<open>Authorizations and mandates as metered grants\<close>

datatype counter = Windows | Working | Reserve

fun authority_used :: "counter \<Rightarrow> renewal_authority \<Rightarrow> int" where
  "authority_used Windows a = au_windows_used a"
| "authority_used Working a = au_working_committed_microtu a"
| "authority_used Reserve a = au_reserve_committed_microtu a"

fun authority_limit :: "counter \<Rightarrow> renewal_authority \<Rightarrow> int" where
  "authority_limit Windows a = au_maximum_windows a"
| "authority_limit Working a = au_maximum_working_microtu a"
| "authority_limit Reserve a = au_maximum_reserve_microtu a"

fun run_weight :: "counter \<Rightarrow> renewal_run \<Rightarrow> int" where
  "run_weight Windows r = 1"
| "run_weight Working r = (if rw_source r = From_WORKING then rw_committed_microtu r else 0)"
| "run_weight Reserve r = (if rw_source r = From_RESERVE then rw_committed_microtu r else 0)"

definition live_state :: "authority_state \<Rightarrow> bool" where
  "live_state z \<longleftrightarrow> z = Z_ACTIVE"

definition run_consumes :: "renewal_run \<Rightarrow> renewal_authority \<Rightarrow> renewal_authority" where
  "run_consumes r = consumed_authority (rw_source r) (rw_committed_microtu r)"

interpretation au: metered au_id authority_used authority_limit au_state live_state rw_authorization_id run_weight run_consumes
proof
  fix r a
  show "au_id (run_consumes r a) = au_id a" by (simp add: run_consumes_def consumed_authority_def Let_def)
  fix c show "authority_used c (run_consumes r a) = authority_used c a + run_weight c r"
    "authority_limit c (run_consumes r a) = authority_limit c a"
    by (cases c; simp add: run_consumes_def consumed_authority_def Let_def)+
qed

interpretation pm: metered pm_id "\<lambda>_::unit. pm_windows_used" "\<lambda>_. pm_maximum_windows" pm_state live_state mu_mandate_id "\<lambda>_ _. 1"
    "\<lambda>_. consumed_mandate"
  by unfold_locales (simp_all add: consumed_mandate_def)

text \<open>One step of the authorizations with their runs and of the mandates with their usages.\<close>

definition renewal_ok :: "fund_db \<Rightarrow> fund_db \<Rightarrow> bool" where
  "renewal_ok s s' \<longleftrightarrow> au.advances (authorities s, runs s) (authorities s', runs s') \<and>
     pm.advances (mandates s, usages s) (mandates s', usages s')"

lemma renewal_ok_refl [simp]: "renewal_ok s s"
  by (simp add: renewal_ok_def)

lemma renewal_ok_trans: "renewal_ok s s1 \<Longrightarrow> renewal_ok s1 s2 \<Longrightarrow> renewal_ok s s2"
  unfolding renewal_ok_def by (blast intro: au.advances_trans pm.advances_trans)

lemma renewal_ok_same:
  "authorities s' = authorities s \<Longrightarrow> runs s' = runs s \<Longrightarrow> mandates s' = mandates s \<Longrightarrow> usages s' = usages s \<Longrightarrow>
   renewal_ok s s'"
  by (simp add: renewal_ok_def)

lemma add_renewal_event_ok [simp]: "renewal_ok s (add_renewal_event pool kind actor a m md s') \<longleftrightarrow> renewal_ok s s'"
  by (simp add: renewal_ok_def add_renewal_event_def)

lemma on_base_ok: "on_base h s = Inr (v, s') \<Longrightarrow> renewal_ok s s'"
  by (auto simp: on_base_def and_then_Inr intro!: renewal_ok_same)

section \<open>Operations\<close>

lemma authority_check_limits: "authority_check a \<Longrightarrow> authority_used c a \<le> authority_limit c a \<and> 0 \<le> authority_limit c a"
  by (cases c) (auto simp: authority_check_def)

lemma insert_authority_ok:
  assumes "insert_authority a s = Inr s'" and "\<And>c. authority_used c a = 0"
  shows "renewal_ok s s'"
proof -
  have "authority_check a" "au_id a \<notin> au_id ` set (authorities s)" and s': "s' = s\<lparr>authorities := authorities s @ [a]\<rparr>"
    using assms(1) by (auto simp: insert_authority_def and_then_Inr insert_row_Inr split: if_splits)
  then have "au.advances (authorities s, runs s) (authorities s @ [a], runs s)"
    using authority_check_limits assms(2) by (intro au.advances_insert) auto
  then show ?thesis by (simp add: renewal_ok_def s')
qed

lemma insert_mandate_ok:
  assumes "insert_mandate m s = Inr s'" and "pm_windows_used m = 0"
  shows "renewal_ok s s'"
proof -
  have "mandate_check m" "pm_id m \<notin> pm_id ` set (mandates s)" and s': "s' = s\<lparr>mandates := mandates s @ [m]\<rparr>"
    using assms(1) by (auto simp: insert_mandate_def and_then_Inr insert_row_Inr split: if_splits)
  then have "pm.advances (mandates s, usages s) (mandates s @ [m], usages s)"
    using assms(2) by (intro pm.advances_insert) (auto simp: mandate_check_def)
  then show ?thesis by (simp add: renewal_ok_def s')
qed

text \<open>An update that leaves the counters and the limits.\<close>

lemma update_authority_ok:
  assumes upd: "update_authority i f s = Inr s'"
    and f: "\<And>a. au_id (f a) = au_id a" "\<And>c a. authority_used c (f a) = authority_used c a"
      "\<And>c a. authority_limit c (f a) = authority_limit c a"
  shows "renewal_ok s s'"
proof (cases "lookup au_id i (authorities s)")
  case None
  then show ?thesis using upd by (simp add: update_authority_def)
next
  case (Some old)
  have st: "au_state old \<noteq> Z_ACTIVE \<longrightarrow> au_state (f old) = au_state old"
    and s': "s' = s\<lparr>authorities := update_row au_id i f (authorities s)\<rparr>"
    using upd Some by (auto simp: update_authority_def split: if_splits)
  have "au.advances (authorities s, runs s) (update_row au_id i f (authorities s), runs s)"
  proof (rule au.advances_keyed)
    assume "keyed au_id (fst (authorities s, runs s))"
    then have "au_state (f r) = au_state r" if "r \<in> set (authorities s)" "au_id r = i" "\<not> live_state (au_state r)" for r
      using that st keyed_lookup [of au_id "authorities s" r] Some by (auto simp: live_state_def)
    then show "au.advances (authorities s, runs s) (update_row au_id i f (authorities s), runs s)"
      unfolding update_row_def by (intro au.advances_revise f) auto
  qed
  then show ?thesis by (simp add: renewal_ok_def s')
qed

lemma update_mandate_ok:
  assumes upd: "update_mandate i f s = Inr s'"
    and f: "\<And>m. pm_id (f m) = pm_id m" "\<And>m. pm_windows_used (f m) = pm_windows_used m"
      "\<And>m. pm_maximum_windows (f m) = pm_maximum_windows m"
  shows "renewal_ok s s'"
proof (cases "lookup pm_id i (mandates s)")
  case None
  then show ?thesis using upd by (simp add: update_mandate_def)
next
  case (Some old)
  have st: "pm_state old \<noteq> Z_ACTIVE \<longrightarrow> pm_state (f old) = pm_state old"
    and s': "s' = s\<lparr>mandates := update_row pm_id i f (mandates s)\<rparr>"
    using upd Some by (auto simp: update_mandate_def split: if_splits)
  have "pm.advances (mandates s, usages s) (update_row pm_id i f (mandates s), usages s)"
  proof (rule pm.advances_keyed)
    assume "keyed pm_id (fst (mandates s, usages s))"
    then have "pm_state (f r) = pm_state r" if "r \<in> set (mandates s)" "pm_id r = i" "\<not> live_state (pm_state r)" for r
      using that st keyed_lookup [of pm_id "mandates s" r] Some by (auto simp: live_state_def)
    then show "pm.advances (mandates s, usages s) (update_row pm_id i f (mandates s), usages s)"
      unfolding update_row_def by (intro pm.advances_revise f) auto
  qed
  then show ?thesis by (simp add: renewal_ok_def s')
qed

text \<open>A run uses the authorization it names, and a usage its mandate.\<close>

lemma insert_run_Inr:
  assumes "insert_run clock_ts r s = Inr s'"
  obtains a l w where "lookup au_id (rw_authorization_id r) (authorities s) = Some a"
    "lookup rl_id (rw_lease_id r) (rt_leases (base s)) = Some l" "lookup cw_lease_id (rw_lease_id r) (windows (base s)) = Some w"
    "authority_kind_matches a w l s" "run_matches clock_ts r a w l" "rw_committed_microtu r > 0" "authority_check (run_consumes r a)"
    "s' = s\<lparr>authorities := update_row au_id (rw_authorization_id r) (run_consumes r) (authorities s), runs := runs s @ [r]\<rparr>"
proof -
  obtain a l w where a: "lookup au_id (rw_authorization_id r) (authorities s) = Some a"
    and l: "lookup rl_id (rw_lease_id r) (rt_leases (base s)) = Some l"
    and w: "lookup cw_lease_id (rw_lease_id r) (windows (base s)) = Some w"
    using assms by (auto simp: insert_run_def split: option.splits)
  have m: "authority_kind_matches a w l s" "run_matches clock_ts r a w l" "rw_committed_microtu r > 0"
    and upd: "update_authority (au_id a) (consumed_authority (rw_source r) (rl_budget_microtu l)) (s\<lparr>runs := runs s @ [r]\<rparr>) = Inr s'"
    using assms by (auto simp: insert_run_def a l w and_then_Inr insert_row_Inr split: if_splits)
  have i: "au_id a = rw_authorization_id r" using lookup_SomeD [OF a] by simp
  have c: "consumed_authority (rw_source r) (rl_budget_microtu l) = run_consumes r"
    using m(2) by (simp add: run_matches_def run_consumes_def)
  have "authority_check (run_consumes r a)"
    "s' = s\<lparr>authorities := update_row au_id (rw_authorization_id r) (run_consumes r) (authorities s), runs := runs s @ [r]\<rparr>"
    using upd by (auto simp: update_authority_def i a c split: if_splits)
  with a l w m show thesis by (intro that)
qed

lemma insert_run_ok: "insert_run clock_ts r s = Inr s' \<Longrightarrow> renewal_ok s s'"
proof (elim insert_run_Inr)
  fix a l w assume a: "lookup au_id (rw_authorization_id r) (authorities s) = Some a" and m: "run_matches clock_ts r a w l"
    and c: "authority_check (run_consumes r a)"
    and s': "s' = s\<lparr>authorities := update_row au_id (rw_authorization_id r) (run_consumes r) (authorities s), runs := runs s @ [r]\<rparr>"
  have "live_state (au_state a)" using m by (simp add: run_matches_def live_state_def)
  from au.advances_use [OF a this, of "runs s"] authority_check_limits [OF c] show ?thesis by (simp add: renewal_ok_def s')
qed

lemma insert_usage_Inr:
  assumes "insert_usage clock_ts u s = Inr s'"
  obtains m l w where "lookup pm_id (mu_mandate_id u) (mandates s) = Some m"
    "lookup rl_id (mu_lease_id u) (rt_leases (base s)) = Some l" "lookup cw_lease_id (mu_lease_id u) (windows (base s)) = Some w"
    "usage_matches clock_ts u m w l (base s)" "mandate_check (consumed_mandate m)"
    "s' = s\<lparr>mandates := update_row pm_id (mu_mandate_id u) consumed_mandate (mandates s), usages := usages s @ [u]\<rparr>"
proof -
  obtain m l w where m: "lookup pm_id (mu_mandate_id u) (mandates s) = Some m"
    and l: "lookup rl_id (mu_lease_id u) (rt_leases (base s)) = Some l"
    and w: "lookup cw_lease_id (mu_lease_id u) (windows (base s)) = Some w"
    using assms by (auto simp: insert_usage_def split: option.splits)
  have um: "usage_matches clock_ts u m w l (base s)"
    and upd: "update_mandate (pm_id m) consumed_mandate (s\<lparr>usages := usages s @ [u]\<rparr>) = Inr s'"
    using assms by (auto simp: insert_usage_def m l w and_then_Inr insert_row_Inr split: if_splits)
  have i: "pm_id m = mu_mandate_id u" using lookup_SomeD [OF m] by simp
  have "mandate_check (consumed_mandate m)"
    "s' = s\<lparr>mandates := update_row pm_id (mu_mandate_id u) consumed_mandate (mandates s), usages := usages s @ [u]\<rparr>"
    using upd by (auto simp: update_mandate_def i m split: if_splits)
  with m l w um show thesis by (intro that)
qed

lemma insert_usage_ok: "insert_usage clock_ts u s = Inr s' \<Longrightarrow> renewal_ok s s'"
proof (elim insert_usage_Inr)
  fix m l w assume m: "lookup pm_id (mu_mandate_id u) (mandates s) = Some m" and um: "usage_matches clock_ts u m w l (base s)"
    and c: "mandate_check (consumed_mandate m)"
    and s': "s' = s\<lparr>mandates := update_row pm_id (mu_mandate_id u) consumed_mandate (mandates s), usages := usages s @ [u]\<rparr>"
  have "live_state (pm_state m)" using um by (simp add: usage_matches_def live_state_def)
  from pm.advances_use [OF m this, of "usages s"] c show ?thesis by (simp add: renewal_ok_def s' mandate_check_def)
qed

lemma note_renewal_ok: "note_renewal clock_ts a status md s = Inr (st, s') \<Longrightarrow> renewal_ok s s'"
proof -
  assume "note_renewal clock_ts a status md s = Inr (st, s')"
  then obtain s1 where u: "update_authority (au_id a) (\<lambda>q. q\<lparr>au_last_status := status, au_last_attempt_at := Some clock_ts\<rparr>) s = Inr s1"
    and s': "renewal_ok s s1 \<longrightarrow> renewal_ok s s'"
    by (auto simp: note_renewal_def and_then_Inr split: if_splits)
  have "authority_used c (q\<lparr>au_last_status := status, au_last_attempt_at := Some clock_ts\<rparr>) = authority_used c q"
    "authority_limit c (q\<lparr>au_last_status := status, au_last_attempt_at := Some clock_ts\<rparr>) = authority_limit c q" for c q
    by (cases c; simp)+
  then have "renewal_ok s s1" by (intro update_authority_ok [OF u]) simp_all
  with s' show ?thesis by simp
qed

lemma set_state_ok:
  assumes "update_authority i (\<lambda>q. q\<lparr>au_state := z\<rparr>) s = Inr s'"
  shows "renewal_ok s s'"
proof -
  have "authority_used c (q\<lparr>au_state := z\<rparr>) = authority_used c q" "authority_limit c (q\<lparr>au_state := z\<rparr>) = authority_limit c q" for c q
    by (cases c; simp)+
  then show ?thesis by (intro update_authority_ok [OF assms]) simp_all
qed

lemma close_authority_ok: "close_authority clock_ts a z s = Inr (st, s') \<Longrightarrow> renewal_ok s s'"
  unfolding close_authority_def and_then_Inr using set_state_ok note_renewal_ok renewal_ok_trans by blast

section \<open>Handlers\<close>

lemma expire_authorities_ok: "renewal_ok s (expire_authorities tx_now pool s)"
proof -
  have "authority_used c (a\<lparr>au_state := Z_EXPIRED\<rparr>) = authority_used c a"
    "authority_limit c (a\<lparr>au_state := Z_EXPIRED\<rparr>) = authority_limit c a" for c a
    by (cases c; simp)+
  then have "au.advances (authorities s, runs s)
      (map (\<lambda>a. if au_pool_id a = pool \<and> au_state a = Z_ACTIVE \<and> au_expires_at a \<le> tx_now
         then a\<lparr>au_state := Z_EXPIRED\<rparr> else a) (authorities s), runs s)"
    by (intro au.advances_revise) (auto simp: live_state_def)
  then show ?thesis by (simp add: renewal_ok_def expire_authorities_def)
qed

lemma expire_mandates_ok: "renewal_ok s (expire_mandates P tx_now s)"
proof -
  have "pm.advances (mandates s, usages s)
      (map (\<lambda>m. if P m \<and> pm_state m = Z_ACTIVE \<and> pm_expires_at m \<le> tx_now then m\<lparr>pm_state := Z_EXPIRED\<rparr> else m)
        (mandates s), usages s)"
    by (intro pm.advances_revise) (auto simp: live_state_def)
  then show ?thesis by (simp add: renewal_ok_def expire_mandates_def)
qed

lemma authorize_renewal_ok: "authorize_renewal sha i date_now tx_now clock_ts user pool d s = Inr (a, s') \<Longrightarrow> renewal_ok s s'"
proof -
  assume ret: "authorize_renewal sha i date_now tx_now clock_ts user pool d s = Inr (a, s')"
  have "s' = s \<or> (\<exists>p g digest. store_authority user (new_authority sha i user p g d digest) (expire_authorities tx_now pool s) = Inr (a, s'))"
    using ret unfolding authorize_renewal_def Let_def zod_Inr need_Inr need_row_Inr poolLock_def
    by (auto simp: need_Inr need_row_Inr split: option.splits)
  moreover have "renewal_ok (expire_authorities tx_now pool s) s'"
    if st: "store_authority user (new_authority sha i user p g d digest) (expire_authorities tx_now pool s) = Inr (a, s')" for p g digest
  proof -
    have "authority_used c (new_authority sha i user p g d digest) = 0" for c by (cases c) (simp_all add: new_authority_def)
    then show ?thesis using st insert_authority_ok by (auto simp: store_authority_def and_then_Inr)
  qed
  ultimately show ?thesis by (metis expire_authorities_ok renewal_ok_refl renewal_ok_trans)
qed

lemma mandate_renewals_ok: "mandate_renewals sha i date_now tx_now user pool d s = Inr (m, s') \<Longrightarrow> renewal_ok s s'"
proof -
  define s1 where "s1 = expire_mandates (\<lambda>m. pm_pool_id m = pool \<and> pm_provider_id m = u_id user) tx_now s"
  assume ret: "mandate_renewals sha i date_now tx_now user pool d s = Inr (m, s')"
  have "s' = s \<or> (\<exists>p cr g shares digest. store_mandate user (new_mandate sha i user p cr g d shares digest (base s)) s1 = Inr (m, s'))"
    using ret unfolding mandate_renewals_def Let_def zod_Inr need_Inr need_row_Inr poolLock_def s1_def [symmetric]
    by (auto simp: need_Inr need_row_Inr and_then_Inr split: option.splits)
  moreover have "renewal_ok s1 s'"
    if st: "store_mandate user (new_mandate sha i user p cr g d shares digest (base s)) s1 = Inr (m, s')" for p cr g shares digest
    using st insert_mandate_ok by (auto simp: store_mandate_def and_then_Inr new_mandate_def)
  moreover have "renewal_ok s s1" unfolding s1_def by (rule expire_mandates_ok)
  ultimately show ?thesis using renewal_ok_trans by (elim disjE exE) auto
qed

lemma revoke_authorization_ok: "revoke_authorization clock_ts user i s = Inr (z, s') \<Longrightarrow> renewal_ok s s'"
proof -
  have "authority_used c (q\<lparr>au_state := Z_REVOKED, au_revoked_at := t\<rparr>) = authority_used c q"
    "authority_limit c (q\<lparr>au_state := Z_REVOKED, au_revoked_at := t\<rparr>) = authority_limit c q" for c q t
    by (cases c; simp)+
  then have upd: "renewal_ok s s1" if "update_authority i (\<lambda>a. a\<lparr>au_state := Z_REVOKED, au_revoked_at := t\<rparr>) s = Inr s1" for s1 t
    by (intro update_authority_ok [OF that]) simp_all
  assume "revoke_authorization clock_ts user i s = Inr (z, s')"
  then show ?thesis
    using upd by (auto simp: revoke_authorization_def poolLock_def need_Inr need_row_Inr and_then_Inr split: if_splits)
qed

lemma revoke_mandate_ok: "revoke_mandate clock_ts user i s = Inr (z, s') \<Longrightarrow> renewal_ok s s'"
proof -
  have upd: "renewal_ok s s1" if "update_mandate i (\<lambda>m. m\<lparr>pm_state := Z_REVOKED, pm_revoked_at := t\<rparr>) s = Inr s1" for s1 t
    by (intro update_mandate_ok [OF that]) simp_all
  assume "revoke_mandate clock_ts user i s = Inr (z, s')"
  then show ?thesis
    using upd by (auto simp: revoke_mandate_def poolLock_def need_Inr need_row_Inr and_then_Inr split: if_splits)
qed

text \<open>A loop of steps is a step.\<close>

lemma each_ok:
  assumes "each f xs s = Inr s'" and "\<And>x t t'. f x t = Inr t' \<Longrightarrow> renewal_ok t t'"
  shows "renewal_ok s s'"
  using each_keeps [OF assms(1), of "renewal_ok s"] assms(2) renewal_ok_trans by force

lemma accept_mandate_ok: "accept_mandate x l m s = Inr s' \<Longrightarrow> renewal_ok s s'"
  by (auto simp: accept_mandate_def and_then_Inr split: option.splits dest: on_base_ok)

lemma use_demand_ok: "use_demand sha x l evidence s = Inr s' \<Longrightarrow> renewal_ok s s'"
  by (auto simp: use_demand_def insert_demand_def and_then_Inr insert_row_Inr split: option.splits if_splits
      intro!: renewal_ok_same)

text \<open>The statements of a renewal that returned.\<close>

lemma renew_window_Inr:
  assumes "renew_window sha x p a g src r ms evidence s = Inr (st, s')"
  obtains creator l s1 s2 s3 s4 s5 where "lookup u_id (cp_creator_id p) (users (base s)) = Some creator"
    "on_base (offer_window sha (at_lease_id x, at_journal_id x, at_incident_id x) (at_date_now x) (at_tx_now x) creator (cp_id p)
       \<lparr>wq_group_key = cg_group_key g, wq_source = src, wq_reason = renewal_reason a, wq_idempotency_key = at_key x\<rparr>
       \<lparr>wo_eligible = Some [cr_route_id r], wo_renewal = Some (renewal_json a ms), wo_expansion = map_option fst evidence\<rparr>) s =
       Inr (l, s1)"
    "each (accept_mandate x l) ms s1 = Inr s2"
    "insert_run (at_clock_ts x) \<lparr>rw_lease_id = rl_id l, rw_authorization_id = au_id a, rw_sequence = au_windows_used a + 1,
       rw_source = src, rw_committed_microtu = group_cost g\<rparr> s2 = Inr s3"
    "each (use_mandate x l) ms s3 = Inr s4" "use_demand sha x l evidence s4 = Inr s5"
    "\<exists>md. note_renewal (at_clock_ts x) a ''RENEWED'' md s5 = Inr (st, s')"
    "usage_complete (rl_id l) s'" "expansion_complete (rl_id l) s'"
proof -
  obtain creator where c: "lookup u_id (cp_creator_id p) (users (base s)) = Some creator"
    using assms by (auto simp: renew_window_def split: option.splits)
  note R = assms [unfolded renew_window_def c option.case and_then_Inr]
  from R obtain l s1 where 1: "on_base (offer_window sha (at_lease_id x, at_journal_id x, at_incident_id x) (at_date_now x)
       (at_tx_now x) creator (cp_id p)
       \<lparr>wq_group_key = cg_group_key g, wq_source = src, wq_reason = renewal_reason a, wq_idempotency_key = at_key x\<rparr>
       \<lparr>wo_eligible = Some [cr_route_id r], wo_renewal = Some (renewal_json a ms), wo_expansion = map_option fst evidence\<rparr>) s =
       Inr (l, s1)" by fastforce
  note R1 = R [unfolded 1, simplified]
  show thesis using R1 by (auto simp: and_then_Inr split: if_splits intro: that [OF c 1])
qed

lemma renew_window_ok: "renew_window sha x p a g src r ms evidence s = Inr (st, s') \<Longrightarrow> renewal_ok s s'"
proof (elim renew_window_Inr exE)
  fix creator l s1 s2 s3 s4 s5 md
  assume "on_base (offer_window sha (at_lease_id x, at_journal_id x, at_incident_id x) (at_date_now x) (at_tx_now x) creator (cp_id p)
       \<lparr>wq_group_key = cg_group_key g, wq_source = src, wq_reason = renewal_reason a, wq_idempotency_key = at_key x\<rparr>
       \<lparr>wo_eligible = Some [cr_route_id r], wo_renewal = Some (renewal_json a ms), wo_expansion = map_option fst evidence\<rparr>) s =
       Inr (l, s1)"
    and "each (accept_mandate x l) ms s1 = Inr s2"
    and "insert_run (at_clock_ts x) \<lparr>rw_lease_id = rl_id l, rw_authorization_id = au_id a, rw_sequence = au_windows_used a + 1,
       rw_source = src, rw_committed_microtu = group_cost g\<rparr> s2 = Inr s3"
    and "each (use_mandate x l) ms s3 = Inr s4" "use_demand sha x l evidence s4 = Inr s5"
    and "note_renewal (at_clock_ts x) a ''RENEWED'' md s5 = Inr (st, s')"
  note R = this
  have "renewal_ok s s1" by (rule on_base_ok [OF R(1)])
  also have "renewal_ok s1 s2" by (rule each_ok [OF R(2) accept_mandate_ok])
  finally (renewal_ok_trans) have "renewal_ok s s2" .
  also have "renewal_ok s2 s3" by (rule insert_run_ok [OF R(3)])
  finally (renewal_ok_trans) have "renewal_ok s s3" .
  also have "renewal_ok s3 s4" by (rule each_ok [OF R(4)]) (auto simp: use_mandate_def dest: insert_usage_ok)
  finally (renewal_ok_trans) have "renewal_ok s s4" .
  also have "renewal_ok s4 s5" by (rule use_demand_ok [OF R(5)])
  finally (renewal_ok_trans) have "renewal_ok s s5" .
  also have "renewal_ok s5 s'" by (rule note_renewal_ok [OF R(6)])
  finally (renewal_ok_trans) show ?thesis .
qed

lemma attempt_window_ok: "attempt_window sha x p a g s = Inr (st, s') \<Longrightarrow> renewal_ok s s'"
  unfolding attempt_window_def Let_def
  by (auto simp: and_then_Inr split: if_splits option.splits dest: note_renewal_ok renew_window_ok)

lemma attempt_renewal_ok: "attempt_renewal sha x i s = Inr (st, s') \<Longrightarrow> renewal_ok s s'"
  unfolding attempt_renewal_def
  by (auto simp: poolLock_def need_Inr need_row_Inr split: if_splits option.splits
      dest: note_renewal_ok close_authority_ok attempt_window_ok)

lemma retry_pending_ok: "retry_pending clock_ts e i s = Inr (st, s') \<Longrightarrow> renewal_ok s s'"
  unfolding retry_pending_def
  by (auto simp: poolLock_def need_row_Inr split: if_splits option.splits dest: note_renewal_ok)

section \<open>Every reachable database\<close>

text \<open>
  A step: an operation of \<open>renewals.ts\<close> that committed, or a statement that does not touch its four
  tables, whatever it does to the rest of the database.
\<close>

inductive renewal_step :: "(string \<Rightarrow> string) \<Rightarrow> fund_db \<Rightarrow> fund_db \<Rightarrow> bool" for sha where
  authorized: "authorize_renewal sha i date_now tx_now clock_ts user pool d s = Inr (a, s') \<Longrightarrow> renewal_step sha s s'"
| mandated: "mandate_renewals sha i date_now tx_now user pool q s = Inr (m, s') \<Longrightarrow> renewal_step sha s s'"
| fund_revoked: "revoke_authorization clock_ts user i s = Inr (z, s') \<Longrightarrow> renewal_step sha s s'"
| provider_revoked: "revoke_mandate clock_ts user i s = Inr (z, s') \<Longrightarrow> renewal_step sha s s'"
| attempted: "attempt_renewal sha x i s = Inr (st, s') \<Longrightarrow> renewal_step sha s s'"
| retried: "retry_pending clock_ts e i s = Inr (st, s') \<Longrightarrow> renewal_step sha s s'"
| expired: "renewal_step sha s (expire_mandates P tx_now s)"
| elsewhere: "authorities s' = authorities s \<Longrightarrow> runs s' = runs s \<Longrightarrow> mandates s' = mandates s \<Longrightarrow> usages s' = usages s \<Longrightarrow>
    renewal_step sha s s'"

inductive_cases renewal_stepE: "renewal_step sha s s'"

lemmas renewal_handlers_ok = authorize_renewal_ok mandate_renewals_ok revoke_authorization_ok revoke_mandate_ok
  attempt_renewal_ok retry_pending_ok

lemma renewal_step_ok: "renewal_step sha s s' \<Longrightarrow> renewal_ok s s'"
  by (elim renewal_stepE) (auto simp: expire_mandates_ok intro: renewal_handlers_ok renewal_ok_same)

lemma renewal_steps_ok: "(renewal_step sha)\<^sup>*\<^sup>* s s' \<Longrightarrow> renewal_ok s s'"
  by (rule rtranclp_keeps [of "renewal_step sha" s s' "renewal_ok s"])
    (auto intro: renewal_ok_trans renewal_step_ok)

definition no_renewals :: "fund_db \<Rightarrow> bool" where
  "no_renewals s \<longleftrightarrow> authorities s = [] \<and> runs s = [] \<and> mandates s = [] \<and> usages s = []"

definition runs_of :: "uuid \<Rightarrow> fund_db \<Rightarrow> renewal_run list" where
  "runs_of i s = filter (\<lambda>r. rw_authorization_id r = i) (runs s)"

definition usages_of :: "uuid \<Rightarrow> fund_db \<Rightarrow> mandate_usage list" where
  "usages_of i s = filter (\<lambda>u. mu_mandate_id u = i) (usages s)"

definition committed_from :: "funding_source \<Rightarrow> renewal_run list \<Rightarrow> int" where
  "committed_from src rs = sum_list (map rw_committed_microtu (filter (\<lambda>r. rw_source r = src) rs))"

lemma spent_runs:
  "spent rw_authorization_id (run_weight Windows) i (runs s) = int (length (runs_of i s))"
  "spent rw_authorization_id (run_weight Working) i (runs s) = committed_from From_WORKING (runs_of i s)"
  "spent rw_authorization_id (run_weight Reserve) i (runs s) = committed_from From_RESERVE (runs_of i s)"
proof -
  have "sum_list (map (run_weight Windows) (filter (\<lambda>r. rw_authorization_id r = i) rs)) =
      int (length (filter (\<lambda>r. rw_authorization_id r = i) rs))"
    "sum_list (map (run_weight Working) (filter (\<lambda>r. rw_authorization_id r = i) rs)) =
      committed_from From_WORKING (filter (\<lambda>r. rw_authorization_id r = i) rs)"
    "sum_list (map (run_weight Reserve) (filter (\<lambda>r. rw_authorization_id r = i) rs)) =
      committed_from From_RESERVE (filter (\<lambda>r. rw_authorization_id r = i) rs)" for rs
    by (induction rs) (simp_all add: committed_from_def)
  then show "spent rw_authorization_id (run_weight Windows) i (runs s) = int (length (runs_of i s))"
    "spent rw_authorization_id (run_weight Working) i (runs s) = committed_from From_WORKING (runs_of i s)"
    "spent rw_authorization_id (run_weight Reserve) i (runs s) = committed_from From_RESERVE (runs_of i s)"
    by (simp_all add: spent_def runs_of_def)
qed

lemma spent_usages: "spent mu_mandate_id (\<lambda>_. 1) i (usages s) = int (length (usages_of i s))"
  by (simp add: spent_def usages_of_def sum_list_triv)

definition renewals_counted :: "fund_db \<Rightarrow> bool" where
  "renewals_counted s \<longleftrightarrow>
     counted au_id authority_used authority_limit rw_authorization_id run_weight (authorities s) (runs s) \<and>
     counted pm_id (\<lambda>_::unit. pm_windows_used) (\<lambda>_. pm_maximum_windows) mu_mandate_id (\<lambda>_ _. 1) (mandates s) (usages s)"

lemma reachable_counted: "(renewal_step sha)\<^sup>*\<^sup>* s0 s \<Longrightarrow> no_renewals s0 \<Longrightarrow> renewals_counted s"
proof -
  assume steps: "(renewal_step sha)\<^sup>*\<^sup>* s0 s" and none: "no_renewals s0"
  have "counted au_id authority_used authority_limit rw_authorization_id run_weight (authorities s0) (runs s0)"
    "counted pm_id (\<lambda>_::unit. pm_windows_used) (\<lambda>_. pm_maximum_windows) mu_mandate_id (\<lambda>_ _. 1) (mandates s0) (usages s0)"
    using none by (simp_all add: no_renewals_def counted_def keyed_def)
  moreover note R = renewal_steps_ok [OF steps, unfolded renewal_ok_def]
  ultimately show ?thesis
    using au.advances_counted [OF conjunct1 [OF R]] pm.advances_counted [OF conjunct2 [OF R]] by (simp add: renewals_counted_def)
qed

text \<open>
  C7: in every reachable database the counters of a fund's authorization are exactly the number of the
  windows that were renewed under it and the gross amounts they committed from each source, and none
  of them exceeds what was authorized; the counter of a provider's mandate is exactly the number of
  windows it was used for, within what the provider signed. This holds whatever happens to the other
  tables in between: cancellations, refunds and settlements do not give a limit back.
\<close>

theorem renewals_within_authority:
  assumes "(renewal_step sha)\<^sup>*\<^sup>* s0 s" and "no_renewals s0"
  shows "(\<forall>a \<in> set (authorities s).
      au_windows_used a = int (length (runs_of (au_id a) s)) \<and> au_windows_used a \<le> au_maximum_windows a \<and>
      au_working_committed_microtu a = committed_from From_WORKING (runs_of (au_id a) s) \<and>
      au_working_committed_microtu a \<le> au_maximum_working_microtu a \<and>
      au_reserve_committed_microtu a = committed_from From_RESERVE (runs_of (au_id a) s) \<and>
      au_reserve_committed_microtu a \<le> au_maximum_reserve_microtu a) \<and>
    (\<forall>m \<in> set (mandates s). pm_windows_used m = int (length (usages_of (pm_id m) s)) \<and>
      pm_windows_used m \<le> pm_maximum_windows m)"
proof -
  note C = reachable_counted [OF assms, unfolded renewals_counted_def]
  note A = countedD(2,3) [OF conjunct1 [OF C]] and M = countedD(2,3) [OF conjunct2 [OF C]]
  show ?thesis
    using A(1) [of _ Windows] A(1) [of _ Working] A(1) [of _ Reserve] A(2) [of _ Windows] A(2) [of _ Working] A(2) [of _ Reserve] M
    unfolding spent_runs spent_usages by simp
qed

text \<open>
  C15: an authorization or mandate that was revoked, expired or exhausted stays so for good: in every
  later database it has the same state and counters, no window was renewed under the authorization
  since, and the mandate was used for no other window.
\<close>

theorem closed_authority_is_final:
  assumes "(renewal_step sha)\<^sup>*\<^sup>* s0 s" and "no_renewals s0" and "(renewal_step sha)\<^sup>*\<^sup>* s s'"
  shows "(\<forall>a \<in> set (authorities s). au_state a \<noteq> Z_ACTIVE \<longrightarrow>
      (\<exists>b \<in> set (authorities s'). au_id b = au_id a \<and> au_state b = au_state a \<and> au_windows_used b = au_windows_used a) \<and>
      runs_of (au_id a) s' = runs_of (au_id a) s) \<and>
    (\<forall>m \<in> set (mandates s). pm_state m \<noteq> Z_ACTIVE \<longrightarrow>
      (\<exists>n \<in> set (mandates s'). pm_id n = pm_id m \<and> pm_state n = pm_state m \<and> pm_windows_used n = pm_windows_used m) \<and>
      usages_of (pm_id m) s' = usages_of (pm_id m) s)"
proof -
  note C = reachable_counted [OF assms(1,2), unfolded renewals_counted_def] and R = renewal_steps_ok [OF assms(3)]
  have A: "kept au_id authority_used au_state live_state rw_authorization_id (authorities s, runs s) (authorities s', runs s')"
    and M: "kept pm_id (\<lambda>_::unit. pm_windows_used) pm_state live_state mu_mandate_id (mandates s, usages s) (mandates s', usages s')"
    using C R by (simp_all add: renewal_ok_def au.advances_def pm.advances_def)
  show ?thesis
  proof (intro conjI ballI impI)
    fix a assume a: "a \<in> set (authorities s)" "au_state a \<noteq> Z_ACTIVE"
    note K = keptD [OF A a(1)]
    show "runs_of (au_id a) s' = runs_of (au_id a) s" using K(2) a(2) by (simp add: runs_of_def live_state_def)
    obtain b where "b \<in> set (authorities s')" "au_id b = au_id a" "au_state b = au_state a"
      and "\<forall>c. authority_used c b = authority_used c a" using K(1) a(2) by (auto simp: live_state_def)
    then show "\<exists>b \<in> set (authorities s'). au_id b = au_id a \<and> au_state b = au_state a \<and> au_windows_used b = au_windows_used a"
      by (metis authority_used.simps(1))
  next
    fix m assume m: "m \<in> set (mandates s)" "pm_state m \<noteq> Z_ACTIVE"
    note K = keptD [OF M m(1)]
    show "usages_of (pm_id m) s' = usages_of (pm_id m) s" using K(2) m(2) by (simp add: usages_of_def live_state_def)
    show "\<exists>n \<in> set (mandates s'). pm_id n = pm_id m \<and> pm_state n = pm_state m \<and> pm_windows_used n = pm_windows_used m"
      using K(1) m(2) by (auto simp: live_state_def)
  qed
qed

section \<open>Witnesses\<close>

lemma solo_reaches:
  assumes "solo_renewed = Inr (st, s)"
  shows "(renewal_step solo_sha)\<^sup>*\<^sup>* solo_db s" and "no_renewals solo_db"
proof -
  have "renewal_step solo_sha solo_db solo_authorized" by (rule renewal_step.authorized [OF solo_authorizes])
  moreover have "renewal_step solo_sha solo_authorized solo_ready" by (rule renewal_step.mandated [OF solo_mandates])
  moreover have "renewal_step solo_sha solo_ready s" by (rule renewal_step.attempted [OF assms [unfolded solo_renewed_def]])
  ultimately show "(renewal_step solo_sha)\<^sup>*\<^sup>* solo_db s" by (meson converse_rtranclp_into_rtranclp r_into_rtranclp)
  show "no_renewals solo_db" by (simp add: no_renewals_def solo_db_simps)
qed

theorem renewals_within_authority_witness:
  "\<exists>s. (renewal_step solo_sha)\<^sup>*\<^sup>* solo_db s \<and> solo_outcome s \<and>
     (\<forall>a \<in> set (authorities s). int (length (runs_of (au_id a) s)) = 1 \<and> committed_from From_RESERVE (runs_of (au_id a) s) = 6000)"
proof -
  obtain s where s: "solo_renewed = Inr (''RENEWED'', s)" "solo_outcome s" using solo_renews by (auto simp: returns_iff)
  note R = solo_reaches [OF s(1)]
  have "\<forall>a \<in> set (authorities s). au_windows_used a = 1 \<and> au_reserve_committed_microtu a = 6000"
    using s(2) by (auto simp: solo_outcome_def)
  then show ?thesis
    using R(1) s(2) conjunct1 [OF renewals_within_authority [OF R]] by (intro exI [of _ s]) auto
qed

theorem closed_authority_is_final_witness:
  "\<exists>s s'. solo_renewed = Inr (''RENEWED'', s) \<and> s' = expire_mandates (\<lambda>_. True) 6000000 s \<and>
     (\<forall>m \<in> set (mandates s). \<exists>n \<in> set (mandates s'). pm_id n = pm_id m \<and> pm_state n = Z_EXHAUSTED \<and> pm_windows_used n = 1)"
proof -
  obtain s where s: "solo_renewed = Inr (''RENEWED'', s)" "solo_outcome s" using solo_renews by (auto simp: returns_iff)
  have m: "pm_state m = Z_EXHAUSTED \<and> pm_windows_used m = 1" if "m \<in> set (mandates s)" for m
    using s(2) that by (auto simp: solo_outcome_def)
  have "(renewal_step solo_sha)\<^sup>*\<^sup>* s (expire_mandates (\<lambda>_. True) 6000000 s)" by (intro r_into_rtranclp renewal_step.expired)
  note F = conjunct2 [OF closed_authority_is_final [OF solo_reaches [OF s(1)] this]]
  have "\<exists>n \<in> set (mandates (expire_mandates (\<lambda>_. True) 6000000 s)). pm_id n = pm_id q \<and> pm_state n = Z_EXHAUSTED \<and> pm_windows_used n = 1"
    if q: "q \<in> set (mandates s)" for q
  proof -
    have "pm_state q \<noteq> Z_ACTIVE" using m [OF q] by simp
    with F q m [OF q] show ?thesis by fastforce
  qed
  with s(1) show ?thesis by blast
qed

end
