(* ===== verification/Route_Leases_Money.thy ===== *)
theory Route_Leases_Money
  imports Route_Leases
begin

text \<open>
  What the route contracts keep: each member is paid the floor of its credited share, the escrow
  holds the rest, and the domains of running contracts are claimed. Every call is shown to keep
  this, and to move exactly the credits that its observation earned.
\<close>

section \<open>Payments in several lines\<close>

context funded_contract
begin

lemma holds_pay_lines:
  assumes "holds L i rest c True" and "c < c'" and "escrow i \<notin> fst ` set ls"
    and "pst j (payment i c') kind (ls @ [(escrow i, - v)]) md L = Inr (j', L')"
  shows "holds L' i (rest - v) c' True"
    and "a \<noteq> escrow i \<Longrightarrow> bl L' a = bl L a + entry_sum a ls"
    and "sum_list (map snd ls) = v"
proof -
  have fresh: "payment i c' \<notin> used L" using assms(1,2) by (auto simp: holds_def not_le)
  have z: "entry_sum (escrow i) ls = 0"
    using assms(3) by (induction "escrow i" ls rule: entry_sum.induct) auto
  have "bl L' (escrow i) = rest - v"
    using moves [OF fresh assms(4), of "escrow i"] assms(1) z by (simp add: holds_def)
  moreover have "n \<le> c'" if "payment i n \<in> used L'" for n
    using that records [OF assms(4)] assms(1,2) payment_inj [of i n i c'] by (force simp: holds_def)
  moreover have "refund i \<notin> used L'"
    using records [OF assms(4)] assms(1) payment_refund [of i c' i] by (auto simp: holds_def)
  ultimately show "holds L' i (rest - v) c' True" by (simp add: holds_def)
  show "bl L' a = bl L a + entry_sum a ls" if "a \<noteq> escrow i"
    using moves [OF fresh assms(4), of a] that by simp
  show "sum_list (map snd ls) = v" using zero_sum [OF fresh assms(4)] by simp
qed

end

lemma keys_not_digit [simp]: "\<not> is_digit (CHR ''w'')" "\<not> is_digit (CHR ''k'')"
  by (simp_all add: is_digit_def)

interpretation rl: funded_contract post bal posted route_escrow "\<lambda>i n. route_payment i (int n)" route_refund
proof unfold_locales
  show "route_escrow i = route_escrow k \<Longrightarrow> i = k" for i k by (simp add: route_escrow_def)
  show "route_payment i (int m) = route_payment k (int n) \<Longrightarrow> i = k \<and> m = n" for i m k n
    by (simp add: route_payment_def pay_key_inj)
  show "route_refund i = route_refund k \<Longrightarrow> i = k" for i k by (simp add: route_refund_def)
  show "route_payment i (int m) \<noteq> route_refund k" for i m k
    using pay_key_neq(1) [of "int m" "'':refund''" "''route-lease:''" i "''route-lease:'' @ k"]
    by (simp add: route_payment_def route_refund_def)
qed

lemma route_escrow_neq [simp, acct_neq]:
  "route_escrow i \<noteq> availableAccount u" "availableAccount u \<noteq> route_escrow i"
  by (simp_all add: route_escrow_def availableAccount_def)

lemma route_escrow_refund [simp, acct_neq]: "route_escrow i \<noteq> refund_account row" "refund_account row \<noteq> route_escrow i"
  by (auto simp: refund_account_def route_escrow_def availableAccount_def split: option.splits)

lemma route_fund_neq [simp, key_neq]:
  "route_payment i (int n) \<noteq> route_fund k" "route_refund i \<noteq> route_fund k"
proof -
  show "route_payment i (int n) \<noteq> route_fund k"
    using pay_key_neq(1) [of "int n" "'':fund''" "''route-lease:''" i "''route-lease:'' @ k"]
    by (simp add: route_payment_def route_fund_def)
  show "route_refund i \<noteq> route_fund k"
  proof
    assume "route_refund i = route_fund k"
    then have "(i @ '':re'') @ ''fund'' = (k @ '':'') @ ''fund''" by (simp add: route_refund_def route_fund_def)
    then have "(i @ '':r'') @ ''e'' = k @ '':''" by simp
    then show False using last_appendR [of "''e''" "i @ '':r''"] last_appendR [of "'':''" k] by simp
  qed
qed

lemma route_fund_inj: "route_fund i = route_fund k \<longleftrightarrow> i = k"
  by (simp add: route_fund_def)

lemma route_event_simps [simp]:
  "rt_leases (route_event i k md s) = rt_leases s" "rt_members (route_event i k md s) = rt_members s"
  "rt_acceptances (route_event i k md s) = rt_acceptances s"
  "ledger (route_event i k md s) = ledger s" "domain_claims (route_event i k md s) = domain_claims s"
  "nodes (route_event i k md s) = nodes s" "models (route_event i k md s) = models s"
  "users (route_event i k md s) = users s" "routes (route_event i k md s) = routes s"
  "route_acceptances (route_event i k md s) = route_acceptances s" "route_members (route_event i k md s) = route_members s"
  by (simp_all add: route_event_def)

section \<open>The invariant\<close>

text \<open>The foreign keys that an observation joins along.\<close>

definition refs_ok :: "db \<Rightarrow> bool" where
  "refs_ok s \<longleftrightarrow>
     (\<forall>m \<in> set (rt_members s). lookup n_id (lm_node_id m) (nodes s) \<noteq> None \<and>
        lookup u_id (lm_provider_id m) (users s) \<noteq> None) \<and>
     (\<forall>n \<in> set (nodes s). lookup m_id (n_model_id n) (models s) \<noteq> None)"

definition member_row_ok :: "route_lease \<Rightarrow> lease_member \<Rightarrow> bool" where
  "member_row_ok r m \<longleftrightarrow> lease_member_check m \<and>
     lm_paid_microtu m = lm_credited_ms m * lm_maximum_microtu m div (rl_duration_seconds r * 1000) \<and>
     lm_credited_ms m \<le> rl_duration_seconds r * 1000 \<and> (rl_state r = L_OFFERED \<longrightarrow> lm_credited_ms m = 0)"

definition timed_ok :: "route_lease \<Rightarrow> lease_member list \<Rightarrow> bool" where
  "timed_ok r ms \<longleftrightarrow> (running (rl_state r) \<longrightarrow>
     (\<exists>t k. rl_started_ms r = Some t \<and> rl_sample_ms r = Some k \<and>
        rl_ends_ms r = Some (t + rl_duration_seconds r * 1000) \<and> t \<le> k \<and> k \<le> t + rl_duration_seconds r * 1000 \<and>
        rl_joint_ready_ms r \<le> k - t \<and> (\<forall>m \<in> set ms. lm_credited_ms m \<le> k - t)))"

definition route_row_ok :: "route_lease \<Rightarrow> lease_member list \<Rightarrow> bool" where
  "route_row_ok r ms \<longleftrightarrow>
     route_lease_check r \<and> rl_escrow_account r = route_escrow (rl_id r) \<and>
     sum_list (map lm_maximum_microtu ms) = rl_budget_microtu r \<and>
     sum_list (map lm_paid_microtu ms) = rl_paid_microtu r \<and>
     list_all (member_row_ok r) ms \<and> (rl_state r = L_OFFERED \<longrightarrow> rl_joint_ready_ms r = 0) \<and> timed_ok r ms"

definition route_escrow_ok :: "ledger \<Rightarrow> route_lease \<Rightarrow> bool" where
  "route_escrow_ok L r \<longleftrightarrow>
     rl.holds L (rl_id r) (if funded (rl_state r) then rl_budget_microtu r - rl_paid_microtu r else 0)
       (nat (rl_paid_microtu r)) (funded (rl_state r))"

definition route_claims_ok :: "db \<Rightarrow> bool" where
  "route_claims_ok s \<longleftrightarrow> keyed fst (domain_claims s) \<and>
     (\<forall>d i. (d, Route_lease i) \<in> set (domain_claims s) \<longleftrightarrow>
        (\<exists>r \<in> set (rt_leases s). rl_id r = i \<and> running (rl_state r) \<and> d \<in> set (lease_domains i s)))"

definition route_keys_ok :: "db \<Rightarrow> bool" where
  "route_keys_ok s \<longleftrightarrow> (\<forall>i. i \<notin> rl_id ` set (rt_leases s) \<longrightarrow>
     route_fund i \<notin> posted (ledger s) \<and> route_refund i \<notin> posted (ledger s) \<and>
     (\<forall>n. route_payment i (int n) \<notin> posted (ledger s)) \<and> lease_members i s = [])"

definition routes_ok :: "db \<Rightarrow> bool" where
  "routes_ok s \<longleftrightarrow>
     keyed rl_id (rt_leases s) \<and> keyed lease_member_key (rt_members s) \<and> refs_ok s \<and>
     (\<forall>r \<in> set (rt_leases s). route_row_ok r (lease_members (rl_id r) s) \<and> route_escrow_ok (ledger s) r) \<and>
     route_claims_ok s \<and> route_keys_ok s"

lemma routes_okD:
  assumes "routes_ok s" and "lookup rl_id i (rt_leases s) = Some r"
  shows "r \<in> set (rt_leases s)" and "rl_id r = i" and "keyed rl_id (rt_leases s)"
    and "keyed lease_member_key (rt_members s)" and "refs_ok s"
    and "route_row_ok r (lease_members i s)" and "route_escrow_ok (ledger s) r" and "route_lease_check r"
    and "route_claims_ok s" and "route_keys_ok s"
  using assms lookup_SomeD [OF assms(2)] by (auto simp: routes_ok_def route_row_ok_def)

section \<open>Loops over the members\<close>

lemma members_set: "m \<in> set (lease_members i s) \<longleftrightarrow> m \<in> set (rt_members s) \<and> lm_lease_id m = i"
  by (auto simp: lease_members_def)

lemma sort_key_map: "(\<And>x. k (g x) = k x) \<Longrightarrow> sort_key k (map g xs) = map g (sort_key k xs)"
proof (induction xs)
  case (Cons x xs)
  have "insort_key k (g x) (map g ys) = map g (insort_key k x ys)" for ys
    by (induction ys) (simp_all add: Cons.prems)
  then show ?case using Cons by simp
qed simp

definition keeps_key :: "(lease_member \<Rightarrow> lease_member \<Rightarrow> lease_member) \<Rightarrow> bool" where
  "keeps_key f \<longleftrightarrow> (\<forall>m r. lease_member_key (f m r) = lease_member_key r \<and> lm_ordinal (f m r) = lm_ordinal r \<and>
     lm_provider_id (f m r) = lm_provider_id r \<and> lm_resource_domain_id (f m r) = lm_resource_domain_id r \<and>
     lm_maximum_microtu (f m r) = lm_maximum_microtu r \<and> lm_share_bps (f m r) = lm_share_bps r)"

lemma keeps_keyD:
  assumes "keeps_key f"
  shows "lease_member_key (f m r) = lease_member_key r" "lm_ordinal (f m r) = lm_ordinal r"
    "lm_provider_id (f m r) = lm_provider_id r" "lm_resource_domain_id (f m r) = lm_resource_domain_id r"
    "lm_maximum_microtu (f m r) = lm_maximum_microtu r" "lm_share_bps (f m r) = lm_share_bps r"
    "lm_lease_id (f m r) = lm_lease_id r" "lm_node_id (f m r) = lm_node_id r"
  using assms by (auto simp: keeps_key_def lease_member_key_def)

text \<open>A loop that updates each of the given rows from itself.\<close>

lemma member_loop:
  assumes "each (\<lambda>m. update_lease_member i (lm_node_id m) (f m)) ms s = Inr s'"
    and "keyed lease_member_key (rt_members s)" and "set ms \<subseteq> set (rt_members s)" and "distinct ms"
    and "\<forall>m \<in> set ms. lm_lease_id m = i" and f: "keeps_key f"
  shows "s' = s\<lparr>rt_members := map (\<lambda>m. if m \<in> set ms then f m m else m) (rt_members s)\<rparr> \<and>
    (\<forall>m \<in> set ms. lease_member_check (f m m))"
  using assms(1-5)
proof (induction ms arbitrary: s)
  case Nil
  then show ?case by (simp add: map_idI)
next
  case (Cons m ms)
  let ?T = "rt_members s"
  let ?g = "\<lambda>x. if x = m then f m m else x"
  have m: "m \<in> set ?T" "lm_lease_id m = i" using Cons.prems by auto
  have k: "lease_member_key m = (i, lm_node_id m)" using m(2) by (simp add: lease_member_key_def)
  have look: "lookup lease_member_key (i, lm_node_id m) ?T = Some m"
    using keyed_lookup [OF Cons.prems(2) m(1)] by (simp add: k)
  have upd: "update_row lease_member_key (i, lm_node_id m) (f m) ?T = map ?g ?T"
  proof -
    have "lease_member_key x = lease_member_key m \<longleftrightarrow> x = m" if "x \<in> set ?T" for x
      using keyed_unique [OF Cons.prems(2) that m(1)] by auto
    then show ?thesis by (auto simp: update_row_def k)
  qed
  obtain s1 where s1: "update_lease_member i (lm_node_id m) (f m) s = Inr s1"
    and rest: "each (\<lambda>m. update_lease_member i (lm_node_id m) (f m)) ms s1 = Inr s'"
    using Cons.prems(1) by (auto simp: res_Inr)
  have chk: "lease_member_check (f m m)" and s1': "s1 = s\<lparr>rt_members := map ?g ?T\<rparr>"
    using s1 by (auto simp: update_lease_member_def look upd split: if_splits)
  have g: "lease_member_key (?g x) = lease_member_key x" for x using keeps_keyD(1) [OF f] by simp
  have k1: "keyed lease_member_key (rt_members s1)"
    using Cons.prems(2) by (simp add: s1' keyed_def o_def g)
  have sub: "set ms \<subseteq> set (rt_members s1)" using Cons.prems(3,4) by (auto simp: s1')
  have new: "f m m \<notin> set ms"
  proof
    assume a: "f m m \<in> set ms"
    then have "f m m \<in> set ?T" using Cons.prems(3) by auto
    then have "f m m = m" using keyed_unique [OF Cons.prems(2) _ m(1)] keeps_keyD(1) [OF f] by blast
    then show False using a Cons.prems(4) by simp
  qed
  have dis: "distinct ms" and ids: "\<forall>m \<in> set ms. lm_lease_id m = i" using Cons.prems(4,5) by auto
  from Cons.IH [OF rest k1 sub dis ids]
  have IH: "s' = s1\<lparr>rt_members := map (\<lambda>m. if m \<in> set ms then f m m else m) (rt_members s1)\<rparr>"
    "\<forall>m \<in> set ms. lease_member_check (f m m)" by blast+
  have "map (\<lambda>x. if x \<in> set ms then f x x else x) (map ?g ?T) = map (\<lambda>x. if x \<in> set (m # ms) then f x x else x) ?T"
    using new Cons.prems(4) by auto
  then show ?case using IH chk by (simp add: s1')
qed

lemma members_after:
  assumes f: "keeps_key f"
  shows "lease_members k (s\<lparr>rt_members := map (\<lambda>m. if lm_lease_id m = i then f m m else m) (rt_members s)\<rparr>)
    = (if k = i then map (\<lambda>m. f m m) (lease_members i s) else lease_members k s)"
proof -
  let ?g = "\<lambda>m. if lm_lease_id m = i then f m m else m"
  note K = keeps_keyD [OF f]
  have "filter (\<lambda>m. lm_lease_id m = k) (map ?g T) = map ?g (filter (\<lambda>m. lm_lease_id m = k) T)" for T
    by (induction T) (auto simp: K)
  then have "lease_members k (s\<lparr>rt_members := map ?g (rt_members s)\<rparr>)
      = sort_key lm_ordinal (map ?g (filter (\<lambda>m. lm_lease_id m = k) (rt_members s)))"
    by (simp add: lease_members_def)
  also have "\<dots> = map ?g (lease_members k s)"
    unfolding lease_members_def by (rule sort_key_map) (simp add: K)
  also have "\<dots> = (if k = i then map (\<lambda>m. f m m) (lease_members i s) else lease_members k s)"
    by (auto simp: members_set intro!: map_idI map_cong)
  finally show ?thesis .
qed

lemma lease_members_distinct: "keyed lease_member_key (rt_members s) \<Longrightarrow> distinct (lease_members i s)"
  by (auto simp: lease_members_def keyed_def distinct_map)

text \<open>The whole loop over the members of one lease.\<close>

lemma lease_loop:
  assumes "each (\<lambda>m. update_lease_member i (lm_node_id m) (f m)) (lease_members i s) s = Inr s'"
    and "keyed lease_member_key (rt_members s)" and f: "keeps_key f"
  shows "s' = s\<lparr>rt_members := map (\<lambda>m. if lm_lease_id m = i then f m m else m) (rt_members s)\<rparr>"
    and "\<forall>m \<in> set (lease_members i s). lease_member_check (f m m)"
    and "keyed lease_member_key (rt_members s')"
    and "lease_members k s' = (if k = i then map (\<lambda>m. f m m) (lease_members i s) else lease_members k s)"
proof -
  have L: "s' = s\<lparr>rt_members := map (\<lambda>m. if m \<in> set (lease_members i s) then f m m else m) (rt_members s)\<rparr> \<and>
    (\<forall>m \<in> set (lease_members i s). lease_member_check (f m m))"
    by (rule member_loop [OF assms(1,2) _ lease_members_distinct [OF assms(2)] _ f]) (auto simp: members_set)
  then show s': "s' = s\<lparr>rt_members := map (\<lambda>m. if lm_lease_id m = i then f m m else m) (rt_members s)\<rparr>"
    by (auto simp: members_set intro!: db.fold_congs)
  show "\<forall>m \<in> set (lease_members i s). lease_member_check (f m m)" using L by blast
  show "keyed lease_member_key (rt_members s')"
    using assms(2) keeps_keyD(1) [OF f] by (simp add: s' keyed_def o_def if_distrib cong: if_cong)
  show "lease_members k s' = (if k = i then map (\<lambda>m. f m m) (lease_members i s) else lease_members k s)"
    unfolding s' by (rule members_after [OF f])
qed

section \<open>Updating a lease\<close>

lemma insert_claims:
  assumes "each (\<lambda>d. insert_row fst (d, c)) ds claims = Inr claims'" and "keyed fst claims"
  shows "claims' = claims @ map (\<lambda>d. (d, c)) ds" and "keyed fst claims'"
proof -
  have "claims' = claims @ map (\<lambda>d. (d, c)) ds \<and> keyed fst claims'"
    using assms
  proof (induction ds arbitrary: claims)
    case (Cons d ds)
    then obtain t where t: "fst (d, c) \<notin> fst ` set claims" "t = claims @ [(d, c)]"
      and r: "each (\<lambda>d. insert_row fst (d, c)) ds t = Inr claims'" by (auto simp: res_Inr)
    have "keyed fst t" using Cons.prems(2) t(1) unfolding t(2) by (rule keyed_insert)
    from Cons.IH [OF r this] have E: "claims' = t @ map (\<lambda>d. (d, c)) ds" "keyed fst claims'" by blast+
    show ?case using E by (simp add: t(2))
  qed simp
  then show "claims' = claims @ map (\<lambda>d. (d, c)) ds" "keyed fst claims'" by blast+
qed

lemma update_route_lease_ok:
  assumes upd: "update_route_lease i f s = Inr s'" and old: "lookup rl_id i (rt_leases s) = Some row"
    and base: "keyed rl_id (rt_leases s)" "keyed lease_member_key (rt_members s)" "refs_ok s"
      "route_claims_ok s" "route_keys_ok s"
    and others: "\<And>r. r \<in> set (rt_leases s) \<Longrightarrow> rl_id r \<noteq> i \<Longrightarrow>
      route_row_ok r (lease_members (rl_id r) s) \<and> route_escrow_ok (ledger s) r"
    and new: "route_row_ok (f row) (lease_members i s)" "route_escrow_ok (ledger s) (f row)"
    and id: "\<And>r. rl_id (f r) = rl_id r"
  shows "routes_ok s'" and "lookup rl_id i (rt_leases s') = Some (f row)"
    and "ledger s' = ledger s" and "rt_members s' = rt_members s"
    and "nodes s' = nodes s" "users s' = users s" "models s' = models s"
proof -
  obtain claims where cl: "route_claims row (f row) (lease_domains i s) (domain_claims s) = Inr claims"
    and s': "s' = s\<lparr>rt_leases := update_row rl_id i f (rt_leases s), domain_claims := claims\<rparr>"
    using upd old by (auto simp: update_route_lease_def res_Inr split: if_splits)
  have row: "row \<in> set (rt_leases s)" "rl_id row = i" using lookup_SomeD [OF old] by auto
  have rows: "r \<in> set (rt_leases s') \<longleftrightarrow> (r = f row \<or> r \<in> set (rt_leases s) \<and> rl_id r \<noteq> i)" for r
  proof -
    have "q = row" if "q \<in> set (rt_leases s)" "rl_id q = i" for q
      using keyed_unique [OF base(1) that(1) row(1)] that(2) row(2) by simp
    moreover have "r \<in> set (rt_leases s') \<longleftrightarrow>
        (\<exists>q \<in> set (rt_leases s). (rl_id q = i \<and> r = f q) \<or> (rl_id q \<noteq> i \<and> r = q))"
      by (simp add: s' in_update_row)
    ultimately show ?thesis using row by metis
  qed
  have lm: "lease_members k s' = lease_members k s" for k by (simp add: s' lease_members_def)
  have ld: "lease_domains k s' = lease_domains k s" for k by (simp add: lease_domains_def lm)
  have keyed': "keyed rl_id (rt_leases s')" unfolding s' using base(1) id by (auto intro!: keyed_update)
  have cl_eq: "(d, Route_lease k) \<in> set (domain_claims s) \<longleftrightarrow>
      (\<exists>r \<in> set (rt_leases s). rl_id r = k \<and> running (rl_state r) \<and> d \<in> set (lease_domains k s))"
    and kc: "keyed fst (domain_claims s)" for d k using base(4) by (auto simp: route_claims_ok_def)
  have mine: "(d, Route_lease i) \<in> set (domain_claims s) \<longleftrightarrow> running (rl_state row) \<and> d \<in> set (lease_domains i s)" for d
  proof -
    have "(\<exists>r \<in> set (rt_leases s). rl_id r = i \<and> P r) \<longleftrightarrow> P row" for P
      using row keyed_unique [OF base(1) _ row(1)] by metis
    then show ?thesis unfolding cl_eq [of d i] .
  qed
  have "keyed fst claims \<and> (\<forall>d k. (d, Route_lease k) \<in> set claims \<longleftrightarrow>
      (if k = i then running (rl_state (f row)) \<and> d \<in> set (lease_domains i s)
       else (d, Route_lease k) \<in> set (domain_claims s)))"
  proof (cases "running (rl_state (f row))")
    case new: True
    show ?thesis
    proof (cases "running (rl_state row)")
      case True
      then have "claims = domain_claims s" using cl new by (simp add: route_claims_def)
      then show ?thesis using kc mine new True by auto
    next
      case False
      have "each (\<lambda>d. insert_row fst (d, Route_lease i)) (lease_domains i s) (domain_claims s) = Inr claims"
        using cl new False id row(2) by (simp add: route_claims_def)
      note I = insert_claims [OF this kc]
      show ?thesis using I(2) mine new False by (auto simp: I(1))
    qed
  next
    case new: False
    show ?thesis
    proof (cases "running (rl_state row)")
      case True
      have c: "claims = filter (\<lambda>(d, c). c \<noteq> Route_lease i) (domain_claims s)"
        using cl new True id row(2) by (simp add: route_claims_def)
      have "keyed fst claims" using kc unfolding c keyed_def by (rule distinct_map_filter)
      then show ?thesis using new by (auto simp: c)
    next
      case False
      then have "claims = domain_claims s" using cl new by (simp add: route_claims_def)
      then show ?thesis using kc mine new False by auto
    qed
  qed
  then have claims': "keyed fst (domain_claims s')" and
    cl': "(d, Route_lease k) \<in> set (domain_claims s') \<longleftrightarrow>
      (if k = i then running (rl_state (f row)) \<and> d \<in> set (lease_domains i s)
       else (d, Route_lease k) \<in> set (domain_claims s))" for d k
    by (simp_all add: s')
  have "(d, Route_lease k) \<in> set (domain_claims s') \<longleftrightarrow>
      (\<exists>r \<in> set (rt_leases s'). rl_id r = k \<and> running (rl_state r) \<and> d \<in> set (lease_domains k s'))" for d k
  proof (cases "k = i")
    case True
    have "r \<in> set (rt_leases s') \<and> rl_id r = i \<longleftrightarrow> r = f row" for r using id row(2) by (auto simp: rows)
    then show ?thesis unfolding cl' ld True by (metis (full_types))
  next
    case False
    then have "r \<in> set (rt_leases s') \<and> rl_id r = k \<longleftrightarrow> r \<in> set (rt_leases s) \<and> rl_id r = k" for r
      using id row(2) by (auto simp: rows)
    then show ?thesis unfolding cl' ld using cl_eq [of d k] False by auto
  qed
  then have claims_ok: "route_claims_ok s'" using claims' by (simp add: route_claims_ok_def)
  have ids: "rl_id ` set (rt_leases s') = rl_id ` set (rt_leases s)"
    using arg_cong [OF update_row_keys [of rl_id f i "rt_leases s", OF id], of set] by (simp add: s' image_image)
  have led: "ledger s' = ledger s" and mem: "rt_members s' = rt_members s" by (simp_all add: s')
  have keys': "route_keys_ok s'" using base(5) unfolding route_keys_ok_def ids lm led .
  have refs': "refs_ok s'" using base(3) by (simp add: refs_ok_def s')
  have "route_row_ok r (lease_members (rl_id r) s') \<and> route_escrow_ok (ledger s') r"
    if "r \<in> set (rt_leases s')" for r
    using that others [of r] new id [of row] row(2) unfolding rows lm led by auto
  then show "routes_ok s'"
    using keyed' base(2) refs' claims_ok keys' by (simp add: routes_ok_def mem)
  show "lookup rl_id i (rt_leases s') = Some (f row)"
    using lookup_update [of rl_id f i i "rt_leases s"] id old by (simp add: s')
  show "ledger s' = ledger s" "rt_members s' = rt_members s" "nodes s' = nodes s" "users s' = users s" "models s' = models s"
    by (simp_all add: s')
qed

section \<open>An observation\<close>

definition observed_of :: "db \<Rightarrow> route_lease \<Rightarrow> ms \<Rightarrow> lease_member \<Rightarrow> observed_member" where
  "observed_of s row now m = hd (observe_member s row now m)"

definition sampled_now :: "db \<Rightarrow> route_lease \<Rightarrow> ms \<Rightarrow> lease_member \<Rightarrow> lease_member \<Rightarrow> lease_member" where
  "sampled_now s row now m =
     sampled_member row (contiguous_sample row now) (route_elapsed row now) (observed_of s row now m)"

lemma observe_members_map:
  assumes "refs_ok s"
  shows "observe_members s row now = map (observed_of s row now) (lease_members (rl_id row) s)"
    and "m \<in> set (lease_members i s) \<Longrightarrow> om_row (observed_of s row now m) = m"
proof -
  have one: "observe_member s row now m = [observed_of s row now m] \<and> om_row (observed_of s row now m) = m"
    if m: "m \<in> set (rt_members s)" for m
  proof -
    obtain n u where n: "lookup n_id (lm_node_id m) (nodes s) = Some n"
      and u: "lookup u_id (lm_provider_id m) (users s) = Some u"
      using assms m unfolding refs_ok_def by blast
    moreover obtain md where "lookup m_id (n_model_id n) (models s) = Some md"
      using assms lookup_SomeD [OF n] unfolding refs_ok_def by blast
    ultimately show ?thesis by (simp add: observed_of_def observe_member_def)
  qed
  have "map (observe_member s row now) (lease_members (rl_id row) s) =
      map (\<lambda>m. [observed_of s row now m]) (lease_members (rl_id row) s)"
    using one by (intro map_cong) (auto simp: members_set)
  then show "observe_members s row now = map (observed_of s row now) (lease_members (rl_id row) s)"
    by (simp add: observe_members_def concat_map_singleton del: map_eq_conv)
  show "om_row (observed_of s row now m) = m" if "m \<in> set (lease_members i s)"
    using one that by (simp add: members_set)
qed

lemma sampled_keeps_key: "keeps_key (sampled_now s row now)"
  by (simp add: keeps_key_def sampled_now_def sampled_member_def lease_member_key_def)

text \<open>The loop of \<open>advance\<close>: each member's projection stays within its maximum and never decreases.\<close>

lemma sample_loop:
  assumes "each (sample_member row c e) oms s = Inr s'"
  shows "each (\<lambda>om. update_lease_member (rl_id row) (lm_node_id (om_row om)) (sampled_member row c e om)) oms s = Inr s'"
    and "\<forall>om \<in> set oms. lm_paid_microtu (om_row om) \<le> total_for row c e om \<and>
      total_for row c e om \<le> lm_maximum_microtu (om_row om)"
  using assms by (induction oms arbitrary: s) (auto simp: sample_member_def res_Inr Let_def)

lemma each_map: "each g (map h xs) s = each (\<lambda>x. g (h x)) xs s"
proof (induction xs arbitrary: s)
  case (Cons x xs)
  have "each g (map h xs) = each (\<lambda>x. g (h x)) xs" using Cons by (intro ext)
  then show ?case by simp
qed simp

lemma each_cong: "(\<And>x s. x \<in> set xs \<Longrightarrow> g x s = h x s) \<Longrightarrow> each g xs s = each h xs s"
proof (induction xs arbitrary: s)
  case (Cons x xs)
  have "each g xs = each h xs" using Cons by (intro ext) simp
  then show ?case using Cons.prems by simp
qed simp

lemma sampled_loop:
  assumes loop: "each (sample_member row (contiguous_sample row now) (route_elapsed row now)) (observe_members s row now) s = Inr s'"
    and base: "refs_ok s" "keyed lease_member_key (rt_members s)"
  shows "s' = s\<lparr>rt_members := map (\<lambda>m. if lm_lease_id m = rl_id row then sampled_now s row now m m else m) (rt_members s)\<rparr>"
    and "\<forall>m \<in> set (lease_members (rl_id row) s). lease_member_check (sampled_now s row now m m) \<and>
      lm_paid_microtu m \<le> lm_paid_microtu (sampled_now s row now m m)"
    and "keyed lease_member_key (rt_members s')"
    and "lease_members k s' = (if k = rl_id row then map (\<lambda>m. sampled_now s row now m m) (lease_members k s)
      else lease_members k s)"
proof -
  let ?c = "contiguous_sample row now" and ?e = "route_elapsed row now"
  let ?ms = "lease_members (rl_id row) s"
  note O = observe_members_map [OF base(1)]
  note S = sample_loop [OF loop]
  have "each (\<lambda>m. update_lease_member (rl_id row) (lm_node_id m) (sampled_now s row now m)) ?ms s = Inr s'"
    using S(1) unfolding O(1) each_map
    by (subst each_cong [where h = "\<lambda>m. update_lease_member (rl_id row) (lm_node_id (om_row (observed_of s row now m)))
        (sampled_member row ?c ?e (observed_of s row now m))"]) (simp_all add: O(2) sampled_now_def)
  note L = lease_loop [OF this base(2) sampled_keeps_key]
  show "s' = s\<lparr>rt_members := map (\<lambda>m. if lm_lease_id m = rl_id row then sampled_now s row now m m else m) (rt_members s)\<rparr>"
    by (rule L(1))
  show "keyed lease_member_key (rt_members s')" by (rule L(3))
  show "lease_members k s' = (if k = rl_id row then map (\<lambda>m. sampled_now s row now m m) (lease_members k s)
      else lease_members k s)" using L(4) [of k] by simp
  show "\<forall>m \<in> set ?ms. lease_member_check (sampled_now s row now m m) \<and>
      lm_paid_microtu m \<le> lm_paid_microtu (sampled_now s row now m m)"
    using L(2) S(2) O(2) by (auto simp: O(1) sampled_now_def sampled_member_def)
qed

section \<open>What one observation does\<close>

definition paid_now :: "db \<Rightarrow> route_lease \<Rightarrow> ms \<Rightarrow> lease_member \<Rightarrow> int" where
  "paid_now s row now m = lm_paid_microtu (sampled_now s row now m m)"

definition observed_now :: "db \<Rightarrow> route_lease \<Rightarrow> ms \<Rightarrow> route_lease" where
  "observed_now s row now = observed_route row (joint_ready s row now)
     (sum_list (map (paid_now s row now) (lease_members (rl_id row) s)))
     (rl_joint_ready_ms row + (if joint_interval s row now then route_elapsed row now else 0)) (route_until row now) row"

lemma observed_now_simps [simp]:
  "rl_id (observed_now s row now) = rl_id row" "rl_budget_microtu (observed_now s row now) = rl_budget_microtu row"
  "rl_escrow_account (observed_now s row now) = rl_escrow_account row"
  "rl_duration_seconds (observed_now s row now) = rl_duration_seconds row"
  "rl_ends_ms (observed_now s row now) = rl_ends_ms row" "rl_started_ms (observed_now s row now) = rl_started_ms row"
  "rl_cooperative (observed_now s row now) = rl_cooperative row" "rl_sponsor_id (observed_now s row now) = rl_sponsor_id row"
  "rl_terms_sha256 (observed_now s row now) = rl_terms_sha256 row"
  by (simp_all add: observed_now_def observed_route_def)

lemma share_of_maximum:
  assumes "0 \<le> x" "x \<le> D" "0 < D" "0 \<le> (m::int)"
  shows "0 \<le> x * m div D" "x * m div D \<le> m"
proof -
  show "0 \<le> x * m div D" using assms by (simp add: pos_imp_zdiv_nonneg_iff)
  have "x * m div D \<le> D * m div D" using assms by (intro zdiv_mono1 mult_right_mono) auto
  then show "x * m div D \<le> m" using assms by simp
qed

text \<open>The row and the members after an observation are well formed again.\<close>

lemma observed_now_ok:
  assumes ok: "route_row_ok row (lease_members i s)" and i: "rl_id row = i" and run: "running (rl_state row)"
    and refs: "refs_ok s" and clock: "num (rl_sample_ms row) \<le> now"
    and chk: "\<forall>m \<in> set (lease_members i s). lease_member_check (sampled_now s row now m m)"
  shows "route_row_ok (observed_now s row now) (map (\<lambda>m. sampled_now s row now m m) (lease_members i s))"
    and "running (rl_state (observed_now s row now))"
proof -
  let ?ms = "lease_members i s" and ?D = "rl_duration_seconds row * 1000" and ?e = "route_elapsed row now"
  let ?f = "\<lambda>m. sampled_now s row now m m" and ?new = "observed_now s row now"
  obtain t k where T: "rl_started_ms row = Some t" "rl_sample_ms row = Some k" "rl_ends_ms row = Some (t + ?D)"
    "t \<le> k" "k \<le> t + ?D" "rl_joint_ready_ms row \<le> k - t" "\<forall>m \<in> set ?ms. lm_credited_ms m \<le> k - t"
    using ok run by (auto simp: route_row_ok_def timed_ok_def)
  have rc: "route_lease_check row" using ok by (simp add: route_row_ok_def)
  have D: "0 < ?D" using rc by (simp add: route_lease_check_def)
  have u: "k \<le> route_until row now" "route_until row now \<le> t + ?D" "?e = route_until row now - k" "0 \<le> ?e"
    using T by (auto simp: route_until_def route_elapsed_def)
  show run': "running (rl_state ?new)" using run by (simp add: observed_now_def observed_route_def running_def)
  have mem: "member_row_ok ?new (?f m) \<and> lm_credited_ms (?f m) \<le> route_until row now - t \<and>
      lm_maximum_microtu (?f m) = lm_maximum_microtu m" if m: "m \<in> set ?ms" for m
  proof -
    let ?om = "observed_of s row now m"
    have om: "om_row ?om = m" by (rule observe_members_map(2) [OF refs m])
    have mc: "0 \<le> lm_credited_ms m" "0 < lm_maximum_microtu m"
      using ok m by (auto simp: route_row_ok_def list_all_iff member_row_ok_def lease_member_check_def)
    define c where "c = credited_to (contiguous_sample row now) ?e ?om"
    have c: "0 \<le> c" "c \<le> route_until row now - t"
      using mc(1) T(7) m u by (auto simp: c_def credited_to_def om)
    have D': "c \<le> ?D" using c u by linarith
    have tot: "total_for row (contiguous_sample row now) ?e ?om = c * lm_maximum_microtu m div ?D"
      using c mc D by (simp add: total_for_def om c_def [symmetric] sdiv_nonneg)
    have "rl_state ?new \<noteq> L_OFFERED" using run' by (auto simp: running_def)
    moreover have "lm_credited_ms (?f m) = c" "lm_maximum_microtu (?f m) = lm_maximum_microtu m"
      "lm_paid_microtu (?f m) = c * lm_maximum_microtu m div ?D"
      using tot by (simp_all add: sampled_now_def sampled_member_def c_def)
    moreover have "lease_member_check (?f m)" using chk m by blast
    ultimately show ?thesis using c(2) D' by (simp add: member_row_ok_def)
  qed
  have sums: "sum_list (map lm_maximum_microtu (map ?f ?ms)) = rl_budget_microtu row"
    "sum_list (map lm_paid_microtu (map ?f ?ms)) = rl_paid_microtu ?new"
  proof -
    have "map (lm_maximum_microtu \<circ> ?f) ?ms = map lm_maximum_microtu ?ms" using mem by (intro map_cong) auto
    then show "sum_list (map lm_maximum_microtu (map ?f ?ms)) = rl_budget_microtu row"
      using ok by (simp add: route_row_ok_def del: map_eq_conv)
    show "sum_list (map lm_paid_microtu (map ?f ?ms)) = rl_paid_microtu ?new"
      by (simp add: observed_now_def observed_route_def paid_now_def [abs_def] o_def i)
  qed
  have mem': "0 \<le> lm_paid_microtu (?f m) \<and> lm_paid_microtu (?f m) \<le> lm_maximum_microtu (?f m)" if "m \<in> set ?ms" for m
    using chk that by (simp add: lease_member_check_def)
  have "0 \<le> rl_paid_microtu ?new"
    unfolding sums(2) [symmetric] using mem' by (intro sum_list_nonneg) auto
  moreover have "rl_paid_microtu ?new \<le> rl_budget_microtu row"
    unfolding sums [symmetric] map_map using mem' by (intro sum_list_mono) auto
  moreover have "0 \<le> rl_joint_ready_ms ?new" "rl_joint_ready_ms ?new \<le> route_until row now - t"
    using rc T(6) u by (auto simp: observed_now_def observed_route_def route_lease_check_def)
  ultimately have "route_lease_check ?new"
    using rc u T by (simp add: route_lease_check_def observed_now_def observed_route_def)
  moreover have "timed_ok ?new (map ?f ?ms)"
  proof -
    have "rl_sample_ms ?new = Some (route_until row now)" by (simp add: observed_now_def observed_route_def)
    then show ?thesis using T u mem \<open>rl_joint_ready_ms ?new \<le> route_until row now - t\<close>
      by (auto simp: timed_ok_def)
  qed
  moreover have "rl_state ?new \<noteq> L_OFFERED" using run' by (auto simp: running_def)
  ultimately show "route_row_ok ?new (map ?f ?ms)"
    using ok sums mem by (simp add: route_row_ok_def list_all_iff)
qed

lemma entry_sum_payments:
  assumes "\<forall>om \<in> set oms. lm_paid_microtu (om_row om) \<le> total_for row c e om"
  shows "entry_sum a (payment_lines row c e oms) = sum_list (map (\<lambda>om.
    if a = availableAccount (lm_provider_id (om_row om)) then total_for row c e om - lm_paid_microtu (om_row om) else 0) oms)"
  using assms by (induction oms) (auto simp: payment_lines_def)

lemma payments_not_escrow: "route_escrow i \<notin> fst ` set (payment_lines row c e oms)"
  by (auto simp: payment_lines_def)

lemma posted_payment_keeps:
  assumes keys: "route_keys_ok s" and i: "i \<in> rl_id ` set (rt_leases s)"
    and s': "rt_leases s' = rt_leases s" "rt_members s' = rt_members s"
    and posted: "posted (ledger s') = insert key (posted (ledger s))"
    and key: "key = route_payment i (int n) \<or> key = route_refund i"
  shows "route_keys_ok s'"
proof -
  have "key \<noteq> route_fund k \<and> (k \<noteq> i \<longrightarrow> key \<noteq> route_refund k \<and> (\<forall>n. key \<noteq> route_payment k (int n)))" for k
    using key rl.payment_inj rl.refund_inj rl.payment_refund route_fund_neq by metis
  then show ?thesis using keys i unfolding route_keys_ok_def s' posted by (auto simp: lease_members_def s')
qed

lemma escrow_other:
  assumes "route_escrow_ok (ledger s) r" and "rl_id r \<noteq> i"
    and "post j key kind es md (ledger s) = Inr (j', L)" and "key = route_payment i (int n) \<or> key = route_refund i"
    and "route_escrow (rl_id r) \<notin> fst ` set es"
  shows "route_escrow_ok L r"
  using assms(1) unfolding route_escrow_ok_def
  by (rule rl.holds_frame [OF _ assms(3,5)]) (use assms(2,4) rl.payment_inj rl.refund_inj rl.payment_refund in metis)+

text \<open>The posting of an observation, if there is one.\<close>

lemma pay_route_ok:
  assumes ret: "pay_route j row paid ls ev s = Inr s'" and esc: "rl_escrow_account row = route_escrow (rl_id row)"
    and hold: "rl.holds (ledger s) (rl_id row) (rl_budget_microtu row - rl_paid_microtu row) (nat (rl_paid_microtu row)) True"
    and pos: "0 \<le> rl_paid_microtu row" "rl_paid_microtu row \<le> paid"
    and clean: "\<And>k. route_escrow k \<notin> fst ` set ls"
    and none: "paid = rl_paid_microtu row \<longrightarrow> (\<forall>a. entry_sum a ls = 0)"
  shows "\<exists>L. s' = s\<lparr>ledger := L\<rparr>"
    and "rl.holds (ledger s') (rl_id row) (rl_budget_microtu row - paid) (nat paid) True"
    and "a \<noteq> route_escrow (rl_id row) \<Longrightarrow> bal (ledger s') a = bal (ledger s) a + entry_sum a ls"
    and "route_keys_ok s \<Longrightarrow> rl_id row \<in> rl_id ` set (rt_leases s) \<Longrightarrow> route_keys_ok s'"
    and "\<And>r. rl_id r \<noteq> rl_id row \<Longrightarrow> route_escrow_ok (ledger s) r \<Longrightarrow> route_escrow_ok (ledger s') r"
proof -
  let ?i = "rl_id row" and ?d = "paid - rl_paid_microtu row"
  have "(\<exists>L. s' = s\<lparr>ledger := L\<rparr>) \<and>
    rl.holds (ledger s') ?i (rl_budget_microtu row - paid) (nat paid) True \<and>
    (\<forall>a. a \<noteq> route_escrow ?i \<longrightarrow> bal (ledger s') a = bal (ledger s) a + entry_sum a ls) \<and>
    (route_keys_ok s \<longrightarrow> ?i \<in> rl_id ` set (rt_leases s) \<longrightarrow> route_keys_ok s') \<and>
    (\<forall>r. rl_id r \<noteq> ?i \<longrightarrow> route_escrow_ok (ledger s) r \<longrightarrow> route_escrow_ok (ledger s') r)"
  proof (cases "?d > 0")
    case True
    obtain j' md L where post: "post j (route_payment ?i paid) ''ROUTE_AVAILABILITY_PAYMENT''
        (ls @ [(route_escrow ?i, - ?d)]) md (ledger s) = Inr (j', L)" and s': "s' = s\<lparr>ledger := L\<rparr>"
      using ret True esc by (auto simp: pay_route_def Let_def res_Inr)
    have k: "route_payment ?i paid = route_payment ?i (int (nat paid))" using pos by simp
    have lt: "nat (rl_paid_microtu row) < nat paid" using True pos by simp
    note P = rl.holds_pay_lines [OF hold lt clean post [unfolded k]]
    have "route_keys_ok s'" if "route_keys_ok s" "?i \<in> rl_id ` set (rt_leases s)"
      using posted_payment_keeps [OF that, of s' "route_payment ?i (int (nat paid))" "nat paid"] post_posted [OF post] k
      by (simp add: s')
    moreover have "route_escrow_ok L r" if "rl_id r \<noteq> ?i" "route_escrow_ok (ledger s) r" for r
    proof -
      have "route_escrow (rl_id r) \<notin> fst ` set (ls @ [(route_escrow ?i, - ?d)])"
        using clean [of "rl_id r"] that(1) rl.escrow_inj by auto
      from escrow_other [OF that(2,1) post [unfolded k] disjI1 [OF refl] this] show ?thesis .
    qed
    ultimately show ?thesis using P(1,2) by (auto simp: s' algebra_simps)
  next
    case False
    then have e: "paid = rl_paid_microtu row" "s' = s" using ret pos by (simp_all add: pay_route_def Let_def)
    have "s = s\<lparr>ledger := ledger s\<rparr>" by simp
    then have "\<exists>L. s' = s\<lparr>ledger := L\<rparr>" unfolding e by blast
    then show ?thesis using hold none by (simp add: e)
  qed
  then show "\<exists>L. s' = s\<lparr>ledger := L\<rparr>"
    "rl.holds (ledger s') (rl_id row) (rl_budget_microtu row - paid) (nat paid) True"
    "a \<noteq> route_escrow (rl_id row) \<Longrightarrow> bal (ledger s') a = bal (ledger s) a + entry_sum a ls"
    "route_keys_ok s \<Longrightarrow> rl_id row \<in> rl_id ` set (rt_leases s) \<Longrightarrow> route_keys_ok s'"
    "\<And>r. rl_id r \<noteq> rl_id row \<Longrightarrow> route_escrow_ok (ledger s) r \<Longrightarrow> route_escrow_ok (ledger s') r"
    by blast+
qed

lemma observe_route_ok:
  assumes ok: "routes_ok s" and old: "lookup rl_id i (rt_leases s) = Some row"
    and run: "running (rl_state row)" and clock: "num (rl_sample_ms row) \<le> now"
    and ret: "observe_route j now row s = Inr (p, s')"
  shows "routes_ok s'" and "lookup rl_id i (rt_leases s') = Some (observed_now s row now)"
    and "p = rl_paid_microtu (observed_now s row now)"
    and "lease_members i s' = map (\<lambda>m. sampled_now s row now m m) (lease_members i s)"
    and "\<And>a. a \<noteq> route_escrow i \<Longrightarrow> bal (ledger s') a = bal (ledger s) a + sum_list (map (\<lambda>m.
      if a = availableAccount (lm_provider_id m) then paid_now s row now m - lm_paid_microtu m else 0) (lease_members i s))"
    and "rt_members s' = map (\<lambda>m. if lm_lease_id m = i then sampled_now s row now m m else m) (rt_members s)"
proof -
  note D = routes_okD [OF ok old]
  let ?c = "contiguous_sample row now" and ?e = "route_elapsed row now" and ?ms = "lease_members i s"
  let ?oms = "observe_members s row now" and ?new = "observed_now s row now"
  let ?paid = "sum_list (map (total_for row ?c ?e) ?oms)"
  note O = observe_members_map [OF D(5)]
  have oms: "?oms = map (observed_of s row now) ?ms" using O(1) D(2) by simp
  obtain s1 s2 s3 ev where 1: "each (sample_member row ?c ?e) ?oms s = Inr s1"
    and 2: "pay_route j row ?paid (payment_lines row ?c ?e ?oms) ev s1 = Inr s2"
    and 3: "update_route_lease i (observed_route row (joint_ready s row now) ?paid
        (rl_joint_ready_ms row + (if joint_interval s row now then ?e else 0)) (route_until row now)) s2 = Inr s3"
    and p: "p = ?paid" and s': "\<exists>k1 md1 k2 md2. s' = route_event i k1 md1 (route_event i k2 md2 s3) \<or> s' = route_event i k2 md2 s3"
    using ret D(2) unfolding observe_route_def Let_def and_then_Inr by (fastforce split: if_splits)
  note L = sampled_loop [OF 1 D(5,4)]
  have tot: "total_for row ?c ?e (observed_of s row now m) = paid_now s row now m" for m
    by (simp add: paid_now_def sampled_now_def sampled_member_def)
  have paid: "?paid = sum_list (map (paid_now s row now) ?ms)" by (simp add: oms o_def tot)
  have new: "observed_route row (joint_ready s row now) ?paid
      (rl_joint_ready_ms row + (if joint_interval s row now then ?e else 0)) (route_until row now) row = ?new"
    by (simp add: observed_now_def paid D(2))
  have chk: "\<forall>m \<in> set ?ms. lease_member_check (sampled_now s row now m m)"
    and up: "\<forall>m \<in> set ?ms. lm_paid_microtu m \<le> paid_now s row now m"
    using L(2) D(2) by (simp_all add: paid_now_def)
  note N = observed_now_ok [OF D(6,2) run D(5) clock chk]
  have rowok: "rl_escrow_account row = route_escrow (rl_id row)" "rl_paid_microtu row = sum_list (map lm_paid_microtu ?ms)"
    "0 \<le> rl_paid_microtu row"
    using D(6) by (simp_all add: route_row_ok_def route_lease_check_def)
  have le: "rl_paid_microtu row \<le> ?paid"
    unfolding rowok(2) paid using up by (intro sum_list_mono) auto
  have esum: "entry_sum a (payment_lines row ?c ?e ?oms) = sum_list (map (\<lambda>m.
      if a = availableAccount (lm_provider_id m) then paid_now s row now m - lm_paid_microtu m else 0) ?ms)" for a
  proof -
    have "\<forall>om \<in> set ?oms. lm_paid_microtu (om_row om) \<le> total_for row ?c ?e om"
      using up O(2) by (auto simp: oms tot)
    moreover have "map (\<lambda>om. if a = availableAccount (lm_provider_id (om_row om))
          then total_for row ?c ?e om - lm_paid_microtu (om_row om) else 0) ?oms =
        map (\<lambda>m. if a = availableAccount (lm_provider_id m) then paid_now s row now m - lm_paid_microtu m else 0) ?ms"
      unfolding oms map_map by (intro map_cong refl) (simp add: tot O(2))
    ultimately show ?thesis using entry_sum_payments [of ?oms row ?c ?e a] by presburger
  qed
  have none: "?paid = rl_paid_microtu row \<longrightarrow> (\<forall>a. entry_sum a (payment_lines row ?c ?e ?oms) = 0)"
  proof
    assume that: "?paid = rl_paid_microtu row"
    have "sum_list (map (\<lambda>m. paid_now s row now m - lm_paid_microtu m) ?ms) = 0"
      using that by (simp add: rowok(2) paid sum_list_subtractf)
    then have "\<forall>m \<in> set ?ms. paid_now s row now m - lm_paid_microtu m = 0"
      using up by (subst (asm) sum_list_nonneg_eq_0_iff) auto
    then have "map (\<lambda>m. if a = availableAccount (lm_provider_id m) then paid_now s row now m - lm_paid_microtu m else 0) ?ms =
        map (\<lambda>m. 0) ?ms" for a by (intro map_cong) auto
    then show "\<forall>a. entry_sum a (payment_lines row ?c ?e ?oms) = 0" unfolding esum by (simp only: sum_list_0 simp_thms)
  qed
  have s1: "rt_leases s1 = rt_leases s" "ledger s1 = ledger s" "domain_claims s1 = domain_claims s"
    "nodes s1 = nodes s" "users s1 = users s" "models s1 = models s"
    by (subst L(1), simp)+
  have mem1: "lease_members k s1 = (if k = i then map (\<lambda>m. sampled_now s row now m m) (lease_members k s) else lease_members k s)" for k
    using L(4) [of k] D(2) by simp
  have hold: "rl.holds (ledger s1) (rl_id row) (rl_budget_microtu row - rl_paid_microtu row) (nat (rl_paid_microtu row)) True"
    using D(7) run unfolding s1 route_escrow_ok_def by (auto simp: running_def funded_def)
  note P = pay_route_ok [OF 2 rowok(1) hold rowok(3) le payments_not_escrow none]
  have s2: "rt_leases s2 = rt_leases s1" "rt_members s2 = rt_members s1" "domain_claims s2 = domain_claims s1"
    "nodes s2 = nodes s1" "users s2 = users s1" "models s2 = models s1"
    using P(1) by auto
  have mem2: "lease_members k s2 = lease_members k s1" for k by (simp add: lease_members_def s2)
  have dom2: "lease_domains k s2 = lease_domains k s" for k
    using keeps_keyD(4) [OF sampled_keeps_key [of s row now]] by (simp add: lease_domains_def mem2 mem1 o_def)
  have refs2: "refs_ok s2"
    using D(5) keeps_keyD [OF sampled_keeps_key [of s row now]] unfolding refs_ok_def s2 s1 by (subst L(1)) auto
  have claims2: "route_claims_ok s2" using D(9) unfolding route_claims_ok_def s2 s1 dom2 .
  have keys1: "route_keys_ok s1" using D(10) unfolding route_keys_ok_def s1 mem1 by simp
  have "rl_id row \<in> rl_id ` set (rt_leases s1)" using D(1) by (simp add: s1)
  note keys2 = P(4) [OF keys1 this]
  have others: "route_row_ok r (lease_members (rl_id r) s2) \<and> route_escrow_ok (ledger s2) r"
    if "r \<in> set (rt_leases s2)" "rl_id r \<noteq> i" for r
    using ok that P(5) [of r] D(2) by (auto simp: routes_ok_def mem2 mem1 s2 s1)
  have lk: "lookup rl_id i (rt_leases s2) = Some row" using old by (simp add: s2 s1)
  have kl: "keyed rl_id (rt_leases s2)" using D(3) by (simp add: s2 s1)
  have km: "keyed lease_member_key (rt_members s2)" using L(3) by (simp add: s2)
  have rowN: "route_row_ok ?new (lease_members i s2)" using N(1) by (simp add: mem2 mem1)
  have escN: "route_escrow_ok (ledger s2) ?new"
    using P(2) N(2) by (simp add: route_escrow_ok_def funded_def running_def observed_now_def observed_route_def paid D(2))
  note U = update_route_lease_ok [OF 3 lk kl km refs2 claims2 keys2 others]
  have U': "routes_ok s3" "lookup rl_id i (rt_leases s3) = Some ?new" "ledger s3 = ledger s2" "rt_members s3 = rt_members s2"
    using U [unfolded new, OF _ _ rowN escN] by (simp_all add: observed_route_def)
  show "p = rl_paid_microtu ?new" by (simp add: p paid observed_now_def observed_route_def D(2))
  have ev: "routes_ok (route_event k kd md t) = routes_ok t" for k kd md t
    by (simp add: routes_ok_def refs_ok_def route_claims_ok_def route_keys_ok_def lease_members_def lease_domains_def)
  show "routes_ok s'" using U'(1) s' by (auto simp: ev)
  show "lookup rl_id i (rt_leases s') = Some ?new" using U'(2) s' by auto
  have "lease_members i s' = lease_members i s3" using s' by (auto simp: lease_members_def)
  then show "lease_members i s' = map (\<lambda>m. sampled_now s row now m m) ?ms"
    using mem1 [of i] mem2 [of i] by (simp add: lease_members_def U'(4))
  have "rt_members s' = rt_members s1" using s' U'(4) s2 by auto
  then show "rt_members s' = map (\<lambda>m. if lm_lease_id m = i then sampled_now s row now m m else m) (rt_members s)"
    using L(1) D(2) by simp
  have "ledger s' = ledger s2" using s' U'(3) by auto
  then show "bal (ledger s') a = bal (ledger s) a + sum_list (map (\<lambda>m.
      if a = availableAccount (lm_provider_id m) then paid_now s row now m - lm_paid_microtu m else 0) ?ms)"
    if "a \<noteq> route_escrow i" for a
    using P(3) [of a] that D(2) esum [of a] by (simp add: s1)
qed

section \<open>Closing and advancing\<close>

lemma ended_route_simps [simp]:
  "rl_id (ended_route st t r) = rl_id r" "rl_state (ended_route st t r) = st"
  "rl_budget_microtu (ended_route st t r) = rl_budget_microtu r" "rl_paid_microtu (ended_route st t r) = rl_paid_microtu r"
  "rl_escrow_account (ended_route st t r) = rl_escrow_account r"
  by (simp_all add: ended_route_def)

lemma ended_route_ok:
  assumes "route_row_ok r ms" and "\<not> funded st"
  shows "route_row_ok (ended_route st t r) ms"
proof -
  have "route_lease_check (ended_route st t r) = route_lease_check r"
    by (simp add: route_lease_check_def ended_route_def split: option.split)
  moreover have "member_row_ok r m \<Longrightarrow> member_row_ok (ended_route st t r) m" for m
    using assms(2) by (auto simp: member_row_ok_def funded_def ended_route_def)
  moreover have "timed_ok (ended_route st t r) ms" using assms(2) by (auto simp: timed_ok_def running_def funded_def)
  ultimately show ?thesis using assms by (auto simp: route_row_ok_def list_all_iff funded_def)
qed

lemma routes_ok_event [simp]: "routes_ok (route_event k kd md s) = routes_ok s"
  by (simp add: routes_ok_def refs_ok_def route_claims_ok_def route_keys_ok_def lease_members_def lease_domains_def)

lemma lease_members_event [simp]: "lease_members i (route_event k kd md s) = lease_members i s"
  by (simp add: lease_members_def)

lemma close_route_ok:
  assumes ok: "routes_ok s" and old: "lookup rl_id i (rt_leases s) = Some row"
    and fd: "funded (rl_state row)" and st: "\<not> funded st"
    and ret: "close_route j tx_now st row (rl_paid_microtu row) s = Inr s'"
  shows "routes_ok s'" and "lookup rl_id i (rt_leases s') = Some (ended_route st tx_now row)"
    and "lease_members i s' = lease_members i s"
    and "\<And>a. a \<noteq> route_escrow i \<Longrightarrow> bal (ledger s') a = bal (ledger s) a +
      (if a = refund_account row then rl_budget_microtu row - rl_paid_microtu row else 0)"
    and "rt_members s' = rt_members s"
proof -
  note D = routes_okD [OF ok old]
  let ?rest = "rl_budget_microtu row - rl_paid_microtu row"
  have esc: "rl_escrow_account row = route_escrow i" using D(6,2) by (simp add: route_row_ok_def)
  have rest: "0 \<le> ?rest" using D(8) by (simp add: route_lease_check_def)
  have hold: "rl.holds (ledger s) i ?rest (nat (rl_paid_microtu row)) True"
    using D(7,2) fd by (simp add: route_escrow_ok_def)
  obtain s1 s2 where 1: "(if ?rest > 0 then
           and_then (post j (route_refund (rl_id row)) ''ROUTE_AVAILABILITY_REFUND''
               [(rl_escrow_account row, - ?rest), (refund_account row, ?rest)]
               [(''lease_id'', JStr (rl_id row)), (''terms_sha256'', JStr (rl_terms_sha256 row)),
                (''policy'', JStr route_policy)] (ledger s))
             (\<lambda>(_, L). Inr (s\<lparr>ledger := L\<rparr>))
         else Inr s) = Inr s1"
    and 2: "update_route_lease i (ended_route st tx_now) s1 = Inr s2"
    and s': "\<exists>kd md. s' = route_event i kd md s2"
    using ret D(2) unfolding close_route_def Let_def and_then_Inr [where m = "if _ then _ else _"] by (auto simp: and_then_Inr)
  have "(\<exists>L. s1 = s\<lparr>ledger := L\<rparr>) \<and> rl.holds (ledger s1) i 0 (nat (rl_paid_microtu row)) False \<and>
    (\<forall>a. a \<noteq> route_escrow i \<longrightarrow> bal (ledger s1) a = bal (ledger s) a + (if a = refund_account row then ?rest else 0)) \<and>
    route_keys_ok s1 \<and> (\<forall>r. rl_id r \<noteq> i \<longrightarrow> route_escrow_ok (ledger s) r \<longrightarrow> route_escrow_ok (ledger s1) r)"
  proof (cases "?rest > 0")
    case True
    obtain j' md L where post: "post j (route_refund i) ''ROUTE_AVAILABILITY_REFUND''
        [(route_escrow i, - ?rest), (refund_account row, ?rest)] md (ledger s) = Inr (j', L)" and s1: "s1 = s\<lparr>ledger := L\<rparr>"
      using 1 True esc D(2) by (auto simp: res_Inr)
    note R = rl.holds_refund [OF hold route_escrow_refund(2) post]
    have fresh: "route_refund i \<notin> posted (ledger s)" using hold by (simp add: rl.holds_def)
    have ids: "i \<in> rl_id ` set (rt_leases s)" using D(1,2) by blast
    have "route_keys_ok s1"
      using posted_payment_keeps [OF D(10) ids, of s1 "route_refund i"] post_posted [OF post] by (simp add: s1)
    moreover have "route_escrow_ok L r" if "rl_id r \<noteq> i" "route_escrow_ok (ledger s) r" for r
    proof -
      have "route_escrow (rl_id r) \<notin> fst ` set [(route_escrow i, - ?rest), (refund_account row, ?rest)]"
        using that(1) rl.escrow_inj [of "rl_id r" i] by auto
      from escrow_other [OF that(2,1) post disjI2 [OF refl] this] show ?thesis .
    qed
    moreover have "bal L a = bal (ledger s) a + (if a = refund_account row then ?rest else 0)" if "a \<noteq> route_escrow i" for a
      using led.transfer [OF post fresh, of a] that by simp
    ultimately show ?thesis using R(1) by (auto simp: s1)
  next
    case False
    then have z: "?rest = 0" and s1: "s1 = s" using rest 1 by simp_all
    have "s = s\<lparr>ledger := ledger s\<rparr>" by simp
    then have "\<exists>L. s1 = s\<lparr>ledger := L\<rparr>" unfolding s1 by blast
    moreover have "rl.holds (ledger s) i 0 (nat (rl_paid_microtu row)) False"
      using rl.holds_weaken [OF hold order_refl, where opened = False] unfolding z .
    ultimately show ?thesis using z D(10) by (auto simp: s1)
  qed
  then have X: "\<exists>L. s1 = s\<lparr>ledger := L\<rparr>" "rl.holds (ledger s1) i 0 (nat (rl_paid_microtu row)) False"
    "\<And>a. a \<noteq> route_escrow i \<Longrightarrow> bal (ledger s1) a = bal (ledger s) a + (if a = refund_account row then ?rest else 0)"
    "route_keys_ok s1" "\<And>r. rl_id r \<noteq> i \<Longrightarrow> route_escrow_ok (ledger s) r \<Longrightarrow> route_escrow_ok (ledger s1) r"
    by blast+
  have s1: "rt_leases s1 = rt_leases s" "rt_members s1 = rt_members s" "domain_claims s1 = domain_claims s"
    "nodes s1 = nodes s" "users s1 = users s" "models s1 = models s" using X(1) by auto
  have mem: "lease_members k s1 = lease_members k s" for k by (simp add: lease_members_def s1)
  have lk: "lookup rl_id i (rt_leases s1) = Some row" using old by (simp add: s1)
  have base: "keyed rl_id (rt_leases s1)" "keyed lease_member_key (rt_members s1)" "refs_ok s1" "route_claims_ok s1"
    using D by (simp_all add: s1 refs_ok_def route_claims_ok_def lease_domains_def mem)
  have others: "route_row_ok r (lease_members (rl_id r) s1) \<and> route_escrow_ok (ledger s1) r"
    if "r \<in> set (rt_leases s1)" "rl_id r \<noteq> i" for r
    using ok that X(5) [of r] by (auto simp: routes_ok_def mem s1)
  have rowN: "route_row_ok (ended_route st tx_now row) (lease_members i s1)"
    using ended_route_ok [OF D(6) st] by (simp add: mem)
  have escN: "route_escrow_ok (ledger s1) (ended_route st tx_now row)"
    using X(2) st D(2) by (simp add: route_escrow_ok_def)
  note U = update_route_lease_ok [OF 2 lk base X(4) others rowN escN]
  show "routes_ok s'" "lookup rl_id i (rt_leases s') = Some (ended_route st tx_now row)"
    using U(1,2) s' by auto
  show "lease_members i s' = lease_members i s" using U(4) s' by (auto simp: lease_members_def s1)
  show "rt_members s' = rt_members s" using U(4) s' by (auto simp: s1)
  show "bal (ledger s') a = bal (ledger s) a + (if a = refund_account row then ?rest else 0)" if "a \<noteq> route_escrow i" for a
    using X(3) [OF that] U(3) s' by auto
qed

text \<open>The row that a turn of the reconciler leaves.\<close>

definition advanced_route :: "db \<Rightarrow> route_lease \<Rightarrow> ms \<Rightarrow> ms \<Rightarrow> route_lease" where
  "advanced_route s row tx_now now =
     (if rl_state row = L_OFFERED then
        (if now \<ge> rl_offer_expires_at row then ended_route L_EXPIRED tx_now row else row)
      else if now < num (rl_sample_ms row) then row
      else if now \<ge> num (rl_ends_ms row) then ended_route L_COMPLETED tx_now (observed_now s row now)
      else observed_now s row now)"

definition observes :: "route_lease \<Rightarrow> ms \<Rightarrow> bool" where
  "observes row now \<longleftrightarrow> running (rl_state row) \<and> num (rl_sample_ms row) \<le> now"

lemma close_route_cong:
  assumes "rl_id r = rl_id q" "rl_escrow_account r = rl_escrow_account q" "rl_budget_microtu r = rl_budget_microtu q"
    "rl_sponsor_id r = rl_sponsor_id q" "rl_cooperative r = rl_cooperative q" "rl_terms_sha256 r = rl_terms_sha256 q"
  shows "close_route j t st r paid s = close_route j t st q paid s"
  unfolding close_route_def refund_account_def assms by (rule refl)

lemma offered_members_unpaid:
  assumes "route_row_ok r ms" and "rl_state r = L_OFFERED"
  shows "rl_paid_microtu r = 0"
proof -
  have "\<forall>m \<in> set ms. lm_paid_microtu m = 0" using assms by (auto simp: route_row_ok_def list_all_iff member_row_ok_def)
  then have "map lm_paid_microtu ms = map (\<lambda>_. 0) ms" by (intro map_cong) auto
  then have "sum_list (map lm_paid_microtu ms) = 0" by (simp only: sum_list_0)
  then show ?thesis using assms(1) by (simp add: route_row_ok_def)
qed

lemma advance_route_ok:
  assumes ok: "routes_ok s" and old: "lookup rl_id i (rt_leases s) = Some row" and fd: "funded (rl_state row)"
    and ret: "advance_route j1 j2 tx_now now row s = Inr s'"
  shows "routes_ok s'" and "lookup rl_id i (rt_leases s') = Some (advanced_route s row tx_now now)"
    and "lease_members i s' = (if observes row now then map (\<lambda>m. sampled_now s row now m m) (lease_members i s)
      else lease_members i s)"
    and "\<And>a. a \<noteq> route_escrow i \<Longrightarrow> bal (ledger s') a = bal (ledger s) a +
      (if observes row now then sum_list (map (\<lambda>m. if a = availableAccount (lm_provider_id m)
         then paid_now s row now m - lm_paid_microtu m else 0) (lease_members i s)) else 0) +
      (if a = refund_account row \<and> \<not> funded (rl_state (advanced_route s row tx_now now))
       then rl_budget_microtu row - rl_paid_microtu (advanced_route s row tx_now now) else 0)"
    and "rt_members s' = (if observes row now
      then map (\<lambda>m. if lm_lease_id m = i then sampled_now s row now m m else m) (rt_members s) else rt_members s)"
proof -
  note D = routes_okD [OF ok old]
  let ?new = "advanced_route s row tx_now now"
  let ?inc = "\<lambda>a. sum_list (map (\<lambda>m. if a = availableAccount (lm_provider_id m)
         then paid_now s row now m - lm_paid_microtu m else 0) (lease_members i s))"
  have "routes_ok s' \<and> lookup rl_id i (rt_leases s') = Some ?new \<and>
    lease_members i s' = (if observes row now then map (\<lambda>m. sampled_now s row now m m) (lease_members i s)
      else lease_members i s) \<and>
    (\<forall>a. a \<noteq> route_escrow i \<longrightarrow> bal (ledger s') a = bal (ledger s) a + (if observes row now then ?inc a else 0) +
      (if a = refund_account row \<and> \<not> funded (rl_state ?new) then rl_budget_microtu row - rl_paid_microtu ?new else 0)) \<and>
    rt_members s' = (if observes row now
      then map (\<lambda>m. if lm_lease_id m = i then sampled_now s row now m m else m) (rt_members s) else rt_members s)"
  proof (cases "rl_state row = L_OFFERED")
    case off: True
    then have no: "\<not> observes row now" by (simp add: observes_def running_def)
    show ?thesis
    proof (cases "now \<ge> rl_offer_expires_at row")
      case True
      have "close_route j2 tx_now L_EXPIRED row (rl_paid_microtu row) s = Inr s'"
        using ret off True offered_members_unpaid [OF D(6) off] by (simp add: advance_route_def)
      from close_route_ok [OF ok old fd _ this]
      show ?thesis using off True no by (simp add: advanced_route_def funded_def)
    next
      case False
      then have "s' = s" using ret off by (simp add: advance_route_def)
      then show ?thesis using ok old off False no fd by (simp add: advanced_route_def)
    qed
  next
    case False
    then have run: "running (rl_state row)" using fd by (auto simp: funded_def running_def)
    show ?thesis
    proof (cases "now < num (rl_sample_ms row)")
      case True
      then have "s' = s" using ret False by (simp add: advance_route_def)
      then show ?thesis using ok old False True fd by (simp add: advanced_route_def observes_def)
    next
      case late: False
      then have clock: "num (rl_sample_ms row) \<le> now" by simp
      have obs: "observes row now" using run clock by (simp add: observes_def)
      obtain p s1 where 1: "observe_route j1 now row s = Inr (p, s1)"
        and 2: "(if now \<ge> num (rl_ends_ms row) then close_route j2 tx_now L_COMPLETED row p s1 else Inr s1) = Inr s'"
        using ret False late by (auto simp: advance_route_def and_then_Inr)
      note O = observe_route_ok [OF ok old run clock 1]
      have run1: "running (rl_state (observed_now s row now))"
        using run by (simp add: observed_now_def observed_route_def running_def)
      then have fd1: "funded (rl_state (observed_now s row now))" by (auto simp: running_def funded_def)
      show ?thesis
      proof (cases "now \<ge> num (rl_ends_ms row)")
        case True
        have "close_route j2 tx_now L_COMPLETED (observed_now s row now) (rl_paid_microtu (observed_now s row now)) s1 = Inr s'"
          using 2 True O(3) close_route_cong [of "observed_now s row now" row] by simp
        note C = close_route_ok [OF O(1,2) fd1 _ this]
        have ra: "refund_account (observed_now s row now) = refund_account row"
          unfolding refund_account_def observed_now_simps by (rule refl)
        have new: "?new = ended_route L_COMPLETED tx_now (observed_now s row now)"
          using False late True by (simp add: advanced_route_def)
        have nf: "\<not> funded L_COMPLETED" by (simp add: funded_def)
        show ?thesis using C [OF nf] O(4,5,6) obs nf unfolding ra new by simp
      next
        case nend: False
        then have "s' = s1" using 2 by simp
        moreover have "?new = observed_now s row now" using False late nend by (simp add: advanced_route_def)
        ultimately show ?thesis using O obs fd1 by simp
      qed
    qed
  qed
  then show "routes_ok s'" "lookup rl_id i (rt_leases s') = Some ?new"
    "lease_members i s' = (if observes row now then map (\<lambda>m. sampled_now s row now m m) (lease_members i s)
      else lease_members i s)"
    "\<And>a. a \<noteq> route_escrow i \<Longrightarrow> bal (ledger s') a = bal (ledger s) a + (if observes row now then ?inc a else 0) +
      (if a = refund_account row \<and> \<not> funded (rl_state ?new) then rl_budget_microtu row - rl_paid_microtu ?new else 0)"
    "rt_members s' = (if observes row now
      then map (\<lambda>m. if lm_lease_id m = i then sampled_now s row now m m else m) (rt_members s) else rt_members s)"
    by blast+
qed

end
