(* ===== verification/Route_Leases_Life.thy ===== *)
theory Route_Leases_Life
  imports Route_Leases_Money Route_Leases_Demo
begin

text \<open>
  The life of a route contract: draining, accepting and offering keep the invariant too, so it holds
  in every reachable database; and what a provider, a sponsor and the reconciler can rely on.
\<close>

section \<open>Draining\<close>

definition same_money :: "(lease_member \<Rightarrow> lease_member) \<Rightarrow> bool" where
  "same_money g \<longleftrightarrow> (\<forall>m. lease_member_key (g m) = lease_member_key m \<and> lm_ordinal (g m) = lm_ordinal m \<and>
     lm_provider_id (g m) = lm_provider_id m \<and> lm_resource_domain_id (g m) = lm_resource_domain_id m \<and>
     lm_maximum_microtu (g m) = lm_maximum_microtu m \<and> lm_share_bps (g m) = lm_share_bps m \<and>
     lm_paid_microtu (g m) = lm_paid_microtu m \<and> lm_credited_ms (g m) = lm_credited_ms m)"

lemma same_moneyD:
  assumes "same_money g"
  shows "lease_member_key (g m) = lease_member_key m" "lm_ordinal (g m) = lm_ordinal m"
    "lm_provider_id (g m) = lm_provider_id m" "lm_resource_domain_id (g m) = lm_resource_domain_id m"
    "lm_maximum_microtu (g m) = lm_maximum_microtu m" "lm_paid_microtu (g m) = lm_paid_microtu m"
    "lm_credited_ms (g m) = lm_credited_ms m" "lm_lease_id (g m) = lm_lease_id m" "lm_node_id (g m) = lm_node_id m"
    "lease_member_check (g m) = lease_member_check m"
  using assms by (auto simp: same_money_def lease_member_key_def lease_member_check_def)

lemma members_mapped:
  assumes g: "same_money g"
  shows "lease_members k (s\<lparr>rt_members := map g (rt_members s)\<rparr>) = map g (lease_members k s)"
proof -
  have "filter (\<lambda>m. lm_lease_id m = k) (map g T) = map g (filter (\<lambda>m. lm_lease_id m = k) T)" for T
    by (induction T) (auto simp: same_moneyD [OF g])
  then show ?thesis using sort_key_map [of lm_ordinal g] by (simp add: lease_members_def same_moneyD [OF g])
qed

lemma routes_ok_members:
  assumes ok: "routes_ok s" and g: "same_money g"
  shows "routes_ok (s\<lparr>rt_members := map g (rt_members s)\<rparr>)"
proof -
  let ?s = "s\<lparr>rt_members := map g (rt_members s)\<rparr>"
  note G = same_moneyD [OF g]
  have row: "route_row_ok r (map g ms)" if "route_row_ok r ms" for r ms
    using that by (auto simp: route_row_ok_def list_all_iff member_row_ok_def timed_ok_def G o_def)
  have dom: "lease_domains k ?s = lease_domains k s" for k
    by (simp add: lease_domains_def members_mapped [OF g] o_def G)
  have "keyed lease_member_key (map g (rt_members s)) = keyed lease_member_key (rt_members s)"
    by (simp add: keyed_def o_def G)
  moreover have "refs_ok ?s = refs_ok s" by (simp add: refs_ok_def G)
  moreover have "route_claims_ok ?s = route_claims_ok s" by (simp add: route_claims_ok_def dom)
  moreover have "route_keys_ok ?s = route_keys_ok s" by (simp add: route_keys_ok_def members_mapped [OF g])
  ultimately show ?thesis using ok row by (simp add: routes_ok_def members_mapped [OF g])
qed

lemma withdraw_members_map:
  "withdraw_members i u t s = s\<lparr>rt_members :=
     map (\<lambda>m. if leaving i u m then m\<lparr>lm_withdrawn_at := Some t, lm_sample_ready := False\<rparr> else m) (rt_members s)\<rparr>"
  "same_money (\<lambda>m. if leaving i u m then m\<lparr>lm_withdrawn_at := Some t, lm_sample_ready := False\<rparr> else m)"
  by (simp_all add: withdraw_members_def same_money_def lease_member_key_def)

definition drained_row :: "route_lease \<Rightarrow> route_lease" where
  "drained_row r = r\<lparr>rl_state := L_DRAINING, rl_sample_ready := False\<rparr>"

lemma drained_row_ok:
  assumes "route_row_ok r ms" and "running (rl_state r)"
  shows "route_row_ok (drained_row r) ms"
proof -
  have "route_lease_check (drained_row r) = route_lease_check r"
    by (simp add: route_lease_check_def drained_row_def split: option.split)
  moreover have "member_row_ok r m \<Longrightarrow> member_row_ok (drained_row r) m" for m
    by (auto simp: member_row_ok_def drained_row_def)
  moreover have "timed_ok (drained_row r) ms" using assms by (auto simp: route_row_ok_def timed_ok_def running_def drained_row_def)
  ultimately show ?thesis using assms by (auto simp: route_row_ok_def list_all_iff drained_row_def)
qed

lemma drain_route_ok:
  assumes ok: "routes_ok s" and old: "lookup rl_id i (rt_leases s) = Some row" and run: "running (rl_state row)"
    and ret: "drain_route tx_now user row s = Inr s'"
  shows "routes_ok s'" and "lookup rl_id i (rt_leases s') = Some (drained_row row)" and "ledger s' = ledger s"
    and "rt_members s' = rt_members (withdraw_members i (u_id user) tx_now s)"
proof -
  let ?w = "withdraw_members i (u_id user) tx_now s"
  have i: "rl_id row = i" using lookup_SomeD [OF old] by simp
  obtain s1 where 1: "update_route_lease i drained_row ?w = Inr s1"
    and s': "s' = s1 \<or> (\<exists>kd md. s' = route_event i kd md s1)"
    using ret unfolding drain_route_def Let_def i drained_row_def [abs_def] and_then_Inr by (auto split: if_splits)
  have okw: "routes_ok ?w"
    using routes_ok_members [OF ok withdraw_members_map(2)] by (simp only: withdraw_members_map(1))
  have oldw: "lookup rl_id i (rt_leases ?w) = Some row" using old by (simp add: withdraw_members_def)
  note D = routes_okD [OF okw oldw]
  have others: "route_row_ok r (lease_members (rl_id r) ?w) \<and> route_escrow_ok (ledger ?w) r"
    if "r \<in> set (rt_leases ?w)" "rl_id r \<noteq> i" for r
    using okw that by (simp add: routes_ok_def)
  have esc: "route_escrow_ok (ledger ?w) (drained_row row)"
    using D(7) run by (auto simp: route_escrow_ok_def drained_row_def running_def funded_def)
  have id: "rl_id (drained_row r) = rl_id r" for r by (simp add: drained_row_def)
  note U = update_route_lease_ok [OF 1 oldw D(3,4,5,9,10) others drained_row_ok [OF D(6) run] esc id]
  show "routes_ok s'" "lookup rl_id i (rt_leases s') = Some (drained_row row)" using U(1,2) s' by auto
  show "ledger s' = ledger s" "rt_members s' = rt_members ?w" using U(3,4) s' by (auto simp: withdraw_members_def)
qed

section \<open>Accepting\<close>

lemma record_acceptance_keeps:
  assumes "record_acceptance user i terms mandate s = Inr s'"
  shows "rt_leases s' = rt_leases s" "rt_members s' = rt_members s" "ledger s' = ledger s"
    "domain_claims s' = domain_claims s" "nodes s' = nodes s" "users s' = users s" "models s' = models s"
    "routes s' = routes s" "route_acceptances s' = route_acceptances s" "pools s' = pools s" "route_members s' = route_members s"
    "routes_ok s' = routes_ok s"
proof -
  have "s' = s \<or> (\<exists>kd md t. s' = route_event i kd md (s\<lparr>rt_acceptances := t\<rparr>))"
    using assms by (auto simp: record_acceptance_def insert_lease_acceptance_def res_Inr split: if_splits)
  then show "rt_leases s' = rt_leases s" "rt_members s' = rt_members s" "ledger s' = ledger s"
    "domain_claims s' = domain_claims s" "nodes s' = nodes s" "users s' = users s" "models s' = models s"
    "routes s' = routes s" "route_acceptances s' = route_acceptances s" "pools s' = pools s" "route_members s' = route_members s"
    by (auto simp: route_event_def)
  then show "routes_ok s' = routes_ok s"
    by (simp add: routes_ok_def refs_ok_def route_claims_ok_def route_keys_ok_def lease_members_def lease_domains_def)
qed

lemma activated_row_ok:
  assumes "route_row_ok r ms" and "rl_state r = L_OFFERED"
  shows "route_row_ok (activated_row now r) ms"
proof -
  have d: "0 \<le> rl_duration_seconds r" using assms by (simp add: route_row_ok_def route_lease_check_def)
  have z: "\<forall>m \<in> set ms. lm_credited_ms m = 0" using assms by (auto simp: route_row_ok_def list_all_iff member_row_ok_def)
  have "route_lease_check (activated_row now r)"
    using assms by (simp add: route_row_ok_def route_lease_check_def activated_row_def)
  moreover have "member_row_ok r m \<Longrightarrow> member_row_ok (activated_row now r) m" for m
    by (auto simp: member_row_ok_def activated_row_def)
  moreover have "timed_ok (activated_row now r) ms"
    using assms d z by (auto simp: route_row_ok_def timed_ok_def activated_row_def)
  ultimately show ?thesis using assms by (auto simp: route_row_ok_def list_all_iff activated_row_def)
qed

lemma activate_route_ok:
  assumes ok: "routes_ok s" and old: "lookup rl_id i (rt_leases s) = Some row" and off: "rl_state row = L_OFFERED"
    and ret: "activate_route now row s = Inr (row', s')"
  shows "routes_ok s'" and "lookup rl_id i (rt_leases s') = Some (activated_row now row)" and "ledger s' = ledger s"
    and "row' = activated_row now row"
    and "\<exists>g. same_money g \<and> (\<forall>m. lm_withdrawn_at (g m) = lm_withdrawn_at m) \<and> rt_members s' = map g (rt_members s)"
proof -
  note D = routes_okD [OF ok old]
  note O = observe_members_map [OF D(5)]
  let ?f = "\<lambda>m r. r\<lparr>lm_sample_ready := True, lm_node_epoch := Some (om_epoch (observed_of s row now m))\<rparr>"
  obtain s1 s2 where 1: "each (start_member i) (observe_members s row now) s = Inr s1"
    and 2: "update_route_lease i (activated_row now) s1 = Inr s2"
    and s': "\<exists>kd md. s' = route_event i kd md s2" and r': "row' = activated_row now row"
    using ret D(2) unfolding activate_route_def Let_def by (auto simp: need_Inr and_then_Inr)
  have loop: "each (\<lambda>m. update_lease_member i (lm_node_id m) (?f m)) (lease_members i s) s = Inr s1"
    using 1 D(2) unfolding O(1) each_map
    by (subst each_cong [where h = "\<lambda>m. start_member i (observed_of s row now m)"]) (simp_all add: start_member_def O(2))
  have f: "keeps_key ?f" by (simp add: keeps_key_def lease_member_key_def)
  have s1: "s1 = s\<lparr>rt_members := map (\<lambda>m. if lm_lease_id m = i then ?f m m else m) (rt_members s)\<rparr>"
    by (rule lease_loop(1) [where f = ?f, OF loop D(4) f])
  have g: "same_money (\<lambda>m. if lm_lease_id m = i then ?f m m else m)" by (simp add: same_money_def lease_member_key_def)
  have ok1: "routes_ok s1" using routes_ok_members [OF ok g] by (simp only: s1)
  have old1: "lookup rl_id i (rt_leases s1) = Some row" using old by (simp add: s1)
  note D1 = routes_okD [OF ok1 old1]
  have others: "route_row_ok r (lease_members (rl_id r) s1) \<and> route_escrow_ok (ledger s1) r"
    if "r \<in> set (rt_leases s1)" "rl_id r \<noteq> i" for r
    using ok1 that by (simp add: routes_ok_def)
  have esc: "route_escrow_ok (ledger s1) (activated_row now row)"
    using D1(7) off by (simp add: route_escrow_ok_def activated_row_def funded_def)
  have id: "rl_id (activated_row now r) = rl_id r" for r by (simp add: activated_row_def)
  note U = update_route_lease_ok [OF 2 old1 D1(3,4,5,9,10) others activated_row_ok [OF D1(6) off] esc id]
  show "routes_ok s'" "lookup rl_id i (rt_leases s') = Some (activated_row now row)" "ledger s' = ledger s"
    using U(1,2,3) s' by (auto simp: s1)
  show "row' = activated_row now row" by (rule r')
  have "rt_members s' = map (\<lambda>m. if lm_lease_id m = i then ?f m m else m) (rt_members s)"
    using U(4) s' by (auto simp: s1)
  then show "\<exists>g. same_money g \<and> (\<forall>m. lm_withdrawn_at (g m) = lm_withdrawn_at m) \<and> rt_members s' = map g (rt_members s)"
    using g by (intro exI conjI) auto
qed

lemma accept_route_lease_ok:
  assumes ok: "routes_ok s" and ret: "accept_route_lease clock1 now user i terms mandate s = Inr (row', s')"
  shows "routes_ok s'"
proof -
  have key: "keyed rl_id (rt_leases s)" using ok by (simp add: routes_ok_def)
  obtain row where row: "find (\<lambda>r. rl_id r = i \<and>
         (\<exists>p \<in> set (rt_members s). lm_lease_id p = i \<and> lm_provider_id p = u_id user)) (rt_leases s) = Some row"
    using ret unfolding accept_route_lease_def need_row_Inr by blast
  have lk: "lookup rl_id i (rt_leases s) = Some row" using find_lookup [OF key row] by simp
  show ?thesis
  proof (cases "accepted_by i (u_id user) s \<and> rl_state row \<noteq> L_OFFERED")
    case True
    then show ?thesis using ret ok by (simp add: accept_route_lease_def row need_Inr)
  next
    case False
    obtain s1 where off: "rl_state row = L_OFFERED" and 1: "record_acceptance user i terms mandate s = Inr s1"
      and 2: "(if \<not> all_accepted i s1 then Inr (row, s1) else activate_route now row s1) = Inr (row', s')"
      using ret False unfolding accept_route_lease_def row need_row_simps by (auto simp: need_Inr and_then_Inr split: if_splits)
    note R = record_acceptance_keeps [OF 1]
    have ok1: "routes_ok s1" using ok R(12) by simp
    have lk1: "lookup rl_id i (rt_leases s1) = Some row" using lk by (simp add: R(1))
    show ?thesis using 2 ok1 activate_route_ok(1) [OF ok1 lk1 off] by (auto split: if_splits)
  qed
qed

lemma cancel_route_lease_ok:
  assumes ok: "routes_ok s" and ret: "cancel_route_lease j1 j2 tx_now now user i s = Inr (r, s')"
  shows "routes_ok s'"
proof -
  have key: "keyed rl_id (rt_leases s)" using ok by (simp add: routes_ok_def)
  obtain row where row: "find (\<lambda>r. rl_id r = i \<and>
         (rl_sponsor_id r = u_id user \<or> u_role user = Admin \<or>
          (\<exists>p \<in> set (rt_members s). lm_lease_id p = i \<and> lm_provider_id p = u_id user))) (rt_leases s) = Some row"
    using ret unfolding cancel_route_lease_def need_row_Inr by blast
  have lk: "lookup rl_id i (rt_leases s) = Some row" using find_lookup [OF key row] by simp
  note main = ret [unfolded cancel_route_lease_def row need_row_simps]
  show ?thesis
  proof (cases "rl_state row = L_OFFERED")
    case True
    then have "close_route j2 tx_now L_CANCELLED row (rl_paid_microtu row) s = Inr s'"
      using main by (auto simp: and_then_Inr)
    from close_route_ok(1) [OF ok lk _ _ this] True show ?thesis by (simp add: funded_def)
  next
    case False
    show ?thesis
    proof (cases "running (rl_state row)")
      case True
      then have fd: "funded (rl_state row)" by (auto simp: running_def funded_def)
      obtain s1 current where 1: "advance_route j1 j2 tx_now now row s = Inr s1"
        and c: "lookup rl_id i (rt_leases s1) = Some current"
        and 2: "(if running (rl_state current) then drain_route tx_now user current s1 else Inr s1) = Inr s'"
        using main False True by (auto simp: and_then_Inr split: option.splits)
      have ok1: "routes_ok s1" by (rule advance_route_ok(1) [OF ok lk fd 1])
      show ?thesis using 2 ok1 drain_route_ok(1) [OF ok1 c] by (auto split: if_splits)
    next
      case nrun: False
      then show ?thesis using main False ok by (auto simp: and_then_Inr)
    qed
  qed
qed

lemma reconcile_route_lease_ok:
  assumes ok: "routes_ok s" and ret: "reconcile_route_lease j1 j2 tx_now now i s = Inr (u, s')"
  shows "routes_ok s'"
  using ret advance_route_ok(1) [OF ok] ok
  by (auto simp: reconcile_route_lease_def and_then_Inr split: option.splits if_splits)

section \<open>Offering\<close>

lemma insert_members:
  assumes "each insert_lease_member ms s = Inr s'" and "keyed lease_member_key (rt_members s)" and "refs_ok s"
  shows "s' = s\<lparr>rt_members := rt_members s @ ms\<rparr>" and "keyed lease_member_key (rt_members s')"
    and "refs_ok s'" and "\<forall>m \<in> set ms. lease_member_check m"
proof -
  have "s' = s\<lparr>rt_members := rt_members s @ ms\<rparr> \<and> keyed lease_member_key (rt_members s') \<and> refs_ok s' \<and>
    (\<forall>m \<in> set ms. lease_member_check m)"
    using assms
  proof (induction ms arbitrary: s)
    case Nil
    then show ?case by simp
  next
    case (Cons m ms)
    then obtain s1 where m: "insert_lease_member m s = Inr s1" and r: "each insert_lease_member ms s1 = Inr s'"
      by (auto simp: res_Inr)
    have s1: "s1 = s\<lparr>rt_members := rt_members s @ [m]\<rparr>" and new: "lease_member_key m \<notin> lease_member_key ` set (rt_members s)"
      and chk: "lease_member_check m"
      and fk: "lookup n_id (lm_node_id m) (nodes s) \<noteq> None" "lookup u_id (lm_provider_id m) (users s) \<noteq> None"
      using m by (auto simp: insert_lease_member_def res_Inr split: if_splits)
    have "keyed lease_member_key (rt_members s1)" using keyed_insert [OF Cons.prems(2) new] by (simp add: s1)
    moreover have "refs_ok s1" using Cons.prems(3) fk by (auto simp: refs_ok_def s1)
    ultimately show ?case using Cons.IH [OF r] chk by (auto simp: s1)
  qed
  then show "s' = s\<lparr>rt_members := rt_members s @ ms\<rparr>" "keyed lease_member_key (rt_members s')"
    "refs_ok s'" "\<forall>m \<in> set ms. lease_member_check m" by blast+
qed

text \<open>A new row of an offer, before its members are known.\<close>

definition fresh_offer :: "route_lease \<Rightarrow> lease_member list \<Rightarrow> bool" where
  "fresh_offer row ms \<longleftrightarrow>
     rl_escrow_account row = route_escrow (rl_id row) \<and> rl_state row = L_OFFERED \<and> rl_paid_microtu row = 0 \<and>
     rl_joint_ready_ms row = 0 \<and>
     (\<forall>m \<in> set ms. lm_lease_id m = rl_id row \<and> lm_paid_microtu m = 0 \<and> lm_credited_ms m = 0)"

lemma open_route_ok:
  assumes ok: "routes_ok s" and new: "fresh_offer row ms" and payer: "\<And>k. payer \<noteq> route_escrow k"
    and ret: "open_route j owner payer row ms s = Inr (row', s')"
  shows "routes_ok s'" and "row' = row" and "lookup rl_id (rl_id row) (rt_leases s') = Some row"
    and "\<And>a. a \<noteq> route_escrow (rl_id row) \<Longrightarrow>
      bal (ledger s') a = bal (ledger s) a - (if a = payer then rl_budget_microtu row else 0)"
    and "rt_members s' = rt_members s @ ms"
proof -
  let ?i = "rl_id row" and ?b = "rl_budget_microtu row"
  have F: "rl_escrow_account row = route_escrow ?i" "rl_state row = L_OFFERED" "rl_paid_microtu row = 0"
    "rl_joint_ready_ms row = 0" and M: "\<forall>m \<in> set ms. lm_lease_id m = ?i \<and> lm_paid_microtu m = 0 \<and> lm_credited_ms m = 0"
    using new by (simp_all add: fresh_offer_def)
  let ?md = "[(''lease_id'', JStr ?i), (''terms_sha256'', JStr (rl_terms_sha256 row)), (''policy'', JStr route_policy)]"
  let ?ev = "[(''terms_sha256'', JStr (rl_terms_sha256 row)), (''budget_microtu'', amt ?b), (''policy'', JStr route_policy)]"
  note R0 = ret [unfolded open_route_def Let_def F(1)]
  obtain L1 where acc: "new_account (route_escrow ?i) owner LEASE_ESCROW (ledger s) = Inr L1"
    using R0 by (cases "new_account (route_escrow ?i) owner LEASE_ESCROW (ledger s)") simp_all
  note R1 = R0 [unfolded acc and_then_simps]
  obtain j' L where fund: "post j (route_fund ?i) ''ROUTE_AVAILABILITY_RESERVE'' [(payer, - ?b), (route_escrow ?i, ?b)] ?md L1 = Inr (j', L)"
    using R1 by (cases "post j (route_fund ?i) ''ROUTE_AVAILABILITY_RESERVE'' [(payer, - ?b), (route_escrow ?i, ?b)] ?md L1") auto
  note R2 = R1 [unfolded fund and_then_simps prod.case]
  obtain s1 where 1: "insert_route_lease row (s\<lparr>ledger := L\<rparr>) = Inr s1"
    using R2 by (cases "insert_route_lease row (s\<lparr>ledger := L\<rparr>)") simp_all
  note R3 = R2 [unfolded 1 and_then_simps]
  obtain s2 where 2: "each insert_lease_member ms s1 = Inr s2"
    using R3 by (cases "each insert_lease_member ms s1") simp_all
  note R4 = R3 [unfolded 2 and_then_simps]
  have full: "complete_terms ?i s2" and s': "s' = route_event ?i ''offered'' ?ev s2" and row': "row' = row"
    using R4 by (auto split: if_splits)
  have a0: "accounts (ledger s) (route_escrow ?i) = None"
    and L1: "L1 = insert_account (route_escrow ?i) owner LEASE_ESCROW (ledger s)"
    using acc by (auto simp: res_Inr)
  have K: "keyed rl_id (rt_leases s)" "keyed lease_member_key (rt_members s)" "refs_ok s" "route_claims_ok s" "route_keys_ok s"
    using ok by (simp_all add: routes_ok_def)
  have s1: "s1 = s\<lparr>ledger := L, rt_leases := rt_leases s @ [row]\<rparr>" and fresh: "?i \<notin> rl_id ` set (rt_leases s)"
    and chk: "route_lease_check row"
    using 1 by (auto simp: insert_route_lease_def res_Inr split: if_splits)
  have refs1: "refs_ok s1" using K(3) by (simp add: s1 refs_ok_def)
  have km1: "keyed lease_member_key (rt_members s1)" using K(2) by (simp add: s1)
  note I = insert_members [OF 2 km1 refs1]
  have s2: "rt_leases s2 = rt_leases s @ [row]" "ledger s2 = L" "rt_members s2 = rt_members s @ ms"
    "domain_claims s2 = domain_claims s" using I(1) by (simp_all add: s1)
  have nokeys: "route_fund ?i \<notin> posted L1" "route_refund ?i \<notin> posted L1" "\<And>n. route_payment ?i (int n) \<notin> posted L1"
    and nomem: "lease_members ?i s = []"
    using K(5) fresh by (auto simp: route_keys_ok_def L1)
  have old: "lease_members k s2 = lease_members k s" if "k \<noteq> ?i" for k
  proof -
    have "filter (\<lambda>m. lm_lease_id m = k) ms = []" using M that by (auto simp: filter_empty_conv)
    then show ?thesis by (simp add: lease_members_def s2)
  qed
  have mine: "set (lease_members ?i s2) = set ms" "length (lease_members ?i s2) = length ms"
  proof -
    have "filter (\<lambda>m. lm_lease_id m = ?i) ms = ms" using M by (simp add: filter_id_conv)
    moreover have "filter (\<lambda>m. lm_lease_id m = ?i) (rt_members s) = []"
      using nomem members_set [of _ ?i s] by (auto simp: filter_empty_conv)
    ultimately have "lease_members ?i s2 = sort_key lm_ordinal ms" by (simp add: lease_members_def s2)
    then show "set (lease_members ?i s2) = set ms" "length (lease_members ?i s2) = length ms" by simp_all
  qed
  have lk2: "lookup rl_id ?i (rt_leases s2) = Some row"
    using fresh lookup_None_iff [of rl_id ?i "rt_leases s"] by (simp add: s2)
  have sum: "sum_list (map lm_maximum_microtu (lease_members ?i s2)) = ?b"
    using full by (simp add: complete_terms_def lk2)
  have paid: "sum_list (map lm_paid_microtu (lease_members ?i s2)) = 0"
  proof -
    have "map lm_paid_microtu (lease_members ?i s2) = map (\<lambda>_. 0) (lease_members ?i s2)"
      using M mine(1) by (intro map_cong) auto
    then show ?thesis by (simp only: sum_list_0)
  qed
  have dpos: "0 \<le> rl_duration_seconds row" using chk by (simp add: route_lease_check_def)
  have rowok: "route_row_ok row (lease_members ?i s2)"
    using chk F sum paid I(4) M mine(1) dpos
    by (auto simp: route_row_ok_def list_all_iff member_row_ok_def timed_ok_def running_def)
  note P = led.moves [OF nokeys(1) fund]
  note R = post_posted [OF fund]
  have b0: "bal L1 (route_escrow ?i) = 0" unfolding L1 insert_account_bal by (simp add: bal_def a0)
  have "route_refund ?i \<notin> posted L" "route_payment ?i (int n) \<notin> posted L" for n
    using nokeys route_fund_neq by (auto simp: R)
  then have esc: "route_escrow_ok (ledger s2) row"
    using P [of "route_escrow ?i"] b0 payer [of ?i] F by (auto simp: route_escrow_ok_def rl.holds_def funded_def s2)
  have escO: "route_escrow_ok (ledger s2) r" if "r \<in> set (rt_leases s)" for r
  proof -
    have ne: "rl_id r \<noteq> ?i" using that fresh by (metis imageI)
    have "route_escrow_ok L1 r"
      using ok that rl.holds_cong [of L1 "rl_id r" "ledger s"] by (auto simp: routes_ok_def route_escrow_ok_def L1)
    moreover have "route_escrow (rl_id r) \<notin> fst ` set [(payer, - ?b), (route_escrow ?i, ?b)]"
      using payer [of "rl_id r"] ne rl.escrow_inj [of "rl_id r" ?i] by auto
    ultimately show ?thesis unfolding route_escrow_ok_def s2
      using rl.holds_frame [OF _ fund, of "rl_id r"] route_fund_neq by metis
  qed
  have claims: "route_claims_ok s2"
  proof -
    have nr: "\<not> running (rl_state row)" by (simp add: F(2) running_def)
    have no: "r \<in> set (rt_leases s) \<Longrightarrow> rl_id r \<noteq> ?i" for r using fresh by (metis imageI)
    have eq: "(d, Route_lease k) \<in> set (domain_claims s) \<longleftrightarrow>
        (\<exists>r \<in> set (rt_leases s). rl_id r = k \<and> running (rl_state r) \<and> d \<in> set (lease_domains k s))" for d k
      using K(4) unfolding route_claims_ok_def by blast
    have "(d, Route_lease k) \<in> set (domain_claims s) \<longleftrightarrow>
        (\<exists>r \<in> set (rt_leases s2). rl_id r = k \<and> running (rl_state r) \<and> d \<in> set (lease_domains k s2))" for d k
    proof (cases "k = ?i")
      case True
      then show ?thesis unfolding eq using no nr by (auto simp: s2(1))
    next
      case False
      then have "lease_domains k s2 = lease_domains k s" by (simp add: lease_domains_def old)
      then show ?thesis unfolding eq using nr by (simp add: s2(1))
    qed
    then show ?thesis using K(4) unfolding route_claims_ok_def s2(4) by blast
  qed
  have keys: "route_keys_ok s2"
    using K(5) route_fund_neq route_fund_inj old by (auto simp: route_keys_ok_def s2 R L1)
  have "keyed rl_id (rt_leases s2)" using keyed_insert [OF K(1) fresh] by (simp add: s2)
  moreover have "route_row_ok r (lease_members (rl_id r) s2) \<and> route_escrow_ok (ledger s2) r"
    if "r \<in> set (rt_leases s2)" for r
  proof (cases "r = row")
    case True
    then show ?thesis using rowok esc by simp
  next
    case False
    then have r: "r \<in> set (rt_leases s)" using that by (simp add: s2)
    then have "rl_id r \<noteq> ?i" using fresh by (metis imageI)
    then show ?thesis using ok r escO [OF r] old by (simp add: routes_ok_def)
  qed
  ultimately have "routes_ok s2" using I(2,3) claims keys by (simp add: routes_ok_def)
  then show "routes_ok s'" using s' by auto
  show "row' = row" by (rule row')
  show "rt_members s' = rt_members s @ ms" using s' s2(3) by auto
  show "lookup rl_id ?i (rt_leases s') = Some row" using lk2 s' by auto
  show "bal (ledger s') a = bal (ledger s) a - (if a = payer then ?b else 0)" if "a \<noteq> route_escrow ?i" for a
    using P [of a] that s' s2(2) by (auto simp: L1)
qed

lemma offered_fresh:
  "fresh_offer (offered_route i tx_now sponsor r data budget f h d) (map (offered_member i) ms)"
  by (auto simp: fresh_offer_def offered_route_def offered_member_def)

lemma offer_route_lease_ok:
  assumes ok: "routes_ok s" and f: "\<And>a c k. f = Some (a, c) \<Longrightarrow> a \<noteq> route_escrow k"
    and ret: "offer_route_lease sha i j tx_now sponsor data f s = Inr (row, s')"
  shows "routes_ok s'"
proof (cases "find (\<lambda>r. rl_sponsor_id r = sponsor \<and> rl_idempotency_key r = ro_idempotency_key data) (rt_leases s)")
  case (Some e)
  then show ?thesis using ret ok by (simp add: offer_route_lease_def Let_def need_Inr)
next
  case None
  obtain r budget h d ms where
    "open_route j (case f of None \<Rightarrow> Some sponsor | Some _ \<Rightarrow> None)
       (case f of None \<Rightarrow> availableAccount sponsor | Some (a, _) \<Rightarrow> a)
       (offered_route i tx_now sponsor r data budget f h d) (map (offered_member i) ms) s = Inr (row, s')"
    using ret unfolding offer_route_lease_def Let_def None by (auto simp: need_Inr need_row_Inr and_then_Inr)
  from open_route_ok(1) [OF ok offered_fresh _ this] show ?thesis
    using f by (auto split: option.splits)
qed

section \<open>Reachable databases\<close>

text \<open>
  What the rest of the program may do beside the route contracts: anything that leaves their rows,
  escrows, keys and claims alone and keeps the foreign keys.
\<close>

definition beside_routes :: "db \<Rightarrow> db \<Rightarrow> bool" where
  "beside_routes s s' \<longleftrightarrow>
     rt_leases s' = rt_leases s \<and> rt_members s' = rt_members s \<and>
     (\<forall>i. bal (ledger s') (route_escrow i) = bal (ledger s) (route_escrow i)) \<and>
     posted (ledger s) \<subseteq> posted (ledger s') \<and>
     (\<forall>key \<in> posted (ledger s') - posted (ledger s). \<not> prefix ''route-lease:'' key) \<and>
     keyed fst (domain_claims s') \<and>
     (\<forall>d i. (d, Route_lease i) \<in> set (domain_claims s') \<longleftrightarrow> (d, Route_lease i) \<in> set (domain_claims s)) \<and>
     refs_ok s'"

inductive route_step :: "(string \<Rightarrow> string) \<Rightarrow> db \<Rightarrow> db \<Rightarrow> bool" for sha where
  offered: "offer_route_lease sha i j tx_now sponsor data f s = Inr (row, s') \<Longrightarrow>
    (\<And>a c k. f = Some (a, c) \<Longrightarrow> a \<noteq> route_escrow k) \<Longrightarrow> route_step sha s s'"
| accepted: "accept_route_lease clock1 now user i terms mandate s = Inr (row, s') \<Longrightarrow> route_step sha s s'"
| cancelled: "cancel_route_lease j1 j2 tx_now now user i s = Inr (r, s') \<Longrightarrow> route_step sha s s'"
| reconciled: "reconcile_route_lease j1 j2 tx_now now i s = Inr (u, s') \<Longrightarrow> route_step sha s s'"
| other: "beside_routes s s' \<Longrightarrow> route_step sha s s'"

inductive_cases route_stepE: "route_step sha s s'"

lemma route_key_prefixes:
  "prefix ''route-lease:'' (route_fund i)" "prefix ''route-lease:'' (route_refund i)"
  "prefix ''route-lease:'' (route_payment i n)"
  by (simp_all add: route_fund_def route_refund_def route_payment_def pay_key_def)

lemma beside_routes_ok:
  assumes ok: "routes_ok s" and b: "beside_routes s s'"
  shows "routes_ok s'"
proof -
  have same: "rt_leases s' = rt_leases s" "rt_members s' = rt_members s"
    and bal: "\<And>i. bal (ledger s') (route_escrow i) = bal (ledger s) (route_escrow i)"
    and sub: "posted (ledger s) \<subseteq> posted (ledger s')"
    and new: "\<forall>key \<in> posted (ledger s') - posted (ledger s). \<not> prefix ''route-lease:'' key"
    and cl: "keyed fst (domain_claims s')"
      "\<And>d i. (d, Route_lease i) \<in> set (domain_claims s') \<longleftrightarrow> (d, Route_lease i) \<in> set (domain_claims s)"
    and refs: "refs_ok s'"
    using b by (simp_all add: beside_routes_def)
  have keys: "key \<in> posted (ledger s') \<longleftrightarrow> key \<in> posted (ledger s)" if "prefix ''route-lease:'' key" for key
    using sub new that by blast
  have mem: "lease_members i s' = lease_members i s" for i by (simp add: lease_members_def same)
  have "route_escrow_ok (ledger s') r = route_escrow_ok (ledger s) r" for r
    by (simp add: route_escrow_ok_def rl.holds_def bal keys route_key_prefixes)
  moreover have "route_claims_ok s'" using ok cl
    by (simp add: routes_ok_def route_claims_ok_def lease_domains_def mem same)
  moreover have "route_keys_ok s'" using ok by (simp add: routes_ok_def route_keys_ok_def keys route_key_prefixes mem same)
  ultimately show ?thesis using ok refs by (simp add: routes_ok_def mem same)
qed

lemma route_step_ok: "route_step sha s s' \<Longrightarrow> routes_ok s \<Longrightarrow> routes_ok s'"
  by (erule route_stepE)
     (auto intro: offer_route_lease_ok accept_route_lease_ok cancel_route_lease_ok reconcile_route_lease_ok beside_routes_ok)

definition no_routes :: "db \<Rightarrow> bool" where
  "no_routes s \<longleftrightarrow> rt_leases s = [] \<and> rt_members s = [] \<and>
     (\<forall>key \<in> posted (ledger s). \<not> prefix ''route-lease:'' key) \<and>
     keyed fst (domain_claims s) \<and> (\<forall>d i. (d, Route_lease i) \<notin> set (domain_claims s)) \<and>
     (\<forall>n \<in> set (nodes s). lookup m_id (n_model_id n) (models s) \<noteq> None)"

lemma no_routes_ok: "no_routes s \<Longrightarrow> routes_ok s"
  using route_key_prefixes
  by (auto simp: no_routes_def routes_ok_def keyed_def refs_ok_def route_claims_ok_def route_keys_ok_def lease_members_def)

lemma reachable_routes: "(route_step sha)\<^sup>*\<^sup>* s0 s \<Longrightarrow> no_routes s0 \<Longrightarrow> routes_ok s"
  by (erule rtranclp_keeps [where I = routes_ok]) (auto intro: no_routes_ok route_step_ok)

section \<open>The demonstration route\<close>

lemma demo_starts: "no_routes demo_routes_db"
proof -
  have "filter (prefix ''route-lease:'') (map j_business_key (journal (ledger demo_routes_db))) = []" by code_simp
  moreover have "rt_leases demo_routes_db = []" "rt_members demo_routes_db = []" "domain_claims demo_routes_db = []"
    by code_simp+
  moreover have "list_all (\<lambda>n. lookup m_id (n_model_id n) (models demo_routes_db) \<noteq> None) (nodes demo_routes_db)" by code_simp
  ultimately show ?thesis
    by (simp add: no_routes_def posted_def keyed_def filter_empty_conv list_all_iff image_iff)
qed

lemma returns_pairE:
  assumes "returns m (\<lambda>(a, b). P a b)"
  obtains a b where "m = Inr (a, b)" "P a b"
  using assms by (auto simp: returns_iff)

lemma demo_activates:
  obtains s where "(route_step demo_sha)\<^sup>*\<^sup>* demo_routes_db s" "activated_demo s"
    "returns (demo_observed s) (\<lambda>(u, s'). paid_to s' = [180, 120] \<and> map rl_id (rt_leases s') = [''w1''])"
    "returns (demo_leaves s) (\<lambda>(u, s'). map rl_state (rt_leases s') = [L_DRAINING] \<and>
       map lm_withdrawn_at (lease_members ''w1'' s') = [None, Some 103000])"
proof -
  let ?then = "\<lambda>s3. activated_demo s3 \<and>
    returns (demo_observed s3) (\<lambda>(u, s'). paid_to s' = [180, 120] \<and> map rl_id (rt_leases s') = [''w1'']) \<and>
    returns (demo_leaves s3) (\<lambda>(u, s'). map rl_state (rt_leases s') = [L_DRAINING] \<and>
       map lm_withdrawn_at (lease_members ''w1'' s') = [None, Some 103000])"
  obtain r1 s1 where r1: "demo_offered = Inr (r1, s1)"
    and q1: "returns (demo_accepts bob 95000 s1) (\<lambda>(r2, s2). returns (demo_accepts carol 100000 s2) (\<lambda>(r3, s3). ?then s3))"
    using demo_route_runs by (rule returns_pairE)
  obtain r2 s2 where r2: "demo_accepts bob 95000 s1 = Inr (r2, s2)"
    and q2: "returns (demo_accepts carol 100000 s2) (\<lambda>(r3, s3). ?then s3)"
    using q1 by (rule returns_pairE)
  obtain r3 s3 where r3: "demo_accepts carol 100000 s2 = Inr (r3, s3)" and P: "?then s3"
    using q2 by (rule returns_pairE)
  have "route_step demo_sha demo_routes_db s1" using r1 unfolding demo_offered_def by (rule route_step.offered) simp
  moreover have "route_step demo_sha s1 s2" "route_step demo_sha s2 s3"
    using r2 r3 unfolding demo_accepts_def by (auto intro: route_step.accepted)
  ultimately have "(route_step demo_sha)\<^sup>*\<^sup>* demo_routes_db s3"
    by (blast intro: r_into_rtranclp rtranclp.rtrancl_into_rtrancl)
  then show thesis using P by (intro that [of s3]) simp_all
qed

text \<open>
  C4: from a database with no route contract, whatever offers, acceptances, departures,
  observations and activity of the other components follow, every route contract is exactly funded.
  Its members' maxima add up to its budget; each member was paid the floor of its credited share of
  its maximum; the contract's paid amount is the sum of the members'; its escrow account holds the
  unpaid rest while it is open and nothing once it is closed; and no two running contracts use one
  physical domain.
\<close>

theorem route_contracts_funded:
  assumes run: "(route_step sha)\<^sup>*\<^sup>* s0 s" and init: "no_routes s0" and r: "r \<in> set (rt_leases s)"
  shows "sum_list (map lm_maximum_microtu (lease_members (rl_id r) s)) = rl_budget_microtu r \<and>
    sum_list (map lm_paid_microtu (lease_members (rl_id r) s)) = rl_paid_microtu r \<and>
    list_all (\<lambda>m. lm_paid_microtu m = lm_credited_ms m * lm_maximum_microtu m div (rl_duration_seconds r * 1000) \<and>
      0 \<le> lm_paid_microtu m \<and> lm_paid_microtu m \<le> lm_maximum_microtu m) (lease_members (rl_id r) s) \<and>
    bal (ledger s) (rl_escrow_account r) = (if funded (rl_state r) then rl_budget_microtu r - rl_paid_microtu r else 0) \<and>
    (\<forall>q \<in> set (rt_leases s). running (rl_state r) \<and> running (rl_state q) \<and>
       set (lease_domains (rl_id r) s) \<inter> set (lease_domains (rl_id q) s) \<noteq> {} \<longrightarrow> q = r)"
proof -
  have ok: "routes_ok s" by (rule reachable_routes [OF run init])
  have R: "route_row_ok r (lease_members (rl_id r) s)" "route_escrow_ok (ledger s) r"
    using ok r by (auto simp: routes_ok_def)
  have "q = r" if q: "q \<in> set (rt_leases s)" "running (rl_state r)" "running (rl_state q)"
    "d \<in> set (lease_domains (rl_id r) s)" "d \<in> set (lease_domains (rl_id q) s)" for q d
  proof -
    have K: "keyed fst (domain_claims s)" "keyed rl_id (rt_leases s)" using ok by (simp_all add: routes_ok_def route_claims_ok_def)
    have "(d, Route_lease (rl_id r)) \<in> set (domain_claims s)" "(d, Route_lease (rl_id q)) \<in> set (domain_claims s)"
      using ok r q unfolding routes_ok_def route_claims_ok_def by blast+
    from keyed_unique [OF K(1) this] have "rl_id r = rl_id q" by simp
    then show ?thesis using keyed_unique [OF K(2) q(1) r] by simp
  qed
  then show ?thesis using R
    by (auto simp: route_row_ok_def route_escrow_ok_def rl.holds_def list_all_iff member_row_ok_def lease_member_check_def)
qed
theorem route_contracts_funded_witness:
  "\<exists>s r. (route_step demo_sha)\<^sup>*\<^sup>* demo_routes_db s \<and> r \<in> set (rt_leases s) \<and> rl_id r = ''w1'' \<and>
     rl_paid_microtu r = 300 \<and> sum_list (map lm_maximum_microtu (lease_members ''w1'' s)) = rl_budget_microtu r"
proof -
  obtain s where s: "(route_step demo_sha)\<^sup>*\<^sup>* demo_routes_db s"
    "returns (demo_observed s) (\<lambda>(u, s'). paid_to s' = [180, 120] \<and> map rl_id (rt_leases s') = [''w1''])"
    by (rule demo_activates)
  obtain u s' where o': "demo_observed s = Inr (u, s')" and P: "paid_to s' = [180, 120]" "map rl_id (rt_leases s') = [''w1'']"
    using s(2) by (auto elim: returns_pairE)
  obtain r where r: "r \<in> set (rt_leases s')" "rl_id r = ''w1''" using P(2) by auto
  have run: "(route_step demo_sha)\<^sup>*\<^sup>* demo_routes_db s'"
    using s(1) route_step.reconciled [OF o' [unfolded demo_observed_def]] by (rule rtranclp.rtrancl_into_rtrancl)
  note F = route_contracts_funded [OF run demo_starts r(1)]
  show ?thesis using run r F P(1) by (intro exI [of _ s'] exI [of _ r]) (simp add: paid_to_def)
qed

section \<open>What an observation pays\<close>

text \<open>
  C11: an observation of a running route contract credits each member exactly the interval since
  the last sample, cut at the contract's end, when the samples are at most six seconds apart and
  the member was ready at both on the same boot, and nothing otherwise; its total pay becomes the
  floor of its credited share. Every provider receives exactly what its members' totals grew by,
  the rest of the budget goes back to the sponsor or the fund if the contract closes, and no
  other account but the escrow moves.
\<close>

theorem route_observation_pays:
  assumes run: "(route_step sha)\<^sup>*\<^sup>* s0 s" and init: "no_routes s0"
    and row: "lookup rl_id i (rt_leases s) = Some row" "running (rl_state row)" "num (rl_sample_ms row) \<le> now"
    and ret: "reconcile_route_lease j1 j2 tx_now now i s = Inr (u, s')"
  shows "list_all2 (\<lambda>om m. lm_node_id m = lm_node_id (om_row om) \<and>
        lm_credited_ms m = lm_credited_ms (om_row om) +
          (if now - num (rl_sample_ms row) \<le> 6000 \<and> lm_sample_ready (om_row om) \<and> om_ready om \<and>
              lm_node_epoch (om_row om) = Some (om_epoch om)
           then min now (num (rl_ends_ms row)) - num (rl_sample_ms row) else 0) \<and>
        lm_paid_microtu m = lm_credited_ms m * lm_maximum_microtu m div (rl_duration_seconds row * 1000))
      (observe_members s row now) (lease_members i s') \<and>
    (\<forall>a. a \<noteq> route_escrow i \<longrightarrow> bal (ledger s') a = bal (ledger s) a +
      (\<Sum>m \<leftarrow> lease_members i s'. if a = availableAccount (lm_provider_id m) then lm_paid_microtu m else 0) -
      (\<Sum>m \<leftarrow> lease_members i s. if a = availableAccount (lm_provider_id m) then lm_paid_microtu m else 0) +
      (if a = refund_account row \<and> num (rl_ends_ms row) \<le> now
       then rl_budget_microtu row - sum_list (map lm_paid_microtu (lease_members i s')) else 0))"
proof -
  have ok: "routes_ok s" by (rule reachable_routes [OF run init])
  note D = routes_okD [OF ok row(1)]
  have fd: "funded (rl_state row)" using row(2) by (auto simp: running_def funded_def)
  have adv: "advance_route j1 j2 tx_now now row s = Inr s'"
    using ret row(1) fd by (auto simp: reconcile_route_lease_def and_then_Inr)
  note A = advance_route_ok [OF ok row(1) fd adv]
  let ?f = "\<lambda>m. sampled_now s row now m m" and ?ms = "lease_members i s"
  have obs: "observes row now" using row(2,3) by (simp add: observes_def)
  have mem: "lease_members i s' = map ?f ?ms" using A(3) obs by simp
  have new: "lookup rl_id i (rt_leases s') = Some (advanced_route s row tx_now now)" by (rule A(2))
  have "route_row_ok (advanced_route s row tx_now now) (map ?f ?ms)"
    using routes_okD(6) [OF A(1) new] by (simp add: mem)
  moreover have dur: "rl_duration_seconds (advanced_route s row tx_now now) = rl_duration_seconds row"
    by (simp add: advanced_route_def ended_route_def)
  ultimately have total: "lm_paid_microtu (?f m) = lm_credited_ms (?f m) * lm_maximum_microtu (?f m) div (rl_duration_seconds row * 1000)"
    if "m \<in> set ?ms" for m using that by (simp add: route_row_ok_def list_all_iff member_row_ok_def)
  obtain k e where ke: "rl_sample_ms row = Some k" "rl_ends_ms row = Some e" "k \<le> e"
    using D(6) row(2) by (auto simp: route_row_ok_def timed_ok_def)
  have elapsed: "route_elapsed row now = min now e - k"
    using row(3) ke by (simp add: route_elapsed_def route_until_def)
  have om: "om_row (observed_of s row now m) = m" if "m \<in> set ?ms" for m
    by (rule observe_members_map(2) [OF D(5) that])
  have cred: "lm_credited_ms (?f m) = lm_credited_ms m + (if now - k \<le> 6000 \<and> lm_sample_ready m \<and>
      om_ready (observed_of s row now m) \<and> lm_node_epoch m = Some (om_epoch (observed_of s row now m))
      then min now e - k else 0)" if "m \<in> set ?ms" for m
    using om [OF that] by (simp add: sampled_now_def sampled_member_def credited_to_def interval_valid_def
        contiguous_sample_def ke elapsed)
  have node: "lm_node_id (?f m) = lm_node_id m" "lm_provider_id (?f m) = lm_provider_id m" for m
    by (simp_all add: sampled_now_def sampled_member_def)
  have O: "observe_members s row now = map (observed_of s row now) ?ms"
    using observe_members_map(1) [OF D(5), of row now] D(2) by simp
  have "list_all2 (\<lambda>om m. lm_node_id m = lm_node_id (om_row om) \<and>
        lm_credited_ms m = lm_credited_ms (om_row om) +
          (if now - num (rl_sample_ms row) \<le> 6000 \<and> lm_sample_ready (om_row om) \<and> om_ready om \<and>
              lm_node_epoch (om_row om) = Some (om_epoch om)
           then min now (num (rl_ends_ms row)) - num (rl_sample_ms row) else 0) \<and>
        lm_paid_microtu m = lm_credited_ms m * lm_maximum_microtu m div (rl_duration_seconds row * 1000))
      (observe_members s row now) (lease_members i s')"
    unfolding O mem list.rel_map by (rule list.rel_refl_strong) (simp add: om node cred total ke)
  moreover have "sum_list (map (\<lambda>m. if a = availableAccount (lm_provider_id m) then paid_now s row now m - lm_paid_microtu m else 0) ?ms) =
      (\<Sum>m \<leftarrow> lease_members i s'. if a = availableAccount (lm_provider_id m) then lm_paid_microtu m else 0) -
      (\<Sum>m \<leftarrow> ?ms. if a = availableAccount (lm_provider_id m) then lm_paid_microtu m else 0)" for a
  proof -
    have "(\<Sum>m \<leftarrow> ms. if a = availableAccount (lm_provider_id m) then paid_now s row now m - lm_paid_microtu m else 0) =
      (\<Sum>m \<leftarrow> map ?f ms. if a = availableAccount (lm_provider_id m) then lm_paid_microtu m else 0) -
      (\<Sum>m \<leftarrow> ms. if a = availableAccount (lm_provider_id m) then lm_paid_microtu m else 0)" for ms
      by (induction ms) (simp_all add: node paid_now_def)
    then show ?thesis unfolding mem .
  qed
  moreover have "\<not> funded (rl_state (advanced_route s row tx_now now)) \<longleftrightarrow> num (rl_ends_ms row) \<le> now"
    using row(2,3) by (auto simp: advanced_route_def running_def funded_def observed_now_def observed_route_def)
  moreover have "rl_paid_microtu (advanced_route s row tx_now now) = sum_list (map lm_paid_microtu (lease_members i s'))"
    using routes_okD(6) [OF A(1) new] by (simp add: route_row_ok_def)
  ultimately show ?thesis using A(4) obs by simp
qed

theorem route_observation_pays_witness:
  "\<exists>s s'. (route_step demo_sha)\<^sup>*\<^sup>* demo_routes_db s \<and> demo_observed s = Inr ((), s') \<and> paid_to s' = [180, 120] \<and>
     bal (ledger s') (availableAccount ''c3'') = bal (ledger s) (availableAccount ''c3'') +
       (\<Sum>m \<leftarrow> lease_members ''w1'' s'. if availableAccount ''c3'' = availableAccount (lm_provider_id m) then lm_paid_microtu m else 0) -
       (\<Sum>m \<leftarrow> lease_members ''w1'' s. if availableAccount ''c3'' = availableAccount (lm_provider_id m) then lm_paid_microtu m else 0)"
proof -
  obtain s where s: "(route_step demo_sha)\<^sup>*\<^sup>* demo_routes_db s" "activated_demo s"
    "returns (demo_observed s) (\<lambda>(u, s'). paid_to s' = [180, 120] \<and> map rl_id (rt_leases s') = [''w1''])"
    by (rule demo_activates)
  obtain s' where o': "demo_observed s = Inr ((), s')" and P: "paid_to s' = [180, 120]"
    using s(3) by (auto simp: returns_iff)
  obtain row where row: "rt_leases s = [row]" "rl_id row = ''w1''" "rl_state row = L_ACTIVE"
      "rl_sample_ms row = Some 100000" "rl_ends_ms row = Some 160000"
    using s(2) by (auto simp: activated_demo_def)
  have l: "lookup rl_id ''w1'' (rt_leases s) = Some row" "running (rl_state row)" "num (rl_sample_ms row) \<le> 103000"
    using row by (simp_all add: lookup_def running_def)
  note F = route_observation_pays [OF s(1) demo_starts l o' [unfolded demo_observed_def]]
  have "availableAccount ''c3'' \<noteq> route_escrow ''w1''" by (simp add: availableAccount_def route_escrow_def)
  then show ?thesis using s(1) o' P F row by (intro exI [of _ s] exI [of _ s']) simp
qed

end
