(* ===== verification/Renewals_Spend.thy ===== *)
theory Renewals_Spend
  imports Renewals_Life Route_Leases_Life
begin

text \<open>
  One renewal, step by step: an attempt that returned \<open>RENEWED\<close> had a live authorization with room, a
  source that may pay, and a mandate of every provider of the contract it opened; it took the price
  once and recorded one run and one usage per mandate (\<open>renewal_spends_authority\<close>).
\<close>

section \<open>What the statements leave alone\<close>

lemma accept_ledger:
  assumes "accept_route_lease clock1 now user i terms mandate s = Inr (row', s')"
  shows "ledger s' = ledger s"
proof -
  have member: "ledger t' = ledger t" if "start_member i om t = Inr t'" for i om t t'
    using that by (auto simp: start_member_def update_lease_member_def split: option.splits if_splits)
  have lease: "ledger t' = ledger t" if "update_route_lease i f t = Inr t'" for i f t t'
    using that by (auto simp: update_route_lease_def and_then_Inr split: option.splits if_splits)
  have act: "ledger t' = ledger t" if ret: "activate_route now row t = Inr (r, t')" for row r t t'
  proof -
    obtain t1 t2 md where 1: "each (start_member (rl_id row)) (observe_members t row now) t = Inr t1"
      and 2: "update_route_lease (rl_id row) (activated_row now) t1 = Inr t2" and t': "t' = route_event (rl_id row) ''activated'' md t2"
      using ret unfolding activate_route_def Let_def by (auto simp: need_Inr and_then_Inr)
    have "ledger t1 = ledger t" by (rule each_keeps [OF 1, of "\<lambda>u. ledger u = ledger t"]) (auto dest: member)
    with lease [OF 2] show ?thesis by (simp add: t' route_event_def)
  qed
  show ?thesis
    using assms record_acceptance_keeps(3) act
    unfolding accept_route_lease_def need_row_Inr need_Inr
    by (auto simp: need_Inr and_then_Inr split: if_splits)
qed

lemma update_authority_frame:
  "update_authority i f s = Inr s' \<Longrightarrow> base s' = base s \<and> runs s' = runs s \<and> usages s' = usages s \<and> mandates s' = mandates s"
  by (auto simp: update_authority_def split: option.splits if_splits)

lemma note_renewal_frame:
  assumes "note_renewal clock_ts a status md s = Inr (st, s')"
  shows "st = status" and "base s' = base s" and "runs s' = runs s" and "usages s' = usages s"
proof -
  obtain s1 where 1: "update_authority (au_id a) (\<lambda>q. q\<lparr>au_last_status := status, au_last_attempt_at := Some clock_ts\<rparr>) s = Inr s1"
    and 2: "st = status" "s' = (if au_last_status a \<noteq> status \<or> status = ''RENEWED''
       then add_renewal_event (au_pool_id a) (if status = ''RENEWED'' then ''window_renewed'' else ''waiting_changed'')
         None (Some (au_id a)) None ((''status'', JStr status) # md) s1 else s1)"
    using assms unfolding note_renewal_def and_then_Inr by blast
  show "st = status" by (rule 2)
  from update_authority_frame [OF 1] show "base s' = base s" "runs s' = runs s" "usages s' = usages s"
    unfolding 2(2) by (simp_all add: add_renewal_event_def)
qed

lemma close_authority_status: "close_authority clock_ts a z s = Inr (st, s') \<Longrightarrow> st = authority_state_text z"
  by (auto simp: close_authority_def and_then_Inr dest: note_renewal_frame(1))

lemma use_demand_frame:
  "use_demand sha x l evidence s = Inr s' \<Longrightarrow> base s' = base s \<and> runs s' = runs s \<and> usages s' = usages s"
  by (auto simp: use_demand_def insert_demand_def and_then_Inr insert_row_Inr split: option.splits if_splits)

lemma accept_mandate_frame:
  "accept_mandate x l m s = Inr s' \<Longrightarrow>
   ledger (base s') = ledger (base s) \<and> runs s' = runs s \<and> usages s' = usages s"
  by (auto simp: accept_mandate_def on_base_def and_then_Inr split: option.splits dest: accept_ledger)

definition usage_row :: "route_lease \<Rightarrow> provider_mandate \<Rightarrow> mandate_usage" where
  "usage_row l m = \<lparr>mu_lease_id = rl_id l, mu_provider_id = pm_provider_id m, mu_mandate_id = pm_id m,
     mu_terms_sha256 = pm_terms_sha256 m\<rparr>"

lemma use_mandates_frame:
  "each (use_mandate x l) ms s = Inr s' \<Longrightarrow>
   base s' = base s \<and> runs s' = runs s \<and> usages s' = usages s @ map (usage_row l) ms"
proof (induction ms arbitrary: s)
  case Nil
  then show ?case by simp
next
  case (Cons m ms)
  have row: "use_mandate x l m = insert_usage (at_clock_ts x) (usage_row l m)" by (simp add: use_mandate_def usage_row_def)
  obtain s1 where 1: "insert_usage (at_clock_ts x) (usage_row l m) s = Inr s1" and 2: "each (use_mandate x l) ms s1 = Inr s'"
    using Cons.prems by (auto simp: and_then_Inr row)
  from 1 have "base s1 = base s \<and> runs s1 = runs s \<and> usages s1 = usages s @ [usage_row l m]"
    by (rule insert_usage_Inr) simp
  with Cons.IH [OF 2] show ?case by simp
qed

section \<open>A renewal that returned\<close>

lemma authority_state_text_not_renewed [simp]: "authority_state_text z \<noteq> ''RENEWED''"
  by (cases z) simp_all

lemma note_not_renewed: "note_renewal clock_ts a status md s = Inr (''RENEWED'', s') \<Longrightarrow> status = ''RENEWED''"
  by (drule note_renewal_frame(1)) simp

lemma attempt_window_renewed:
  assumes ret: "attempt_window sha x p a g s = Inr (''RENEWED'', s')"
  obtains src r evidence where
    "renewal_source (cooperativeSnapshot (at_date_now x) (at_tx_now x) (base s) p) a (group_cost g) = Some src"
    "renew_window sha x p a g src r (route_mandates a p (at_date_now x + (cg_duration_seconds g + 10) * 1000) r s)
       evidence s = Inr (''RENEWED'', s')"
    "\<forall>f. expansion_of x p g (cooperativeSnapshot (at_date_now x) (at_tx_now x) (base s) p) a s = Some f \<longrightarrow> approved f"
proof -
  have c: "note_renewal ct b (''EXPANSION_'' @ z) md s \<noteq> Inr (''RENEWED'', s')"
    "note_renewal ct b ''WAITING_FOR_AUTHORIZED_SOURCE'' md s \<noteq> Inr (''RENEWED'', s')"
    "note_renewal ct b ''WAITING_FOR_FUNDS'' md s \<noteq> Inr (''RENEWED'', s')"
    "note_renewal ct b ''WAITING_FOR_CAPACITY'' md s \<noteq> Inr (''RENEWED'', s')"
    "note_renewal ct b ''WAITING_FOR_OPERATORS'' md s \<noteq> Inr (''RENEWED'', s')" for ct b z md
    by (auto dest!: note_not_renewed)
  from ret show thesis
    unfolding attempt_window_def Let_def
    by (auto simp: c and_then_Inr simp del: append.simps split: if_splits option.splits intro: that)
qed

lemma attempt_renewed:
  assumes ret: "attempt_renewal sha x i s = Inr (''RENEWED'', s')" and a: "lookup au_id i (authorities s) = Some a"
    and p: "lookup cp_id (au_pool_id a) (pools (base s)) = Some p"
  obtains g where "au_state a = Z_ACTIVE" "au_expires_at a > at_date_now x" "\<not> cp_paused p" "au_policy_sha256 a = cp_policy_sha256 p"
    "\<not> user_disabled (cp_creator_id p) (base s)" "\<not> user_disabled (au_authorized_by a) (base s)"
    "lookup pool_group_key (cp_id p, au_group_key a) (pool_groups (base s)) = Some g"
    "au_windows_used a < au_maximum_windows a" "attempt_window sha x p a g s = Inr (''RENEWED'', s')"
proof -
  have c: "note_renewal ct b ''PAUSED'' md s \<noteq> Inr (''RENEWED'', s')"
    "note_renewal ct b ''AUTHORIZER_DISABLED'' md s \<noteq> Inr (''RENEWED'', s')"
    "note_renewal ct b ''WAITING_FOR_SUPPORT'' md s \<noteq> Inr (''RENEWED'', s')"
    "note_renewal ct b ''WAITING_FOR_WINDOW'' md s \<noteq> Inr (''RENEWED'', s')"
    "close_authority ct b z s \<noteq> Inr (''RENEWED'', s')" for ct b z md
    by (auto dest!: note_not_renewed dest: close_authority_status [THEN sym])
  have R: "au_state a = Z_ACTIVE" "\<not> au_expires_at a \<le> at_date_now x" "\<not> cp_paused p"
    "\<not> (user_disabled (cp_creator_id p) (base s) \<or> user_disabled (au_authorized_by a) (base s))"
    "au_policy_sha256 a = cp_policy_sha256 p"
    using ret by (auto simp: attempt_renewal_def a p poolLock_def c need_Inr dest: sym split: if_splits)
  from ret R obtain g where g: "lookup pool_group_key (cp_id p, au_group_key a) (pool_groups (base s)) = Some g"
    by (auto simp: attempt_renewal_def a p poolLock_def split: option.splits)
  from ret R have "\<not> au_windows_used a \<ge> au_maximum_windows a" "attempt_window sha x p a g s = Inr (''RENEWED'', s')"
    by (auto simp: attempt_renewal_def a p g poolLock_def c split: if_splits)
  with R g show thesis by (intro that) simp_all
qed

text \<open>The window was opened with a lease that every provider accepted under a mandate, paid once.\<close>

lemma renew_window_spends:
  assumes ret: "renew_window sha x p a g src r ms evidence s = Inr (st, s')"
    and p: "lookup cp_id (cp_id p) (pools (base s)) = Some p" and key: "keyed pool_group_key (pool_groups (base s))"
    and g: "lookup pool_group_key (cp_id p, cg_group_key g) (pool_groups (base s)) = Some g"
    and new: "find (\<lambda>l. rl_sponsor_id l = cp_creator_id p \<and> rl_idempotency_key l = at_key x) (rt_leases (base s)) = None"
    and fresh: "route_fund (at_lease_id x) \<notin> posted (ledger (base s))"
  shows "runs s' = runs s @ [\<lparr>rw_lease_id = at_lease_id x, rw_authorization_id = au_id a, rw_sequence = au_windows_used a + 1,
      rw_source = src, rw_committed_microtu = group_cost g\<rparr>]"
    and "\<exists>l. rl_id l = at_lease_id x \<and> usages s' = usages s @ map (usage_row l) ms"
    and "usage_complete (at_lease_id x) s'" and "expansion_complete (at_lease_id x) s'"
    and "bal (ledger (base s')) c = bal (ledger (base s)) c + (if c = route_escrow (at_lease_id x) then group_cost g else 0) -
       (if c = source_account src p then group_cost g else 0)"
    and "\<exists>l. lookup rl_id (at_lease_id x) (rt_leases (base s')) = Some l \<and> rl_state l = L_ACTIVE \<and>
       rl_budget_microtu l = group_cost g"
proof -
  obtain creator l s1 s2 s3 s4 s5 where
    1: "on_base (offer_window sha (at_lease_id x, at_journal_id x, at_incident_id x) (at_date_now x) (at_tx_now x) creator (cp_id p)
       \<lparr>wq_group_key = cg_group_key g, wq_source = src, wq_reason = renewal_reason a, wq_idempotency_key = at_key x\<rparr>
       \<lparr>wo_eligible = Some [cr_route_id r], wo_renewal = Some (renewal_json a ms), wo_expansion = map_option fst evidence\<rparr>) s =
       Inr (l, s1)"
    and 2: "each (accept_mandate x l) ms s1 = Inr s2"
    and 3: "insert_run (at_clock_ts x) \<lparr>rw_lease_id = rl_id l, rw_authorization_id = au_id a, rw_sequence = au_windows_used a + 1,
       rw_source = src, rw_committed_microtu = group_cost g\<rparr> s2 = Inr s3"
    and 4: "each (use_mandate x l) ms s3 = Inr s4" and 5: "use_demand sha x l evidence s4 = Inr s5"
    and 6: "\<exists>md. note_renewal (at_clock_ts x) a ''RENEWED'' md s5 = Inr (st, s')"
    and 7: "usage_complete (rl_id l) s'" "expansion_complete (rl_id l) s'"
    using ret by (rule renew_window_Inr)
  obtain b where w: "offer_window sha (at_lease_id x, at_journal_id x, at_incident_id x) (at_date_now x) (at_tx_now x) creator (cp_id p)
       \<lparr>wq_group_key = cg_group_key g, wq_source = src, wq_reason = renewal_reason a, wq_idempotency_key = at_key x\<rparr>
       \<lparr>wo_eligible = Some [cr_route_id r], wo_renewal = Some (renewal_json a ms), wo_expansion = map_option fst evidence\<rparr> (base s) =
       Inr (l, b)" and s1: "s1 = s\<lparr>base := b\<rparr>"
    using 1 by (auto simp: on_base_def and_then_Inr)
  obtain g' where g': "g' \<in> set (pool_groups (base s))" "pool_group_key g' = (cp_id p, cg_group_key g)" "rl_id l = at_lease_id x"
    and moves: "\<forall>c. bal (ledger b) c = bal (ledger (base s)) c + (if c = route_escrow (at_lease_id x) then group_cost g' else 0) -
       (if c = source_account src p then group_cost g' else 0)"
    using offer_window_moves [OF w p] new fresh by auto
  have "g' = g" using keyed_lookup [OF key g'(1)] g g'(2) by simp
  have F2: "ledger (base s2) = ledger b \<and> runs s2 = runs s \<and> usages s2 = usages s"
    by (rule each_keeps [OF 2]) (auto simp: s1 dest: accept_mandate_frame)
  obtain l2 where l2: "lookup rl_id (at_lease_id x) (rt_leases (base s2)) = Some l2" "rl_state l2 = L_ACTIVE" "rl_budget_microtu l2 = group_cost g"
    and s3: "runs s3 = runs s2 @ [\<lparr>rw_lease_id = at_lease_id x, rw_authorization_id = au_id a, rw_sequence = au_windows_used a + 1,
      rw_source = src, rw_committed_microtu = group_cost g\<rparr>]" "base s3 = base s2" "usages s3 = usages s2"
    using 3 by (rule insert_run_Inr) (simp add: g'(3) run_matches_def)
  note F4 = use_mandates_frame [OF 4] and F5 = use_demand_frame [OF 5]
  obtain md where md: "note_renewal (at_clock_ts x) a ''RENEWED'' md s5 = Inr (st, s')" using 6 by blast
  note F6 = note_renewal_frame(2-4) [OF md]
  have base: "base s' = base s2" using F4 F5 F6 s3 by simp
  show "runs s' = runs s @ [\<lparr>rw_lease_id = at_lease_id x, rw_authorization_id = au_id a, rw_sequence = au_windows_used a + 1,
      rw_source = src, rw_committed_microtu = group_cost g\<rparr>]" using F2 F4 F5 F6 s3 by simp
  show "\<exists>l. rl_id l = at_lease_id x \<and> usages s' = usages s @ map (usage_row l) ms" using F2 F4 F5 F6 s3 g'(3) by auto
  show "usage_complete (at_lease_id x) s'" "expansion_complete (at_lease_id x) s'" using 7 by (simp_all add: g'(3))
  show "bal (ledger (base s')) c = bal (ledger (base s)) c + (if c = route_escrow (at_lease_id x) then group_cost g else 0) -
       (if c = source_account src p then group_cost g else 0)"
    using F2 moves by (simp add: base \<open>g' = g\<close>)
  show "\<exists>l. lookup rl_id (at_lease_id x) (rt_leases (base s')) = Some l \<and> rl_state l = L_ACTIVE \<and>
       rl_budget_microtu l = group_cost g" using l2 by (simp add: base)
qed

lemma renewal_source_Some:
  assumes "renewal_source snap a cost = Some src"
  shows "case src of
      From_WORKING \<Rightarrow> cost \<le> sn_working snap \<and> au_working_committed_microtu a + cost \<le> au_maximum_working_microtu a
    | From_RESERVE \<Rightarrow> sn_working snap < cost \<and> cost \<le> sn_reserve snap \<and>
        au_reserve_committed_microtu a + cost \<le> au_maximum_reserve_microtu a"
  using assms by (auto simp: renewal_source_def working_limit_def reserve_limit_def split: if_splits)

lemma snapshot_balances:
  "sn_working (cooperativeSnapshot date_now tx_now s p) = bal (ledger s) (cp_working_account p)"
  "sn_reserve (cooperativeSnapshot date_now tx_now s p) = bal (ledger s) (cp_reserve_account p)"
  by (simp_all add: cooperativeSnapshot_def Let_def)

text \<open>A usage of a lease that had none comes from a mandate of this renewal.\<close>

lemma usage_of_renewal:
  assumes "usages s' = usages s @ map (usage_row l) ms" and "rl_id l = i" and "i \<notin> mu_lease_id ` set (usages s)"
    and "(i, n) \<in> usage_key ` set (usages s')"
  shows "\<exists>m \<in> set ms. pm_provider_id m = n \<and>
    (\<exists>u \<in> set (usages s'). mu_lease_id u = i \<and> mu_provider_id u = n \<and> mu_mandate_id u = pm_id m)"
proof -
  obtain u where u: "u \<in> set (usages s')" "mu_lease_id u = i" "mu_provider_id u = n"
    using assms(4) by (auto simp: usage_key_def)
  then have "u \<notin> set (usages s)" using assms(3) by auto
  then obtain m where "m \<in> set ms" "u = usage_row l m" using u(1) assms(1) by auto
  then show ?thesis using u by (intro bexI [of _ m] conjI bexI [of _ u]) (auto simp: usage_row_def)
qed

text \<open>
  C9: a renewal spends exactly what it was given. When an attempt returns \<open>RENEWED\<close>, its authorization
  was active, unexpired and had a window left, and the plan was not paused; the price of the group's
  window fits the source's balance and what was authorized from it, and the reserve pays only what
  the working account cannot. One run with the next number is recorded, the price moves once from
  the source to the escrow of a contract that is now active, and every provider of a member of that
  contract had an active mandate with a window left, for this policy and kind, that the renewal used.
  An expansion passed all its gates.
\<close>

theorem renewal_spends_authority:
  assumes ret: "attempt_renewal sha x i s = Inr (''RENEWED'', s')" and a: "lookup au_id i (authorities s) = Some a"
    and p: "lookup cp_id (au_pool_id a) (pools (base s)) = Some p" and key: "keyed pool_group_key (pool_groups (base s))"
    and new: "find (\<lambda>l. rl_sponsor_id l = cp_creator_id p \<and> rl_idempotency_key l = at_key x) (rt_leases (base s)) = None"
    and fresh: "route_fund (at_lease_id x) \<notin> posted (ledger (base s))"
    and unused: "at_lease_id x \<notin> mu_lease_id ` set (usages s)"
  shows "\<exists>g \<in> set (pool_groups (base s)). \<exists>src. pool_group_key g = (au_pool_id a, au_group_key a) \<and>
    au_state a = Z_ACTIVE \<and> au_expires_at a > at_date_now x \<and> au_windows_used a < au_maximum_windows a \<and> \<not> cp_paused p \<and>
    (case src of
       From_WORKING \<Rightarrow> group_cost g \<le> bal (ledger (base s)) (cp_working_account p) \<and>
         au_working_committed_microtu a + group_cost g \<le> au_maximum_working_microtu a
     | From_RESERVE \<Rightarrow> bal (ledger (base s)) (cp_working_account p) < group_cost g \<and>
         group_cost g \<le> bal (ledger (base s)) (cp_reserve_account p) \<and>
         au_reserve_committed_microtu a + group_cost g \<le> au_maximum_reserve_microtu a) \<and>
    runs s' = runs s @ [\<lparr>rw_lease_id = at_lease_id x, rw_authorization_id = i, rw_sequence = au_windows_used a + 1,
      rw_source = src, rw_committed_microtu = group_cost g\<rparr>] \<and>
    (\<forall>c. bal (ledger (base s')) c = bal (ledger (base s)) c + (if c = route_escrow (at_lease_id x) then group_cost g else 0) -
       (if c = source_account src p then group_cost g else 0)) \<and>
    (\<exists>l. lookup rl_id (at_lease_id x) (rt_leases (base s')) = Some l \<and> rl_state l = L_ACTIVE \<and>
       rl_budget_microtu l = group_cost g) \<and>
    (\<forall>n \<in> lm_provider_id ` set (lease_members (at_lease_id x) (base s')). \<exists>m \<in> set (mandates s).
       pm_provider_id m = n \<and> pm_pool_id m = au_pool_id a \<and> pm_policy_sha256 m = au_policy_sha256 a \<and>
       pm_state m = Z_ACTIVE \<and> pm_windows_used m < pm_maximum_windows m \<and> pm_coverage_kind m = au_coverage_kind a \<and>
       (\<exists>u \<in> set (usages s'). mu_lease_id u = at_lease_id x \<and> mu_provider_id u = n \<and> mu_mandate_id u = pm_id m)) \<and>
    (au_coverage_kind a = EXPANSION \<longrightarrow>
       approved (expansionFacts (at_tx_now x) (at_clock_ts x) p g
         (cooperativeSnapshot (at_date_now x) (at_tx_now x) (base s) p) (at_flow x) (au_operating_support_id a) s))"
proof -
  let ?snap = "cooperativeSnapshot (at_date_now x) (at_tx_now x) (base s) p"
  have pid: "cp_id p = au_pool_id a" and aid: "au_id a = i" using lookup_SomeD [OF p] lookup_SomeD [OF a] by simp_all
  obtain g where act: "au_state a = Z_ACTIVE" "au_expires_at a > at_date_now x" "\<not> cp_paused p" "au_policy_sha256 a = cp_policy_sha256 p"
    and g: "lookup pool_group_key (cp_id p, au_group_key a) (pool_groups (base s)) = Some g"
    and room: "au_windows_used a < au_maximum_windows a" and w: "attempt_window sha x p a g s = Inr (''RENEWED'', s')"
    using ret a p by (rule attempt_renewed)
  note G = lookup_SomeD [OF g]
  have gk: "lookup pool_group_key (cp_id p, cg_group_key g) (pool_groups (base s)) = Some g"
    using G g by (simp add: pool_group_key_def)
  obtain src r evidence where src: "renewal_source ?snap a (group_cost g) = Some src"
    and rw: "renew_window sha x p a g src r (route_mandates a p (at_date_now x + (cg_duration_seconds g + 10) * 1000) r s)
       evidence s = Inr (''RENEWED'', s')"
    and gates: "\<forall>f. expansion_of x p g ?snap a s = Some f \<longrightarrow> approved f"
    using w by (rule attempt_window_renewed)
  let ?ms = "route_mandates a p (at_date_now x + (cg_duration_seconds g + 10) * 1000) r s"
  note R = renew_window_spends [OF rw p [folded pid] key gk new fresh]
  obtain l where l: "rl_id l = at_lease_id x" "usages s' = usages s @ map (usage_row l) ?ms" using R(2) by blast
  have mandates: "\<exists>m \<in> set (mandates s).
       pm_provider_id m = n \<and> pm_pool_id m = au_pool_id a \<and> pm_policy_sha256 m = au_policy_sha256 a \<and>
       pm_state m = Z_ACTIVE \<and> pm_windows_used m < pm_maximum_windows m \<and> pm_coverage_kind m = au_coverage_kind a \<and>
       (\<exists>u \<in> set (usages s'). mu_lease_id u = at_lease_id x \<and> mu_provider_id u = n \<and> mu_mandate_id u = pm_id m)"
    if "n \<in> lm_provider_id ` set (lease_members (at_lease_id x) (base s'))" for n
  proof -
    have "(at_lease_id x, n) \<in> usage_key ` set (usages s')" using R(3) that by (auto simp: usage_complete_def list_all_iff)
    then obtain m where "m \<in> set ?ms" "pm_provider_id m = n"
      "\<exists>u \<in> set (usages s'). mu_lease_id u = at_lease_id x \<and> mu_provider_id u = n \<and> mu_mandate_id u = pm_id m"
      using usage_of_renewal [OF l(2,1) unused] by blast
    then show ?thesis using act(4) by (intro bexI [of _ m]) (auto simp: route_mandates_def usable_mandate_def pid)
  qed
  show ?thesis
    using G act room renewal_source_Some [OF src, unfolded snapshot_balances] R(1,5,6) mandates gates
    unfolding pid aid by (intro bexI [of _ g] exI [of _ src] conjI) (simp_all add: expansion_of_def)
qed

theorem renewal_spends_authority_witness:
  "\<exists>s'. solo_renewed = Inr (''RENEWED'', s') \<and> bal (ledger (base s')) (coop_account ''p1'' ''reserve'') = 3000 \<and>
     map rw_sequence (runs s') = [1]"
proof -
  obtain s' where ret: "solo_renewed = Inr (''RENEWED'', s')" using solo_renews by (auto simp: returns_iff)
  have b: "bal (ledger solo_base) (coop_account ''p1'' ''working'') = 0" "bal (ledger solo_base) (coop_account ''p1'' ''reserve'') = 9000"
    "route_fund ''w1'' \<notin> posted (ledger solo_base)"
    by (simp_all add: solo_base_def bal_def coop_row_def coop_account_def posted_def)
  have a: "lookup au_id ''au1'' (authorities solo_ready) = Some solo_authority"
    by (simp add: solo_ready_simps solo_authority_simps)
  have p: "lookup cp_id (au_pool_id solo_authority) (pools (base solo_ready)) = Some solo_pool"
    by (simp add: solo_ready_simps solo_authority_simps solo_tables solo_simps)
  have key: "keyed pool_group_key (pool_groups (base solo_ready))" by (simp add: solo_ready_simps solo_tables keyed_def)
  have new: "find (\<lambda>l. rl_sponsor_id l = cp_creator_id solo_pool \<and> rl_idempotency_key l = at_key solo_attempt)
      (rt_leases (base solo_ready)) = None" by (simp add: solo_ready_simps solo_tables)
  have fresh: "route_fund (at_lease_id solo_attempt) \<notin> posted (ledger (base solo_ready))"
    using b(3) by (simp add: solo_ready_simps solo_attempt_simps)
  have unused: "at_lease_id solo_attempt \<notin> mu_lease_id ` set (usages solo_ready)" by (simp add: solo_ready_simps)
  obtain g src where g: "g \<in> set (pool_groups (base solo_ready))"
    and src: "case src of
       From_WORKING \<Rightarrow> group_cost g \<le> bal (ledger (base solo_ready)) (cp_working_account solo_pool) \<and>
         au_working_committed_microtu solo_authority + group_cost g \<le> au_maximum_working_microtu solo_authority
     | From_RESERVE \<Rightarrow> bal (ledger (base solo_ready)) (cp_working_account solo_pool) < group_cost g \<and>
         group_cost g \<le> bal (ledger (base solo_ready)) (cp_reserve_account solo_pool) \<and>
         au_reserve_committed_microtu solo_authority + group_cost g \<le> au_maximum_reserve_microtu solo_authority"
    and run: "runs s' = runs solo_ready @ [\<lparr>rw_lease_id = at_lease_id solo_attempt, rw_authorization_id = ''au1'',
      rw_sequence = au_windows_used solo_authority + 1, rw_source = src, rw_committed_microtu = group_cost g\<rparr>]"
    and moves: "\<forall>c. bal (ledger (base s')) c = bal (ledger (base solo_ready)) c +
       (if c = route_escrow (at_lease_id solo_attempt) then group_cost g else 0) -
       (if c = source_account src solo_pool then group_cost g else 0)"
    using renewal_spends_authority [OF ret [unfolded solo_renewed_def] a p key new fresh unused] by blast
  have cost: "group_cost g = 6000" using g by (simp add: solo_ready_simps solo_tables demo_group_simps)
  have "src = From_RESERVE" using src by (cases src) (simp_all add: solo_ready_simps solo_simps b cost)
  moreover have "coop_account ''p1'' ''reserve'' \<noteq> route_escrow ''w1''" by code_simp
  ultimately have "bal (ledger (base s')) (coop_account ''p1'' ''reserve'') = 3000"
    using moves [rule_format, of "coop_account ''p1'' ''reserve''"] b(2)
    by (simp add: source_account_def solo_simps solo_ready_simps solo_attempt_simps cost)
  with ret run show ?thesis by (intro exI [of _ s']) (simp add: solo_ready_simps solo_authority_simps)
qed

end
