(* ===== verification/Routes.thy ===== *)
theory Routes
  imports Market
begin

text \<open>
  Execution routes: \<open>apps/control-api/src/routes.ts\<close> with the checks and triggers of
  \<open>infra/migrations/005\<close>. The owner of a root node proposes a route of up to sixteen nodes and the
  share of each; every provider accepts the hash of the terms, an administrator qualifies the route,
  and a provider can withdraw. \<open>verdict\<close> is the state a qualification asks for, as for models.

  The trigger that keeps members from being added to a committed route has no case here: only
  \<open>routes_publish\<close> inserts members, in the transaction that inserts the route.
\<close>

section \<open>Tables\<close>

definition insert_route :: "execution_route \<Rightarrow> db \<Rightarrow> db result" where
  "insert_route r s =
     (if \<exists>q \<in> set (routes s). er_route_sha256 q = er_route_sha256 r \<or>
          (er_publisher_id q = er_publisher_id r \<and> er_idempotency_key q = er_idempotency_key r)
        then Inl (DbError ''23505'')
      else and_then (insert_row er_id r (routes s)) (\<lambda>t. Inr (s\<lparr>routes := t\<rparr>)))"

text \<open>The index \<open>one_qualified_route_per_root\<close>.\<close>

definition update_route :: "uuid \<Rightarrow> (execution_route \<Rightarrow> execution_route) \<Rightarrow> db \<Rightarrow> db result" where
  "update_route i f s =
     (case lookup er_id i (routes s) of
        None \<Rightarrow> Inr s
      | Some old \<Rightarrow>
          if er_state (f old) = R_LOCAL_PREVIEW \<and> (\<exists>q \<in> set (routes s). er_id q \<noteq> i \<and>
              er_state q = R_LOCAL_PREVIEW \<and> er_root_node_id q = er_root_node_id (f old))
          then Inl (DbError ''23505'')
          else Inr (s\<lparr>routes := update_row er_id i f (routes s)\<rparr>))"

definition route_member_key :: "route_member \<Rightarrow> uuid \<times> uuid" where
  "route_member_key m = (rm_route_id m, rm_node_id m)"

definition route_member_check :: "route_member \<Rightarrow> bool" where
  "route_member_check m \<longleftrightarrow>
     0 \<le> rm_ordinal m \<and> rm_ordinal m \<le> 15 \<and> 1 \<le> rm_share_bps m \<and> rm_share_bps m \<le> 10000 \<and>
     (rm_ordinal m = 0 \<and> rm_role m = ROOT \<or> rm_ordinal m > 0 \<and> rm_role m = STAGE)"

definition insert_route_member :: "route_member \<Rightarrow> db \<Rightarrow> db result" where
  "insert_route_member m s =
     (if \<not> route_member_check m then Inl (DbError ''23514'')
      else if \<exists>q \<in> set (route_members s). rm_route_id q = rm_route_id m \<and> rm_ordinal q = rm_ordinal m
        then Inl (DbError ''23505'')
      else and_then (insert_row route_member_key m (route_members s)) (\<lambda>t. Inr (s\<lparr>route_members := t\<rparr>)))"

text \<open>Constraint trigger \<open>complete_route\<close>, checked at the end of the transaction.\<close>

definition member_misplaced :: "db \<Rightarrow> execution_route \<Rightarrow> route_member \<Rightarrow> bool" where
  "member_misplaced s r m =
     (case lookup n_id (rm_node_id m) (nodes s) of
        None \<Rightarrow> False
      | Some n \<Rightarrow> n_owner_id n \<noteq> rm_provider_id m \<or> n_resource_domain_id n \<noteq> rm_resource_domain_id m \<or>
          n_model_id n \<noteq> er_model_id r \<or>
          (rm_role m = ROOT \<and> (n_id n \<noteq> er_root_node_id r \<or> n_node_kind n \<noteq> ROUTE_ROOT)) \<or>
          (rm_role m = STAGE \<and> n_node_kind n \<noteq> RPC_STAGE))"

definition complete_route :: "execution_route \<Rightarrow> db \<Rightarrow> bool" where
  "complete_route r s \<longleftrightarrow>
     (let ms = members_of (er_id r) s in
      2 \<le> length ms \<and> length ms \<le> 16 \<and> sum_list (map rm_share_bps ms) = 10000 \<and>
      Max (set (map rm_ordinal ms)) = int (length ms) - 1 \<and> \<not> list_ex (member_misplaced s r) ms)"

section \<open>Publish\<close>

record route_proposal =
  rp_name :: string
  rp_model_id :: string
  rp_idempotency_key :: uuid
  rp_participants :: "(uuid \<times> int) list"

definition proposal_ok :: "route_proposal \<Rightarrow> bool" where
  "proposal_ok d \<longleftrightarrow> label_ok (rp_name d) \<and> model_id_ok (rp_model_id d) \<and>
     list_all (\<lambda>(_, share). 1 \<le> share \<and> share \<le> 10000) (rp_participants d) \<and>
     2 \<le> length (rp_participants d) \<and> length (rp_participants d) \<le> 16"

definition proposal_json :: "route_proposal \<Rightarrow> json" where
  "proposal_json d = JObj
     [(''name'', JStr (trim (rp_name d))), (''model_id'', JStr (rp_model_id d)),
      (''idempotency_key'', JStr (rp_idempotency_key d)),
      (''participants'', JArr (map (\<lambda>(n, share). JObj [(''node_id'', JStr n), (''share_bps'', JNum share)])
        (rp_participants d)))]"

text \<open>The callback of the \<open>map\<close> over the participants: the \<open>k\<close>-th one as a member of route \<open>i\<close>.\<close>

definition proposed_member :: "db \<Rightarrow> user \<Rightarrow> string \<Rightarrow> uuid \<Rightarrow> nat \<times> uuid \<times> int \<Rightarrow> route_member result" where
  "proposed_member s user model i = (\<lambda>(k, n, share).
     case lookup n_id n (nodes s) of
       None \<Rightarrow> Inl (AppError 409 ''route_node'')
     | Some p \<Rightarrow>
         need ((case lookup u_id (n_owner_id p) (users s) of None \<Rightarrow> False | Some u \<Rightarrow> \<not> u_disabled u) \<and>
             n_model_id p = model \<and> n_desired_state p \<noteq> Want_REVOKED \<and>
             n_node_kind p = (if k = 0 then ROUTE_ROOT else RPC_STAGE)) 409 ''route_node'' (
         need (k = 0 \<longrightarrow> n_owner_id p = u_id user) 403 ''route_owner'' (
         Inr \<lparr>rm_route_id = i, rm_node_id = n_id p, rm_provider_id = n_owner_id p,
           rm_resource_domain_id = n_resource_domain_id p, rm_ordinal = int k,
           rm_role = (if k = 0 then ROOT else STAGE), rm_share_bps = share\<rparr>)))"

definition route_member_json :: "route_member \<Rightarrow> json" where
  "route_member_json m = JObj
     [(''node_id'', JStr (rm_node_id m)), (''provider_id'', JStr (rm_provider_id m)),
      (''resource_domain_id'', JStr (rm_resource_domain_id m)), (''ordinal'', JNum (rm_ordinal m)),
      (''role'', JStr (case rm_role m of ROOT \<Rightarrow> ''ROOT'' | STAGE \<Rightarrow> ''STAGE'')),
      (''share_bps'', JNum (rm_share_bps m))]"

definition route_terms :: "uuid \<Rightarrow> string \<Rightarrow> string \<Rightarrow> route_member list \<Rightarrow> json" where
  "route_terms i model manifest_sha256 ms = JObj
     [(''protocol'', JStr ''private-rpc-route-v1''), (''route_id'', JStr i), (''model_id'', JStr model),
      (''manifest_sha256'', JStr manifest_sha256), (''participants'', JArr (map route_member_json ms)),
      (''provider_pool_bps'', JNum 8000)]"

definition proposed_route ::
  "(string \<Rightarrow> string) \<Rightarrow> uuid \<Rightarrow> user \<Rightarrow> route_proposal \<Rightarrow> string \<Rightarrow> route_member list \<Rightarrow> execution_route" where
  "proposed_route sha i user d manifest_sha256 members =
     \<lparr>er_id = i, er_publisher_id = u_id user, er_name = trim (rp_name d),
      er_idempotency_key = rp_idempotency_key d, er_request_sha256 = sha (canonical (proposal_json d)),
      er_model_id = rp_model_id d, er_manifest_sha256 = manifest_sha256,
      er_root_node_id = rm_node_id (hd members),
      er_route_sha256 = sha (canonical (route_terms i (rp_model_id d) manifest_sha256 members)),
      er_state = R_CANDIDATE, er_qualification_note = []\<rparr>"

definition store_route :: "user \<Rightarrow> execution_route \<Rightarrow> route_member list \<Rightarrow> execution_route handler" where
  "store_route user r members s =
     and_then (insert_route r s) (\<lambda>s1.
     and_then (each insert_route_member members s1) (\<lambda>s2.
     if complete_route r s2
     then Inr (r, s2\<lparr>events := events s2 @ [actor_event (u_id user) ''route_proposed''
       [(''route_id'', JStr (er_id r)), (''route_sha256'', JStr (er_route_sha256 r))]]\<rparr>)
     else Inl (DbError ''P0001'')))"

definition routes_publish :: "(string \<Rightarrow> string) \<Rightarrow> uuid \<Rightarrow> user \<Rightarrow> route_proposal \<Rightarrow> execution_route handler" where
  "routes_publish sha i user d s =
     zod (proposal_ok d) (
     need (distinct (map fst (rp_participants d)) \<and> sum_list (map snd (rp_participants d)) = 10000)
       400 ''route_shares'' (
     let digest = sha (canonical (proposal_json d)) in
     case find (\<lambda>r. er_publisher_id r = u_id user \<and> er_idempotency_key r = rp_idempotency_key d) (routes s) of
       Some existing \<Rightarrow> need (er_request_sha256 existing = digest) 409 ''idempotency_conflict'' (Inr (existing, s))
     | None \<Rightarrow>
         need (length (filter (\<lambda>r. er_publisher_id r = u_id user \<and> er_state r \<noteq> R_REVOKED) (routes s)) < 32)
           429 ''route_limit'' (
         need_row (find (\<lambda>m. m_id m = rp_model_id d \<and> m_state m = M_LOCAL_PREVIEW) (models s))
           409 ''model_unavailable'' (\<lambda>model.
         and_then (traverse (proposed_member s user (rp_model_id d) i)
             (zip [0..<length (rp_participants d)] (rp_participants d))) (\<lambda>members.
         store_route user (proposed_route sha i user d (m_manifest_sha256 model) members) members s)))))"

section \<open>Consent\<close>

definition acceptance_key :: "route_acceptance \<Rightarrow> uuid \<times> uuid" where
  "acceptance_key a = (ra_route_id a, ra_provider_id a)"

definition insert_route_acceptance :: "route_acceptance \<Rightarrow> db \<Rightarrow> db result" where
  "insert_route_acceptance a s =
     and_then (insert_row acceptance_key a (route_acceptances s)) (\<lambda>t. Inr (s\<lparr>route_acceptances := t\<rparr>))"

definition routes_accept :: "user \<Rightarrow> uuid \<Rightarrow> string \<Rightarrow> unit handler" where
  "routes_accept user i route_sha256 s =
     zod (sha256_ok route_sha256) (
     need_row (find (\<lambda>r. er_id r = i \<and> er_state r \<noteq> R_REVOKED \<and>
         (\<exists>m \<in> set (route_members s). rm_route_id m = i \<and> rm_provider_id m = u_id user)) (routes s))
       404 ''route_missing'' (\<lambda>route.
     need (er_route_sha256 route = route_sha256) 409 ''route_terms'' (
     case lookup acceptance_key (i, u_id user) (route_acceptances s) of
       Some old \<Rightarrow> need (ra_withdrawn_at old = None) 409 ''route_withdrawn'' (Inr ((), s))
     | None \<Rightarrow>
         and_then (insert_route_acceptance \<lparr>ra_route_id = i, ra_provider_id = u_id user,
             ra_route_sha256 = route_sha256, ra_withdrawn_at = None\<rparr> s) (\<lambda>s1.
         Inr ((), s1\<lparr>events := events s1 @ [actor_event (u_id user) ''route_accepted''
           [(''route_id'', JStr i), (''route_sha256'', JStr route_sha256)]]\<rparr>)))))"

definition withdrawn_row :: "ms \<Rightarrow> route_acceptance \<Rightarrow> route_acceptance" where
  "withdrawn_row tx_now a = a\<lparr>ra_withdrawn_at :=
     (case ra_withdrawn_at a of None \<Rightarrow> Some tx_now | Some t \<Rightarrow> Some t)\<rparr>"

definition routes_withdraw :: "ms \<Rightarrow> user \<Rightarrow> uuid \<Rightarrow> unit handler" where
  "routes_withdraw tx_now user i s =
     need (lookup acceptance_key (i, u_id user) (route_acceptances s) \<noteq> None) 404 ''route_missing'' (
     Inr ((), s\<lparr>route_acceptances := update_row acceptance_key (i, u_id user) (withdrawn_row tx_now) (route_acceptances s),
       events := events s @ [actor_event (u_id user) ''route_withdrawn''
         [(''route_id'', JStr i), (''accepted_sessions_preserved'', JBool True)]]\<rparr>))"

section \<open>Qualification\<close>

fun verdict_route :: "verdict \<Rightarrow> route_state" where
  "verdict_route To_LOCAL_PREVIEW = R_LOCAL_PREVIEW"
| "verdict_route To_REVOKED = R_REVOKED"

text \<open>The row that the query for \<open>missing\<close> looks for: a member without a standing acceptance.\<close>

definition consent_missing :: "db \<Rightarrow> execution_route \<Rightarrow> route_member \<Rightarrow> bool" where
  "consent_missing s r m =
     (case lookup acceptance_key (er_id r, rm_provider_id m) (route_acceptances s) of
        None \<Rightarrow> True
      | Some a \<Rightarrow> ra_withdrawn_at a \<noteq> None \<or> ra_route_sha256 a \<noteq> er_route_sha256 r)"

definition routes_qualify :: "user \<Rightarrow> uuid \<Rightarrow> verdict \<Rightarrow> string \<Rightarrow> route_state handler" where
  "routes_qualify user i v note s =
     admin user (
     zod (qualification_note_ok note) (
     need_row (find (\<lambda>r. er_id r = i \<and> er_state r \<noteq> R_REVOKED) (routes s)) 404 ''route_missing'' (\<lambda>route.
     need (v = To_LOCAL_PREVIEW \<longrightarrow> \<not> (\<exists>q \<in> set (routes s). er_root_node_id q = er_root_node_id route \<and>
         er_state q = R_LOCAL_PREVIEW \<and> er_id q \<noteq> i)) 409 ''route_root_in_use'' (
     need (v = To_LOCAL_PREVIEW \<longrightarrow> \<not> (\<exists>m \<in> set (route_members s). rm_route_id m = i \<and> consent_missing s route m))
       409 ''route_consent'' (
     and_then (update_route i (\<lambda>r. r\<lparr>er_state := verdict_route v, er_qualification_note := note\<rparr>) s) (\<lambda>s1.
     Inr (verdict_route v, s1\<lparr>events := events s1 @ [actor_event (u_id user) ''route_qualification''
       [(''route_id'', JStr i), (''state'', JStr (verdict_text v)), (''note'', JStr note)]]\<rparr>)))))))"

end
