(* ===== verification/Routes_Life.thy ===== *)
theory Routes_Life
  imports Routes
begin

text \<open>
  What every reachable database keeps of the routes: their shape, which the settlement of a session
  and the contracts of a route rely on, one qualified route per root, and the consent behind every
  route that is offered.
\<close>

section \<open>Steps\<close>

datatype consent = Accepted uuid uuid string | Withdrawn uuid uuid | Silent

definition beside_route_tables :: "db \<Rightarrow> db \<Rightarrow> bool" where
  "beside_route_tables s s' \<longleftrightarrow> routes s' = routes s \<and> route_members s' = route_members s \<and>
     route_acceptances s' = route_acceptances s"

text \<open>A step and the consent it expressed: the provider, the route and the hash of its terms.\<close>

inductive routes_step :: "(string \<Rightarrow> string) \<Rightarrow> db \<Rightarrow> consent \<Rightarrow> db \<Rightarrow> bool" for sha where
  published: "routes_publish sha i user d s = Inr (r, s') \<Longrightarrow> routes_step sha s Silent s'"
| accepted: "routes_accept user i h s = Inr (x, s') \<Longrightarrow> routes_step sha s (Accepted (u_id user) i h) s'"
| withdrawn: "routes_withdraw t user i s = Inr (x, s') \<Longrightarrow> routes_step sha s (Withdrawn (u_id user) i) s'"
| judged: "routes_qualify user i v note s = Inr (x, s') \<Longrightarrow> routes_step sha s Silent s'"
| other: "beside_route_tables s s' \<Longrightarrow> routes_step sha s Silent s'"

inductive routes_run :: "(string \<Rightarrow> string) \<Rightarrow> db \<Rightarrow> consent list \<Rightarrow> db \<Rightarrow> bool" for sha where
  start: "routes_run sha s [] s"
| onward: "routes_run sha s ls s1 \<Longrightarrow> routes_step sha s1 l s2 \<Longrightarrow> routes_run sha s (ls @ [l]) s2"

section \<open>The shape of a route\<close>

definition route_shape :: "uuid \<Rightarrow> route_member list \<Rightarrow> bool" where
  "route_shape rt ms \<longleftrightarrow> 2 \<le> length ms \<and> length ms \<le> 16 \<and> map rm_ordinal ms = map int [0..<length ms] \<and>
     distinct (map rm_node_id ms) \<and> sum_list (map rm_share_bps ms) = 10000 \<and>
     list_all (\<lambda>m. 1 \<le> rm_share_bps m \<and> rm_share_bps m \<le> 10000) ms \<and> rm_node_id (hd ms) = rt \<and>
     list_all (\<lambda>m. rm_role m = (if rm_ordinal m = 0 then ROOT else STAGE)) ms"

lemma traverse_all2: "traverse f xs = Inr ys \<Longrightarrow> list_all2 (\<lambda>x y. f x = Inr y) xs ys"
  by (induction xs arbitrary: ys) (auto simp: res_Inr)

lemma proposed_memberD:
  assumes "proposed_member s user model i (k, n, share) = Inr m"
  shows "rm_route_id m = i" "rm_node_id m = n" "rm_ordinal m = int k" "rm_share_bps m = share"
    "rm_role m = (if k = 0 then ROOT else STAGE)"
  using assms by (auto simp: proposed_member_def res_Inr split: option.splits dest: lookup_SomeD)

lemma proposed_members:
  assumes "traverse (proposed_member s user model i) (zip [0..<length ps] ps) = Inr ms"
  shows "map rm_ordinal ms = map int [0..<length ms]" "map rm_node_id ms = map fst ps"
    "map rm_share_bps ms = map snd ps" "\<forall>m \<in> set ms. rm_route_id m = i" "length ms = length ps"
    "list_all (\<lambda>m. rm_role m = (if rm_ordinal m = 0 then ROOT else STAGE)) ms"
proof -
  have len: "length ms = length ps" using traverse_length [OF assms] by simp
  have at: "rm_route_id (ms ! k) = i \<and> rm_node_id (ms ! k) = fst (ps ! k) \<and> rm_ordinal (ms ! k) = int k \<and>
      rm_share_bps (ms ! k) = snd (ps ! k) \<and> rm_role (ms ! k) = (if k = 0 then ROOT else STAGE)"
    if "k < length ps" for k
  proof -
    have "proposed_member s user model i (k, fst (ps ! k), snd (ps ! k)) = Inr (ms ! k)"
      using list_all2_nthD [OF traverse_all2 [OF assms], of k] that by simp
    from proposed_memberD [OF this] show ?thesis by simp
  qed
  show "length ms = length ps" by (rule len)
  show "map rm_ordinal ms = map int [0..<length ms]" "map rm_node_id ms = map fst ps"
    "map rm_share_bps ms = map snd ps" using at len by (auto intro: nth_equalityI)
  show "\<forall>m \<in> set ms. rm_route_id m = i" "list_all (\<lambda>m. rm_role m = (if rm_ordinal m = 0 then ROOT else STAGE)) ms"
    using at len by (auto simp: in_set_conv_nth list_all_length)
qed

lemma sort_by_ordinal: "map rm_ordinal ms = map int [0..<length ms] \<Longrightarrow> sort_key rm_ordinal ms = ms"
proof (rule sort_key_id_if_sorted)
  assume o': "map rm_ordinal ms = map int [0..<length ms]"
  show "sorted (map rm_ordinal ms)" unfolding o' sorted_map
    by (rule sorted_wrt_mono_rel [OF _ sorted_upt]) simp
qed

definition routes_inv :: "db \<Rightarrow> bool" where
  "routes_inv s \<longleftrightarrow> keyed er_id (routes s) \<and> (\<forall>m \<in> set (route_members s). rm_route_id m \<in> er_id ` set (routes s)) \<and>
     (\<forall>r \<in> set (routes s). route_shape (er_root_node_id r) (members_of (er_id r) s)) \<and>
     (\<forall>q \<in> set (routes s). \<forall>r \<in> set (routes s). er_state q = R_LOCAL_PREVIEW \<and> er_state r = R_LOCAL_PREVIEW \<and>
        er_root_node_id q = er_root_node_id r \<longrightarrow> q = r)"

text \<open>What \<open>routes_publish\<close> leaves: the same tables, or one more route with its members.\<close>

lemma insert_route_members:
  assumes "each insert_route_member ms s = Inr s'"
  shows "s' = s\<lparr>route_members := route_members s @ ms\<rparr>" "list_all route_member_check ms"
proof -
  have "s' = s\<lparr>route_members := route_members s @ ms\<rparr> \<and> list_all route_member_check ms"
    using assms
  proof (induction ms arbitrary: s)
    case (Cons m ms)
    then obtain s1 where s1: "insert_route_member m s = Inr s1" "each insert_route_member ms s1 = Inr s'"
      by (auto simp: res_Inr)
    then have "s1 = s\<lparr>route_members := route_members s @ [m]\<rparr>" "route_member_check m"
      by (auto simp: insert_route_member_def res_Inr split: if_splits)
    with Cons.IH [OF s1(2)] show ?case by simp
  qed simp
  then show "s' = s\<lparr>route_members := route_members s @ ms\<rparr>" "list_all route_member_check ms" by simp_all
qed

lemma publish_tables:
  assumes "routes_publish sha i user d s = Inr (r, s')"
  shows "s' = s \<or> (\<exists>ms. er_id r = i \<and> er_id r \<notin> er_id ` set (routes s) \<and> er_state r = R_CANDIDATE \<and>
    routes s' = routes s @ [r] \<and> route_members s' = route_members s @ ms \<and>
    route_acceptances s' = route_acceptances s \<and> (\<forall>m \<in> set ms. rm_route_id m = i) \<and>
    route_shape (er_root_node_id r) ms)"
proof (cases "find (\<lambda>r. er_publisher_id r = u_id user \<and> er_idempotency_key r = rp_idempotency_key d) (routes s)")
  case (Some q)
  then show ?thesis using assms by (auto simp: routes_publish_def Let_def res_Inr)
next
  case None
  obtain model ms where p: "proposal_ok d" "distinct (map fst (rp_participants d))"
      "sum_list (map snd (rp_participants d)) = 10000"
    and ms: "traverse (proposed_member s user (rp_model_id d) i) (zip [0..<length (rp_participants d)] (rp_participants d)) = Inr ms"
    and st: "store_route user (proposed_route sha i user d (m_manifest_sha256 (model :: model)) ms) ms s = Inr (r, s')"
    using assms unfolding routes_publish_def Let_def None option.case
    by (simp only: res_Inr) (elim conjE exE, rule that, assumption+)
  have r: "er_id r = i" "er_state r = R_CANDIDATE" "er_root_node_id r = rm_node_id (hd ms)"
    using st by (auto simp: store_route_def proposed_route_def res_Inr)
  from st obtain s1 s2 where s1: "insert_route r s = Inr s1" and s2: "each insert_route_member ms s1 = Inr s2"
      and s': "routes s' = routes s2" "route_members s' = route_members s2" "route_acceptances s' = route_acceptances s2"
    by (auto simp: store_route_def res_Inr)
  note M = proposed_members [OF ms] and I = insert_route_members [OF s2]
  have "route_shape (er_root_node_id r) ms"
    using p M I(2) r(3) unfolding route_shape_def proposal_ok_def
    by (auto simp: list_all_iff route_member_check_def)
  moreover have "er_id r \<notin> er_id ` set (routes s)" "s1 = s\<lparr>routes := routes s @ [r]\<rparr>"
    using s1 by (auto simp: insert_route_def res_Inr split: if_splits)
  ultimately show ?thesis using r M(4) I(1) s'
   by (intro disjI2 exI [of _ ms]) simp
qed

lemma accept_tables:
  assumes "routes_accept user i h s = Inr (x, s')"
  shows "routes s' = routes s" "route_members s' = route_members s"
    "route_acceptances s' = route_acceptances s \<and>
       (\<exists>a \<in> set (route_acceptances s). acceptance_key a = (i, u_id user) \<and> ra_withdrawn_at a = None) \<or>
     (i, u_id user) \<notin> acceptance_key ` set (route_acceptances s) \<and>
       route_acceptances s' = route_acceptances s @
         [\<lparr>ra_route_id = i, ra_provider_id = u_id user, ra_route_sha256 = h, ra_withdrawn_at = None\<rparr>]"
proof -
  note A = assms [unfolded routes_accept_def res_Inr]
  show "routes s' = routes s" "route_members s' = route_members s"
    using A by (auto simp: res_Inr insert_route_acceptance_def split: option.splits)
  show "route_acceptances s' = route_acceptances s \<and>
       (\<exists>a \<in> set (route_acceptances s). acceptance_key a = (i, u_id user) \<and> ra_withdrawn_at a = None) \<or>
     (i, u_id user) \<notin> acceptance_key ` set (route_acceptances s) \<and>
       route_acceptances s' = route_acceptances s @
         [\<lparr>ra_route_id = i, ra_provider_id = u_id user, ra_route_sha256 = h, ra_withdrawn_at = None\<rparr>]"
  proof (cases "lookup acceptance_key (i, u_id user) (route_acceptances s)")
    case None
    with A show ?thesis by (auto simp: res_Inr insert_route_acceptance_def lookup_None_iff)
  next
    case (Some a)
    with A show ?thesis by (auto simp: res_Inr dest!: lookup_SomeD)
  qed
qed

lemma qualify_tables:
  assumes "routes_qualify user i v note s = Inr (x, s')" and "keyed er_id (routes s)"
  shows "route_members s' = route_members s" "route_acceptances s' = route_acceptances s"
    "\<exists>f r. routes s' = update_row er_id i f (routes s) \<and> r \<in> set (routes s) \<and> er_id r = i \<and>
       (\<forall>q. er_id (f q) = er_id q \<and> er_root_node_id (f q) = er_root_node_id q \<and> er_route_sha256 (f q) = er_route_sha256 q \<and>
         er_state (f q) = verdict_route v) \<and>
       (v = To_LOCAL_PREVIEW \<longrightarrow> (\<forall>q \<in> set (routes s). er_state q = R_LOCAL_PREVIEW \<and>
          er_root_node_id q = er_root_node_id r \<longrightarrow> er_id q = i))"
proof -
  obtain r where f: "find (\<lambda>r. er_id r = i \<and> er_state r \<noteq> R_REVOKED) (routes s) = Some r"
    and root: "v = To_LOCAL_PREVIEW \<longrightarrow> \<not> (\<exists>q \<in> set (routes s). er_root_node_id q = er_root_node_id r \<and>
         er_state q = R_LOCAL_PREVIEW \<and> er_id q \<noteq> i)"
    and u: "\<exists>s1. update_route i (\<lambda>r. r\<lparr>er_state := verdict_route v, er_qualification_note := note\<rparr>) s = Inr s1 \<and>
      routes s' = routes s1 \<and> route_members s' = route_members s1 \<and> route_acceptances s' = route_acceptances s1"
    using assms(1) by (auto simp: routes_qualify_def res_Inr)
  have r: "r \<in> set (routes s)" "er_id r = i" using find_SomeD [OF f] by simp_all
  then have "lookup er_id i (routes s) = Some r" using keyed_lookup [OF assms(2)] by auto
  with u show "route_members s' = route_members s" "route_acceptances s' = route_acceptances s"
    "\<exists>f r. routes s' = update_row er_id i f (routes s) \<and> r \<in> set (routes s) \<and> er_id r = i \<and>
       (\<forall>q. er_id (f q) = er_id q \<and> er_root_node_id (f q) = er_root_node_id q \<and> er_route_sha256 (f q) = er_route_sha256 q \<and>
         er_state (f q) = verdict_route v) \<and>
       (v = To_LOCAL_PREVIEW \<longrightarrow> (\<forall>q \<in> set (routes s). er_state q = R_LOCAL_PREVIEW \<and>
          er_root_node_id q = er_root_node_id r \<longrightarrow> er_id q = i))"
    using r root by (auto simp: update_route_def split: if_splits
        intro!: exI [of _ "\<lambda>r. r\<lparr>er_state := verdict_route v, er_qualification_note := note\<rparr>"] exI [of _ r])
qed

section \<open>The invariant\<close>

lemma members_of_append:
  "members_of i (s\<lparr>route_members := route_members s @ ms\<rparr>) =
     sort_key rm_ordinal (filter (\<lambda>m. rm_route_id m = i) (route_members s) @ filter (\<lambda>m. rm_route_id m = i) ms)"
  by (simp add: members_of_def)

lemma members_of_cong: "route_members s' = route_members s \<Longrightarrow> members_of i s' = members_of i s"
  by (simp add: members_of_def)

lemma publish_inv:
  assumes "routes_publish sha i user d s = Inr (r, s')" and inv: "routes_inv s"
  shows "routes_inv s'"
proof -
  from publish_tables [OF assms(1)] consider "s' = s"
    | ms where "er_id r = i" "er_id r \<notin> er_id ` set (routes s)" "er_state r = R_CANDIDATE"
      "routes s' = routes s @ [r]" "route_members s' = route_members s @ ms"
      "\<forall>m \<in> set ms. rm_route_id m = i" "route_shape (er_root_node_id r) ms" by blast
  then show ?thesis
  proof cases
    case 1
    with inv show ?thesis by simp
  next
    case (2 ms)
    have K: "keyed er_id (routes s)" and M: "\<forall>m \<in> set (route_members s). rm_route_id m \<in> er_id ` set (routes s)"
      and S: "\<And>q. q \<in> set (routes s) \<Longrightarrow> route_shape (er_root_node_id q) (members_of (er_id q) s)"
      and one: "\<And>q p. q \<in> set (routes s) \<Longrightarrow> p \<in> set (routes s) \<Longrightarrow> er_state q = R_LOCAL_PREVIEW \<Longrightarrow>
        er_state p = R_LOCAL_PREVIEW \<Longrightarrow> er_root_node_id q = er_root_node_id p \<Longrightarrow> q = p"
      using inv by (simp_all add: routes_inv_def)
    have old: "filter (\<lambda>m. rm_route_id m = i) (route_members s) = []"
      using M 2(1,2) by (simp add: filter_empty_conv) blast
    have new: "filter (\<lambda>m. rm_route_id m = i) ms = ms" using 2(6) by (auto simp: filter_id_conv)
    have i: "members_of i s' = ms"
      using old new 2(7) by (simp add: members_of_def 2(5) route_shape_def sort_by_ordinal)
    have j: "members_of (er_id q) s' = members_of (er_id q) s" if "q \<in> set (routes s)" for q
    proof -
      have "er_id q \<noteq> i" using that 2(1,2) by (metis imageI)
      then have "filter (\<lambda>m. rm_route_id m = er_id q) ms = []" using 2(6) by (auto simp: filter_empty_conv)
      then show ?thesis by (simp add: members_of_def 2(5))
    qed
    have "keyed er_id (routes s')" using K 2(2,4) by (simp add: keyed_insert)
    moreover have "\<forall>m \<in> set (route_members s'). rm_route_id m \<in> er_id ` set (routes s')"
      using M 2(1,4,5,6) by auto
    moreover have "route_shape (er_root_node_id q) (members_of (er_id q) s')" if "q \<in> set (routes s')" for q
      using that 2(1,4,7) S i j by auto
    moreover have "q = p" if "q \<in> set (routes s')" "p \<in> set (routes s')" "er_state q = R_LOCAL_PREVIEW"
      "er_state p = R_LOCAL_PREVIEW" "er_root_node_id q = er_root_node_id p" for q p
      using that 2(3,4) one by auto
    ultimately show ?thesis unfolding routes_inv_def by blast
  qed
qed

lemma qualify_inv:
  assumes "routes_qualify user i v note s = Inr (x, s')" and inv: "routes_inv s"
  shows "routes_inv s'"
proof -
  have K: "keyed er_id (routes s)" and M: "\<forall>m \<in> set (route_members s). rm_route_id m \<in> er_id ` set (routes s)"
    and S: "\<And>q. q \<in> set (routes s) \<Longrightarrow> route_shape (er_root_node_id q) (members_of (er_id q) s)"
    and one: "\<And>q p. q \<in> set (routes s) \<Longrightarrow> p \<in> set (routes s) \<Longrightarrow> er_state q = R_LOCAL_PREVIEW \<Longrightarrow>
      er_state p = R_LOCAL_PREVIEW \<Longrightarrow> er_root_node_id q = er_root_node_id p \<Longrightarrow> q = p"
    using inv by (simp_all add: routes_inv_def)
  note T = qualify_tables [OF assms(1) K]
  obtain f r where f: "routes s' = update_row er_id i f (routes s)" and r: "r \<in> set (routes s)" "er_id r = i"
    and F: "\<And>q. er_id (f q) = er_id q" "\<And>q. er_root_node_id (f q) = er_root_node_id q"
      "\<And>q. er_state (f q) = verdict_route v"
    and root: "v = To_LOCAL_PREVIEW \<Longrightarrow> q \<in> set (routes s) \<Longrightarrow> er_state q = R_LOCAL_PREVIEW \<Longrightarrow>
        er_root_node_id q = er_root_node_id r \<Longrightarrow> er_id q = i" for q
    using T(3) by blast
  have mem: "members_of j s' = members_of j s" for j by (rule members_of_cong [OF T(1)])
  have row: "q \<in> set (routes s') \<longleftrightarrow> q = f r \<or> q \<in> set (routes s) \<and> er_id q \<noteq> i" for q
    using r keyed_unique [OF K] by (auto simp: f in_update_row)
  have rv: "v = To_LOCAL_PREVIEW" if "er_state (f r) = R_LOCAL_PREVIEW" using that F(3) by (cases v) simp_all
  have "keyed er_id (routes s')" unfolding f by (rule keyed_update [OF K]) (rule F)
  moreover have "er_id ` set (routes s') = er_id ` set (routes s)"
    using arg_cong [where f = set, OF update_row_keys [of er_id f i "routes s", OF F(1)]] by (simp add: f)
  then have "\<forall>m \<in> set (route_members s'). rm_route_id m \<in> er_id ` set (routes s')" using M T(1) by simp
  moreover have "route_shape (er_root_node_id q) (members_of (er_id q) s')" if "q \<in> set (routes s')" for q
  proof -
    have "q = f r \<or> q \<in> set (routes s)" using that row [of q] by blast
    then show ?thesis
    proof
      assume "q = f r"
      then show ?thesis using S [OF r(1)] by (simp only: F mem)
    qed (simp add: S mem)
  qed
  moreover have "q = p" if "q \<in> set (routes s')" "p \<in> set (routes s')" "er_state q = R_LOCAL_PREVIEW"
      "er_state p = R_LOCAL_PREVIEW" "er_root_node_id q = er_root_node_id p" for q p
  proof -
    have no: False if "p \<in> set (routes s)" "er_id p \<noteq> i" "er_state p = R_LOCAL_PREVIEW"
      "er_root_node_id p = er_root_node_id r" "er_state (f r) = R_LOCAL_PREVIEW" for p
      using root [OF rv [OF that(5)] that(1,3,4)] that(2) by simp
    from that(1,2) consider "q = f r" "p = f r" | "q = f r" "p \<in> set (routes s)" "er_id p \<noteq> i"
      | "p = f r" "q \<in> set (routes s)" "er_id q \<noteq> i" | "q \<in> set (routes s)" "p \<in> set (routes s)"
      unfolding row by blast
    then show ?thesis
    proof cases
      case 2
      then show ?thesis using no [of p] that(3,4,5) F(2) by simp
    next
      case 3
      then show ?thesis using no [of q] that(3,4,5) F(2) by simp
    next
      case 4
      then show ?thesis using one that(3,4,5) by blast
    qed simp
  qed
  ultimately show ?thesis unfolding routes_inv_def by blast
qed

lemma routes_inv_cong: "routes s' = routes s \<Longrightarrow> route_members s' = route_members s \<Longrightarrow> routes_inv s' = routes_inv s"
  unfolding routes_inv_def members_of_def by simp

lemma routes_step_inv:
  assumes "routes_step sha s l s'" and inv: "routes_inv s"
  shows "routes_inv s'"
  using assms(1)
proof (cases rule: routes_step.cases)
  case published
  then show ?thesis using publish_inv inv by blast
next
  case (accepted user i h x)
  then show ?thesis using inv routes_inv_cong [OF accept_tables(1,2) [OF accepted(2)]] by simp
next
  case withdrawn
  then show ?thesis using inv by (auto simp: routes_withdraw_def res_Inr routes_inv_def members_of_def)
next
  case judged
  then show ?thesis using qualify_inv inv by blast
next
  case other
  then show ?thesis using inv routes_inv_cong [of s' s] by (simp add: beside_route_tables_def)
qed

lemma routes_run_inv:
  assumes "routes_run sha s0 ls s" and "routes s0 = []" "route_members s0 = []"
  shows "routes_inv s"
  using assms
proof (induction rule: routes_run.induct)
  case (start s)
  then show ?case by (simp add: routes_inv_def keyed_def)
next
  case (onward s ls s1 l s2)
  then show ?case by (blast intro: routes_step_inv)
qed

text \<open>
  C18: every route of a reachable database can be run and paid: it has two to sixteen members on
  distinct nodes, numbered from the root, with shares that the payout split accepts for any amount,
  and at most one route of a root node is qualified.
\<close>

theorem routes_stay_payable:
  assumes run: "routes_run sha s0 ls s" and init: "routes s0 = []" "route_members s0 = []"
    and r: "r \<in> set (routes s)" and amount: "0 \<le> v" "v \<le> MAX_AMOUNT"
  shows "(\<exists>parts. splitByBps v (map rm_share_bps (members_of (er_id r) s)) = Inr parts) \<and>
    2 \<le> length (members_of (er_id r) s) \<and> length (members_of (er_id r) s) \<le> 16 \<and>
    map rm_ordinal (members_of (er_id r) s) = map int [0..<length (members_of (er_id r) s)] \<and>
    distinct (map rm_node_id (members_of (er_id r) s)) \<and>
    rm_node_id (hd (members_of (er_id r) s)) = er_root_node_id r \<and>
    (\<forall>q \<in> set (routes s). er_state q = R_LOCAL_PREVIEW \<and> er_state r = R_LOCAL_PREVIEW \<and>
       er_root_node_id q = er_root_node_id r \<longrightarrow> q = r)"
proof -
  have inv: "routes_inv s" by (rule routes_run_inv [OF run init])
  then have shape: "route_shape (er_root_node_id r) (members_of (er_id r) s)" using r by (simp add: routes_inv_def)
  then have "\<exists>parts. splitByBps v (map rm_share_bps (members_of (er_id r) s)) = Inr parts"
    using amount by (auto simp: route_shape_def splitByBps_def list_all_iff list_ex_iff)
  with shape inv r show ?thesis by (simp add: route_shape_def routes_inv_def)
qed

section \<open>Consent\<close>

definition consent_inv :: "consent list \<Rightarrow> db \<Rightarrow> bool" where
  "consent_inv ls s \<longleftrightarrow> keyed acceptance_key (route_acceptances s) \<and>
     (\<forall>a \<in> set (route_acceptances s). Accepted (ra_provider_id a) (ra_route_id a) (ra_route_sha256 a) \<in> set ls \<and>
        (ra_withdrawn_at a = None \<longrightarrow> Withdrawn (ra_provider_id a) (ra_route_id a) \<notin> set ls)) \<and>
     (\<forall>p i. Withdrawn p i \<in> set ls \<longrightarrow> (i, p) \<in> acceptance_key ` set (route_acceptances s))"

lemma publish_acceptances: "routes_publish sha i user d s = Inr (r, s') \<Longrightarrow> route_acceptances s' = route_acceptances s"
  using publish_tables by blast

lemma qualify_acceptances: "routes_qualify user i v note s = Inr (x, s') \<Longrightarrow> route_acceptances s' = route_acceptances s"
  by (auto simp: routes_qualify_def res_Inr update_route_def split: option.splits if_splits)

lemma consent_inv_silent: "consent_inv ls s \<Longrightarrow> route_acceptances s' = route_acceptances s \<Longrightarrow> consent_inv (ls @ [Silent]) s'"
  by (simp add: consent_inv_def)

lemma withdrawn_row_simps [simp]:
  "ra_route_id (withdrawn_row t a) = ra_route_id a" "ra_provider_id (withdrawn_row t a) = ra_provider_id a"
  "ra_route_sha256 (withdrawn_row t a) = ra_route_sha256 a" "acceptance_key (withdrawn_row t a) = acceptance_key a"
  "ra_withdrawn_at (withdrawn_row t a) \<noteq> None"
  by (simp_all add: withdrawn_row_def acceptance_key_def split: option.splits)

lemma routes_step_consent:
  assumes "routes_step sha s l s'" and inv: "consent_inv ls s"
  shows "consent_inv (ls @ [l]) s'"
  using assms(1)
proof (cases rule: routes_step.cases)
  case published
  then show ?thesis using publish_acceptances inv consent_inv_silent by blast
next
  case (accepted user i h x)
  from accept_tables(3) [OF accepted(2)] show ?thesis
  proof (elim disjE conjE bexE)
    fix a assume "route_acceptances s' = route_acceptances s"
    then show ?thesis using inv accepted(1) by (auto simp: consent_inv_def)
  next
    assume new: "(i, u_id user) \<notin> acceptance_key ` set (route_acceptances s)"
      and s': "route_acceptances s' = route_acceptances s @
         [\<lparr>ra_route_id = i, ra_provider_id = u_id user, ra_route_sha256 = h, ra_withdrawn_at = None\<rparr>]"
    then have "Withdrawn (u_id user) i \<notin> set ls" using inv by (auto simp: consent_inv_def)
    with new s' inv accepted(1) show ?thesis
      by (simp add: consent_inv_def keyed_insert acceptance_key_def)
  qed
next
  case (withdrawn t user i x)
  let ?k = "(i, u_id user)"
  have s': "route_acceptances s' = update_row acceptance_key ?k (withdrawn_row t) (route_acceptances s)"
    and old: "?k \<in> acceptance_key ` set (route_acceptances s)"
    using withdrawn(2) by (auto simp: routes_withdraw_def res_Inr lookup_None_iff)
  have keys: "acceptance_key ` set (route_acceptances s') = acceptance_key ` set (route_acceptances s)"
    unfolding s' using arg_cong [where f = set, OF update_row_keys [of acceptance_key "withdrawn_row t" ?k "route_acceptances s"]]
    by simp
  have "keyed acceptance_key (route_acceptances s')" using inv unfolding s' consent_inv_def by (blast intro: keyed_update withdrawn_row_simps)
  moreover have "Accepted (ra_provider_id a) (ra_route_id a) (ra_route_sha256 a) \<in> set (ls @ [l]) \<and>
      (ra_withdrawn_at a = None \<longrightarrow> Withdrawn (ra_provider_id a) (ra_route_id a) \<notin> set (ls @ [l]))"
    if "a \<in> set (route_acceptances s')" for a
    using that inv withdrawn(1) unfolding s' in_update_row by (auto simp: consent_inv_def acceptance_key_def)
  moreover have "\<forall>p j. Withdrawn p j \<in> set (ls @ [l]) \<longrightarrow> (j, p) \<in> acceptance_key ` set (route_acceptances s')"
    using inv old withdrawn(1) unfolding keys by (auto simp: consent_inv_def)
  ultimately show ?thesis unfolding consent_inv_def by blast
next
  case judged
  then show ?thesis using qualify_acceptances inv consent_inv_silent by blast
next
  case other
  then show ?thesis using inv consent_inv_silent by (simp add: beside_route_tables_def)
qed

lemma routes_run_consent:
  assumes "routes_run sha s0 ls s" and "route_acceptances s0 = []"
  shows "consent_inv ls s"
  using assms
proof (induction rule: routes_run.induct)
  case (start s)
  then show ?case by (simp add: consent_inv_def keyed_def)
next
  case (onward s ls s1 l s2)
  then show ?case by (blast intro: routes_step_consent)
qed

text \<open>
  C13: a route is offered for sessions only while every provider of a member has itself accepted
  the exact terms of the route, by their hash, and has never withdrawn (every member's node and
  provider being rows of their tables, which the foreign keys say).
\<close>

theorem offered_route_has_consent:
  assumes run: "routes_run sha s0 ls s" and init: "route_acceptances s0 = []"
    and keys: "keyed er_id (routes s)"
    and off: "off \<in> set (ready_execution_offers now s)" "of_route off = Some i"
    and r: "lookup er_id i (routes s) = Some r" and m: "m \<in> set (members_of i s)"
    and fk: "lookup n_id (rm_node_id m) (nodes s) \<noteq> None" "lookup u_id (rm_provider_id m) (users s) \<noteq> None"
  shows "Accepted (rm_provider_id m) i (er_route_sha256 r) \<in> set ls \<and> Withdrawn (rm_provider_id m) i \<notin> set ls \<and>
    er_state r = R_LOCAL_PREVIEW"
proof -
  have inv: "consent_inv ls s" by (rule routes_run_consent [OF run init])
  obtain q where q: "q \<in> set (routes s)" "off \<in> set (route_offer now s q)"
    using off by (auto simp: ready_execution_offers_def node_offer_def split: option.splits if_splits)
  then obtain model :: model where Q: "er_id q = i" "er_state q = R_LOCAL_PREVIEW"
      "list_all (\<lambda>rm. \<not> blocks_route now s q model rm) (members_of (er_id q) s)"
    using off(2) by (auto simp: route_offer_def split: option.splits if_splits)
  have "q = r" using keyed_lookup [OF keys q(1)] Q(1) r by simp
  have "\<not> blocks_route now s r model m" using Q m \<open>q = r\<close> by (simp add: list_all_iff)
  moreover have "rm_route_id m = i" using m by (simp add: members_of_def)
  ultimately obtain a where a: "lookup acceptance_key (i, rm_provider_id m) (route_acceptances s) = Some a"
      "ra_withdrawn_at a = None" "ra_route_sha256 a = er_route_sha256 r"
    using fk by (auto simp: blocks_route_def acceptance_key_def [abs_def] split: option.splits)
  have "a \<in> set (route_acceptances s)" "ra_route_id a = i" "ra_provider_id a = rm_provider_id m"
    using lookup_SomeD [OF a(1)] by (simp_all add: acceptance_key_def)
  with inv a(2,3) Q(2) \<open>q = r\<close> show ?thesis by (auto simp: consent_inv_def)
qed

section \<open>A demonstration\<close>

definition two_nodes_db :: db where
  "two_nodes_db = demo_db\<lparr>users := [alice, bob, carol],
     domains := [demo_domain, demo_domain\<lparr>d_id := ''d2'', d_owner_id := ''c3''\<rparr>],
     nodes := [demo_part ''nr'' ''b2'' ''d1'' ROUTE_ROOT, demo_part ''ns'' ''c3'' ''d2'' RPC_STAGE]\<rparr>"

definition demo_proposal :: route_proposal where
  "demo_proposal = \<lparr>rp_name = ''lab route'', rp_model_id = ''lab-model'', rp_idempotency_key = ''k1'',
     rp_participants = [(''nr'', 6000), (''ns'', 4000)]\<rparr>"

definition hex_digest :: "string \<Rightarrow> string" where "hex_digest x = replicate 64 (CHR ''a'')"

definition proposed_demo :: "(execution_route \<times> db) result" where
  "proposed_demo = routes_publish hex_digest ''r1'' bob demo_proposal two_nodes_db"

definition judged_demo :: "db \<Rightarrow> (route_state \<times> db) result" where
  "judged_demo = routes_qualify overseer ''r1'' To_LOCAL_PREVIEW ''measured in the demonstration''"

definition offered_demo :: "db \<Rightarrow> bool" where
  "offered_demo s \<longleftrightarrow> map er_id (routes s) = [''r1''] \<and> map of_route (ready_execution_offers 100000 s) = [Some ''r1''] \<and>
     map rm_provider_id (members_of ''r1'' s) = [''b2'', ''c3''] \<and>
     list_all (\<lambda>m. lookup n_id (rm_node_id m) (nodes s) \<noteq> None \<and> lookup u_id (rm_provider_id m) (users s) \<noteq> None)
       (members_of ''r1'' s)"

lemma route_demo_runs:
  "returns proposed_demo (\<lambda>(r, s1). returns (routes_accept bob ''r1'' (hex_digest []) s1) (\<lambda>(x, s2).
     returns (routes_accept carol ''r1'' (hex_digest []) s2) (\<lambda>(x, s3).
     returns (judged_demo s3) (\<lambda>(x, s4). offered_demo s4))))"
  by code_simp

lemma route_demo_run:
  obtains s where "routes_run hex_digest two_nodes_db
      [Silent, Accepted ''b2'' ''r1'' (hex_digest []), Accepted ''c3'' ''r1'' (hex_digest []), Silent] s"
    "offered_demo s"
proof -
  obtain r s1 x s2 y s3 z s4 where R: "proposed_demo = Inr (r, s1)" "routes_accept bob ''r1'' (hex_digest []) s1 = Inr (x, s2)"
      "routes_accept carol ''r1'' (hex_digest []) s2 = Inr (y, s3)" "judged_demo s3 = Inr (z, s4)" and o': "offered_demo s4"
    using route_demo_runs by (auto simp: returns_iff)
  have u: "u_id bob = ''b2''" "u_id carol = ''c3''" by (simp_all add: bob_def carol_def)
  note R1 = routes_run.onward [OF routes_run.start routes_step.published [OF R(1) [unfolded proposed_demo_def]]]
  note R2 = routes_run.onward [OF R1 routes_step.accepted [OF R(2)]]
  note R3 = routes_run.onward [OF R2 routes_step.accepted [OF R(3)]]
  note R4 = routes_run.onward [OF R3 routes_step.judged [OF R(4) [unfolded judged_demo_def]]]
  show thesis using that [OF _ o'] R4 u by simp
qed

lemma two_nodes_db_empty: "routes two_nodes_db = []" "route_members two_nodes_db = []" "route_acceptances two_nodes_db = []"
  by (simp_all add: two_nodes_db_def demo_db_def empty_db_def)

theorem routes_stay_payable_witness:
  "\<exists>ls s r parts. routes_run hex_digest two_nodes_db ls s \<and> r \<in> set (routes s) \<and>
     splitByBps 1000 (map rm_share_bps (members_of (er_id r) s)) = Inr parts"
proof -
  obtain s where s: "routes_run hex_digest two_nodes_db
      [Silent, Accepted ''b2'' ''r1'' (hex_digest []), Accepted ''c3'' ''r1'' (hex_digest []), Silent] s" "offered_demo s"
    by (rule route_demo_run)
  obtain r where "r \<in> set (routes s)" using s(2) by (auto simp: offered_demo_def)
  then show ?thesis using s(1) routes_stay_payable [OF s(1) two_nodes_db_empty(1,2), of r 1000] by (auto simp: MAX_AMOUNT_def)
qed

theorem offered_route_has_consent_witness:
  "\<exists>s r. routes_run hex_digest two_nodes_db
      [Silent, Accepted ''b2'' ''r1'' (hex_digest []), Accepted ''c3'' ''r1'' (hex_digest []), Silent] s \<and>
     lookup er_id ''r1'' (routes s) = Some r \<and> er_route_sha256 r = hex_digest [] \<and> er_state r = R_LOCAL_PREVIEW"
proof -
  obtain s where s: "routes_run hex_digest two_nodes_db
      [Silent, Accepted ''b2'' ''r1'' (hex_digest []), Accepted ''c3'' ''r1'' (hex_digest []), Silent] s" "offered_demo s"
    by (rule route_demo_run)
  obtain r where r: "routes s = [r]" "er_id r = ''r1''" using s(2) by (auto simp: offered_demo_def)
  obtain off where off: "off \<in> set (ready_execution_offers 100000 s)" "of_route off = Some ''r1''"
    using s(2) by (auto simp: offered_demo_def)
  obtain m where m: "m \<in> set (members_of ''r1'' s)" "rm_provider_id m = ''c3''"
  proof -
    have "map rm_provider_id (members_of ''r1'' s) = [''b2'', ''c3'']" using s(2) by (simp add: offered_demo_def)
    then have "''c3'' \<in> rm_provider_id ` set (members_of ''r1'' s)" by (metis list.set_intros(1,2) list.set_map)
    then show thesis using that by auto
  qed
  have fk: "lookup n_id (rm_node_id m) (nodes s) \<noteq> None" "lookup u_id (rm_provider_id m) (users s) \<noteq> None"
    using s(2) m(1) by (simp_all add: offered_demo_def list_all_iff)
  have l: "lookup er_id ''r1'' (routes s) = Some r" and k: "keyed er_id (routes s)" using r by (simp_all add: keyed_def)
  show ?thesis using s(1) l m(2) offered_route_has_consent [OF s(1) two_nodes_db_empty(3) k off l m(1) fk] by auto
qed

end
