(* ===== verification/Sessions.thy ===== *)
theory Sessions
  imports Cooperative
begin

text \<open>
  Paid inference sessions: \<open>apps/control-api/src/sessions.ts\<close>, every operation, with the checks and
  triggers of \<open>infra/migrations/001\<close>, \<open>005\<close> and \<open>007\<close> on the tables it writes. A session is created
  with a hold on the payer's credits, admitted to a ready node or route, authorized once every
  part has prepared, claimed by the node that runs it, and settled by its signed receipt; a
  cancellation, a failure or a deadline releases the hold. The triggers on updates of the
  sessions table are in \<open>Cooperative\<close>, whose refund updates it too. The proofs are in \<open>Sessions_Money\<close>,
  \<open>Sessions_Life\<close>, \<open>Sessions_Settlement\<close>, \<open>Sessions_Refund\<close>, \<open>Sessions_Progress\<close> and \<open>Sessions_Admission\<close>.

  The several reads of \<open>Date.now()\<close> in one call are one argument, \<open>date_now\<close>. A journal id, the
  session's id and the attempt's id are arguments, as are the SHA-256 function \<open>sha\<close> and the
  Ed25519 signature \<open>sign\<close> with the coordinator's private key.
\<close>

section \<open>Rows and their constraints\<close>

definition session_event :: "uuid \<Rightarrow> string \<Rightarrow> (string \<times> json) list \<Rightarrow> db \<Rightarrow> db" where
  "session_event i kind metadata s = s\<lparr>events := events s @ [event i kind metadata]\<rparr>"

definition insert_session :: "session \<Rightarrow> db \<Rightarrow> db result" where
  "insert_session r s =
     (if \<not> session_identity s r then Inl (DbError ''P0001'')
      else if \<not> session_check r then Inl (DbError ''23514'')
      else if \<exists>q \<in> set (sessions s). s_user_id q = s_user_id r \<and> s_idempotency_key q = s_idempotency_key r
        then Inl (DbError ''23505'')
      else and_then (insert_row s_id r (sessions s)) (\<lambda>t. Inr (s\<lparr>sessions := t\<rparr>)))"

definition participant_key :: "participant \<Rightarrow> uuid \<times> uuid" where
  "participant_key p = (sp_session_id p, sp_node_id p)"

definition participant_check :: "participant \<Rightarrow> bool" where
  "participant_check p \<longleftrightarrow> 1 \<le> sp_share_bps p \<and> sp_share_bps p \<le> 10000 \<and> 0 \<le> sp_paid_microtu p"

definition insert_participant :: "participant \<Rightarrow> db \<Rightarrow> db result" where
  "insert_participant p s =
     (if \<not> participant_check p then Inl (DbError ''23514'')
      else if \<exists>q \<in> set (participants s). sp_session_id q = sp_session_id p \<and> sp_ordinal q = sp_ordinal p
        then Inl (DbError ''23505'')
      else and_then (insert_row participant_key p (participants s)) (\<lambda>t. Inr (s\<lparr>participants := t\<rparr>)))"

definition update_participant :: "uuid \<Rightarrow> uuid \<Rightarrow> (participant \<Rightarrow> participant) \<Rightarrow> db \<Rightarrow> db result" where
  "update_participant i n f s =
     (case lookup participant_key (i, n) (participants s) of
        None \<Rightarrow> Inr s
      | Some old \<Rightarrow>
          (if \<not> participant_check (f old) then Inl (DbError ''23514'')
           else Inr (s\<lparr>participants := update_row participant_key (i, n) f (participants s)\<rparr>)))"

definition insert_session_domain :: "uuid \<Rightarrow> uuid \<Rightarrow> db \<Rightarrow> db result" where
  "insert_session_domain i d s =
     and_then (insert_row id (i, d) (session_domains s)) (\<lambda>t. Inr (s\<lparr>session_domains := t\<rparr>))"

text \<open>The participants of a session in order, and the row of one node.\<close>

definition session_members :: "uuid \<Rightarrow> db \<Rightarrow> participant list" where
  "session_members i s = sort_key sp_ordinal (filter (\<lambda>p. sp_session_id p = i) (participants s))"

section \<open>Reading\<close>

definition list_sessions :: "user \<Rightarrow> db \<Rightarrow> session list" where
  "list_sessions user s =
     take 100 (sort_key (\<lambda>r. - s_created_at r) (filter (\<lambda>r. s_user_id r = u_id user) (sessions s)))"

record session_view =
  sv_session :: session
  sv_events :: "event_row list"
  sv_participants :: "(participant \<times> stage_receipt option) list"

definition stage_payload :: "db \<Rightarrow> participant \<Rightarrow> stage_receipt option" where
  "stage_payload s p = map_option sr_payload
     (lookup (\<lambda>r. (sr_session_id r, sr_node_id r)) (participant_key p) (stage_receipts s))"

definition get_session :: "user \<Rightarrow> uuid \<Rightarrow> db \<Rightarrow> session_view result" where
  "get_session user i s =
     need_row (find (\<lambda>r. s_id r = i \<and> s_user_id r = u_id user) (sessions s)) 404 ''session_missing'' (\<lambda>row.
     Inr \<lparr>sv_session = row, sv_events = filter (\<lambda>e. ev_subject e = Some i) (events s),
          sv_participants = map (\<lambda>p. (p, stage_payload s p)) (session_members i s)\<rparr>)"

definition session_status :: "uuid \<Rightarrow> db \<Rightarrow> session result" where
  "session_status i s = need_row (lookup s_id i (sessions s)) 404 ''session_missing'' (\<lambda>r. Inr r)"

section \<open>Creating a session\<close>

record session_request =
  rq_quote_id :: uuid
  rq_idempotency_key :: string
  rq_request_sha256 :: string
  rq_request_bytes :: int
  rq_model :: string
  rq_max_tokens :: int
  rq_content_bytes :: int
  rq_message_count :: int

definition session_request_ok :: "session_request \<Rightarrow> bool" where
  "session_request_ok d \<longleftrightarrow>
     idempotency_key_ok (rq_idempotency_key d) \<and> sha256_ok (rq_request_sha256 d) \<and>
     1 \<le> rq_request_bytes d \<and> rq_request_bytes d \<le> 131072 \<and>
     length (rq_model d) \<le> 80 \<and> 0 < rq_max_tokens d \<and>
     0 \<le> rq_content_bytes d \<and> rq_content_bytes d \<le> 65536 \<and>
     1 \<le> rq_message_count d \<and> rq_message_count d \<le> 64"

definition hold_key :: "uuid \<Rightarrow> string" where
  "hold_key i = ''hold:'' @ i"

definition open_quote :: "ms \<Rightarrow> user \<Rightarrow> uuid \<Rightarrow> db \<Rightarrow> quote option" where
  "open_quote tx_now user i s =
     find (\<lambda>q. q_id q = i \<and> q_user_id q = u_id user \<and> q_expires_at q > tx_now \<and>
       (case lookup m_id (q_model_id q) (models s) of None \<Rightarrow> False | Some m \<Rightarrow> m_state m = M_LOCAL_PREVIEW))
       (quotes s)"

definition live_count :: "uuid \<Rightarrow> db \<Rightarrow> nat" where
  "live_count user s = length (filter (\<lambda>r. s_user_id r = user \<and> \<not> is_terminal (s_state r)) (sessions s))"

text \<open>The row of the \<open>INSERT\<close>, with the columns' defaults.\<close>

definition queued_row :: "uuid \<Rightarrow> ms \<Rightarrow> user \<Rightarrow> session_request \<Rightarrow> quote \<Rightarrow> session" where
  "queued_row i tx_now user d q =
     \<lparr>s_id = i, s_user_id = u_id user, s_quote_id = q_id q, s_model_id = rq_model d,
      s_manifest_sha256 = q_manifest_sha256 q, s_idempotency_key = rq_idempotency_key d,
      s_request_sha256 = rq_request_sha256 d, s_request_bytes = rq_request_bytes d,
      s_state = S_QUEUED, s_billing_state = B_HELD, s_hold_microtu = q_maximum_microtu q,
      s_charged_microtu = 0, s_node_id = None, s_resource_domain_id = None, s_attempt_id = None,
      s_node_epoch = None, s_prepare_id = None, s_queue_deadline = tx_now + 120000,
      s_execution_deadline = None, s_error_code = None, s_prompt_tokens = None,
      s_completion_tokens = None, s_elapsed_ms = None, s_created_at = tx_now, s_started_at = None,
      s_finished_at = None, s_route_id = None, s_route_sha256 = None,
      s_cooperative_pool_id = q_cooperative_pool_id q,
      s_cooperative_policy_sha256 = q_cooperative_policy_sha256 q,
      s_coverage_lease_id = None, s_coverage_terms_sha256 = None\<rparr>"

definition hold_credits :: "uuid \<Rightarrow> uuid \<Rightarrow> uuid \<Rightarrow> int \<Rightarrow> ledger \<Rightarrow> ledger result" where
  "hold_credits j i user hold L =
     (if hold > 0 then
        and_then (post j (hold_key i) ''RESERVE''
            [(availableAccount user, - hold), (heldAccount user, hold)] [(''session_id'', JStr i)] L)
          (\<lambda>(_, L'). Inr L')
      else Inr L)"

definition create_session ::
  "uuid \<Rightarrow> uuid \<Rightarrow> ms \<Rightarrow> user \<Rightarrow> session_request \<Rightarrow> (session \<times> bool) handler" where
  "create_session i j tx_now user d s =
     zod (session_request_ok d) (
     case find (\<lambda>r. s_user_id r = u_id user \<and> s_idempotency_key r = rq_idempotency_key d) (sessions s) of
       Some existing \<Rightarrow>
         need (s_request_sha256 existing = rq_request_sha256 d) 409 ''idempotency_conflict''
           (Inr ((existing, True), s))
     | None \<Rightarrow>
         need_row (open_quote tx_now user (rq_quote_id d) s) 409 ''quote_expired'' (\<lambda>q.
         need (q_model_id q = rq_model d \<and> q_max_output_tokens q = rq_max_tokens d)
           409 ''quote_mismatch'' (
         zod (modelManifestSchema (q_manifest q)) (
         need (rq_content_bytes d \<le> mm_max_input_bytes (q_manifest q)) 413 ''input_limit'' (
         need (rq_content_bytes d + rq_message_count d * 64 + rq_max_tokens d
             \<le> mm_max_context_tokens (q_manifest q)) 413 ''context_limit'' (
         need (live_count (u_id user) s < 4) 429 ''session_limit'' (
         and_then (capacity tx_now (rq_model d) (u_id user) s) (\<lambda>quota.
         need (cap_active_for_account quota < cap_temporary_session_limit quota)
           429 ''elastic_session_limit'' (
         and_then (hold_credits j i (u_id user) (q_maximum_microtu q) (ledger s)) (\<lambda>L.
         let row = queued_row i tx_now user d q in
         and_then (insert_session row (s\<lparr>ledger := L\<rparr>)) (\<lambda>s'.
         Inr ((row, False), session_event i ''queued''
           [(''maximum_microtu'', amt (q_maximum_microtu q))] s'))))))))))))"

section \<open>Capabilities\<close>

datatype scope = Prepare | Execute | Stage_prepare | Stage_execute | Stage_finish

fun scope_text :: "scope \<Rightarrow> string" where
  "scope_text Prepare = ''prepare''"
| "scope_text Execute = ''execute''"
| "scope_text Stage_prepare = ''stage_prepare''"
| "scope_text Stage_execute = ''stage_execute''"
| "scope_text Stage_finish = ''stage_finish''"

text \<open>The claims of a capability: the session row, its quote, and the node with the epoch it is bound to.\<close>

definition cap_claims :: "session \<Rightarrow> quote \<Rightarrow> uuid \<Rightarrow> int \<Rightarrow> scope \<Rightarrow> json" where
  "cap_claims r q node epoch sc = JObj (
     [(''network'', JStr ''network-ai-private-lab''), (''aud'', JStr ''network-ai-node''),
      (''scope'', JStr (scope_text sc)), (''session_id'', JStr (s_id r)),
      (''attempt_id'', opt_str (s_attempt_id r)), (''node_id'', JStr node), (''epoch'', JNum epoch),
      (''model'', JStr (s_model_id r)), (''backend_model'', JStr (mm_backend_model (q_manifest q))),
      (''manifest_sha256'', JStr (s_manifest_sha256 r)), (''request_sha256'', JStr (s_request_sha256 r)),
      (''max_output_tokens'', JNum (q_max_output_tokens q)),
      (''max_context_tokens'', JNum (mm_max_context_tokens (q_manifest q))),
      (''max_input_bytes'', JNum (mm_max_input_bytes (q_manifest q)))] @
     (case mm_generation_profile (q_manifest q) of
        None \<Rightarrow> []
      | Some g \<Rightarrow> if sc = Prepare \<or> sc = Execute then [(''generation_profile'', generation_json g)] else []) @
     [(''prepare_id'', if sc = Prepare \<or> sc = Stage_prepare then JNull else opt_str (s_prepare_id r)),
      (''exp'', JNum (num (s_execution_deadline r) div 1000))] @
     (case s_coverage_lease_id r of
        None \<Rightarrow> []
      | Some l \<Rightarrow> [(''cooperative_pool_id'', opt_str (s_cooperative_pool_id r)),
          (''coverage_lease_id'', JStr l), (''coverage_terms_sha256'', opt_str (s_coverage_terms_sha256 r))]) @
     (case s_route_id r of
        None \<Rightarrow> []
      | Some t \<Rightarrow> [(''route_id'', JStr t), (''route_sha256'', opt_str (s_route_sha256 r))]))"

definition cap :: "(string \<Rightarrow> string) \<Rightarrow> session \<Rightarrow> quote \<Rightarrow> uuid \<Rightarrow> int \<Rightarrow> scope \<Rightarrow> string result" where
  "cap sign r q node epoch sc =
     zod (modelManifestSchema (q_manifest q)) (Inr (capability sign (cap_claims r q node epoch sc)))"

section \<open>Ending a session\<close>

fun terminal_text :: "terminal_state \<Rightarrow> string" where
  "terminal_text COMPLETED = ''COMPLETED''"
| "terminal_text FAILED = ''FAILED''"
| "terminal_text CANCELLED = ''CANCELLED''"
| "terminal_text INTERRUPTED = ''INTERRUPTED''"

definition settle_key :: "uuid \<Rightarrow> string" where
  "settle_key i = ''settle:'' @ i"

definition lab_fee :: "int \<Rightarrow> int" where
  "lab_fee charge = (charge * 2000) sdiv 10000"

text \<open>The loop that pays the participants of a route, in order.\<close>

fun pay_members :: "uuid \<Rightarrow> participant list \<Rightarrow> int list \<Rightarrow> db \<Rightarrow> db result" where
  "pay_members i (p # ps) (v # vs) s =
     and_then (update_participant i (sp_node_id p) (\<lambda>q. q\<lparr>sp_paid_microtu := v\<rparr>) s) (pay_members i ps vs)"
| "pay_members i _ _ s = Inr s"

definition member_lines :: "participant list \<Rightarrow> int list \<Rightarrow> (string \<times> int) list" where
  "member_lines ps vs = zip (map (\<lambda>p. availableAccount (sp_provider_id p)) ps) vs"

definition route_payout :: "session \<Rightarrow> int \<Rightarrow> db \<Rightarrow> ((string \<times> int) list \<times> db) result" where
  "route_payout r v s =
     (let members = session_members (s_id r) s in
      and_then (splitByBps v (map sp_share_bps members)) (\<lambda>payments.
      and_then (pay_members (s_id r) members payments s) (\<lambda>s'.
      Inr (member_lines members payments, s'))))"

definition node_payout :: "session \<Rightarrow> int \<Rightarrow> db \<Rightarrow> ((string \<times> int) list \<times> db) result" where
  "node_payout r v s =
     (case lookup (Some \<circ> n_id) (s_node_id r) (nodes s) of
        None \<Rightarrow> Inl TypeError
      | Some n \<Rightarrow> Inr ([(availableAccount (n_owner_id n), v)], s))"

text \<open>The lines of a settlement beside the payer's, and a covered session's allocation.\<close>

definition payout ::
  "ms \<Rightarrow> ms \<Rightarrow> session \<Rightarrow> int \<Rightarrow> db \<Rightarrow> (((string \<times> int) list \<times> json option) \<times> db) result" where
  "payout date_now tx_now r charge s =
     (if charge > 0 \<and> s_cooperative_pool_id r \<noteq> None then
        and_then (recycleSettlement date_now tx_now r charge s)
          (\<lambda>((lines, allocation), s'). Inr ((lines, Some allocation), s'))
      else if charge > 0 then
        and_then ((if s_route_id r \<noteq> None then route_payout else node_payout) r (charge - lab_fee charge) s)
          (\<lambda>(lines, s'). Inr ((lines @ [(''lab:working'', lab_fee charge)], None), s'))
      else Inr (([], None), s))"

definition settle_metadata :: "session \<Rightarrow> terminal_state \<Rightarrow> int \<Rightarrow> json option \<Rightarrow> (string \<times> json) list" where
  "settle_metadata r st charge allocation =
     [(''session_id'', JStr (s_id r)), (''state'', JStr (terminal_text st)), (''charge_microtu'', amt charge),
      (''fee_bps'', JNum (if s_cooperative_pool_id r \<noteq> None then 0 else 2000))] @
     (case allocation of
        None \<Rightarrow> []
      | Some a \<Rightarrow> [(''cooperative_pool_id'', opt_str (s_cooperative_pool_id r)),
          (''coverage_lease_id'', opt_str (s_coverage_lease_id r)), (''allocation'', a)]) @
     (case s_route_id r of
        None \<Rightarrow> []
      | Some t \<Rightarrow> [(''route_id'', JStr t), (''route_sha256'', opt_str (s_route_sha256 r)),
          (''payout_policy'', JStr (if s_cooperative_pool_id r \<noteq> None then ''accepted-readiness-only''
             else ''ordinal-prefix-v1''))])"

definition payer_lines :: "session \<Rightarrow> int \<Rightarrow> (string \<times> int) list" where
  "payer_lines r charge =
     [(heldAccount (s_user_id r), - s_hold_microtu r),
      (availableAccount (s_user_id r), s_hold_microtu r - charge)]"

definition settle_credits ::
  "uuid \<Rightarrow> session \<Rightarrow> terminal_state \<Rightarrow> int \<Rightarrow> (string \<times> int) list \<Rightarrow> json option \<Rightarrow> ledger \<Rightarrow> ledger result" where
  "settle_credits j r st charge lines allocation L =
     (if s_hold_microtu r > 0 then
        and_then (post j (settle_key (s_id r)) (if charge > 0 then ''SETTLE'' else ''REFUND'')
            (payer_lines r charge @ lines) (settle_metadata r st charge allocation) L) (\<lambda>(_, L'). Inr L')
      else Inr L)"

text \<open>The row that the final \<open>UPDATE\<close> leaves.\<close>

definition ended_row ::
  "ms \<Rightarrow> terminal_state \<Rightarrow> int \<Rightarrow> string option \<Rightarrow> billing_state option \<Rightarrow> session \<Rightarrow> session" where
  "ended_row tx_now st charge err billing q = q\<lparr>s_state := S_TERMINAL st,
     s_billing_state := (case billing of Some b \<Rightarrow> b | None \<Rightarrow> if charge > 0 then B_SETTLED else B_REFUNDED),
     s_charged_microtu := charge, s_error_code := err, s_finished_at := Some tx_now\<rparr>"

definition finalize ::
  "ms \<Rightarrow> ms \<Rightarrow> uuid \<Rightarrow> session \<Rightarrow> terminal_state \<Rightarrow> int \<Rightarrow> string option \<Rightarrow> billing_state option \<Rightarrow> db \<Rightarrow> db result"
where
  "finalize date_now tx_now j r st charge err billing s =
     (if is_terminal (s_state r) then Inr s else
      need (0 \<le> charge \<and> charge \<le> s_hold_microtu r) 500 ''charge_limit'' (
      and_then (payout date_now tx_now r charge s) (\<lambda>((lines, allocation), s1).
      and_then (settle_credits j r st charge lines allocation (ledger s1)) (\<lambda>L.
      and_then (update_session (s_id r) (ended_row tx_now st charge err billing) (s1\<lparr>ledger := L\<rparr>)) (\<lambda>s2.
      Inr (session_event (s_id r) ''terminal''
        [(''state'', JStr (terminal_text st)), (''error_code'', opt_str err), (''charged_microtu'', amt charge)] s2))))))"

section \<open>Admission\<close>

text \<open>An offer of the session's model that covers it, with no full domain.\<close>

definition admissible :: "ms \<Rightarrow> db \<Rightarrow> session \<Rightarrow> ready_offer \<Rightarrow> bool" where
  "admissible tx_now s r off \<longleftrightarrow>
     of_model off = s_model_id r \<and> cooperativeEligibility tx_now s r off \<and>
     \<not> (\<exists>d \<in> set (domains s). d_id d \<in> set (of_domains off) \<and> occupied s (d_id d) \<ge> d_slots d)"

definition last_admitted :: "db \<Rightarrow> session \<Rightarrow> ms option" where
  "last_admitted s r = (case lookup u_id (s_user_id r) (users s) of None \<Rightarrow> None | Some u \<Rightarrow> u_last_admitted_at u)"

definition admission_candidates :: "ms \<Rightarrow> db \<Rightarrow> session list" where
  "admission_candidates tx_now s = filter
     (\<lambda>r. lookup u_id (s_user_id r) (users s) \<noteq> None \<and> s_state r = S_QUEUED \<and> s_queue_deadline r > tx_now \<and>
        list_ex (admissible tx_now s r) (ready_execution_offers tx_now s)) (sessions s)"

text \<open>
  \<open>ORDER BY u.last_admitted_at, s.created_at, s.id\<close> as stable sorts, the last key first; the
  column's default \<open>-infinity\<close> comes before every time.
\<close>

definition admission_queue :: "ms \<Rightarrow> db \<Rightarrow> session list" where
  "admission_queue tx_now s =
     sort_key (\<lambda>r. last_admitted s r \<noteq> None) (sort_key (\<lambda>r. num (last_admitted s r))
       (sort_key s_created_at (sort_key s_id (admission_candidates tx_now s))))"

text \<open>\<open>ORDER BY o.last_seen DESC, o.offer_key\<close>: a null comes first.\<close>

definition offer_queue :: "ms \<Rightarrow> db \<Rightarrow> session \<Rightarrow> ready_offer list" where
  "offer_queue tx_now s r =
     sort_key (\<lambda>off. of_last_seen off \<noteq> None) (sort_key (\<lambda>off. - num (of_last_seen off))
       (sort_key of_key (filter (admissible tx_now s r) (ready_execution_offers tx_now s))))"

text \<open>
  The fund's window that covers the offer's route, running for ten seconds more at least. The query has no
  order; where several windows qualify, the first row of the table stands for the one the database returns.
\<close>

definition coverage_window :: "ms \<Rightarrow> uuid \<Rightarrow> uuid option \<Rightarrow> db \<Rightarrow> route_lease option" where
  "coverage_window tx_now pool route s = find
     (\<lambda>l. (\<exists>cw \<in> set (windows s). cw_pool_id cw = pool \<and> cw_lease_id cw = rl_id l) \<and>
        route = Some (rl_route_id l) \<and> rl_state l \<in> {L_ACTIVE, L_DRAINING} \<and>
        (case rl_ends_ms l of None \<Rightarrow> False | Some e \<Rightarrow> e > tx_now + 10000)) (rt_leases s)"

definition admitted_row ::
  "ms \<Rightarrow> uuid \<Rightarrow> node \<Rightarrow> execution_route option \<Rightarrow> route_lease option \<Rightarrow> session \<Rightarrow> session" where
  "admitted_row date_now attempt n route coverage q = q\<lparr>s_state := S_PREPARING, s_node_id := Some (n_id n),
     s_resource_domain_id := Some (n_resource_domain_id n), s_attempt_id := Some attempt,
     s_node_epoch := Some (n_epoch n),
     s_execution_deadline := Some (case coverage of None \<Rightarrow> date_now + 180000
       | Some l \<Rightarrow> min (date_now + 180000) (num (rl_ends_ms l))),
     s_route_id := map_option er_id route, s_route_sha256 := map_option er_route_sha256 route,
     s_coverage_lease_id := map_option rl_id coverage,
     s_coverage_terms_sha256 := map_option rl_terms_sha256 coverage\<rparr>"

text \<open>The members of a route with their nodes, and the participant that a member becomes.\<close>

definition route_nodes :: "uuid \<Rightarrow> db \<Rightarrow> (route_member \<times> node) list" where
  "route_nodes route s = concat (map
     (\<lambda>m. case lookup n_id (rm_node_id m) (nodes s) of None \<Rightarrow> [] | Some n \<Rightarrow> [(m, n)]) (members_of route s))"

definition new_participant :: "uuid \<Rightarrow> route_member \<times> node \<Rightarrow> participant" where
  "new_participant i p = (case p of (m, n) \<Rightarrow>
     \<lparr>sp_session_id = i, sp_node_id = rm_node_id m, sp_provider_id = rm_provider_id m,
      sp_resource_domain_id = rm_resource_domain_id m, sp_ordinal = rm_ordinal m, sp_role = rm_role m,
      sp_share_bps = rm_share_bps m, sp_node_epoch = n_epoch n, sp_prepare_id = None,
      sp_claimed_at = None, sp_paid_microtu = 0\<rparr>)"

record stage_access =
  sa_node_id :: uuid
  sa_node_url :: string
  sa_role :: member_role
  sa_ordinal :: int
  sa_capability :: string

record admitted =
  ad_node_url :: string
  ad_capability :: string
  ad_attempt_id :: uuid
  ad_route :: "(uuid \<times> string \<times> stage_access list) option"

datatype admission =
    Ended session_state "string option"
  | Waiting
  | Admitted admitted

definition stage_accesses ::
  "(string \<Rightarrow> string) \<Rightarrow> session \<Rightarrow> quote \<Rightarrow> (route_member \<times> node) list \<Rightarrow> stage_access list result" where
  "stage_accesses sign r q members = traverse
     (\<lambda>(m, n). and_then (cap sign r q (rm_node_id m) (n_epoch n) (if rm_role m = ROOT then Prepare else Stage_prepare))
        (\<lambda>c. Inr \<lparr>sa_node_id = rm_node_id m, sa_node_url = n_base_url n, sa_role = rm_role m,
           sa_ordinal = rm_ordinal m, sa_capability = c\<rparr>)) members"

text \<open>The writes of an admission, once the offer, its node, route and coverage are read.\<close>

definition place ::
  "ms \<Rightarrow> ms \<Rightarrow> uuid \<Rightarrow> session \<Rightarrow> ready_offer \<Rightarrow> node \<Rightarrow> execution_route option \<Rightarrow> route_lease option \<Rightarrow> db \<Rightarrow> db result"
where
  "place date_now tx_now attempt r off n route coverage s =
     and_then (update_session (s_id r) (admitted_row date_now attempt n route coverage) s) (\<lambda>s1.
     and_then (each (insert_session_domain (s_id r)) (of_domains off) s1) (\<lambda>s2.
     and_then (case route of None \<Rightarrow> Inr s2
       | Some t \<Rightarrow> each insert_participant (map (new_participant (s_id r)) (route_nodes (er_id t) s)) s2) (\<lambda>s3.
     Inr (session_event (s_id r) ''admitted''
       [(''node_id'', JStr (n_id n)), (''resource_domain_id'', JStr (n_resource_domain_id n)),
        (''attempt_id'', JStr attempt), (''route_id'', opt_str (map_option er_id route)),
        (''resource_domain_ids'', JArr (map JStr (of_domains off)))]
       (s3\<lparr>users := update_row u_id (s_user_id r) (\<lambda>u. u\<lparr>u_last_admitted_at := Some tx_now\<rparr>) (users s3)\<rparr>)))))"

definition admission_result ::
  "(string \<Rightarrow> string) \<Rightarrow> uuid \<Rightarrow> session \<Rightarrow> node \<Rightarrow> execution_route option \<Rightarrow> db \<Rightarrow> admission result" where
  "admission_result sign attempt updated n route s =
     (case lookup q_id (s_quote_id updated) (quotes s) of
        None \<Rightarrow> Inl TypeError
      | Some q \<Rightarrow>
     and_then (cap sign updated q (n_id n) (n_epoch n) Prepare) (\<lambda>c.
     and_then (case route of None \<Rightarrow> Inr None
       | Some t \<Rightarrow> and_then (stage_accesses sign updated q (route_nodes (er_id t) s))
           (\<lambda>parts. Inr (Some (er_id t, er_route_sha256 t, parts)))) (\<lambda>parts.
     Inr (Admitted \<lparr>ad_node_url = n_base_url n, ad_capability = c, ad_attempt_id = attempt, ad_route = parts\<rparr>))))"

definition admit ::
  "(string \<Rightarrow> string) \<Rightarrow> ms \<Rightarrow> ms \<Rightarrow> uuid \<Rightarrow> uuid \<Rightarrow> uuid \<Rightarrow> admission handler" where
  "admit sign date_now tx_now j attempt i s =
     need_row (lookup s_id i (sessions s)) 404 ''session_missing'' (\<lambda>r.
     if is_terminal (s_state r) then Inr (Ended (s_state r) (s_error_code r), s)
     else if s_queue_deadline r < date_now \<and> s_state r = S_QUEUED then
       and_then (finalize date_now tx_now j r INTERRUPTED 0 (Some ''queue_timeout'') None s)
         (\<lambda>s'. Inr (Ended (S_TERMINAL INTERRUPTED) (Some ''queue_timeout''), s'))
     else need (s_state r = S_QUEUED) 409 ''admission_state'' (
       case admission_queue tx_now s of
         [] \<Rightarrow> Inr (Waiting, s)
       | first # _ \<Rightarrow>
     if s_id first \<noteq> i then Inr (Waiting, s) else
     case offer_queue tx_now s r of
       [] \<Rightarrow> Inr (Waiting, s)
     | off # _ \<Rightarrow>
     let route = (case of_route off of None \<Rightarrow> None | Some t \<Rightarrow> lookup er_id t (routes s));
         coverage = (case s_cooperative_pool_id r of None \<Rightarrow> None
           | Some pool \<Rightarrow> coverage_window tx_now pool (of_route off) s) in
     need (s_cooperative_pool_id r = None \<or> coverage \<noteq> None) 409 ''coverage_ended'' (
     case lookup n_id (of_root off) (nodes s) of
       None \<Rightarrow> Inl TypeError
     | Some n \<Rightarrow>
     and_then (place date_now tx_now attempt r off n route coverage s) (\<lambda>s'.
     and_then (admission_result sign attempt (admitted_row date_now attempt n route coverage r) n route s')
       (\<lambda>res. Inr (res, s'))))))"

section \<open>Authorization\<close>

text \<open>A participant with its node and its provider's account, as \<open>currentParticipants\<close> joins them.\<close>

type_synonym current = "participant \<times> node \<times> user"

definition participant_rows :: "uuid \<Rightarrow> db \<Rightarrow> current list" where
  "participant_rows i s = concat (map
     (\<lambda>p. case (lookup n_id (sp_node_id p) (nodes s), lookup u_id (sp_provider_id p) (users s)) of
        (Some n, Some u) \<Rightarrow> [(p, n, u)] | _ \<Rightarrow> []) (session_members i s))"

definition still_current :: "ms \<Rightarrow> bool \<Rightarrow> current \<Rightarrow> bool" where
  "still_current date_now preparing = (\<lambda>(p, n, u).
     sp_node_epoch p = n_epoch n \<and> \<not> u_disabled u \<and> n_owner_id n = sp_provider_id p \<and>
     n_resource_domain_id n = sp_resource_domain_id p \<and> n_desired_state n \<noteq> Want_REVOKED \<and>
     (preparing \<longrightarrow> n_state n = N_READY \<and> n_desired_state n = Want_READY \<and>
        num (n_last_seen n) > date_now - 15000))"

definition currentParticipants ::
  "ms \<Rightarrow> session \<Rightarrow> bool \<Rightarrow> db \<Rightarrow> (current list \<Rightarrow> 'a result) \<Rightarrow> 'a result" where
  "currentParticipants date_now r preparing s rest =
     (let rows = participant_rows (s_id r) s in
      need (2 \<le> length rows \<and> list_all (still_current date_now preparing) rows)
        409 ''route_node_changed'' (rest rows))"

record authorization =
  au_prepare_id :: string
  au_participants :: "(uuid \<times> string) list option"

definition prepare_id_ok :: "string \<Rightarrow> bool" where
  "prepare_id_ok k \<longleftrightarrow> 20 \<le> length k \<and> length k \<le> 100 \<and>
     list_all (\<lambda>c. is_upper c \<or> is_lower c \<or> is_digit c \<or> c \<in> set ''_-'') k"

definition authorization_ok :: "authorization \<Rightarrow> bool" where
  "authorization_ok d \<longleftrightarrow> prepare_id_ok (au_prepare_id d) \<and>
     (case au_participants d of None \<Rightarrow> True
      | Some ps \<Rightarrow> 1 \<le> length ps \<and> length ps \<le> 15 \<and> list_all (\<lambda>(n, k). prepare_id_ok k) ps)"

definition stages_of :: "current list \<Rightarrow> current list" where
  "stages_of rows = filter (\<lambda>(p, n, u). sp_role p = STAGE) rows"

text \<open>Every stage confirmed its preparation, and nothing else did.\<close>

definition prepare_complete :: "authorization \<Rightarrow> current list \<Rightarrow> bool" where
  "prepare_complete d rows =
     (case au_participants d of
        None \<Rightarrow> False
      | Some ps \<Rightarrow> length ps = length (stages_of rows) \<and>
          length (remdups (map fst ps)) = length (stages_of rows) \<and>
          list_all (\<lambda>(p, n, u). list_ex (\<lambda>(v, k). v = sp_node_id p) ps) (stages_of rows))"

definition prepared_id :: "authorization \<Rightarrow> participant \<Rightarrow> string" where
  "prepared_id d p =
     (if sp_role p = ROOT then au_prepare_id d
      else case find (\<lambda>(v, k). v = sp_node_id p) (case au_participants d of None \<Rightarrow> [] | Some ps \<Rightarrow> ps) of
        None \<Rightarrow> [] | Some (v, k) \<Rightarrow> k)"

record stage_grant =
  sg_node :: uuid
  sg_url :: string
  sg_execute :: string
  sg_finish :: string

record authorized =
  az_capability :: string
  az_participants :: "stage_grant list option"

text \<open>\<open>cap({...s, prepare_id}, ..)\<close>: the claims carry the fresh preparation id.\<close>

definition stage_grants ::
  "(string \<Rightarrow> string) \<Rightarrow> session \<Rightarrow> quote \<Rightarrow> authorization \<Rightarrow> current list \<Rightarrow> stage_grant list result" where
  "stage_grants sign r q d rows = traverse
     (\<lambda>(p, n, u). let row = r\<lparr>s_prepare_id := Some (prepared_id d p)\<rparr> in
        and_then (cap sign row q (sp_node_id p) (sp_node_epoch p) Stage_execute) (\<lambda>c.
        and_then (cap sign row q (sp_node_id p) (sp_node_epoch p) Stage_finish) (\<lambda>f.
        Inr \<lparr>sg_node = sp_node_id p, sg_url = n_base_url n, sg_execute = c, sg_finish = f\<rparr>)))
     (stages_of rows)"

definition node_prepared :: "ms \<Rightarrow> session \<Rightarrow> db \<Rightarrow> node option" where
  "node_prepared date_now r s =
     (case lookup (Some \<circ> n_id) (s_node_id r) (nodes s) of
        None \<Rightarrow> None
      | Some n \<Rightarrow> if Some (n_epoch n) = s_node_epoch r \<and> n_desired_state n = Want_READY \<and>
            num (n_last_seen n) > date_now - 15000 then Some n else None)"

definition authorized_row :: "string \<Rightarrow> session \<Rightarrow> session" where
  "authorized_row k q = q\<lparr>s_state := S_AUTHORIZED, s_prepare_id := Some k\<rparr>"

text \<open>The participants of a route session get their preparation ids; a node session has none.\<close>

definition confirm_stages ::
  "session \<Rightarrow> authorization \<Rightarrow> ms \<Rightarrow> db \<Rightarrow> (current list \<Rightarrow> db \<Rightarrow> 'a result) \<Rightarrow> 'a result" where
  "confirm_stages r d date_now s rest =
     (if s_route_id r = None then
        need (au_participants d = None) 400 ''unexpected_stages'' (rest [] s)
      else
        currentParticipants date_now r True s (\<lambda>rows.
        need (prepare_complete d rows) 409 ''route_prepare_incomplete'' (
        and_then (each (\<lambda>(p, n, u). update_participant (s_id r) (sp_node_id p)
            (\<lambda>q. q\<lparr>sp_prepare_id := Some (prepared_id d p)\<rparr>)) rows s) (rest rows))))"

definition authorize ::
  "(string \<Rightarrow> string) \<Rightarrow> ms \<Rightarrow> uuid \<Rightarrow> authorization \<Rightarrow> authorized handler" where
  "authorize sign date_now i d s =
     zod (authorization_ok d) (
     need (case lookup s_id i (sessions s) of None \<Rightarrow> False
         | Some r \<Rightarrow> s_state r = S_PREPARING \<and> num (s_execution_deadline r) > date_now)
       409 ''prepare_expired'' (
     let r = the (lookup s_id i (sessions s)) in
     need_row (node_prepared date_now r s) 409 ''node_changed'' (\<lambda>n.
     confirm_stages r d date_now s (\<lambda>rows s1.
     and_then (update_session i (authorized_row (au_prepare_id d)) s1) (\<lambda>s2.
     case lookup q_id (s_quote_id r) (quotes s) of
       None \<Rightarrow> Inl TypeError
     | Some q \<Rightarrow>
     and_then (cap sign (r\<lparr>s_prepare_id := Some (au_prepare_id d)\<rparr>) q (n_id n) (n_epoch n) Execute) (\<lambda>c.
     and_then (if s_route_id r = None then Inr None
       else and_then (stage_grants sign r q d rows) (\<lambda>gs. Inr (Some gs))) (\<lambda>gs.
     Inr (\<lparr>az_capability = c, az_participants = gs\<rparr>, session_event i ''authorized'' [] s2))))))))"

section \<open>Claims\<close>

record claim_request =
  cl_session_id :: uuid
  cl_attempt_id :: uuid
  cl_epoch :: int
  cl_prepare_id :: string

definition claim_request_ok :: "claim_request \<Rightarrow> bool" where
  "claim_request_ok d \<longleftrightarrow> 0 < cl_epoch d \<and> length (cl_prepare_id d) \<le> 100"

definition running_row :: "ms \<Rightarrow> session \<Rightarrow> session" where
  "running_row tx_now q = q\<lparr>s_state := S_RUNNING, s_started_at := Some tx_now\<rparr>"

text \<open>The \<open>WHERE\<close> of the claiming \<open>UPDATE\<close>.\<close>

definition claimable :: "ms \<Rightarrow> uuid \<Rightarrow> claim_request \<Rightarrow> db \<Rightarrow> session \<Rightarrow> bool" where
  "claimable tx_now node d s r \<longleftrightarrow>
     s_node_id r = Some node \<and> s_attempt_id r = Some (cl_attempt_id d) \<and> s_node_epoch r = Some (cl_epoch d) \<and>
     s_prepare_id r = Some (cl_prepare_id d) \<and> s_state r = S_AUTHORIZED \<and>
     (case s_execution_deadline r of None \<Rightarrow> False | Some t \<Rightarrow> t > tx_now) \<and>
     (\<exists>n \<in> set (nodes s). Some (n_id n) = s_node_id r \<and> Some (n_epoch n) = s_node_epoch r \<and>
        n_desired_state n = Want_READY)"

definition stages_claimed :: "current list \<Rightarrow> bool" where
  "stages_claimed rows = list_all (\<lambda>(p, n, u). sp_claimed_at p \<noteq> None) (stages_of rows)"

definition mark_claimed :: "ms \<Rightarrow> uuid \<Rightarrow> uuid \<Rightarrow> db \<Rightarrow> db result" where
  "mark_claimed tx_now i node = update_participant i node (\<lambda>q. q\<lparr>sp_claimed_at := Some tx_now\<rparr>)"

definition claim :: "ms \<Rightarrow> ms \<Rightarrow> uuid \<Rightarrow> claim_request \<Rightarrow> unit handler" where
  "claim date_now tx_now node d s =
     zod (claim_request_ok d) (
     let i = cl_session_id d;
         row = lookup s_id i (sessions s);
         routed = (case row of None \<Rightarrow> False | Some r \<Rightarrow> s_route_id r \<noteq> None);
         update = (
           need (case row of None \<Rightarrow> False | Some r \<Rightarrow> claimable tx_now node d s r) 409 ''claim_rejected'' (
           and_then (update_session i (running_row tx_now) s) (\<lambda>s1.
           and_then (if routed then mark_claimed tx_now i node s1 else Inr s1) (\<lambda>s2. Inr ((), s2))))) in
     if routed then
       currentParticipants date_now (the row) True s (\<lambda>rows.
         need (stages_claimed rows) 409 ''route_unclaimed'' update)
     else update)"

definition stageClaim :: "ms \<Rightarrow> ms \<Rightarrow> uuid \<Rightarrow> claim_request \<Rightarrow> unit handler" where
  "stageClaim date_now tx_now node d s =
     zod (0 < cl_epoch d \<and> prepare_id_ok (cl_prepare_id d)) (
     let i = cl_session_id d in
     need (case lookup s_id i (sessions s) of None \<Rightarrow> False
         | Some r \<Rightarrow> s_route_id r \<noteq> None \<and> s_state r = S_AUTHORIZED \<and>
             s_attempt_id r = Some (cl_attempt_id d) \<and> num (s_execution_deadline r) > date_now)
       409 ''stage_claim_rejected'' (
     currentParticipants date_now (the (lookup s_id i (sessions s))) True s (\<lambda>rows.
     let p = find (\<lambda>(p, n, u). sp_node_id p = node \<and> sp_role p = STAGE) rows in
     need (case p of None \<Rightarrow> False
         | Some (p, n, u) \<Rightarrow> sp_node_epoch p = cl_epoch d \<and> sp_prepare_id p = Some (cl_prepare_id d) \<and>
             sp_claimed_at p = None) 409 ''stage_claim_rejected'' (
     and_then (mark_claimed tx_now i node s) (\<lambda>s'.
     Inr ((), session_event i ''stage_claimed''
       [(''node_id'', JStr node), (''ordinal'', JNum (sp_ordinal (fst (the p))))] s'))))))"

section \<open>Receipts\<close>

definition receipt_json :: "receipt \<Rightarrow> json" where
  "receipt_json d = JObj
     [(''session_id'', JStr (rc_session_id d)), (''attempt_id'', JStr (rc_attempt_id d)),
      (''epoch'', JNum (rc_epoch d)), (''state'', JStr (terminal_text (rc_state d))),
      (''prompt_tokens'', JNum (rc_prompt_tokens d)), (''completion_tokens'', JNum (rc_completion_tokens d)),
      (''output_sha256'', JStr (rc_output_sha256 d)), (''stream_done'', JBool (rc_stream_done d)),
      (''finish_reason'', opt_str (rc_finish_reason d)), (''error_code'', opt_str (rc_error_code d)),
      (''elapsed_ms'', JNum (rc_elapsed_ms d)), (''metering_source'', JStr ''engine_reported'')]"

definition stage_receipt_json :: "stage_receipt \<Rightarrow> json" where
  "stage_receipt_json d = JObj
     [(''session_id'', JStr (sg_session_id d)), (''attempt_id'', JStr (sg_attempt_id d)),
      (''epoch'', JNum (sg_epoch d)), (''route_sha256'', JStr (sg_route_sha256 d)),
      (''state'', JStr (terminal_text (sg_state d))), (''completed_commands'', JNum (sg_completed_commands d)),
      (''request_bytes'', amt (sg_request_bytes d)), (''response_bytes'', amt (sg_response_bytes d)),
      (''transcript_sha256'', JStr (sg_transcript_sha256 d)), (''elapsed_ms'', JNum (sg_elapsed_ms d)),
      (''metering_source'', JStr ''rpc_observed''), (''error_code'', opt_str (sg_error_code d))]"

datatype receipt_reply =
    Duplicate
  | Late session_state
  | Settled terminal_state int
  | Pending session_state

definition stage_failed :: "stage_receipt \<Rightarrow> bool" where
  "stage_failed p \<longleftrightarrow> sg_state p \<noteq> COMPLETED \<or> sg_completed_commands p < 1 \<or>
     sg_request_bytes p = 0 \<or> sg_response_bytes p = 0"

text \<open>The stages of a session in order, each with the receipt it has sent.\<close>

definition stage_payloads :: "uuid \<Rightarrow> db \<Rightarrow> stage_receipt option list" where
  "stage_payloads i s = map (stage_payload s) (filter (\<lambda>p. sp_role p = STAGE) (session_members i s))"

definition settleRoute :: "ms \<Rightarrow> ms \<Rightarrow> uuid \<Rightarrow> session \<Rightarrow> receipt_reply handler" where
  "settleRoute date_now tx_now j r s =
     (let stages = stage_payloads (s_id r) s;
          failed = list_ex (\<lambda>p. case p of None \<Rightarrow> False | Some v \<Rightarrow> stage_failed v) stages in
      if s_state r = S_CANCELLING \<or> failed then
        (let st = (if s_state r = S_CANCELLING then CANCELLED else FAILED) in
         and_then (finalize date_now tx_now j r st 0
             (Some (if failed then ''route_stage_failed'' else ''cancelled'')) None s)
           (\<lambda>s'. Inr (Settled st 0, s')))
      else
        case lookup rr_session_id (s_id r) (receipts s) of
          None \<Rightarrow> Inr (Pending (s_state r), s)
        | Some root \<Rightarrow>
            if None \<in> set stages then Inr (Pending (s_state r), s)
            else currentParticipants date_now r False s (\<lambda>_.
              case lookup q_id (s_quote_id r) (quotes s) of
                None \<Rightarrow> Inl TypeError
              | Some q \<Rightarrow>
                  zod (modelManifestSchema (q_manifest q)) (
                  and_then (chargeFor (q_manifest q) (rc_prompt_tokens (rr_payload root))
                      (rc_completion_tokens (rr_payload root))) (\<lambda>charge.
                  and_then (finalize date_now tx_now j r COMPLETED charge None None s)
                    (\<lambda>s'. Inr (Settled COMPLETED charge, s'))))))"

definition insert_stage_receipt :: "stored_stage_receipt \<Rightarrow> db \<Rightarrow> db result" where
  "insert_stage_receipt row s =
     and_then (insert_row (\<lambda>r. (sr_session_id r, sr_node_id r)) row (stage_receipts s))
       (\<lambda>t. Inr (s\<lparr>stage_receipts := t\<rparr>))"

text \<open>What both receipts check first of the session and of an earlier receipt.\<close>

definition receipt_expired :: "ms \<Rightarrow> session \<Rightarrow> bool" where
  "receipt_expired date_now r \<longleftrightarrow> num (s_execution_deadline r) \<le> date_now"

definition stageReceipt ::
  "(string \<Rightarrow> string) \<Rightarrow> ms \<Rightarrow> ms \<Rightarrow> uuid \<Rightarrow> uuid \<Rightarrow> stage_receipt \<Rightarrow> receipt_reply handler" where
  "stageReceipt sha date_now tx_now j node d s =
     zod (stageReceiptSchema d) (
     let digest = sha (canonical (stage_receipt_json d));
         i = sg_session_id d;
         row = lookup s_id i (sessions s);
         part = find (\<lambda>p. sp_session_id p = i \<and> sp_node_id p = node \<and> sp_role p = STAGE) (participants s) in
     need (case (row, part) of
           (Some r, Some p) \<Rightarrow> s_route_id r \<noteq> None \<and> s_attempt_id r = Some (sg_attempt_id d) \<and>
             s_route_sha256 r = Some (sg_route_sha256 d) \<and> sp_node_epoch p = sg_epoch d
         | _ \<Rightarrow> False) 409 ''stage_receipt_identity'' (
     let r = the row; p = the part in
     case lookup (\<lambda>q. (sr_session_id q, sr_node_id q)) (i, node) (stage_receipts s) of
       Some old \<Rightarrow> need (sr_digest old = digest) 409 ''receipt_conflict'' (Inr (Duplicate, s))
     | None \<Rightarrow>
         if is_terminal (s_state r) then Inr (Late (s_state r), s)
         else if receipt_expired date_now r then
           and_then (finalize date_now tx_now j r INTERRUPTED 0 (Some ''execution_timeout'') None s)
             (\<lambda>s'. Inr (Late (S_TERMINAL INTERRUPTED), s'))
         else
           need (sp_claimed_at p \<noteq> None \<and> s_state r \<in> {S_AUTHORIZED, S_RUNNING, S_CANCELLING} \<and>
               (sg_state d = COMPLETED \<longrightarrow> s_started_at r \<noteq> None)) 409 ''stage_receipt_state'' (
           currentParticipants date_now r False s (\<lambda>_.
           and_then (insert_stage_receipt
               \<lparr>sr_session_id = i, sr_node_id = node, sr_digest = digest, sr_payload = d\<rparr> s) (\<lambda>s1.
           settleRoute date_now tx_now j r (session_event i ''stage_receipt''
             [(''node_id'', JStr node), (''state'', JStr (terminal_text (sg_state d))),
              (''completed_commands'', JNum (sg_completed_commands d))] s1))))))"

text \<open>Usage that may be charged.\<close>

definition usage_valid :: "quote \<Rightarrow> receipt \<Rightarrow> bool" where
  "usage_valid q d \<longleftrightarrow>
     rc_state d = COMPLETED \<and> rc_stream_done d \<and> rc_prompt_tokens d > 0 \<and> rc_completion_tokens d > 0 \<and>
     rc_finish_reason d \<noteq> None \<and>
     rc_prompt_tokens d \<le> mm_max_context_tokens (q_manifest q) - q_max_output_tokens q \<and>
     rc_completion_tokens d \<le> q_max_output_tokens q"

definition usage_row :: "receipt \<Rightarrow> session \<Rightarrow> session" where
  "usage_row d q = q\<lparr>s_prompt_tokens := Some (rc_prompt_tokens d),
     s_completion_tokens := Some (rc_completion_tokens d), s_elapsed_ms := Some (rc_elapsed_ms d)\<rparr>"

definition insert_receipt :: "stored_receipt \<Rightarrow> db \<Rightarrow> db result" where
  "insert_receipt row s =
     and_then (insert_row rr_session_id row (receipts s)) (\<lambda>t. Inr (s\<lparr>receipts := t\<rparr>))"

text \<open>The state and error a receipt ends its session with.\<close>

definition receipt_outcome :: "bool \<Rightarrow> bool \<Rightarrow> receipt \<Rightarrow> terminal_state \<times> string option" where
  "receipt_outcome cancelled valid d =
     (if cancelled then (CANCELLED, Some ''cancelled'')
      else if rc_state d = COMPLETED \<and> \<not> valid then (FAILED, Some ''invalid_usage'')
      else (rc_state d, rc_error_code d))"

text \<open>The receipt of the root or only node, once the session and its node are checked.\<close>

definition record_receipt ::
  "ms \<Rightarrow> ms \<Rightarrow> uuid \<Rightarrow> uuid \<Rightarrow> string \<Rightarrow> receipt \<Rightarrow> session \<Rightarrow> quote \<Rightarrow> receipt_reply handler" where
  "record_receipt date_now tx_now j node digest d r q s =
     zod (modelManifestSchema (q_manifest q)) (
     let valid = usage_valid q d;
         cancelled = (s_state r = S_CANCELLING);
         (st, err) = receipt_outcome cancelled valid d in
     and_then (if valid \<and> \<not> cancelled
         then chargeFor (q_manifest q) (rc_prompt_tokens d) (rc_completion_tokens d) else Inr 0) (\<lambda>charge.
     and_then (insert_receipt
         \<lparr>rr_session_id = s_id r, rr_node_id = node, rr_digest = digest, rr_payload = d\<rparr> s) (\<lambda>s1.
     and_then (update_session (s_id r) (usage_row d) s1) (\<lambda>s2.
     if s_route_id r \<noteq> None \<and> valid \<and> \<not> cancelled then settleRoute date_now tx_now j r s2
     else and_then (finalize date_now tx_now j r st charge err
           (if \<not> valid \<and> rc_state d = COMPLETED then Some B_DISPUTED else None) s2)
         (\<lambda>s3. Inr (Settled st charge, s3))))))"

definition receive ::
  "(string \<Rightarrow> string) \<Rightarrow> ms \<Rightarrow> ms \<Rightarrow> uuid \<Rightarrow> uuid \<Rightarrow> receipt \<Rightarrow> receipt_reply handler" where
  "receive sha date_now tx_now j node d s =
     zod (receiptSchema d) (
     let digest = sha (canonical (receipt_json d));
         i = rc_session_id d;
         row = lookup s_id i (sessions s) in
     need (case row of None \<Rightarrow> False
         | Some r \<Rightarrow> s_node_id r = Some node \<and> s_attempt_id r = Some (rc_attempt_id d) \<and>
             num (s_node_epoch r) = rc_epoch d) 409 ''receipt_identity'' (
     let r = the row in
     case lookup rr_session_id i (receipts s) of
       Some old \<Rightarrow> need (rr_digest old = digest) 409 ''receipt_conflict'' (Inr (Duplicate, s))
     | None \<Rightarrow>
         if is_terminal (s_state r) then Inr (Late (s_state r), s)
         else if receipt_expired date_now r then
           and_then (finalize date_now tx_now j r INTERRUPTED 0 (Some ''execution_timeout'') None s)
             (\<lambda>s'. Inr (Late (S_TERMINAL INTERRUPTED), s'))
         else
           need (s_state r = S_RUNNING \<or> s_state r = S_CANCELLING) 409 ''receipt_state'' (
           need (case lookup n_id node (nodes s) of None \<Rightarrow> False
               | Some n \<Rightarrow> n_epoch n = rc_epoch d \<and> n_desired_state n \<noteq> Want_REVOKED) 409 ''epoch_fenced'' (
           case lookup q_id (s_quote_id r) (quotes s) of
             None \<Rightarrow> Inl TypeError
           | Some q \<Rightarrow> record_receipt date_now tx_now j node digest d r q s))))"

section \<open>Cancellation, failure and expiry\<close>

definition cancelling_row :: "session \<Rightarrow> session" where
  "cancelling_row q = q\<lparr>s_state := S_CANCELLING\<rparr>"

definition cancel_session ::
  "ms \<Rightarrow> ms \<Rightarrow> uuid \<Rightarrow> user \<Rightarrow> uuid \<Rightarrow> session_state handler" where
  "cancel_session date_now tx_now j user i s =
     need_row (find (\<lambda>r. s_id r = i \<and> s_user_id r = u_id user) (sessions s)) 404 ''session_missing'' (\<lambda>r.
     if is_terminal (s_state r) then Inr (s_state r, s)
     else if s_state r = S_RUNNING \<or> s_state r = S_CANCELLING then
       and_then (update_session i cancelling_row s) (\<lambda>s'. Inr (S_CANCELLING, s'))
     else
       and_then (finalize date_now tx_now j r CANCELLED 0 (Some ''cancelled'') None s)
         (\<lambda>s'. Inr (S_TERMINAL CANCELLED, s')))"

definition fail_session :: "ms \<Rightarrow> ms \<Rightarrow> uuid \<Rightarrow> uuid \<Rightarrow> string \<Rightarrow> unit handler" where
  "fail_session date_now tx_now j i code s =
     zod (error_code_ok code) (
     need_row (lookup s_id i (sessions s)) 404 ''session_missing'' (\<lambda>r.
     if \<not> is_terminal (s_state r) \<and> s_state r \<notin> {S_RUNNING, S_CANCELLING} then
       and_then (finalize date_now tx_now j r FAILED 0 (Some code) None s) (\<lambda>s'. Inr ((), s'))
     else Inr ((), s)))"

text \<open>A node or a participant of the session changed its identity, or an account was disabled.\<close>

definition node_lost :: "db \<Rightarrow> session \<Rightarrow> bool" where
  "node_lost s r \<longleftrightarrow>
     (case lookup (Some \<circ> n_id) (s_node_id r) (nodes s) of
        None \<Rightarrow> False
      | Some n \<Rightarrow> (s_node_epoch r \<noteq> None \<and> s_node_epoch r \<noteq> Some (n_epoch n)) \<or> n_desired_state n = Want_REVOKED)"

definition participant_lost :: "current \<Rightarrow> bool" where
  "participant_lost = (\<lambda>(p, n, u).
     n_epoch n \<noteq> sp_node_epoch p \<or> n_desired_state n = Want_REVOKED \<or> u_disabled u)"

definition expired :: "ms \<Rightarrow> db \<Rightarrow> session \<Rightarrow> bool" where
  "expired tx_now s r \<longleftrightarrow> \<not> is_terminal (s_state r) \<and>
     ((s_state r = S_QUEUED \<and> s_queue_deadline r < tx_now) \<or>
      (case s_execution_deadline r of None \<Rightarrow> False | Some t \<Rightarrow> t < tx_now) \<or>
      node_lost s r \<or> list_ex participant_lost (participant_rows (s_id r) s))"

definition expired_sessions :: "ms \<Rightarrow> db \<Rightarrow> session list" where
  "expired_sessions tx_now s = take 100 (sort_key s_id (filter (expired tx_now s) (sessions s)))"

text \<open>The body of the loop, with one journal id for each row; then the two clean-ups.\<close>

definition reap_one :: "ms \<Rightarrow> ms \<Rightarrow> uuid \<times> session \<Rightarrow> db \<Rightarrow> db result" where
  "reap_one date_now tx_now = (\<lambda>(j, r) s.
     finalize date_now tx_now j r (if s_state r = S_CANCELLING then CANCELLED else INTERRUPTED) 0
       (Some (if s_state r = S_QUEUED then ''queue_timeout'' else ''execution_interrupted'')) None s)"

definition reap :: "ms \<Rightarrow> ms \<Rightarrow> (nat \<Rightarrow> uuid) \<Rightarrow> unit handler" where
  "reap date_now tx_now js s =
     (let rows = expired_sessions tx_now s in
      and_then (each (reap_one date_now tx_now) (zip (map js [0..<length rows]) rows) s)
        (\<lambda>s'. Inr ((), clean_up tx_now s')))"

end
