(* ===== verification/Sessions_Money.thy ===== *)
theory Sessions_Money
  imports Sessions
begin

text \<open>
  What the sessions do to the ledger. Every handler of \<open>Sessions\<close> is a sequence of a few kinds of
  change to the session table and the ledger (\<open>session_change\<close>), so an invariant is proved once for
  each kind. The main one: the held account of a user carries exactly the holds of the user's live
  sessions.
\<close>

section \<open>Shapes of the writes\<close>

lemma is_terminal_simps [simp]:
  "is_terminal (S_TERMINAL st)" "\<not> is_terminal S_QUEUED" "\<not> is_terminal S_PREPARING"
  "\<not> is_terminal S_AUTHORIZED" "\<not> is_terminal S_RUNNING" "\<not> is_terminal S_CANCELLING"
  by (simp_all add: is_terminal_def)

lemma update_participant_Inr:
  "update_participant i n f s = Inr s' \<Longrightarrow> \<exists>ps. s' = s\<lparr>participants := ps\<rparr>"
  by (auto simp: update_participant_def split: option.splits if_splits intro: exI [of _ "participants s"])

text \<open>\<open>same_but_participants s s'\<close>: only the table of participants may differ.\<close>

definition same_but_participants :: "db \<Rightarrow> db \<Rightarrow> bool" where
  "same_but_participants s s' \<longleftrightarrow> (\<exists>ps. s' = s\<lparr>participants := ps\<rparr>)"

lemma same_but_participants_refl [simp]: "same_but_participants s s"
  unfolding same_but_participants_def by (rule exI [of _ "participants s"]) simp

lemma same_but_participants_trans:
  "same_but_participants s t \<Longrightarrow> same_but_participants t u \<Longrightarrow> same_but_participants s u"
  by (auto simp: same_but_participants_def)

lemma pay_members_Inr: "pay_members i ps vs s = Inr s' \<Longrightarrow> same_but_participants s s'"
proof (induction i ps vs s rule: pay_members.induct)
  case (1 i p ps v vs s)
  then obtain t where t: "update_participant i (sp_node_id p) (\<lambda>q. q\<lparr>sp_paid_microtu := v\<rparr>) s = Inr t"
    "pay_members i ps vs t = Inr s'" by (auto simp: res_Inr)
  have "same_but_participants s t" using update_participant_Inr [OF t(1)] by (simp add: same_but_participants_def)
  then show ?case using "1.IH" [OF t(2)] by (rule same_but_participants_trans)
qed auto

text \<open>The lines of a payout touch no held account, when no fund's account is one.\<close>

definition pools_apart :: "db \<Rightarrow> bool" where
  "pools_apart s \<longleftrightarrow> (\<forall>p \<in> set (pools s). \<forall>u.
     cp_working_account p \<noteq> heldAccount u \<and> cp_reserve_account p \<noteq> heldAccount u \<and>
     cp_burn_account p \<noteq> heldAccount u)"

lemma held_neq_lab [simp, acct_neq]: "heldAccount u \<noteq> ''lab:working''" "heldAccount u \<noteq> ''lab:issuer''"
  by (simp_all add: heldAccount_def)

text \<open>At most one settlement row is added, for the session \<open>i\<close>.\<close>

definition settles :: "uuid \<Rightarrow> db \<Rightarrow> db \<Rightarrow> bool" where
  "settles i s s' \<longleftrightarrow> settlements s' = settlements s \<or>
     (\<exists>c. cs_session_id c = i \<and> settlements s' = settlements s @ [c])"

lemma payout_shapes:
  "\<exists>ps cs. s = s\<lparr>participants := ps, settlements := cs\<rparr>"
  "\<exists>ps cs. s\<lparr>participants := vs\<rparr> = s\<lparr>participants := ps, settlements := cs\<rparr>"
  "\<exists>ps cs. s\<lparr>settlements := ws\<rparr> = s\<lparr>participants := ps, settlements := cs\<rparr>"
proof -
  show "\<exists>ps cs. s = s\<lparr>participants := ps, settlements := cs\<rparr>"
    by (intro exI [of _ "participants s"] exI [of _ "settlements s"]) simp
  show "\<exists>ps cs. s\<lparr>participants := vs\<rparr> = s\<lparr>participants := ps, settlements := cs\<rparr>"
    by (intro exI [of _ vs] exI [of _ "settlements s"]) simp
  show "\<exists>ps cs. s\<lparr>settlements := ws\<rparr> = s\<lparr>participants := ps, settlements := cs\<rparr>"
    by (intro exI [of _ "participants s"] exI [of _ ws]) simp
qed

lemma payout_Inr:
  assumes ret: "payout date_now tx_now r charge s = Inr ((lines, alloc), s1)" and "pools_apart s"
  shows "\<exists>ps cs. s1 = s\<lparr>participants := ps, settlements := cs\<rparr>"
    and "\<forall>u. heldAccount u \<notin> fst ` set lines"
    and "settles (s_id r) s s1"
proof -
  consider (coop) "charge > 0 \<and> s_cooperative_pool_id r \<noteq> None"
    | (pay) "charge > 0" "s_cooperative_pool_id r = None" | (zero) "\<not> charge > 0" by blast
  then have "(\<exists>ps cs. s1 = s\<lparr>participants := ps, settlements := cs\<rparr>) \<and> (\<forall>u. heldAccount u \<notin> fst ` set lines) \<and>
      settles (s_id r) s s1"
  proof cases
    case coop
    then obtain a where "recycleSettlement date_now tx_now r charge s = Inr ((lines, a), s1)"
      using ret unfolding payout_def by (auto simp: res_Inr)
    then obtain p a where "lines = [(cp_working_account p, rec_floor a + rec_working a),
        (cp_reserve_account p, rec_reserve a), (cp_burn_account p, rec_burned a)]" "p \<in> set (pools s)"
      "s1 = s\<lparr>settlements := settlements s @ [settlement_row r p charge a]\<rparr>"
      by (rule recycleSettlement_Inr)
    moreover from this have "settles (s_id r) s s1" by (simp add: settles_def)
    ultimately show ?thesis using assms(2) payout_shapes(3) unfolding pools_apart_def by (simp; metis)
  next
    case pay
    let ?v = "charge - lab_fee charge"
    obtain ls where lines: "lines = ls @ [(''lab:working'', lab_fee charge)]"
      and out: "(if s_route_id r \<noteq> None then route_payout else node_payout) r ?v s = Inr (ls, s1)"
      using ret pay unfolding payout_def by (auto simp: res_Inr simp del: if_splits)
    show ?thesis
    proof (cases "s_route_id r = None")
      case True
      then show ?thesis using out lines payout_shapes(1) [of s]
        by (auto simp: node_payout_def settles_def split: option.splits)
    next
      case False
      then obtain vs where "pay_members (s_id r) (session_members (s_id r) s) vs s = Inr s1"
        "ls = member_lines (session_members (s_id r) s) vs"
        using out by (auto simp: route_payout_def res_Inr Let_def)
      then obtain ps where "s1 = s\<lparr>participants := ps\<rparr>" and ls: "ls = member_lines (session_members (s_id r) s) vs"
        using pay_members_Inr unfolding same_but_participants_def by blast
      then have "\<exists>ps cs. s1 = s\<lparr>participants := ps, settlements := cs\<rparr>" "settles (s_id r) s s1"
        using payout_shapes(2) by (simp_all add: settles_def)
      moreover have "heldAccount u \<notin> fst ` set lines" for u
        by (auto simp: lines ls member_lines_def dest!: set_zip_leftD)
      ultimately show ?thesis by blast
    qed
  next
    case zero
    then show ?thesis using ret payout_shapes(1) [of s] by (auto simp: payout_def settles_def)
  qed
  then show "\<exists>ps cs. s1 = s\<lparr>participants := ps, settlements := cs\<rparr>" "\<forall>u. heldAccount u \<notin> fst ` set lines"
    "settles (s_id r) s s1"
    by blast+
qed

lemma finalize_Inr:
  assumes ret: "finalize date_now tx_now j r st charge err billing s = Inr s'"
    and live: "\<not> is_terminal (s_state r)" and "pools_apart s"
  obtains lines alloc L ps cs es where "0 \<le> charge" "charge \<le> s_hold_microtu r"
    "\<forall>u. heldAccount u \<notin> fst ` set lines"
    "settle_credits j r st charge lines alloc (ledger s) = Inr L"
    "update_session (s_id r) (ended_row tx_now st charge err billing)
       (s\<lparr>participants := ps, settlements := cs, ledger := L\<rparr>) =
     Inr (s\<lparr>participants := ps, settlements := cs, ledger := L,
       sessions := update_row s_id (s_id r) (ended_row tx_now st charge err billing) (sessions s)\<rparr>)"
    "s' = s\<lparr>participants := ps, settlements := cs, ledger := L,
       sessions := update_row s_id (s_id r) (ended_row tx_now st charge err billing) (sessions s),
       events := es\<rparr>"
    "cs = settlements s \<or> (\<exists>c. cs_session_id c = s_id r \<and> cs = settlements s @ [c])"
proof -
  obtain lines alloc s1 L s2 where c: "0 \<le> charge \<and> charge \<le> s_hold_microtu r"
    and p: "payout date_now tx_now r charge s = Inr ((lines, alloc), s1)"
    and L: "settle_credits j r st charge lines alloc (ledger s1) = Inr L"
    and u: "update_session (s_id r) (ended_row tx_now st charge err billing) (s1\<lparr>ledger := L\<rparr>) = Inr s2"
    and s': "s' = session_event (s_id r) ''terminal''
      [(''state'', JStr (terminal_text st)), (''error_code'', opt_str err), (''charged_microtu'', amt charge)] s2"
    using ret live unfolding finalize_def by (auto simp: res_Inr)
  obtain ps cs where s1: "s1 = s\<lparr>participants := ps, settlements := cs\<rparr>"
    using payout_Inr(1) [OF p assms(3)] by blast
  have held: "\<forall>u. heldAccount u \<notin> fst ` set lines" by (rule payout_Inr(2) [OF p assms(3)])
  show thesis
    by (rule that [where lines = lines and alloc = alloc and L = L and ps = ps and cs = cs and es = "events s'"])
      (use c held L u update_session_Inr(1) [OF u] s' s1 payout_Inr(3) [OF p assms(3)] in
        \<open>simp_all add: session_event_def settles_def\<close>)
qed

section \<open>The kinds of change\<close>

text \<open>The rewriting of a live row, by the state it is in.\<close>

definition row_moves :: "session \<Rightarrow> (session \<Rightarrow> session) \<Rightarrow> bool" where
  "row_moves r f \<longleftrightarrow>
     (s_state r = S_QUEUED \<and> (\<exists>d a n t c. f = admitted_row d a n t c)) \<or>
     (s_state r = S_PREPARING \<and> (\<exists>k. f = authorized_row k)) \<or>
     (s_state r = S_AUTHORIZED \<and> (\<exists>now. f = running_row now)) \<or>
     (s_state r \<in> {S_RUNNING, S_CANCELLING} \<and> (f = cancelling_row \<or> (\<exists>d. f = usage_row d)))"

lemma row_moves_intros:
  "s_state r = S_QUEUED \<Longrightarrow> row_moves r (admitted_row d a n t c)"
  "s_state r = S_PREPARING \<Longrightarrow> row_moves r (authorized_row k)"
  "s_state r = S_AUTHORIZED \<Longrightarrow> row_moves r (running_row now)"
  "s_state r = S_RUNNING \<or> s_state r = S_CANCELLING \<Longrightarrow> row_moves r cancelling_row"
  "s_state r = S_RUNNING \<or> s_state r = S_CANCELLING \<Longrightarrow> row_moves r (usage_row u)"
  unfolding row_moves_def by blast+

text \<open>How a live row may end: only a session that runs, or has its root's receipt, completes.\<close>

definition row_ends :: "db \<Rightarrow> session \<Rightarrow> terminal_state \<Rightarrow> int \<Rightarrow> bool" where
  "row_ends s r st charge \<longleftrightarrow>
     \<not> is_terminal (s_state r) \<and> 0 \<le> charge \<and> charge \<le> s_hold_microtu r \<and>
     (charge > 0 \<longrightarrow> st = COMPLETED) \<and>
     (st = COMPLETED \<longrightarrow> s_state r \<noteq> S_CANCELLING \<and>
        (s_state r = S_RUNNING \<or> s_id r \<in> rr_session_id ` set (receipts s))) \<and>
     (s_state r = S_CANCELLING \<longrightarrow> st \<in> {CANCELLED, INTERRUPTED})"

text \<open>The tables that the trigger of a session's row reads.\<close>

definition same_context :: "db \<Rightarrow> db \<Rightarrow> bool" where
  "same_context s s' \<longleftrightarrow> quotes s' = quotes s \<and> windows s' = windows s \<and> rt_leases s' = rt_leases s"

lemma session_identity_cong:
  assumes "same_context s s'"
  shows "session_identity s' r = session_identity s r"
proof -
  have same: "quotes s' = quotes s" "windows s' = windows s" "rt_leases s' = rt_leases s"
    using assms by (simp_all add: same_context_def)
  then have w: "window_lease s' = window_lease s" by (intro ext) (simp add: window_lease_def)
  show ?thesis unfolding session_identity_def same(1,2) w by (rule refl)
qed

lemma session_identity_simps [simp]:
  "session_identity (s\<lparr>participants := a\<rparr>) r = session_identity s r"
  "session_identity (s\<lparr>ledger := b\<rparr>) r = session_identity s r"
  "session_identity (s\<lparr>receipts := c\<rparr>) r = session_identity s r"
  by (rule session_identity_cong; simp add: same_context_def)+

inductive session_change :: "db \<Rightarrow> db \<Rightarrow> bool" where
  apart: "sessions s' = sessions s \<Longrightarrow> receipts s' = receipts s \<Longrightarrow> pools s' = pools s \<Longrightarrow>
    ledger s' = ledger s \<Longrightarrow> settlements s' = settlements s \<Longrightarrow> same_context s s' \<Longrightarrow> session_change s s'"
| created: "hold_credits j (s_id r) (s_user_id r) (s_hold_microtu r) (ledger s) = Inr L \<Longrightarrow>
    r = queued_row i tx_now user d q \<Longrightarrow> s_id r \<notin> s_id ` set (sessions s) \<Longrightarrow> session_check r \<Longrightarrow>
    sessions s' = sessions s @ [r] \<Longrightarrow> receipts s' = receipts s \<Longrightarrow> pools s' = pools s \<Longrightarrow>
    ledger s' = L \<Longrightarrow> settlements s' = settlements s \<Longrightarrow> same_context s s' \<Longrightarrow> session_identity s r \<Longrightarrow>
    session_change s s'"
| moved: "lookup s_id i (sessions s) = Some r \<Longrightarrow> row_moves r f \<Longrightarrow> session_check (f r) \<Longrightarrow>
    sessions s' = update_row s_id i f (sessions s) \<Longrightarrow>
    receipts s' = receipts s \<or>
      (s_state r \<in> {S_RUNNING, S_CANCELLING} \<and> (\<exists>x. rr_session_id x = i \<and> receipts s' = receipts s @ [x])) \<Longrightarrow>
    pools s' = pools s \<Longrightarrow> ledger s' = ledger s \<Longrightarrow> settlements s' = settlements s \<Longrightarrow> same_context s s' \<Longrightarrow>
    session_identity s (f r) \<Longrightarrow> session_change s s'"
| ended: "lookup s_id i (sessions s) = Some r \<Longrightarrow> row_ends s r st charge \<Longrightarrow>
    s_id r0 = i \<Longrightarrow> s_user_id r0 = s_user_id r \<Longrightarrow> s_hold_microtu r0 = s_hold_microtu r \<Longrightarrow>
    \<forall>u. heldAccount u \<notin> fst ` set lines \<Longrightarrow>
    settle_credits j r0 st charge lines alloc (ledger s) = Inr L \<Longrightarrow>
    sessions s' = update_row s_id i (ended_row tx_now st charge err billing) (sessions s) \<Longrightarrow>
    billing \<noteq> Some B_HELD \<Longrightarrow>
    session_check (ended_row tx_now st charge err billing r) \<Longrightarrow>
    receipts s' = receipts s \<Longrightarrow> pools s' = pools s \<Longrightarrow> ledger s' = L \<Longrightarrow> settles i s s' \<Longrightarrow>
    same_context s s' \<Longrightarrow> session_change s s'"
| refunded: "lookup s_id i (sessions s) = Some r \<Longrightarrow> i \<in> cs_session_id ` set (settlements s) \<Longrightarrow>
    session_check (refunded_row r) \<Longrightarrow> post j (refund_key i) kind lines md (ledger s) = Inr (x, L) \<Longrightarrow>
    \<forall>u. heldAccount u \<notin> fst ` set lines \<Longrightarrow>
    sessions s' = update_row s_id i refunded_row (sessions s) \<Longrightarrow> receipts s' = receipts s \<Longrightarrow>
    pools s' = pools s \<Longrightarrow> ledger s' = L \<Longrightarrow> settlements s' = settlements s \<Longrightarrow> same_context s s' \<Longrightarrow>
    session_change s s'"

text \<open>
  A change that moves a session, if at all, to a terminal state, and opens none. The handlers that make several
  changes make only such ones.
\<close>

definition closing :: "db \<Rightarrow> db \<Rightarrow> bool" where
  "closing s s' \<longleftrightarrow> (\<forall>i. rel_option (\<lambda>r r'. s_state r' = s_state r \<or> is_terminal (s_state r'))
     (lookup s_id i (sessions s)) (lookup s_id i (sessions s')))"

definition closing_change :: "db \<Rightarrow> db \<Rightarrow> bool" where
  "closing_change s s' \<longleftrightarrow> session_change s s' \<and> closing s s'"

lemma closing_same: "sessions s' = sessions s \<Longrightarrow> closing s s'"
  by (auto simp: closing_def option.rel_refl)

lemma closing_update:
  assumes "\<And>q. s_id (f q) = s_id q" and "lookup s_id i (sessions s) = Some r"
    and "s_state (f r) = s_state r \<or> is_terminal (s_state (f r))"
    and "sessions s' = update_row s_id i f (sessions s)"
  shows "closing s s'"
  unfolding closing_def
proof
  fix k
  show "rel_option (\<lambda>r r'. s_state r' = s_state r \<or> is_terminal (s_state r'))
      (lookup s_id k (sessions s)) (lookup s_id k (sessions s'))"
    using assms by (cases "k = i") (simp_all add: lookup_update option.rel_refl)
qed

lemma closing_change_change: "closing_change s s' \<Longrightarrow> session_change s s'"
  by (simp add: closing_change_def)

lemma same_context_eqs [simp]:
  "quotes s' = quotes s \<Longrightarrow> windows s' = windows s \<Longrightarrow> rt_leases s' = rt_leases s \<Longrightarrow> same_context s s'"
  by (simp add: same_context_def)

lemma finalize_change:
  assumes ret: "finalize date_now tx_now j r0 st charge err billing s = Inr s'"
    and row: "lookup s_id (s_id r0) (sessions s) = Some r" and "pools_apart s"
    and same: "s_user_id r0 = s_user_id r" "s_hold_microtu r0 = s_hold_microtu r" "s_state r0 = s_state r"
    and ends: "\<not> is_terminal (s_state r) \<Longrightarrow> 0 \<le> charge \<Longrightarrow> charge \<le> s_hold_microtu r \<Longrightarrow> row_ends s r st charge"
    and bill: "billing \<noteq> Some B_HELD"
  shows "closing_change s s'"
proof (cases "is_terminal (s_state r)")
  case True
  then show ?thesis using ret same by (simp add: finalize_def session_change.apart closing_change_def closing_same)
next
  case False
  then have "\<not> is_terminal (s_state r0)" by (simp add: same)
  then obtain lines alloc L ps cs es where c: "0 \<le> charge" "charge \<le> s_hold_microtu r0"
    "\<forall>u. heldAccount u \<notin> fst ` set lines"
    "settle_credits j r0 st charge lines alloc (ledger s) = Inr L"
    "update_session (s_id r0) (ended_row tx_now st charge err billing)
       (s\<lparr>participants := ps, settlements := cs, ledger := L\<rparr>) =
     Inr (s\<lparr>participants := ps, settlements := cs, ledger := L,
       sessions := update_row s_id (s_id r0) (ended_row tx_now st charge err billing) (sessions s)\<rparr>)"
    "s' = s\<lparr>participants := ps, settlements := cs, ledger := L,
       sessions := update_row s_id (s_id r0) (ended_row tx_now st charge err billing) (sessions s),
       events := es\<rparr>"
      "cs = settlements s \<or> (\<exists>c. cs_session_id c = s_id r0 \<and> cs = settlements s @ [c])"
    using assms(3) by (elim finalize_Inr [OF ret])
  have "session_check (ended_row tx_now st charge err billing r)"
    using update_session_Inr(2) [OF c(5), of r] row by simp
  then have "session_change s s'" using c ends False
    by (intro session_change.ended [OF row, where st = st and charge = charge]) (simp_all add: same bill settles_def)
  moreover have "closing s s'"
    by (rule closing_update [OF _ row, where f = "ended_row tx_now st charge err billing"])
      (simp_all add: c(6) ended_row_def)
  ultimately show ?thesis by (simp add: closing_change_def)
qed

section \<open>Held credits\<close>

definition live_hold :: "uuid \<Rightarrow> session \<Rightarrow> int" where
  "live_hold u r = (if s_user_id r = u \<and> \<not> is_terminal (s_state r) then s_hold_microtu r else 0)"

definition held_total :: "uuid \<Rightarrow> db \<Rightarrow> int" where
  "held_total u s = sum_list (map (live_hold u) (sessions s))"

definition session_keys :: "ledger \<Rightarrow> uuid set" where
  "session_keys L = {i. hold_key i \<in> posted L \<or> settle_key i \<in> posted L}"

text \<open>Only a session that has ended has a settlement.\<close>

definition settled_ok :: "db \<Rightarrow> bool" where
  "settled_ok s \<longleftrightarrow> (\<forall>c \<in> set (settlements s).
     \<exists>r. lookup s_id (cs_session_id c) (sessions s) = Some r \<and> is_terminal (s_state r))"

definition funds_ok :: "db \<Rightarrow> bool" where
  "funds_ok s \<longleftrightarrow>
     keyed s_id (sessions s) \<and> list_all session_check (sessions s) \<and> pools_apart s \<and>
     (\<forall>u. bal (ledger s) (heldAccount u) = held_total u s) \<and>
     session_keys (ledger s) \<subseteq> s_id ` set (sessions s) \<and>
     (\<forall>r \<in> set (sessions s). \<not> is_terminal (s_state r) \<longrightarrow> settle_key (s_id r) \<notin> posted (ledger s)) \<and>
     settled_ok s"

lemma session_key_neq [key_neq, simp]:
  "hold_key i \<noteq> settle_key k" "settle_key k \<noteq> hold_key i"
  "hold_key i = hold_key k \<longleftrightarrow> i = k" "settle_key i = settle_key k \<longleftrightarrow> i = k"
  "hold_key i \<noteq> refund_key k" "settle_key i \<noteq> refund_key k"
  by (simp_all add: hold_key_def settle_key_def refund_key_def)

lemma hold_credits_Inr:
  assumes "hold_credits j i u hold L = Inr L'" and "0 \<le> hold" and "hold_key i \<notin> posted L"
  shows "bal L' (heldAccount v) = bal L (heldAccount v) + (if v = u then hold else 0)"
    and "posted L' \<subseteq> insert (hold_key i) (posted L)"
proof -
  consider "hold = 0" "L' = L"
    | md x where "post j (hold_key i) ''RESERVE'' [(availableAccount u, - hold), (heldAccount u, hold)] md L = Inr (x, L')"
    using assms(1,2) by (auto simp: hold_credits_def res_Inr split: if_splits)
  then have "bal L' (heldAccount v) = bal L (heldAccount v) + (if v = u then hold else 0) \<and>
      posted L' \<subseteq> insert (hold_key i) (posted L)"
  proof cases
    case 2
    then show ?thesis using led.transfer [OF 2 assms(3), of "heldAccount v"] led.records [OF 2] by auto
  qed auto
  then show "bal L' (heldAccount v) = bal L (heldAccount v) + (if v = u then hold else 0)"
    "posted L' \<subseteq> insert (hold_key i) (posted L)" by blast+
qed

lemma entry_sum_none: "a \<notin> fst ` set es \<Longrightarrow> entry_sum a es = 0"
  by (induction a es rule: entry_sum.induct) auto

lemma settle_credits_Inr:
  assumes "settle_credits j r st charge lines alloc L = Inr L'" and "0 \<le> s_hold_microtu r"
    and "settle_key (s_id r) \<notin> posted L" and "\<forall>u. heldAccount u \<notin> fst ` set lines"
  shows "bal L' (heldAccount v) = bal L (heldAccount v) - (if v = s_user_id r then s_hold_microtu r else 0)"
    and "posted L' \<subseteq> insert (settle_key (s_id r)) (posted L)"
proof -
  consider "s_hold_microtu r = 0" "L' = L"
    | kind md x where "post j (settle_key (s_id r)) kind (payer_lines r charge @ lines) md L = Inr (x, L')"
    using assms(1,2) by (auto simp: settle_credits_def res_Inr split: if_splits)
  then have "bal L' (heldAccount v) = bal L (heldAccount v) - (if v = s_user_id r then s_hold_microtu r else 0) \<and>
      posted L' \<subseteq> insert (settle_key (s_id r)) (posted L)"
  proof cases
    case 2
    then show ?thesis using led.moves [OF assms(3) 2, of "heldAccount v"] led.records [OF 2]
      entry_sum_none [of "heldAccount v" lines] assms(4) by (auto simp: payer_lines_def)
  qed auto
  then show "bal L' (heldAccount v) = bal L (heldAccount v) - (if v = s_user_id r then s_hold_microtu r else 0)"
    "posted L' \<subseteq> insert (settle_key (s_id r)) (posted L)" by blast+
qed

text \<open>Every kind of change keeps the invariant.\<close>

lemma row_moves_kept:
  assumes "row_moves r f"
  shows "s_id (f q) = s_id q" "s_user_id (f q) = s_user_id q" "s_hold_microtu (f q) = s_hold_microtu q"
    and "\<not> is_terminal (s_state r)" and "\<not> is_terminal (s_state (f r))"
  using assms by (auto simp: row_moves_def admitted_row_def authorized_row_def running_row_def
      cancelling_row_def usage_row_def is_terminal_def)

lemma ended_row_kept [simp]:
  "s_id (ended_row n st c e b q) = s_id q" "s_user_id (ended_row n st c e b q) = s_user_id q"
  "s_hold_microtu (ended_row n st c e b q) = s_hold_microtu q" "is_terminal (s_state (ended_row n st c e b q))"
  "s_state (ended_row n st c e b q) = S_TERMINAL st"
  by (simp_all add: ended_row_def is_terminal_def)

lemma list_all_update_row:
  "keyed key t \<Longrightarrow> lookup key i t = Some r \<Longrightarrow> list_all P t \<Longrightarrow> P (f r) \<Longrightarrow> list_all P (update_row key i f t)"
  by (auto simp: list_all_iff in_update_row dest!: lookup_SomeD) (metis keyed_unique)

lemma refunded_row_kept [simp]:
  "s_id (refunded_row q) = s_id q" "s_user_id (refunded_row q) = s_user_id q" "s_state (refunded_row q) = s_state q"
  "s_hold_microtu (refunded_row q) = s_hold_microtu q" "s_charged_microtu (refunded_row q) = s_charged_microtu q"
  by (simp_all add: refunded_row_def)

lemma settled_ok_update:
  assumes ok: "settled_ok s" and f: "\<And>q. s_id (f q) = s_id q" and row: "lookup s_id i (sessions s) = Some r"
    and t: "is_terminal (s_state r) \<Longrightarrow> is_terminal (s_state (f r))"
    and s': "sessions s' = update_row s_id i f (sessions s)"
    and c: "settlements s' = settlements s \<or> is_terminal (s_state (f r)) \<and> settles i s s'"
  shows "settled_ok s'"
  unfolding settled_ok_def
proof
  fix d
  assume d: "d \<in> set (settlements s')"
  show "\<exists>q. lookup s_id (cs_session_id d) (sessions s') = Some q \<and> is_terminal (s_state q)"
  proof (cases "cs_session_id d = i")
    case True
    moreover have "is_terminal (s_state (f r))"
    proof (cases "d \<in> set (settlements s)")
      case old: True
      then show ?thesis using ok row True t by (force simp: settled_ok_def)
    next
      case False
      then show ?thesis using c d by auto
    qed
    ultimately show ?thesis using row f by (simp add: s' lookup_update)
  next
    case False
    then have "d \<in> set (settlements s)" using c d by (auto simp: settles_def)
    then show ?thesis using ok False f by (simp add: s' lookup_update settled_ok_def)
  qed
qed

lemma change_keeps_settled:
  assumes "session_change s s'" and ok: "settled_ok s"
  shows "settled_ok s'"
  using assms(1)
proof cases
  case apart
  then show ?thesis using ok by (simp add: settled_ok_def)
next
  case (created j r L i tx_now user d q)
  then show ?thesis using ok by (fastforce simp: settled_ok_def)
next
  case (moved i r f)
  show ?thesis
    by (rule settled_ok_update [OF ok row_moves_kept(1) [OF moved(2)] moved(1) _ moved(4)])
      (use row_moves_kept(4) [OF moved(2)] moved(8) in simp_all)
next
  case (ended i r st charge r0 lines j alloc L tx_now err billing)
  show ?thesis by (rule settled_ok_update [OF ok _ ended(1) _ ended(8)]) (use ended(14) in simp_all)
next
  case (refunded i r j kind lines md x L)
  show ?thesis by (rule settled_ok_update [OF ok _ refunded(1) _ refunded(6)]) (use refunded(10) in simp_all)
qed

lemma change_keeps_funds:
  assumes "session_change s s'" and ok: "funds_ok s"
  shows "funds_ok s'"
proof -
  have settled: "settled_ok s'" using change_keeps_settled [OF assms(1)] ok by (simp add: funds_ok_def)
  from assms(1) show ?thesis
  proof cases
    case apart
    then show ?thesis using ok settled by (simp add: funds_ok_def held_total_def pools_apart_def)
  next
    case (created j r L i tx_now user d q)
    have hk: "hold_key (s_id r) \<notin> posted (ledger s)" "settle_key (s_id r) \<notin> posted (ledger s)"
      using ok created(3) by (auto simp: funds_ok_def session_keys_def)
    have r: "0 \<le> s_hold_microtu r" "\<not> is_terminal (s_state r)"
      using created(2,4) by (simp_all add: session_check_def queued_row_def is_terminal_def)
    note L = hold_credits_Inr [OF created(1) r(1) hk(1)]
    have "bal (ledger s') (heldAccount v) = held_total v s'" for v
      using ok L(1) [of v] r created(5,8) by (simp add: funds_ok_def held_total_def live_hold_def)
    moreover have "session_keys (ledger s') \<subseteq> s_id ` set (sessions s')"
      using ok L(2) created(5,8) by (auto simp: funds_ok_def session_keys_def)
    moreover have "settle_key (s_id q) \<notin> posted (ledger s')" if "q \<in> set (sessions s')" "\<not> is_terminal (s_state q)" for q
      using that ok L(2) hk(2) created(5,8) by (auto simp: funds_ok_def)
    ultimately show ?thesis using ok settled created by (simp add: funds_ok_def keyed_insert pools_apart_def)
  next
    case (moved i r f)
    note kept = row_moves_kept [OF moved(2)]
    have keyed: "keyed s_id (sessions s)" using ok by (simp add: funds_ok_def)
    have "live_hold u (f r) = live_hold u r" for u using kept by (simp add: live_hold_def)
    then have "held_total u s' = held_total u s" for u
      by (simp add: held_total_def moved(4) sum_update_row [OF keyed moved(1)])
    moreover have "s_id ` set (sessions s') = s_id ` set (sessions s)"
      using update_row_keys [of s_id f i "sessions s"] kept(1) by (simp add: moved(4) flip: set_map del: set_map)
    moreover have "list_all session_check (sessions s')"
      using ok moved keyed by (simp add: funds_ok_def list_all_update_row)
    moreover have "settle_key (s_id q) \<notin> posted (ledger s')" if "q \<in> set (sessions s')" "\<not> is_terminal (s_state q)" for q
    proof -
      obtain q0 where q0: "q0 \<in> set (sessions s)" "s_id q0 = s_id q" "q = q0 \<or> s_id q0 = i"
        using \<open>q \<in> set (sessions s')\<close> kept(1) by (auto simp: moved(4) in_update_row)
      have "\<not> is_terminal (s_state q0)"
        using q0 that(2) kept(4) lookup_SomeD [OF moved(1)] keyed_unique [OF keyed, of q0 r] by auto
      with q0 ok show ?thesis by (auto simp: moved(7) funds_ok_def)
    qed
    moreover have "keyed s_id (sessions s')" using keyed kept(1) by (simp add: moved(4) keyed_update)
    ultimately show ?thesis using ok settled moved(6,7) by (simp add: funds_ok_def pools_apart_def)
  next
    case (ended i r st charge r0 lines j alloc L tx_now err billing)
    let ?f = "ended_row tx_now st charge err billing"
    have keyed: "keyed s_id (sessions s)" using ok by (simp add: funds_ok_def)
    have r: "r \<in> set (sessions s)" "s_id r = i" using lookup_SomeD [OF ended(1)] by auto
    have live: "\<not> is_terminal (s_state r)" using ended(2) by (simp add: row_ends_def)
    have fresh: "settle_key (s_id r0) \<notin> posted (ledger s)" using ok r live by (auto simp: funds_ok_def ended(3))
    have hold: "0 \<le> s_hold_microtu r0" using ended(2) by (simp add: row_ends_def ended(5))
    note L = settle_credits_Inr [OF ended(7) hold fresh ended(6)]
    have "bal (ledger s') (heldAccount u) = held_total u s'" for u
      using ok L(1) [of u] live ended(4,5,13)
      by (simp add: held_total_def funds_ok_def ended(8) sum_update_row [OF keyed ended(1)] live_hold_def)
    moreover have ids: "s_id ` set (sessions s') = s_id ` set (sessions s)"
      using update_row_keys [of s_id ?f i "sessions s"] by (simp add: ended(8) flip: set_map del: set_map)
    moreover have "session_keys (ledger s') \<subseteq> s_id ` set (sessions s')"
      using ok L(2) r ended(3,13) unfolding ids by (auto simp: funds_ok_def session_keys_def)
    moreover have "list_all session_check (sessions s')"
      using ok ended(1,8,10) keyed by (simp add: funds_ok_def list_all_update_row)
    moreover have "settle_key (s_id q) \<notin> posted (ledger s')" if "q \<in> set (sessions s')" "\<not> is_terminal (s_state q)" for q
      using that ok L(2) ended(3) by (auto simp: ended(8,13) in_update_row funds_ok_def)
    moreover have "keyed s_id (sessions s')" using keyed by (simp add: ended(8) keyed_update)
    ultimately show ?thesis using ok settled ended(12) by (simp add: funds_ok_def pools_apart_def)
  next
    case (refunded i r j kind lines md x L)
    have keyed: "keyed s_id (sessions s)" using ok by (simp add: funds_ok_def)
    have "heldAccount u \<notin> fst ` set lines" for u using refunded(5) by simp
    then have same: "bal L (heldAccount u) = bal (ledger s) (heldAccount u)" for u
      using led.untouched [OF refunded(4)] by simp
    have keys: "hold_key k \<in> posted L \<longleftrightarrow> hold_key k \<in> posted (ledger s)"
      "settle_key k \<in> posted L \<longleftrightarrow> settle_key k \<in> posted (ledger s)" for k
      using led.records [OF refunded(4)] by simp_all
    have "live_hold u (refunded_row r) = live_hold u r" for u by (simp add: live_hold_def)
    then have "held_total u s' = held_total u s" for u
      by (simp add: held_total_def refunded(6) sum_update_row [OF keyed refunded(1)])
    moreover have "s_id ` set (sessions s') = s_id ` set (sessions s)"
      using update_row_keys [of s_id refunded_row i "sessions s"] by (simp add: refunded(6) flip: set_map del: set_map)
    moreover have "list_all session_check (sessions s')"
      using ok refunded(1,3) keyed by (simp add: funds_ok_def refunded(6) list_all_update_row)
    moreover have "settle_key (s_id q) \<notin> posted L" if "q \<in> set (sessions s')" "\<not> is_terminal (s_state q)" for q
      using that ok keys by (auto simp: refunded(6) in_update_row funds_ok_def)
    moreover have "keyed s_id (sessions s')" using keyed by (simp add: refunded(6) keyed_update)
    ultimately show ?thesis using ok settled refunded(8,9) same keys
      by (simp add: funds_ok_def pools_apart_def session_keys_def)
  qed
qed

lemma changes_keep_funds: "session_change\<^sup>*\<^sup>* s s' \<Longrightarrow> funds_ok s \<Longrightarrow> funds_ok s'"
  by (rule rtranclp_keeps [of session_change s s' funds_ok]) (simp_all add: change_keeps_funds)

section \<open>Every handler is a sequence of changes\<close>

lemma unchanged: "session_change s s"
  by (simp add: session_change.apart)

lemma nothing_closes: "closing_change s s"
  by (simp add: closing_change_def unchanged closing_same)

lemma one_closing: "closing_change s s' \<Longrightarrow> closing_change\<^sup>*\<^sup>* s s'"
  by (rule r_into_rtranclp)

lemma one_change: "session_change s s' \<Longrightarrow> session_change\<^sup>*\<^sup>* s s'"
  by (rule r_into_rtranclp)

lemma insert_session_Inr:
  "insert_session r s = Inr s' \<longleftrightarrow> session_identity s r \<and> session_check r \<and>
     \<not> (\<exists>q \<in> set (sessions s). s_user_id q = s_user_id r \<and> s_idempotency_key q = s_idempotency_key r) \<and>
     s_id r \<notin> s_id ` set (sessions s) \<and> s' = s\<lparr>sessions := sessions s @ [r]\<rparr>"
  by (auto simp: insert_session_def res_Inr)

lemma create_Inr:
  assumes "create_session i j tx_now user d s = Inr ((row, reused), s')" and "\<not> reused"
  obtains q L quota where "open_quote tx_now user (rq_quote_id d) s = Some q" "row = queued_row i tx_now user d q"
    "modelManifestSchema (q_manifest q)" "q_max_output_tokens q = rq_max_tokens d" "q_model_id q = rq_model d"
    "live_count (u_id user) s < 4" "capacity tx_now (rq_model d) (u_id user) s = Inr quota"
    "cap_active_for_account quota < cap_temporary_session_limit quota"
    "hold_credits j i (u_id user) (q_maximum_microtu q) (ledger s) = Inr L"
    "insert_session row (s\<lparr>ledger := L\<rparr>) = Inr (s\<lparr>ledger := L, sessions := sessions s @ [row]\<rparr>)"
    "s' = session_event i ''queued'' [(''maximum_microtu'', amt (q_maximum_microtu q))]
       (s\<lparr>ledger := L, sessions := sessions s @ [row]\<rparr>)"
  using assms unfolding create_session_def
  by (auto simp: res_Inr Let_def insert_session_Inr split: option.splits)

lemma create_reused: "create_session i j tx_now user d s = Inr ((row, True), s') \<Longrightarrow> s' = s"
  unfolding create_session_def by (auto simp: res_Inr Let_def split: option.splits)

lemma create_change:
  assumes ret: "create_session i j tx_now user d s = Inr (v, s')"
  shows "session_change s s'"
proof -
  obtain row reused where v: "v = (row, reused)" by fastforce
  show ?thesis
  proof (cases reused)
    case True
    then show ?thesis using create_reused [of i j tx_now user d s row s'] ret unchanged by (simp add: v)
  next
    case False
    then obtain q L where c: "row = queued_row i tx_now user d q"
      "hold_credits j i (u_id user) (q_maximum_microtu q) (ledger s) = Inr L"
      "insert_session row (s\<lparr>ledger := L\<rparr>) = Inr (s\<lparr>ledger := L, sessions := sessions s @ [row]\<rparr>)"
      "s' = session_event i ''queued'' [(''maximum_microtu'', amt (q_maximum_microtu q))]
         (s\<lparr>ledger := L, sessions := sessions s @ [row]\<rparr>)"
      using ret unfolding v by (elim create_Inr) auto
    have "s_id row = i" "s_user_id row = u_id user" "s_hold_microtu row = q_maximum_microtu q"
      by (simp_all add: c(1) queued_row_def)
    then show ?thesis using c
      by (intro session_change.created [where r = row and j = j and L = L])
        (auto simp: insert_session_Inr session_event_def)
  qed
qed

text \<open>The writes of an admission.\<close>

lemma insert_session_domain_Inr:
  "insert_session_domain i d s = Inr s' \<Longrightarrow> s' = s\<lparr>session_domains := session_domains s @ [(i, d)]\<rparr>"
  by (auto simp: insert_session_domain_def res_Inr)

lemma insert_participant_Inr:
  "insert_participant p s = Inr s' \<Longrightarrow> s' = s\<lparr>participants := participants s @ [p]\<rparr>"
  by (auto simp: insert_participant_def res_Inr split: if_splits)

lemma each_session_domains:
  "each (insert_session_domain i) ds s = Inr s' \<Longrightarrow>
     s' = s\<lparr>session_domains := session_domains s @ map (Pair i) ds\<rparr>"
proof (induction ds arbitrary: s)
  case (Cons d ds)
  then obtain t where "insert_session_domain i d s = Inr t" "each (insert_session_domain i) ds t = Inr s'"
    by (auto simp: res_Inr)
  then show ?case using Cons.IH insert_session_domain_Inr by fastforce
qed simp

lemma each_participants:
  "each insert_participant ps s = Inr s' \<Longrightarrow> s' = s\<lparr>participants := participants s @ ps\<rparr>"
proof (induction ps arbitrary: s)
  case (Cons p ps)
  then obtain t where "insert_participant p s = Inr t" "each insert_participant ps t = Inr s'"
    by (auto simp: res_Inr)
  then show ?case using Cons.IH insert_participant_Inr by fastforce
qed simp

lemma place_Inr:
  assumes "place date_now tx_now attempt r off n route coverage s = Inr s'"
  obtains ps es where "update_session (s_id r) (admitted_row date_now attempt n route coverage) s =
      Inr (s\<lparr>sessions := update_row s_id (s_id r) (admitted_row date_now attempt n route coverage) (sessions s)\<rparr>)"
    "s' = s\<lparr>sessions := update_row s_id (s_id r) (admitted_row date_now attempt n route coverage) (sessions s),
       session_domains := session_domains s @ map (Pair (s_id r)) (of_domains off), participants := participants s @ ps,
       events := es,
       users := update_row u_id (s_user_id r) (\<lambda>u. u\<lparr>u_last_admitted_at := Some tx_now\<rparr>) (users s)\<rparr>"
    "ps = (case route of None \<Rightarrow> [] | Some t \<Rightarrow> map (new_participant (s_id r)) (route_nodes (er_id t) s))"
proof -
  let ?ps = "case route of None \<Rightarrow> [] | Some t \<Rightarrow> map (new_participant (s_id r)) (route_nodes (er_id t) s)"
  let ?e = "session_event (s_id r) ''admitted''
       [(''node_id'', JStr (n_id n)), (''resource_domain_id'', JStr (n_resource_domain_id n)),
        (''attempt_id'', JStr attempt), (''route_id'', opt_str (map_option er_id route)),
        (''resource_domain_ids'', JArr (map JStr (of_domains off)))]"
  obtain s1 s2 s3 where
    u: "update_session (s_id r) (admitted_row date_now attempt n route coverage) s = Inr s1"
    and d: "each (insert_session_domain (s_id r)) (of_domains off) s1 = Inr s2"
    and p: "(case route of None \<Rightarrow> Inr s2
       | Some t \<Rightarrow> each insert_participant (map (new_participant (s_id r)) (route_nodes (er_id t) s)) s2) = Inr s3"
    and s': "s' = ?e (s3\<lparr>users := update_row u_id (s_user_id r) (\<lambda>u. u\<lparr>u_last_admitted_at := Some tx_now\<rparr>) (users s3)\<rparr>)"
    using assms unfolding place_def by (auto simp: res_Inr)
  have s3: "s3 = s2\<lparr>participants := participants s2 @ ?ps\<rparr>"
    using p by (cases route) (auto dest: each_participants)
  show thesis
    by (rule that [where ps = ?ps and es = "events s'"])
      (use update_session_Inr(1) [OF u] u each_session_domains [OF d] s3 s' in \<open>simp_all add: session_event_def\<close>)
qed

lemma admit_change:
  assumes ret: "admit sign date_now tx_now j attempt i s = Inr (v, s')" and "pools_apart s"
  shows "session_change s s'"
proof -
  obtain r where r: "lookup s_id i (sessions s) = Some r" "s_id r = i"
    using ret lookup_SomeD unfolding admit_def by (fastforce simp: res_Inr)
  consider (same) "s' = s"
    | (late) "finalize date_now tx_now j r INTERRUPTED 0 (Some ''queue_timeout'') None s = Inr s'" "s_state r = S_QUEUED"
    | (placed) off n route coverage where "s_state r = S_QUEUED"
        "place date_now tx_now attempt r off n route coverage s = Inr s'"
    using ret unfolding admit_def r(1) need_row_simps
    by (auto simp: res_Inr Let_def split: if_splits list.splits option.splits)
  then show ?thesis
  proof cases
    case same
    then show ?thesis by (simp add: unchanged)
  next
    case late
    show ?thesis by (rule closing_change_change [OF finalize_change [where r = r, OF late(1)]])
      (use r late(2) assms(2) in \<open>simp_all add: row_ends_def\<close>)
  next
    case placed
    let ?f = "admitted_row date_now attempt n route coverage"
    obtain ps es where u: "update_session (s_id r) ?f s = Inr (s\<lparr>sessions := update_row s_id (s_id r) ?f (sessions s)\<rparr>)"
      and s': "s' = s\<lparr>sessions := update_row s_id (s_id r) ?f (sessions s),
       session_domains := session_domains s @ map (Pair (s_id r)) (of_domains off), participants := participants s @ ps,
       events := es,
       users := update_row u_id (s_user_id r) (\<lambda>u. u\<lparr>u_last_admitted_at := Some tx_now\<rparr>) (users s)\<rparr>"
      by (rule place_Inr [OF placed(2)])
    have "session_check (?f r) \<and> session_identity s (?f r)" using update_session_Inr(2) [OF u] r by simp
    then show ?thesis
      by (intro session_change.moved [OF r(1), where f = ?f]) (use placed(1) r s' in \<open>auto simp: row_moves_intros\<close>)
  qed
qed

text \<open>Updates of participants only.\<close>

lemma each_update_participant:
  assumes "each (\<lambda>x. update_participant i (g x) (h x)) xs s = Inr s'"
  shows "same_but_participants s s'"
proof (rule each_keeps [OF assms, of "same_but_participants s"])
  fix x t t'
  assume "update_participant i (g x) (h x) t = Inr t'" "same_but_participants s t"
  then show "same_but_participants s t'"
    using update_participant_Inr by (fastforce simp: same_but_participants_def)
qed simp

lemma currentParticipants_Inr:
  "currentParticipants date_now r preparing s k = Inr v \<longleftrightarrow>
     2 \<le> length (participant_rows (s_id r) s) \<and>
     list_all (still_current date_now preparing) (participant_rows (s_id r) s) \<and>
     k (participant_rows (s_id r) s) = Inr v"
  by (auto simp: currentParticipants_def Let_def need_Inr)

lemma confirm_stages_Inr:
  assumes "confirm_stages r d date_now s k = Inr v"
  obtains rows t where "same_but_participants s t" "k rows t = Inr v"
    "s_route_id r \<noteq> None \<Longrightarrow> rows = participant_rows (s_id r) s \<and> 2 \<le> length rows \<and>
       list_all (still_current date_now True) rows \<and> prepare_complete d rows"
proof (cases "s_route_id r = None")
  case True
  then show thesis using assms that [of s "[]"] by (auto simp: confirm_stages_def need_Inr)
next
  case False
  then obtain t where t: "2 \<le> length (participant_rows (s_id r) s)"
    "list_all (still_current date_now True) (participant_rows (s_id r) s)"
    "prepare_complete d (participant_rows (s_id r) s)"
    "each (\<lambda>(p, n, u). update_participant (s_id r) (sp_node_id p)
        (\<lambda>q. q\<lparr>sp_prepare_id := Some (prepared_id d p)\<rparr>)) (participant_rows (s_id r) s) s = Inr t"
    "k (participant_rows (s_id r) s) t = Inr v"
    using assms by (auto simp: confirm_stages_def currentParticipants_Inr need_Inr and_then_Inr)
  have "same_but_participants s t"
    by (rule each_update_participant [where g = "\<lambda>(p, n, u). sp_node_id p" and
        h = "\<lambda>(p, n, u) q. q\<lparr>sp_prepare_id := Some (prepared_id d p)\<rparr>"])
      (use t(4) in \<open>simp add: case_prod_unfold\<close>)
  then show thesis using that [of t "participant_rows (s_id r) s"] t by simp
qed

lemma authorize_Inr:
  assumes "authorize sign date_now i d s = Inr (v, s')"
  obtains r t ps es where "lookup s_id i (sessions s) = Some r" "s_state r = S_PREPARING"
    "num (s_execution_deadline r) > date_now" "authorization_ok d"
    "update_session i (authorized_row (au_prepare_id d)) (s\<lparr>participants := ps\<rparr>) = Inr t"
    "s' = s\<lparr>participants := ps, sessions := update_row s_id i (authorized_row (au_prepare_id d)) (sessions s),
       events := es\<rparr>"
    "s_route_id r \<noteq> None \<Longrightarrow> 2 \<le> length (participant_rows i s) \<and>
       list_all (still_current date_now True) (participant_rows i s) \<and> prepare_complete d (participant_rows i s)"
    "node_prepared date_now r s \<noteq> None"
proof -
  obtain r where r: "lookup s_id i (sessions s) = Some r" "s_state r = S_PREPARING"
    "num (s_execution_deadline r) > date_now" "authorization_ok d"
    using assms unfolding authorize_def zod_Inr need_Inr by (auto split: option.splits)
  obtain n where n: "node_prepared date_now r s = Some n"
    and c: "confirm_stages r d date_now s (\<lambda>rows s1.
     and_then (update_session i (authorized_row (au_prepare_id d)) s1) (\<lambda>s2.
     case lookup q_id (s_quote_id r) (quotes s) of
       None \<Rightarrow> Inl TypeError
     | Some q \<Rightarrow>
     and_then (cap sign (r\<lparr>s_prepare_id := Some (au_prepare_id d)\<rparr>) q (n_id n) (n_epoch n) Execute) (\<lambda>c.
     and_then (if s_route_id r = None then Inr None
       else and_then (stage_grants sign r q d rows) (\<lambda>gs. Inr (Some gs))) (\<lambda>gs.
     Inr (\<lparr>az_capability = c, az_participants = gs\<rparr>, session_event i ''authorized'' [] s2))))) = Inr (v, s')"
    using assms unfolding authorize_def zod_Inr need_Inr need_row_Inr Let_def r(1) option.sel by blast
  have i: "s_id r = i" using lookup_SomeD [OF r(1)] by simp
  obtain rows t where t: "same_but_participants s t" "s_route_id r \<noteq> None \<Longrightarrow> rows = participant_rows (s_id r) s \<and>
      2 \<le> length rows \<and> list_all (still_current date_now True) rows \<and> prepare_complete d rows"
    and k: "and_then (update_session i (authorized_row (au_prepare_id d)) t) (\<lambda>s2.
     case lookup q_id (s_quote_id r) (quotes s) of
       None \<Rightarrow> Inl TypeError
     | Some q \<Rightarrow>
     and_then (cap sign (r\<lparr>s_prepare_id := Some (au_prepare_id d)\<rparr>) q (n_id n) (n_epoch n) Execute) (\<lambda>c.
     and_then (if s_route_id r = None then Inr None
       else and_then (stage_grants sign r q d rows) (\<lambda>gs. Inr (Some gs))) (\<lambda>gs.
     Inr (\<lparr>az_capability = c, az_participants = gs\<rparr>, session_event i ''authorized'' [] s2)))) = Inr (v, s')"
    by (rule confirm_stages_Inr [OF c]) blast
  have rest: "\<exists>s2. update_session i (authorized_row (au_prepare_id d)) t = Inr s2 \<and>
      s' = session_event i ''authorized'' [] s2"
    using k by (auto simp: and_then_Inr split: option.splits)
  obtain ps where "t = s\<lparr>participants := ps\<rparr>" using t(1) by (auto simp: same_but_participants_def)
  with rest obtain s2 where "update_session i (authorized_row (au_prepare_id d)) (s\<lparr>participants := ps\<rparr>) = Inr s2"
    "s' = session_event i ''authorized'' [] s2" by blast
  then have s': "s' = s\<lparr>participants := ps, sessions := update_row s_id i (authorized_row (au_prepare_id d)) (sessions s),
       events := events s'\<rparr>" and u: "update_session i (authorized_row (au_prepare_id d)) (s\<lparr>participants := ps\<rparr>) = Inr s2"
    using update_session_Inr(1) [of i _ "s\<lparr>participants := ps\<rparr>"] by (simp_all add: session_event_def)
  have c2: "2 \<le> length (participant_rows i s) \<and> list_all (still_current date_now True) (participant_rows i s) \<and>
      prepare_complete d (participant_rows i s)" if "s_route_id r \<noteq> None"
    using t(2) [OF that] i by auto
  show thesis by (rule that [OF r u s' c2]) (use n in simp_all)
qed

lemma authorize_change:
  assumes "authorize sign date_now i d s = Inr (v, s')"
  shows "session_change s s'"
proof (rule authorize_Inr [OF assms])
  fix r t ps es
  assume r: "lookup s_id i (sessions s) = Some r" "s_state r = S_PREPARING"
    and u: "update_session i (authorized_row (au_prepare_id d)) (s\<lparr>participants := ps\<rparr>) = Inr t"
    and s': "s' = s\<lparr>participants := ps, sessions := update_row s_id i (authorized_row (au_prepare_id d)) (sessions s),
       events := es\<rparr>"
  have "session_check (authorized_row (au_prepare_id d) r) \<and> session_identity s (authorized_row (au_prepare_id d) r)"
    using update_session_Inr(2) [OF u] r by simp
  then show "session_change s s'"
    by (intro session_change.moved [OF r(1), where f = "authorized_row (au_prepare_id d)"])
      (simp_all add: row_moves_intros r s')
qed

lemma mark_claimed_Inr: "mark_claimed now i n s = Inr s' \<Longrightarrow> same_but_participants s s'"
  using update_participant_Inr by (fastforce simp: mark_claimed_def same_but_participants_def)

lemma claim_Inr:
  assumes "claim date_now tx_now node d s = Inr (v, s')"
  obtains r t ps where "lookup s_id (cl_session_id d) (sessions s) = Some r" "claimable tx_now node d s r"
    "update_session (cl_session_id d) (running_row tx_now) s = Inr t"
    "s' = s\<lparr>sessions := update_row s_id (cl_session_id d) (running_row tx_now) (sessions s), participants := ps\<rparr>"
    "s_route_id r \<noteq> None \<longrightarrow> 2 \<le> length (participant_rows (s_id r) s) \<and>
       list_all (still_current date_now True) (participant_rows (s_id r) s) \<and>
       stages_claimed (participant_rows (s_id r) s)"
proof -
  let ?i = "cl_session_id d"
  obtain r where r: "lookup s_id ?i (sessions s) = Some r" "claimable tx_now node d s r"
    using assms unfolding claim_def Let_def zod_Inr
    by (auto simp: res_Inr currentParticipants_Inr split: option.splits if_splits)
  obtain t where t: "update_session ?i (running_row tx_now) s = Inr t"
    and p: "(if s_route_id r \<noteq> None then mark_claimed tx_now ?i node t else Inr t) = Inr s'"
    and c: "s_route_id r \<noteq> None \<longrightarrow> 2 \<le> length (participant_rows (s_id r) s) \<and>
       list_all (still_current date_now True) (participant_rows (s_id r) s) \<and>
       stages_claimed (participant_rows (s_id r) s)"
    using assms unfolding claim_def Let_def zod_Inr r(1) option.case option.sel
    by (cases "s_route_id r") (auto simp: need_Inr and_then_Inr currentParticipants_Inr)
  have "same_but_participants t s'" using p mark_claimed_Inr by (auto split: if_splits)
  then obtain ps where "s' = t\<lparr>participants := ps\<rparr>" by (auto simp: same_but_participants_def)
  then show thesis using update_session_Inr(1) [OF t] by (intro that [OF r t _ c]) simp
qed

lemma claim_change:
  assumes "claim date_now tx_now node d s = Inr (v, s')"
  shows "session_change s s'"
proof (rule claim_Inr [OF assms])
  fix r t ps
  assume r: "lookup s_id (cl_session_id d) (sessions s) = Some r" "claimable tx_now node d s r"
    and t: "update_session (cl_session_id d) (running_row tx_now) s = Inr t"
    and s': "s' = s\<lparr>sessions := update_row s_id (cl_session_id d) (running_row tx_now) (sessions s), participants := ps\<rparr>"
  show "session_change s s'"
    by (rule session_change.moved [OF r(1)])
      (use r update_session_Inr(2) [OF t r(1)] s' in \<open>auto simp: row_moves_intros claimable_def\<close>)
qed

lemma stageClaim_Inr:
  assumes "stageClaim date_now tx_now node d s = Inr (v, s')"
  obtains ps es where "s' = s\<lparr>participants := ps, events := es\<rparr>"
proof -
  obtain t where "mark_claimed tx_now (cl_session_id d) node s = Inr t" "\<exists>es. s' = t\<lparr>events := es\<rparr>"
    using assms unfolding stageClaim_def
    by (auto simp: res_Inr Let_def currentParticipants_Inr session_event_def split: option.splits)
  then show thesis using that mark_claimed_Inr by (fastforce simp: same_but_participants_def)
qed

lemma stageClaim_change: "stageClaim date_now tx_now node d s = Inr (v, s') \<Longrightarrow> session_change s s'"
  by (erule stageClaim_Inr) (simp add: session_change.apart)

text \<open>Receipts. \<open>settleRoute\<close> ends its session or leaves the database alone.\<close>

lemma settleRoute_cases:
  assumes "settleRoute date_now tx_now j r s = Inr (v, s')"
  obtains (pending) "s' = s" "v = Pending (s_state r)"
    | (failed) st err where "finalize date_now tx_now j r st 0 err None s = Inr s'" "v = Settled st 0"
        "st = (if s_state r = S_CANCELLING then CANCELLED else FAILED)"
    | (completed) root q charge where "s_state r \<noteq> S_CANCELLING"
        "lookup rr_session_id (s_id r) (receipts s) = Some root" "None \<notin> set (stage_payloads (s_id r) s)"
        "\<forall>p \<in> set (stage_payloads (s_id r) s). \<not> stage_failed (the p)"
        "lookup q_id (s_quote_id r) (quotes s) = Some q" "modelManifestSchema (q_manifest q)"
        "chargeFor (q_manifest q) (rc_prompt_tokens (rr_payload root)) (rc_completion_tokens (rr_payload root)) = Inr charge"
        "finalize date_now tx_now j r COMPLETED charge None None s = Inr s'" "v = Settled COMPLETED charge"
proof -
  let ?stages = "stage_payloads (s_id r) s"
  let ?failed = "list_ex (\<lambda>p. case p of None \<Rightarrow> False | Some v \<Rightarrow> stage_failed v) ?stages"
  show thesis
  proof (cases "s_state r = S_CANCELLING \<or> ?failed")
    case True
    then show thesis using assms that(2) by (auto simp: settleRoute_def Let_def and_then_Inr)
  next
    case False
    then show thesis
    proof (cases "lookup rr_session_id (s_id r) (receipts s)")
      case None
      then show thesis using False assms that(1) by (auto simp: settleRoute_def Let_def)
    next
      case (Some root)
      show thesis
      proof (cases "None \<in> set ?stages")
        case True
        then show thesis using False Some assms that(1) by (auto simp: settleRoute_def Let_def)
      next
        case None: False
        then obtain q charge where "lookup q_id (s_quote_id r) (quotes s) = Some q" "modelManifestSchema (q_manifest q)"
          "chargeFor (q_manifest q) (rc_prompt_tokens (rr_payload root)) (rc_completion_tokens (rr_payload root)) = Inr charge"
          "finalize date_now tx_now j r COMPLETED charge None None s = Inr s'" "v = Settled COMPLETED charge"
          using False Some assms
          by (auto simp: settleRoute_def Let_def currentParticipants_Inr zod_Inr and_then_Inr split: option.splits)
        moreover have "\<not> stage_failed (the p)" if "p \<in> set ?stages" for p
        proof -
          have "p \<noteq> None" using \<open>p \<in> set ?stages\<close> None by metis
          then obtain x where "p = Some x" by (cases p) simp_all
          moreover have "\<not> (case p of None \<Rightarrow> False | Some v \<Rightarrow> stage_failed v)"
            using that False unfolding list_ex_iff by blast
          ultimately show ?thesis by simp
        qed
        ultimately show thesis using False Some None that(3) by blast
      qed
    qed
  qed
qed

lemma settleRoute_change:
  assumes ret: "settleRoute date_now tx_now j r0 s = Inr (v, s')" and "pools_apart s"
    and row: "lookup s_id (s_id r0) (sessions s) = Some r"
    and same: "s_user_id r0 = s_user_id r" "s_hold_microtu r0 = s_hold_microtu r" "s_state r0 = s_state r"
  shows "closing_change s s'"
  using ret
proof (cases rule: settleRoute_cases)
  case pending
  then show ?thesis by (simp add: nothing_closes)
next
  case (failed st err)
  show ?thesis by (rule finalize_change [OF failed(1) row assms(2)]) (use same failed(3) in \<open>auto simp: row_ends_def\<close>)
next
  case (completed root q charge)
  have "s_id r \<in> rr_session_id ` set (receipts s)"
    using lookup_SomeD [OF completed(2)] lookup_SomeD [OF row] by (metis imageI)
  then show ?thesis
    by (intro finalize_change [OF completed(8) row assms(2)]) (use same completed(1) in \<open>auto simp: row_ends_def\<close>)
qed

lemma stageReceipt_Inr:
  assumes "stageReceipt sha date_now tx_now j node d s = Inr (v, s')"
  obtains r where "lookup s_id (sg_session_id d) (sessions s) = Some r"
    "s' = s \<or> (finalize date_now tx_now j r INTERRUPTED 0 (Some ''execution_timeout'') None s = Inr s' \<and>
        v = Late (S_TERMINAL INTERRUPTED)) \<or>
     (\<exists>x es. settleRoute date_now tx_now j r (s\<lparr>stage_receipts := stage_receipts s @ [x], events := es\<rparr>) = Inr (v, s') \<and>
        s_state r \<in> {S_AUTHORIZED, S_RUNNING, S_CANCELLING})"
proof -
  let ?row = "lookup s_id (sg_session_id d) (sessions s)"
  obtain r where r: "?row = Some r"
    using assms unfolding stageReceipt_def Let_def zod_Inr need_Inr by (auto split: option.splits)
  show thesis
    by (rule that [OF r]) (use assms in \<open>auto simp: stageReceipt_def Let_def res_Inr r currentParticipants_Inr
      insert_stage_receipt_def session_event_def split: option.splits if_splits\<close>)
qed

lemma stageReceipt_change:
  assumes ret: "stageReceipt sha date_now tx_now j node d s = Inr (v, s')" and "pools_apart s"
  shows "closing_change\<^sup>*\<^sup>* s s'"
proof -
  obtain r where r: "lookup s_id (sg_session_id d) (sessions s) = Some r"
    and c: "s' = s \<or> (finalize date_now tx_now j r INTERRUPTED 0 (Some ''execution_timeout'') None s = Inr s' \<and>
        v = Late (S_TERMINAL INTERRUPTED)) \<or>
     (\<exists>x es. settleRoute date_now tx_now j r (s\<lparr>stage_receipts := stage_receipts s @ [x], events := es\<rparr>) = Inr (v, s') \<and>
        s_state r \<in> {S_AUTHORIZED, S_RUNNING, S_CANCELLING})"
    by (rule stageReceipt_Inr [OF ret])
  have row: "lookup s_id (s_id r) (sessions s) = Some r" using r lookup_SomeD [OF r] by simp
  from c show ?thesis
  proof (elim disjE conjE exE)
    assume "finalize date_now tx_now j r INTERRUPTED 0 (Some ''execution_timeout'') None s = Inr s'"
    then have "closing_change s s'"
      by (rule finalize_change [OF _ row assms(2)]) (auto simp: row_ends_def)
    then show ?thesis by (rule one_closing)
  next
    fix x es
    let ?t = "s\<lparr>stage_receipts := stage_receipts s @ [x], events := es\<rparr>"
    assume a: "settleRoute date_now tx_now j r ?t = Inr (v, s')"
    have "closing_change ?t s'"
      by (rule settleRoute_change [OF a]) (use assms(2) row in \<open>simp_all add: pools_apart_def\<close>)
    moreover have "closing_change s ?t" by (simp add: closing_change_def session_change.apart closing_same)
    ultimately show ?thesis by (meson converse_rtranclp_into_rtranclp one_closing)
  qed simp
qed

lemma record_receipt_Inr:
  assumes "record_receipt date_now tx_now j node digest d r q s = Inr (v, s')"
  obtains s2 t charge where "update_session (s_id r) (usage_row d) (s\<lparr>receipts := receipts s @
        [\<lparr>rr_session_id = s_id r, rr_node_id = node, rr_digest = digest, rr_payload = d\<rparr>]\<rparr>) = Inr t"
    "s2 = s\<lparr>receipts := receipts s @
        [\<lparr>rr_session_id = s_id r, rr_node_id = node, rr_digest = digest, rr_payload = d\<rparr>],
      sessions := update_row s_id (s_id r) (usage_row d) (sessions s)\<rparr>"
    "modelManifestSchema (q_manifest q)" "s_id r \<notin> rr_session_id ` set (receipts s)"
    "(if usage_valid q d \<and> s_state r \<noteq> S_CANCELLING
        then chargeFor (q_manifest q) (rc_prompt_tokens d) (rc_completion_tokens d) else Inr 0) = Inr charge"
    "if s_route_id r \<noteq> None \<and> usage_valid q d \<and> s_state r \<noteq> S_CANCELLING
     then settleRoute date_now tx_now j r s2 = Inr (v, s')
     else finalize date_now tx_now j r (fst (receipt_outcome (s_state r = S_CANCELLING) (usage_valid q d) d)) charge
         (snd (receipt_outcome (s_state r = S_CANCELLING) (usage_valid q d) d))
         (if \<not> usage_valid q d \<and> rc_state d = COMPLETED then Some B_DISPUTED else None) s2 = Inr s' \<and>
       v = Settled (fst (receipt_outcome (s_state r = S_CANCELLING) (usage_valid q d) d)) charge"
proof -
  let ?s1 = "s\<lparr>receipts := receipts s @
        [\<lparr>rr_session_id = s_id r, rr_node_id = node, rr_digest = digest, rr_payload = d\<rparr>]\<rparr>"
  obtain charge s2 where c: "modelManifestSchema (q_manifest q)" "s_id r \<notin> rr_session_id ` set (receipts s)"
    "(if usage_valid q d \<and> s_state r \<noteq> S_CANCELLING
        then chargeFor (q_manifest q) (rc_prompt_tokens d) (rc_completion_tokens d) else Inr 0) = Inr charge"
    and u: "update_session (s_id r) (usage_row d) ?s1 = Inr s2"
    and f: "if s_route_id r \<noteq> None \<and> usage_valid q d \<and> s_state r \<noteq> S_CANCELLING
     then settleRoute date_now tx_now j r s2 = Inr (v, s')
     else finalize date_now tx_now j r (fst (receipt_outcome (s_state r = S_CANCELLING) (usage_valid q d) d)) charge
         (snd (receipt_outcome (s_state r = S_CANCELLING) (usage_valid q d) d))
         (if \<not> usage_valid q d \<and> rc_state d = COMPLETED then Some B_DISPUTED else None) s2 = Inr s' \<and>
       v = Settled (fst (receipt_outcome (s_state r = S_CANCELLING) (usage_valid q d) d)) charge"
    using assms unfolding record_receipt_def Let_def case_prod_unfold
    by (auto simp: zod_Inr and_then_Inr insert_receipt_def insert_row_Inr split: if_splits)
  show thesis by (rule that [OF u _ c f]) (simp add: update_session_Inr(1) [OF u])
qed

lemma usage_row_kept [simp]:
  "s_id (usage_row d q) = s_id q" "s_user_id (usage_row d q) = s_user_id q"
  "s_hold_microtu (usage_row d q) = s_hold_microtu q" "s_state (usage_row d q) = s_state q"
  by (simp_all add: usage_row_def)

lemma chargeFor_zero_le: "(if c then chargeFor m a b else Inr 0) = Inr v \<Longrightarrow> 0 \<le> v"
  using chargeFor_bounds by (auto split: if_splits)

lemma record_receipt_change:
  assumes ret: "record_receipt date_now tx_now j node digest d r q s = Inr (v, s')" and apart: "pools_apart s"
    and row: "lookup s_id (s_id r) (sessions s) = Some r" and running: "s_state r = S_RUNNING \<or> s_state r = S_CANCELLING"
  shows "closing_change\<^sup>*\<^sup>* s s'"
proof (rule record_receipt_Inr [OF ret])
  fix s2 t charge
  let ?new = "\<lparr>rr_session_id = s_id r, rr_node_id = node, rr_digest = digest, rr_payload = d\<rparr>"
  let ?out = "receipt_outcome (s_state r = S_CANCELLING) (usage_valid q d) d"
  assume u: "update_session (s_id r) (usage_row d) (s\<lparr>receipts := receipts s @ [?new]\<rparr>) = Inr t"
    and s2: "s2 = s\<lparr>receipts := receipts s @ [?new], sessions := update_row s_id (s_id r) (usage_row d) (sessions s)\<rparr>"
    and charge: "(if usage_valid q d \<and> s_state r \<noteq> S_CANCELLING
        then chargeFor (q_manifest q) (rc_prompt_tokens d) (rc_completion_tokens d) else Inr 0) = Inr charge"
    and fin: "if s_route_id r \<noteq> None \<and> usage_valid q d \<and> s_state r \<noteq> S_CANCELLING
     then settleRoute date_now tx_now j r s2 = Inr (v, s')
     else finalize date_now tx_now j r (fst ?out) charge (snd ?out)
         (if \<not> usage_valid q d \<and> rc_state d = COMPLETED then Some B_DISPUTED else None) s2 = Inr s' \<and>
       v = Settled (fst ?out) charge"
  have move: "session_change s s2"
    by (rule session_change.moved [OF row, where f = "usage_row d"])
      (use running update_session_Inr(2) [OF u, of r] row s2 in \<open>auto simp: row_moves_intros\<close>)
  have "closing s s2"
    by (rule closing_update [OF _ row, where f = "usage_row d"]) (simp_all add: s2)
  then have first: "closing_change s s2" using move by (simp add: closing_change_def)
  have row2: "lookup s_id (s_id r) (sessions s2) = Some (usage_row d r)"
    using row by (simp add: s2 lookup_update)
  have apart2: "pools_apart s2" using apart by (simp add: s2 pools_apart_def)
  have "closing_change s2 s'"
  proof (cases "s_route_id r \<noteq> None \<and> usage_valid q d \<and> s_state r \<noteq> S_CANCELLING")
    case True
    then have "settleRoute date_now tx_now j r s2 = Inr (v, s')" using fin by simp
    then show ?thesis by (rule settleRoute_change [OF _ apart2 row2]) simp_all
  next
    case False
    then have "finalize date_now tx_now j r (fst ?out) charge (snd ?out)
         (if \<not> usage_valid q d \<and> rc_state d = COMPLETED then Some B_DISPUTED else None) s2 = Inr s'"
      using fin by argo
    then show ?thesis
    proof (rule finalize_change [OF _ row2 apart2])
      show "row_ends s2 (usage_row d r) (fst ?out) charge"
        if "0 \<le> charge" "charge \<le> s_hold_microtu (usage_row d r)" "\<not> is_terminal (s_state (usage_row d r))"
        using that running charge unfolding row_ends_def
        by (cases "usage_valid q d") (auto simp: receipt_outcome_def usage_valid_def)
    qed auto
  qed
  with first show ?thesis by (meson converse_rtranclp_into_rtranclp one_closing)
qed

lemma receive_Inr:
  assumes "receive sha date_now tx_now j node d s = Inr (v, s')"
  obtains r where "lookup s_id (rc_session_id d) (sessions s) = Some r"
    "s' = s \<or>
     (finalize date_now tx_now j r INTERRUPTED 0 (Some ''execution_timeout'') None s = Inr s' \<and>
        v = Late (S_TERMINAL INTERRUPTED)) \<or>
     (\<exists>q digest. lookup q_id (s_quote_id r) (quotes s) = Some q \<and>
        record_receipt date_now tx_now j node digest d r q s = Inr (v, s') \<and>
        (s_state r = S_RUNNING \<or> s_state r = S_CANCELLING) \<and> \<not> receipt_expired date_now r \<and>
        s_node_id r = Some node \<and> s_attempt_id r = Some (rc_attempt_id d) \<and> num (s_node_epoch r) = rc_epoch d)"
proof -
  obtain r where r: "lookup s_id (rc_session_id d) (sessions s) = Some r"
    using assms unfolding receive_def Let_def zod_Inr need_Inr by (auto split: option.splits)
  show thesis
    by (rule that [OF r]) (use assms in \<open>auto simp: receive_def Let_def res_Inr r split: option.splits if_splits\<close>)
qed

lemma receive_change:
  assumes ret: "receive sha date_now tx_now j node d s = Inr (v, s')" and apart: "pools_apart s"
  shows "closing_change\<^sup>*\<^sup>* s s'"
proof -
  obtain r where r: "lookup s_id (rc_session_id d) (sessions s) = Some r"
    and c: "s' = s \<or>
     (finalize date_now tx_now j r INTERRUPTED 0 (Some ''execution_timeout'') None s = Inr s' \<and>
        v = Late (S_TERMINAL INTERRUPTED)) \<or>
     (\<exists>q digest. lookup q_id (s_quote_id r) (quotes s) = Some q \<and>
        record_receipt date_now tx_now j node digest d r q s = Inr (v, s') \<and>
        (s_state r = S_RUNNING \<or> s_state r = S_CANCELLING) \<and> \<not> receipt_expired date_now r \<and>
        s_node_id r = Some node \<and> s_attempt_id r = Some (rc_attempt_id d) \<and> num (s_node_epoch r) = rc_epoch d)"
    by (rule receive_Inr [OF ret])
  have row: "lookup s_id (s_id r) (sessions s) = Some r" using r lookup_SomeD [OF r] by simp
  from c show ?thesis
  proof (elim disjE conjE exE)
    assume "finalize date_now tx_now j r INTERRUPTED 0 (Some ''execution_timeout'') None s = Inr s'"
    then have "closing_change s s'" by (rule finalize_change [OF _ row apart]) (auto simp: row_ends_def)
    then show ?thesis by (rule one_closing)
  qed (auto intro: record_receipt_change [OF _ apart row])
qed

lemma cancel_change:
  assumes ret: "cancel_session date_now tx_now j user i s = Inr (v, s')" and apart: "pools_apart s"
    and keyed: "keyed s_id (sessions s)"
  shows "session_change s s'"
proof -
  obtain r where f: "find (\<lambda>r. s_id r = i \<and> s_user_id r = u_id user) (sessions s) = Some r"
    using ret unfolding cancel_session_def need_row_Inr by blast
  then have r: "r \<in> set (sessions s)" "s_id r = i" by (auto simp: find_Some_iff)
  then have row: "lookup s_id i (sessions s) = Some r" using keyed_lookup [OF keyed] by blast
  consider "s' = s" | "update_session i cancelling_row s = Inr s'" "s_state r = S_RUNNING \<or> s_state r = S_CANCELLING"
    | "finalize date_now tx_now j r CANCELLED 0 (Some ''cancelled'') None s = Inr s'"
    using ret unfolding cancel_session_def f need_row_simps by (auto simp: and_then_Inr split: if_splits)
  then show ?thesis
  proof cases
    case 2
    show ?thesis
      by (rule session_change.moved [OF row, where f = cancelling_row])
        (use 2 row update_session_Inr [OF 2(1)] in \<open>auto simp: row_moves_intros\<close>)
  next
    case 3
    show ?thesis by (rule closing_change_change [OF finalize_change [OF 3]]) (use row r apart in \<open>auto simp: row_ends_def\<close>)
  qed (simp add: unchanged)
qed

lemma fail_change:
  assumes ret: "fail_session date_now tx_now j i code s = Inr (v, s')" and apart: "pools_apart s"
  shows "session_change s s'"
proof -
  obtain r where r: "lookup s_id i (sessions s) = Some r" using ret unfolding fail_session_def res_Inr by blast
  have row: "lookup s_id (s_id r) (sessions s) = Some r" using r lookup_SomeD [OF r] by simp
  consider "s' = s" | "finalize date_now tx_now j r FAILED 0 (Some code) None s = Inr s'" "s_state r \<noteq> S_CANCELLING"
    using ret unfolding fail_session_def r need_row_simps by (auto simp: zod_Inr and_then_Inr split: if_splits)
  then show ?thesis
  proof cases
    case 2
    show ?thesis by (rule closing_change_change [OF finalize_change [OF 2(1) row apart]]) (use 2(2) in \<open>auto simp: row_ends_def\<close>)
  qed (simp add: unchanged)
qed

text \<open>The reaper ends a row at a time; a row it has not reached yet is still the one it read.\<close>

lemma finalize_pools:
  assumes "finalize date_now tx_now j r st charge err billing s = Inr s'" and "pools_apart s"
  shows "pools_apart s'"
proof (cases "is_terminal (s_state r)")
  case True
  then show ?thesis using assms by (simp add: finalize_def)
next
  case False
  then show ?thesis using assms(2) by (elim finalize_Inr [OF assms(1) _ assms(2)]) (simp add: pools_apart_def)
qed

lemma finalize_rows:
  assumes "finalize date_now tx_now j r st charge err billing s = Inr s'" and "pools_apart s" and "k \<noteq> s_id r"
  shows "lookup s_id k (sessions s') = lookup s_id k (sessions s)"
proof (cases "is_terminal (s_state r)")
  case True
  then show ?thesis using assms(1) by (simp add: finalize_def)
next
  case False
  then show ?thesis using assms(3) by (elim finalize_Inr [OF assms(1) _ assms(2)]) (simp add: lookup_update)
qed

lemma reap_loop_change:
  assumes "each (reap_one date_now tx_now) xs s = Inr s'" and "pools_apart s"
    and "\<forall>(j, r) \<in> set xs. lookup s_id (s_id r) (sessions s) = Some r"
    and "distinct (map (s_id \<circ> snd) xs)"
  shows "closing_change\<^sup>*\<^sup>* s s'"
  using assms
proof (induction xs arbitrary: s)
  case (Cons x xs)
  obtain j r where x: "x = (j, r)" by fastforce
  from Cons.prems(1) obtain t where t: "reap_one date_now tx_now (j, r) s = Inr t"
    and rest: "each (reap_one date_now tx_now) xs t = Inr s'" by (auto simp: x and_then_Inr)
  have f: "finalize date_now tx_now j r (if s_state r = S_CANCELLING then CANCELLED else INTERRUPTED) 0
       (Some (if s_state r = S_QUEUED then ''queue_timeout'' else ''execution_interrupted'')) None s = Inr t"
    using t by (simp add: reap_one_def)
  have row: "lookup s_id (s_id r) (sessions s) = Some r" using Cons.prems(3) by (simp add: x)
  have "closing_change s t"
    by (rule finalize_change [OF f row Cons.prems(2)]) (auto simp: row_ends_def)
  moreover have "closing_change\<^sup>*\<^sup>* t s'"
  proof (rule Cons.IH [OF rest])
    have other: "s_id q \<noteq> s_id r" if "(k, q) \<in> set xs" for k q
      using Cons.prems(4) that by (force simp: x)
    show "pools_apart t" by (rule finalize_pools [OF f Cons.prems(2)])
    show "\<forall>(k, q) \<in> set xs. lookup s_id (s_id q) (sessions t) = Some q"
      using Cons.prems(3) finalize_rows [OF f Cons.prems(2)] other by (auto simp: x)
    show "distinct (map (s_id \<circ> snd) xs)" using Cons.prems(4) by (simp add: comp_def)
  qed
  ultimately show ?case by (rule converse_rtranclp_into_rtranclp)
qed simp

lemma expired_rows:
  assumes "keyed s_id (sessions s)"
  shows "\<forall>r \<in> set (expired_sessions tx_now s). lookup s_id (s_id r) (sessions s) = Some r \<and> expired tx_now s r"
    and "distinct (map s_id (expired_sessions tx_now s))"
proof -
  let ?l = "sort_key s_id (filter (expired tx_now s) (sessions s))"
  have sub: "set (take 100 ?l) \<subseteq> set ?l" by (rule set_take_subset)
  then show "\<forall>r \<in> set (expired_sessions tx_now s). lookup s_id (s_id r) (sessions s) = Some r \<and> expired tx_now s r"
    unfolding expired_sessions_def using keyed_lookup [OF assms] by auto
  have "mset (map s_id ?l) = mset (map s_id (filter (expired tx_now s) (sessions s)))" by simp
  then have "distinct (map s_id ?l)"
    using assms distinct_map_filter by (metis keyed_def mset_eq_imp_distinct_iff)
  then show "distinct (map s_id (expired_sessions tx_now s))"
    unfolding expired_sessions_def by (metis distinct_take take_map)
qed

lemma reap_change:
  assumes ret: "reap date_now tx_now js s = Inr (v, s')" and "pools_apart s" and keyed: "keyed s_id (sessions s)"
  shows "closing_change\<^sup>*\<^sup>* s s'"
proof -
  let ?rows = "expired_sessions tx_now s"
  let ?xs = "zip (map js [0..<length ?rows]) ?rows"
  obtain t where t: "each (reap_one date_now tx_now) ?xs s = Inr t" and s': "s' = clean_up tx_now t"
    using ret by (auto simp: reap_def Let_def and_then_Inr)
  have "map (s_id \<circ> snd) ?xs = map s_id ?rows" by (simp flip: map_map)
  then have "closing_change\<^sup>*\<^sup>* s t"
    using expired_rows [OF keyed, of tx_now]
    by (intro reap_loop_change [OF t assms(2)]) (auto dest: set_zip_rightD)
  moreover have "closing_change t s'" by (simp add: s' clean_up_def closing_change_def session_change.apart closing_same)
  ultimately show ?thesis by (rule rtranclp.rtrancl_into_rtrancl)
qed

text \<open>The refund of a fund's consumption rewrites the billing state of a session that has ended.\<close>

lemma refund_change:
  assumes ret: "refund j user i reason s = Inr (row, s')" and apart: "pools_apart s"
  shows "session_change s s'"
  using ret
proof (cases rule: refund_Inr)
  case replayed
  then show ?thesis by (simp add: unchanged)
next
  case (posted r cs p j' md L es)
  have p: "p \<in> set (pools s)" and cs: "i \<in> cs_session_id ` set (settlements s)"
    using lookup_SomeD [OF posted(4)] lookup_SomeD [OF posted(2)] by auto
  have "cp_working_account p \<noteq> heldAccount u" "cp_reserve_account p \<noteq> heldAccount u" "cp_burn_account p \<noteq> heldAccount u" for u
    using apart p by (simp_all add: pools_apart_def)
  then have free: "\<forall>u. heldAccount u \<notin> fst ` set [(cp_working_account p, - cs_working_microtu cs),
      (cp_reserve_account p, - cs_reserve_microtu cs), (cp_burn_account p, - cs_burned_microtu cs),
      (availableAccount (s_user_id r), cs_charge_microtu cs)]" by (simp; metis)
  show ?thesis
    by (rule session_change.refunded [OF posted(1) cs posted(6,5) free]) (simp_all add: posted(7))
qed

section \<open>Reachable databases\<close>

text \<open>
  A call of the program that writes a session's row and commits: every operation of the sessions' API,
  and the refund of \<open>cooperative.ts\<close>.
\<close>

inductive session_call :: "db \<Rightarrow> db \<Rightarrow> bool" where
  create: "create_session i j tx_now user d s = Inr (v1, s') \<Longrightarrow> session_call s s'"
| admit: "admit sign date_now tx_now j attempt i s = Inr (v2, s') \<Longrightarrow> session_call s s'"
| authorize: "authorize sign date_now i a s = Inr (v3, s') \<Longrightarrow> session_call s s'"
| claim: "claim date_now tx_now node c s = Inr (v4, s') \<Longrightarrow> session_call s s'"
| stage_claim: "stageClaim date_now tx_now node c s = Inr (v5, s') \<Longrightarrow> session_call s s'"
| stage_receipt: "stageReceipt sha date_now tx_now j node g s = Inr (v6, s') \<Longrightarrow> session_call s s'"
| receipt: "receive sha date_now tx_now j node r s = Inr (v7, s') \<Longrightarrow> session_call s s'"
| cancel: "cancel_session date_now tx_now j user i s = Inr (v8, s') \<Longrightarrow> session_call s s'"
| fail: "fail_session date_now tx_now j i code s = Inr (v9, s') \<Longrightarrow> session_call s s'"
| reap: "reap date_now tx_now js s = Inr (v10, s') \<Longrightarrow> session_call s s'"
| refund: "refund j user i reason s = Inr (v11, s') \<Longrightarrow> session_call s s'"

text \<open>
  A step is one such call, or a transaction of another component: it leaves the sessions, their
  receipts and settlements, the held accounts and the sessions' business keys alone, and is free in all the rest.
\<close>

inductive session_step :: "db \<Rightarrow> db \<Rightarrow> bool" where
  call: "session_call s s' \<Longrightarrow> session_step s s'"
| other: "sessions s' = sessions s \<Longrightarrow> receipts s' = receipts s \<Longrightarrow> settlements s' = settlements s \<Longrightarrow>
    pools_apart s' \<Longrightarrow>
    \<forall>u. bal (ledger s') (heldAccount u) = bal (ledger s) (heldAccount u) \<Longrightarrow>
    \<forall>i. (hold_key i \<in> posted (ledger s') \<longleftrightarrow> hold_key i \<in> posted (ledger s)) \<and>
         (settle_key i \<in> posted (ledger s') \<longleftrightarrow> settle_key i \<in> posted (ledger s)) \<Longrightarrow> session_step s s'"

lemma session_call_changes:
  assumes "session_call s s'" and "funds_ok s"
  obtains (one) "session_change s s'" | (closing) "closing_change\<^sup>*\<^sup>* s s'"
proof -
  have ok: "pools_apart s" "keyed s_id (sessions s)" using assms(2) by (simp_all add: funds_ok_def)
  from assms(1) show thesis
  proof cases
    case create
    show thesis by (rule one [OF create_change [OF create]])
  next
    case admit
    show thesis by (rule one [OF admit_change [OF admit ok(1)]])
  next
    case authorize
    show thesis by (rule one [OF authorize_change [OF authorize]])
  next
    case claim
    show thesis by (rule one [OF claim_change [OF claim]])
  next
    case stage_claim
    show thesis by (rule one [OF stageClaim_change [OF stage_claim]])
  next
    case stage_receipt
    show thesis by (rule closing [OF stageReceipt_change [OF stage_receipt ok(1)]])
  next
    case receipt
    show thesis by (rule closing [OF receive_change [OF receipt ok(1)]])
  next
    case cancel
    show thesis by (rule one [OF cancel_change [OF cancel ok]])
  next
    case fail
    show thesis by (rule one [OF fail_change [OF fail ok(1)]])
  next
    case reap
    show thesis by (rule closing [OF reap_change [OF reap ok]])
  next
    case refund
    show thesis by (rule one [OF refund_change [OF refund ok(1)]])
  qed
qed

lemma closing_changes: "closing_change\<^sup>*\<^sup>* s s' \<Longrightarrow> session_change\<^sup>*\<^sup>* s s'"
  by (rule rtranclp_mono [THEN predicate2D, rotated]) (auto dest: closing_change_change)

lemma session_call_many: "session_call s s' \<Longrightarrow> funds_ok s \<Longrightarrow> session_change\<^sup>*\<^sup>* s s'"
  by (erule session_call_changes) (simp_all add: one_change closing_changes)

lemma session_step_changes:
  assumes "session_step s s'" and "funds_ok s"
  obtains (changes) "session_call s s'" "session_change\<^sup>*\<^sup>* s s'"
    | (elsewhere) "sessions s' = sessions s" "receipts s' = receipts s" "funds_ok s'"
  using assms(1)
proof cases
  case call
  then show thesis using changes session_call_many assms(2) by blast
next
  case other
  then show thesis using assms(2)
    by (intro elsewhere) (simp_all add: funds_ok_def held_total_def session_keys_def settled_ok_def)
qed

lemma session_step_funds: "session_step s s' \<Longrightarrow> funds_ok s \<Longrightarrow> funds_ok s'"
  by (erule session_step_changes) (simp_all add: changes_keep_funds)

text \<open>A database where nobody has opened a session yet.\<close>

definition no_sessions :: "db \<Rightarrow> bool" where
  "no_sessions s \<longleftrightarrow> sessions s = [] \<and> receipts s = [] \<and> settlements s = [] \<and> pools_apart s \<and>
     (\<forall>u. bal (ledger s) (heldAccount u) = 0) \<and> session_keys (ledger s) = {}"

lemma no_sessions_funds: "no_sessions s \<Longrightarrow> funds_ok s"
  by (simp add: no_sessions_def funds_ok_def keyed_def held_total_def settled_ok_def)

lemma reachable_funds: "session_step\<^sup>*\<^sup>* s s' \<Longrightarrow> no_sessions s \<Longrightarrow> funds_ok s'"
  by (rule rtranclp_keeps [of session_step s s' funds_ok]) (simp_all add: session_step_funds no_sessions_funds)

end
