(* ===== verification/Sessions_Demo.thy ===== *)
theory Sessions_Demo
  imports Sessions
begin

text \<open>
  One session of the demonstration laboratory from its quote to its receipt: the concrete
  databases that the witnesses of the session properties use.
\<close>

definition demo_quote :: quote where
  "demo_quote = \<lparr>q_id = ''q1'', q_user_id = ''a1'', q_model_id = ''lab-model'', q_manifest = demo_manifest,
     q_manifest_sha256 = replicate 64 (CHR ''a''), q_max_output_tokens = 512, q_maximum_microtu = 4389,
     q_expires_at = 160000, q_cooperative_pool_id = None, q_cooperative_policy_sha256 = None\<rparr>"

definition demo_request :: session_request where
  "demo_request = \<lparr>rq_quote_id = ''q1'', rq_idempotency_key = ''request-1'',
     rq_request_sha256 = replicate 64 (CHR ''b''), rq_request_bytes = 400, rq_model = ''lab-model'',
     rq_max_tokens = 512, rq_content_bytes = 100, rq_message_count = 1\<rparr>"

definition demo_quoted :: db where
  "demo_quoted = demo_db\<lparr>quotes := [demo_quote]\<rparr>"

text \<open>The session's row and the ledger after each call.\<close>

definition demo_hold_post :: "(uuid \<times> ledger) result" where
  "demo_hold_post = post ''j1'' (hold_key ''s1'') ''RESERVE''
     [(availableAccount ''a1'', - 4389), (heldAccount ''a1'', 4389)] [(''session_id'', JStr ''s1'')] demo_ledger"

definition ledger_after :: "(uuid \<times> ledger) result \<Rightarrow> ledger" where
  "ledger_after m = (case m of Inl e \<Rightarrow> initial_ledger | Inr (j, L) \<Rightarrow> L)"

definition demo_row :: session where
  "demo_row = queued_row ''s1'' 100000 alice demo_request demo_quote"

definition demo_queued :: db where
  "demo_queued = demo_quoted\<lparr>ledger := ledger_after demo_hold_post, sessions := [demo_row],
     events := [event ''s1'' ''queued'' [(''maximum_microtu'', amt 4389)]]\<rparr>"

definition demo_placed_row :: session where
  "demo_placed_row = admitted_row 100500 ''attempt'' demo_node None None demo_row"

definition demo_preparing :: db where
  "demo_preparing = demo_queued\<lparr>sessions := [demo_placed_row], session_domains := [(''s1'', ''d1'')],
     users := [alice\<lparr>u_last_admitted_at := Some 100500\<rparr>, bob],
     events := events demo_queued @ [event ''s1'' ''admitted''
       [(''node_id'', JStr ''n1''), (''resource_domain_id'', JStr ''d1''), (''attempt_id'', JStr ''attempt''),
        (''route_id'', JNull), (''resource_domain_ids'', JArr [JStr ''d1''])]]\<rparr>"

definition demo_prepare_id :: string where "demo_prepare_id = ''prepare-prepare-prepare''"

definition demo_authorization :: authorization where
  "demo_authorization = \<lparr>au_prepare_id = demo_prepare_id, au_participants = None\<rparr>"

definition demo_authorized_row :: session where
  "demo_authorized_row = authorized_row demo_prepare_id demo_placed_row"

definition demo_authorized :: db where
  "demo_authorized = demo_preparing\<lparr>sessions := [demo_authorized_row],
     events := events demo_preparing @ [event ''s1'' ''authorized'' []]\<rparr>"

definition demo_claim_request :: claim_request where
  "demo_claim_request = \<lparr>cl_session_id = ''s1'', cl_attempt_id = ''attempt'', cl_epoch = 7,
     cl_prepare_id = demo_prepare_id\<rparr>"

definition demo_running_row :: session where
  "demo_running_row = running_row 101500 demo_authorized_row"

definition demo_running :: db where
  "demo_running = demo_authorized\<lparr>sessions := [demo_running_row]\<rparr>"

definition demo_receipt :: receipt where
  "demo_receipt = \<lparr>rc_session_id = ''s1'', rc_attempt_id = ''attempt'', rc_epoch = 7, rc_state = COMPLETED,
     rc_prompt_tokens = 700, rc_completion_tokens = 100, rc_output_sha256 = replicate 64 (CHR ''c''),
     rc_stream_done = True, rc_finish_reason = Some ''stop'', rc_error_code = None, rc_elapsed_ms = 2000\<rparr>"

definition demo_receive :: "(receipt_reply \<times> db) result" where
  "demo_receive = receive (\<lambda>_. ''digest'') 105000 105000 ''j3'' ''n1'' demo_receipt demo_running"

definition demo_settled :: db where "demo_settled = after demo_receive demo_running"

section \<open>The calls\<close>

lemmas demo_rows = demo_row_def demo_placed_row_def demo_authorized_row_def demo_running_row_def
  queued_row_def admitted_row_def authorized_row_def running_row_def

lemmas demo_dbs = demo_running_def demo_authorized_def demo_preparing_def demo_queued_def demo_quoted_def
  demo_db_def empty_db_def

lemma demo_hold_returns: "returns demo_hold_post (\<lambda>(j, L). True)"
  by code_simp

lemma demo_hold: "hold_credits ''j1'' ''s1'' ''a1'' 4389 demo_ledger = Inr (ledger_after demo_hold_post)"
  using demo_hold_returns by (auto simp: hold_credits_def ledger_after_def returns_iff demo_hold_post_def)

lemma demo_quota: "returns (capacity 100000 ''lab-model'' ''a1'' demo_quoted)
    (\<lambda>c. cap_active_for_account c < cap_temporary_session_limit c)"
  by code_simp

lemma demo_fields [simp]:
  "rq_quote_id demo_request = ''q1''" "rq_idempotency_key demo_request = ''request-1''"
  "rq_model demo_request = ''lab-model''" "rq_max_tokens demo_request = 512"
  "rq_content_bytes demo_request = 100" "rq_message_count demo_request = 1" "rq_request_bytes demo_request = 400"
  "q_id demo_quote = ''q1''" "q_user_id demo_quote = ''a1''" "q_model_id demo_quote = ''lab-model''"
  "q_manifest demo_quote = demo_manifest" "q_max_output_tokens demo_quote = 512"
  "q_maximum_microtu demo_quote = 4389" "q_cooperative_pool_id demo_quote = None"
  "q_cooperative_policy_sha256 demo_quote = None" "u_id alice = ''a1''"
  "mm_max_input_bytes demo_manifest = 4096" "mm_max_context_tokens demo_manifest = 2048"
  by (simp_all add: demo_request_def demo_quote_def alice_def demo_manifest_def)

lemma demo_quoted_fields [simp]:
  "sessions demo_quoted = []" "events demo_quoted = []" "ledger demo_quoted = demo_ledger"
  "quotes demo_quoted = [demo_quote]" "windows demo_quoted = []" "nodes demo_quoted = [demo_node]"
  "users demo_quoted = [alice, bob]" "session_domains demo_quoted = []" "participants demo_quoted = []"
  "receipts demo_quoted = []" "pools demo_quoted = []"
  by (simp_all add: demo_quoted_def demo_db_def empty_db_def)

lemma demo_create:
  "create_session ''s1'' ''j1'' 100000 alice demo_request demo_quoted = Inr ((demo_row, False), demo_queued)"
proof -
  have ok: "session_request_ok demo_request" by code_simp
  obtain c where c: "capacity 100000 ''lab-model'' ''a1'' demo_quoted = Inr c"
    "cap_active_for_account c < cap_temporary_session_limit c" using demo_quota by (auto simp: returns_iff)
  have q: "open_quote 100000 alice ''q1'' demo_quoted = Some demo_quote"
    by (simp add: open_quote_def demo_dbs demo_quote_def demo_model_def alice_def)
  have ins: "insert_session demo_row (demo_quoted\<lparr>ledger := ledger_after demo_hold_post\<rparr>) =
      Inr (demo_quoted\<lparr>ledger := ledger_after demo_hold_post, sessions := [demo_row]\<rparr>)"
    by (simp add: insert_session_def insert_row_def session_identity_def session_check_def demo_rows)
  show ?thesis
    unfolding create_session_def
    by (simp add: ok q c demo_hold ins live_count_def session_event_def demo_queued_def flip: demo_row_def)
qed

text \<open>The offer that the admission takes, and what it writes.\<close>

definition demo_offer_row :: ready_offer where
  "demo_offer_row = \<lparr>of_key = ''node:n1'', of_route = None, of_model = ''lab-model'', of_root = ''n1'',
     of_domains = [''d1''], of_nodes = [''n1''], of_last_seen = Some 99000\<rparr>"

lemma demo_queue:
  "map s_id (admission_queue 100500 demo_queued) = [''s1''] \<and> offer_queue 100500 demo_queued demo_row = [demo_offer_row]"
  by code_simp

lemma demo_place:
  "place 100500 100500 ''attempt'' demo_row demo_offer_row demo_node None None demo_queued = Inr demo_preparing"
  by (simp add: place_def update_session_def session_identity_def session_check_def cooperation_kept_def
      insert_session_domain_def insert_row_def update_row_def session_event_def demo_queued_def demo_preparing_def
      demo_offer_row_def demo_rows demo_node_def opt_str_def bob_def alice_def)

lemma demo_admit:
  "\<exists>v. admit (\<lambda>_. []) 100500 100500 ''j2'' ''attempt'' ''s1'' demo_queued = Inr (v, demo_preparing)"
proof -
  obtain r rs where q: "admission_queue 100500 demo_queued = r # rs" "s_id r = ''s1''"
    using demo_queue by (cases "admission_queue 100500 demo_queued") auto
  have l: "lookup s_id ''s1'' (sessions demo_queued) = Some demo_row"
    by (simp add: demo_queued_def demo_row_def queued_row_def)
  have f: "s_state demo_row = S_QUEUED" "s_queue_deadline demo_row = 220000" "s_cooperative_pool_id demo_row = None"
    by (simp_all add: demo_row_def queued_row_def)
  have n: "lookup n_id (of_root demo_offer_row) (nodes demo_queued) = Some demo_node" "of_route demo_offer_row = None"
    by (simp_all add: demo_queued_def demo_offer_row_def demo_node_def)
  have "\<exists>v. admission_result (\<lambda>_. []) ''attempt'' demo_placed_row demo_node None demo_preparing = Inr v"
    by (simp add: admission_result_def demo_preparing_def demo_queued_def demo_rows cap_def)
  then obtain v where "admission_result (\<lambda>_. []) ''attempt'' demo_placed_row demo_node None demo_preparing = Inr v" ..
  then show ?thesis
    using demo_queue unfolding admit_def l need_row_simps
    by (simp add: f q n demo_place is_terminal_def flip: demo_placed_row_def)
qed

lemma demo_authorize:
  "\<exists>v. authorize (\<lambda>_. []) 101000 ''s1'' demo_authorization demo_preparing = Inr (v, demo_authorized)"
proof -
  have ok: "authorization_ok demo_authorization" by code_simp
  have l: "lookup s_id ''s1'' (sessions demo_preparing) = Some demo_placed_row"
    by (simp add: demo_preparing_def demo_rows)
  have n: "node_prepared 101000 demo_placed_row demo_preparing = Some demo_node"
    by (simp add: node_prepared_def demo_preparing_def demo_queued_def demo_rows demo_node_def)
  have u: "update_session ''s1'' (authorized_row demo_prepare_id) demo_preparing =
      Inr (demo_preparing\<lparr>sessions := [demo_authorized_row]\<rparr>)"
    by (simp add: update_session_def session_identity_def session_check_def cooperation_kept_def update_row_def
        demo_preparing_def demo_queued_def demo_rows)
  have f: "s_state demo_placed_row = S_PREPARING" "s_execution_deadline demo_placed_row = Some 280500"
    "s_route_id demo_placed_row = None" "s_quote_id demo_placed_row = ''q1''"
    "au_prepare_id demo_authorization = demo_prepare_id" "au_participants demo_authorization = None"
    "quotes demo_preparing = [demo_quote]"
    by (simp_all add: demo_rows demo_authorization_def demo_preparing_def demo_queued_def)
  show ?thesis
    unfolding authorize_def l option.case option.sel
    by (simp add: ok n u f confirm_stages_def cap_def session_event_def demo_authorized_def)
qed

lemma demo_claim: "claim 101500 101500 ''n1'' demo_claim_request demo_authorized = Inr ((), demo_running)"
proof -
  have "claim_request_ok demo_claim_request" by code_simp
  moreover have "lookup s_id ''s1'' (sessions demo_authorized) = Some demo_authorized_row"
    by (simp add: demo_authorized_def demo_rows)
  moreover have "claimable 101500 ''n1'' demo_claim_request demo_authorized demo_authorized_row"
    by (simp add: claimable_def demo_authorized_def demo_preparing_def demo_queued_def demo_rows
        demo_claim_request_def demo_node_def)
  moreover have "update_session ''s1'' (running_row 101500) demo_authorized = Inr demo_running"
    by (simp add: update_session_def session_identity_def session_check_def cooperation_kept_def update_row_def
        demo_authorized_def demo_preparing_def demo_queued_def demo_rows demo_running_def)
  moreover have "s_route_id demo_authorized_row = None" "cl_session_id demo_claim_request = ''s1''"
    by (simp_all add: demo_rows demo_claim_request_def)
  ultimately show ?thesis unfolding claim_def by simp
qed

lemma demo_receive_returns: "returns demo_receive (\<lambda>(v, s). v = Settled COMPLETED 1429 \<and>
   map s_state (sessions s) = [S_TERMINAL COMPLETED] \<and> bal (ledger s) (availableAccount ''b2'') = 1144 \<and>
   bal (ledger s) (availableAccount ''a1'') = 998571 \<and> bal (ledger s) (heldAccount ''a1'') = 0 \<and>
   bal (ledger s) ''lab:working'' = 285)"
  by code_simp

lemma demo_settles: "demo_receive = Inr (Settled COMPLETED 1429, demo_settled)"
proof -
  obtain v s where L: "demo_receive = Inr (v, s)" "v = Settled COMPLETED 1429"
    using demo_receive_returns by (auto simp: returns_iff)
  show ?thesis unfolding demo_settled_def after_def L by simp
qed

text \<open>The ledger of the laboratory: one grant, and no other account used.\<close>

lemma demo_grant_returns: "returns (post ''j0'' ''grant:demo'' ''LAB_GRANT''
    [(''lab:issuer'', - 1000000), (availableAccount ''a1'', 1000000)] []
    (createAccounts ''b2'' (createAccounts ''a1'' initial_ledger))) (\<lambda>(j, L). True)"
  by code_simp

lemma demo_ledger_bal:
  "bal demo_ledger a = (if a = availableAccount ''a1'' then 1000000 else 0) - (if a = ''lab:issuer'' then 1000000 else 0)"
  and demo_ledger_posted: "posted demo_ledger = {''grant:demo''}"
proof -
  let ?L = "createAccounts ''b2'' (createAccounts ''a1'' initial_ledger)"
  obtain j L where p: "post ''j0'' ''grant:demo'' ''LAB_GRANT''
    [(''lab:issuer'', - 1000000), (availableAccount ''a1'', 1000000)] [] ?L = Inr (j, L)"
    using demo_grant_returns by (auto simp: returns_iff)
  have posted: "posted ?L = {}" by (simp add: createAccounts_def initial_ledger_def posted_def)
  have "bal ?L b = 0" for b
    by (simp add: createAccounts_def initial_ledger_def) (simp add: bal_def)
  then show "bal demo_ledger a =
      (if a = availableAccount ''a1'' then 1000000 else 0) - (if a = ''lab:issuer'' then 1000000 else 0)"
    using led.moves [OF _ p, of a] posted by (simp add: demo_ledger_def p)
  show "posted demo_ledger = {''grant:demo''}"
    using led.records [OF p] posted by (simp add: demo_ledger_def p)
qed

end
