(* ===== verification/Sessions_Life.thy ===== *)
theory Sessions_Life
  imports Sessions_Money Sessions_Demo
begin

text \<open>
  The life of a session: an abstract specification (\<open>spec_step\<close>) with one small contract per
  session, which the handlers of \<open>Sessions\<close> refine, and the typing of a row by its state.
\<close>

section \<open>The abstract life cycle\<close>

text \<open>The edges of the life cycle: only a running session completes, and cancelling never completes.\<close>

fun edge :: "session_state \<Rightarrow> session_state \<Rightarrow> bool" where
  "edge S_QUEUED st = (st = S_PREPARING \<or> st \<in> S_TERMINAL ` {FAILED, CANCELLED, INTERRUPTED})"
| "edge S_PREPARING st = (st = S_AUTHORIZED \<or> st \<in> S_TERMINAL ` {FAILED, CANCELLED, INTERRUPTED})"
| "edge S_AUTHORIZED st = (st = S_RUNNING \<or> st \<in> S_TERMINAL ` {FAILED, CANCELLED, INTERRUPTED})"
| "edge S_RUNNING st = (st = S_CANCELLING \<or> is_terminal st)"
| "edge S_CANCELLING st = (st \<in> S_TERMINAL ` {CANCELLED, INTERRUPTED})"
| "edge (S_TERMINAL t) st = False"

record contract =
  phase :: session_state
  owner :: uuid
  held :: int
  charged :: int

inductive spec_step :: "(uuid \<rightharpoonup> contract) \<Rightarrow> (uuid \<rightharpoonup> contract) \<Rightarrow> bool" where
  opens: "m i = None \<Longrightarrow> 0 \<le> h \<Longrightarrow>
    spec_step m (m(i \<mapsto> \<lparr>phase = S_QUEUED, owner = u, held = h, charged = 0\<rparr>))"
| advances: "m i = Some c \<Longrightarrow> edge (phase c) p \<Longrightarrow> \<not> is_terminal p \<Longrightarrow> spec_step m (m(i \<mapsto> c\<lparr>phase := p\<rparr>))"
| closes: "m i = Some c \<Longrightarrow> edge (phase c) (S_TERMINAL st) \<Longrightarrow> 0 \<le> q \<Longrightarrow> q \<le> held c \<Longrightarrow>
    (q > 0 \<longrightarrow> st = COMPLETED) \<Longrightarrow> spec_step m (m(i \<mapsto> c\<lparr>phase := S_TERMINAL st, charged := q\<rparr>))"

definition contract_of :: "session \<Rightarrow> contract" where
  "contract_of r = \<lparr>phase = s_state r, owner = s_user_id r, held = s_hold_microtu r, charged = s_charged_microtu r\<rparr>"

definition contracts :: "db \<Rightarrow> uuid \<rightharpoonup> contract" where
  "contracts s = (\<lambda>i. map_option contract_of (lookup s_id i (sessions s)))"

section \<open>Typing of rows\<close>

definition placed :: "session \<Rightarrow> bool" where
  "placed r \<longleftrightarrow> s_node_id r \<noteq> None \<and> s_resource_domain_id r \<noteq> None \<and> s_attempt_id r \<noteq> None \<and>
     s_node_epoch r \<noteq> None \<and> s_execution_deadline r \<noteq> None \<and> (s_route_id r = None \<longleftrightarrow> s_route_sha256 r = None)"

definition unpaid :: "session \<Rightarrow> bool" where
  "unpaid r \<longleftrightarrow> s_billing_state r = B_HELD \<and> s_charged_microtu r = 0 \<and> s_finished_at r = None \<and> s_error_code r = None"

definition row_typed :: "session \<Rightarrow> bool" where
  "row_typed r \<longleftrightarrow>
     (case s_state r of
        S_QUEUED \<Rightarrow> unpaid r \<and> s_node_id r = None \<and> s_attempt_id r = None \<and> s_prepare_id r = None \<and>
          s_execution_deadline r = None \<and> s_started_at r = None \<and> s_route_id r = None
      | S_PREPARING \<Rightarrow> unpaid r \<and> placed r \<and> s_prepare_id r = None \<and> s_started_at r = None
      | S_AUTHORIZED \<Rightarrow> unpaid r \<and> placed r \<and> s_prepare_id r \<noteq> None \<and> s_started_at r = None
      | S_RUNNING \<Rightarrow> unpaid r \<and> placed r \<and> s_prepare_id r \<noteq> None \<and> s_started_at r \<noteq> None
      | S_CANCELLING \<Rightarrow> unpaid r \<and> placed r \<and> s_prepare_id r \<noteq> None \<and> s_started_at r \<noteq> None
      | S_TERMINAL st \<Rightarrow> s_billing_state r \<noteq> B_HELD \<and> s_finished_at r \<noteq> None \<and>
          (s_charged_microtu r > 0 \<longrightarrow> st = COMPLETED))"

text \<open>A stored root receipt belongs to a session that has been claimed.\<close>

definition past_claim :: "session_state \<Rightarrow> bool" where
  "past_claim st \<longleftrightarrow> st = S_RUNNING \<or> st = S_CANCELLING \<or> is_terminal st"

definition receipts_ok :: "db \<Rightarrow> bool" where
  "receipts_ok s \<longleftrightarrow> (\<forall>x \<in> set (receipts s). \<forall>r \<in> set (sessions s). s_id r = rr_session_id x \<longrightarrow> past_claim (s_state r)) \<and>
     rr_session_id ` set (receipts s) \<subseteq> s_id ` set (sessions s)"

definition life_ok :: "db \<Rightarrow> bool" where
  "life_ok s \<longleftrightarrow> keyed s_id (sessions s) \<and> list_all row_typed (sessions s) \<and> receipts_ok s"

lemma row_moves_edge:
  assumes "row_moves r f"
  shows "s_state (f r) = s_state r \<or> edge (s_state r) (s_state (f r))"
  using assms by (auto simp: row_moves_def admitted_row_def authorized_row_def running_row_def
      cancelling_row_def usage_row_def)

lemma row_moves_typed:
  assumes "row_moves r f" and "row_typed r"
  shows "row_typed (f r)"
  using assms by (auto simp: row_moves_def admitted_row_def authorized_row_def running_row_def
      cancelling_row_def usage_row_def row_typed_def unpaid_def placed_def)

lemma row_moves_past:
  assumes "row_moves r f" and "past_claim (s_state r)"
  shows "past_claim (s_state (f r))"
  using assms by (auto simp: row_moves_def past_claim_def cancelling_row_def usage_row_def)

lemma row_moves_contract:
  assumes "row_moves r f"
  shows "contract_of (f r) = (contract_of r)\<lparr>phase := s_state (f r)\<rparr>"
  using assms by (auto simp: row_moves_def admitted_row_def authorized_row_def running_row_def
      cancelling_row_def usage_row_def contract_of_def)

lemma ended_row_typed:
  "row_ends s r st charge \<Longrightarrow> billing \<noteq> Some B_HELD \<Longrightarrow> row_typed (ended_row now st charge err billing r)"
  by (auto simp: row_ends_def row_typed_def ended_row_def split: option.splits)

text \<open>A claimed row is the only one that completes.\<close>

lemma row_ends_edge:
  assumes "row_ends s r st charge" and "receipts_ok s" and "r \<in> set (sessions s)"
  shows "edge (s_state r) (S_TERMINAL st)"
proof -
  have "s_state r = S_RUNNING" if c: "st = COMPLETED"
  proof (cases "s_id r \<in> rr_session_id ` set (receipts s)")
    case True
    then have "past_claim (s_state r)" using assms(2,3) by (auto simp: receipts_ok_def)
    then show ?thesis using assms(1) c by (auto simp: row_ends_def past_claim_def)
  next
    case False
    then show ?thesis using assms(1) c by (auto simp: row_ends_def)
  qed
  then show ?thesis using assms(1)
    by (cases "s_state r"; cases st) (auto simp: row_ends_def)
qed

lemma receipts_ok_update:
  assumes ok: "receipts_ok s" and keyed: "keyed s_id (sessions s)" and row: "lookup s_id i (sessions s) = Some r"
    and f: "\<And>q. s_id (f q) = s_id q" and past: "past_claim (s_state r) \<Longrightarrow> past_claim (s_state (f r))"
    and s': "sessions s' = update_row s_id i f (sessions s)"
    and rec: "receipts s' = receipts s \<or> (past_claim (s_state r) \<and> (\<exists>x. rr_session_id x = i \<and> receipts s' = receipts s @ [x]))"
  shows "receipts_ok s'"
proof -
  have r: "r \<in> set (sessions s)" "s_id r = i" using lookup_SomeD [OF row] by auto
  have ids: "s_id ` set (sessions s') = s_id ` set (sessions s)"
    using update_row_keys [of s_id f i "sessions s"] f by (simp add: s' flip: set_map del: set_map)
  have "past_claim (s_state q)" if x: "x \<in> set (receipts s')" and q: "q \<in> set (sessions s')" "s_id q = rr_session_id x" for x q
  proof (cases "s_id q = i")
    case True
    obtain q0 where "q0 \<in> set (sessions s)" "s_id q0 = i" "q = f q0"
      using q True f by (auto simp: s' in_update_row)
    then have "q = f r" using keyed_unique [OF keyed] r by metis
    moreover have "past_claim (s_state r)"
      using rec x q(2) True r ok unfolding receipts_ok_def by auto
    ultimately show ?thesis using past by simp
  next
    case False
    then have "q \<in> set (sessions s)" using q(1) f by (auto simp: s' in_update_row)
    moreover have "x \<in> set (receipts s)" using rec x q(2) False by auto
    ultimately show ?thesis using ok q(2) by (auto simp: receipts_ok_def)
  qed
  moreover have "rr_session_id ` set (receipts s') \<subseteq> s_id ` set (sessions s')"
    using rec ok r unfolding ids receipts_ok_def by (elim disjE) (auto 0 3 simp: image_subset_iff)
  ultimately show ?thesis by (auto simp: receipts_ok_def)
qed

lemma contracts_update:
  assumes "\<And>q. s_id (f q) = s_id q" and "lookup s_id i (sessions s) = Some r"
    and "sessions s' = update_row s_id i f (sessions s)"
  shows "contracts s' = (contracts s)(i \<mapsto> contract_of (f r))"
  using assms by (auto simp: contracts_def lookup_update)

lemma change_refines:
  assumes "session_change s s'" and ok: "life_ok s" and settled: "settled_ok s"
  shows "life_ok s' \<and> spec_step\<^sup>*\<^sup>* (contracts s) (contracts s')"
  using assms(1)
proof cases
  case apart
  then show ?thesis using ok by (simp add: life_ok_def receipts_ok_def contracts_def)
next
  case (created j r L i tx_now user d q)
  have "row_typed r" "s_state r = S_QUEUED" "s_charged_microtu r = 0"
    by (simp_all add: created(2) queued_row_def row_typed_def unpaid_def)
  moreover have "lookup s_id (s_id r) (sessions s) = None" using created(3) by (simp add: lookup_None_iff)
  then have "contracts s' = (contracts s)(s_id r \<mapsto> contract_of r)" "contracts s (s_id r) = None"
    by (auto simp: contracts_def created(5) split: option.splits)
  moreover have "spec_step m (m(s_id r \<mapsto> contract_of r))" if "m (s_id r) = None" for m
    using spec_step.opens [of m "s_id r" "s_hold_microtu r" "s_user_id r"] that calculation(2,3) created(4)
    by (simp add: contract_of_def session_check_def)
  moreover have "receipts_ok s'" using ok created(3) by (auto simp: life_ok_def receipts_ok_def created(5,6))
  ultimately show ?thesis using ok created(3,5) by (simp add: life_ok_def keyed_insert r_into_rtranclp)
next
  case (moved i r f)
  note kept = row_moves_kept [OF moved(2)]
  have keyed: "keyed s_id (sessions s)" and typed: "list_all row_typed (sessions s)" and rec: "receipts_ok s"
    using ok by (simp_all add: life_ok_def)
  have r: "r \<in> set (sessions s)" "s_id r = i" using lookup_SomeD [OF moved(1)] by auto
  have "row_typed (f r)" using row_moves_typed [OF moved(2)] typed r by (simp add: list_all_iff)
  then have "list_all row_typed (sessions s')"
    using list_all_update_row [OF keyed moved(1) typed] by (simp add: moved(4))
  moreover have "receipts_ok s'"
    by (rule receipts_ok_update [OF rec keyed moved(1) kept(1) row_moves_past [OF moved(2)] moved(4)])
      (use moved(5) in \<open>auto simp: past_claim_def\<close>)
  moreover have "keyed s_id (sessions s')" using keyed kept(1) by (simp add: moved(4) keyed_update)
  moreover have "spec_step\<^sup>*\<^sup>* (contracts s) (contracts s')"
  proof -
    have m: "contracts s i = Some (contract_of r)" by (simp add: contracts_def moved(1))
    have m': "contracts s' = (contracts s)(i \<mapsto> (contract_of r)\<lparr>phase := s_state (f r)\<rparr>)"
      using contracts_update [OF kept(1) moved(1,4)] by (simp add: row_moves_contract [OF moved(2)])
    from row_moves_edge [OF moved(2)] show ?thesis
    proof
      assume "s_state (f r) = s_state r"
      then have "contracts s' = contracts s" using m m' by (auto simp: contract_of_def)
      then show ?thesis by simp
    next
      assume "edge (s_state r) (s_state (f r))"
      then have "spec_step (contracts s) (contracts s')"
        using spec_step.advances [of "contracts s" i "contract_of r" "s_state (f r)"] m kept(5) by (simp add: m' contract_of_def)
      then show ?thesis by (rule r_into_rtranclp [of spec_step])
    qed
  qed
  ultimately show ?thesis by (simp add: life_ok_def)
next
  case (ended i r st charge r0 lines j alloc L tx_now err billing)
  let ?f = "ended_row tx_now st charge err billing"
  have keyed: "keyed s_id (sessions s)" and typed: "list_all row_typed (sessions s)" and rec: "receipts_ok s"
    using ok by (simp_all add: life_ok_def)
  have r: "r \<in> set (sessions s)" "s_id r = i" using lookup_SomeD [OF ended(1)] by auto
  have "list_all row_typed (sessions s')"
    using list_all_update_row [OF keyed ended(1) typed, of ?f] ended_row_typed [OF ended(2,9)] by (simp add: ended(8))
  moreover have "receipts_ok s'"
    by (rule receipts_ok_update [OF rec keyed ended(1) _ _ ended(8)]) (simp_all add: past_claim_def ended(11))
  moreover have "keyed s_id (sessions s')" using keyed by (simp add: ended(8) keyed_update)
  moreover have "spec_step (contracts s) (contracts s')"
  proof -
    have m: "contracts s i = Some (contract_of r)" by (simp add: contracts_def ended(1))
    have m': "contracts s' = (contracts s)(i \<mapsto> (contract_of r)\<lparr>phase := S_TERMINAL st, charged := charge\<rparr>)"
      using contracts_update [OF _ ended(1,8)] by (simp add: contract_of_def ended_row_def)
    have "edge (phase (contract_of r)) (S_TERMINAL st)"
      using row_ends_edge [OF ended(2) rec r(1)] by (simp add: contract_of_def)
    then show ?thesis using ended(2) spec_step.closes [of "contracts s" i "contract_of r" st charge] m
      by (simp add: m' row_ends_def contract_of_def)
  qed
  ultimately show ?thesis by (auto simp: life_ok_def)
next
  case (refunded i r j kind lines md x L)
  have keyed: "keyed s_id (sessions s)" and typed: "list_all row_typed (sessions s)" and rec: "receipts_ok s"
    using ok by (simp_all add: life_ok_def)
  have over: "is_terminal (s_state r)" using refunded(1,2) settled by (force simp: settled_ok_def)
  have "row_typed r" using lookup_SomeD [OF refunded(1)] typed by (simp add: list_all_iff)
  then have "row_typed (refunded_row r)"
    using over by (auto simp: row_typed_def refunded_row_def is_terminal_def split: session_state.splits)
  then have "list_all row_typed (sessions s')"
    using list_all_update_row [OF keyed refunded(1) typed] by (simp add: refunded(6))
  moreover have "receipts_ok s'"
    by (rule receipts_ok_update [OF rec keyed refunded(1) _ _ refunded(6)]) (simp_all add: refunded(7))
  moreover have "contracts s' = contracts s"
  proof -
    have "contracts s' = (contracts s)(i \<mapsto> contract_of (refunded_row r))"
      by (rule contracts_update [OF _ refunded(1,6)]) simp
    then show ?thesis using refunded(1) by (auto simp: contracts_def contract_of_def)
  qed
  ultimately show ?thesis using keyed by (simp add: life_ok_def refunded(6) keyed_update)
qed

lemma changes_refine:
  assumes "session_change\<^sup>*\<^sup>* s s'" and "life_ok s" and "settled_ok s"
  shows "life_ok s' \<and> settled_ok s' \<and> spec_step\<^sup>*\<^sup>* (contracts s) (contracts s')"
  using assms
proof (induction rule: rtranclp_induct)
  case (step t u)
  then show ?case using change_refines [of t u] change_keeps_settled [of t u] by (meson rtranclp_trans)
qed simp

lemma step_refines:
  assumes "session_step s s'" and "funds_ok s" and "life_ok s"
  shows "life_ok s' \<and> spec_step\<^sup>*\<^sup>* (contracts s) (contracts s')"
  using assms(1,2)
proof (cases rule: session_step_changes)
  case changes
  then show ?thesis using changes_refine [OF changes(2) assms(3)] assms(2) by (simp add: funds_ok_def)
next
  case elsewhere
  then show ?thesis using assms(3) by (simp add: life_ok_def receipts_ok_def contracts_def)
qed

lemma reachable_life:
  assumes "session_step\<^sup>*\<^sup>* s s'" and "no_sessions s"
  shows "funds_ok s' \<and> life_ok s' \<and> spec_step\<^sup>*\<^sup>* (contracts s) (contracts s')"
  using assms(1)
proof (induction rule: rtranclp_induct)
  case base
  then show ?case using assms(2) no_sessions_funds [OF assms(2)]
    by (simp add: no_sessions_def life_ok_def receipts_ok_def keyed_def)
next
  case (step t u)
  then show ?case using step_refines [of t u] session_step_funds [of t u] by (meson rtranclp_trans)
qed

text \<open>What the specification promises of a contract, whatever happens to the others.\<close>

lemma spec_step_keeps_contract:
  assumes "spec_step m m'" and "m i = Some c"
  shows "\<exists>c'. m' i = Some c' \<and> owner c' = owner c \<and> held c' = held c \<and>
    (phase c' = phase c \<or> edge (phase c) (phase c')) \<and> (is_terminal (phase c) \<longrightarrow> c' = c)"
  using assms(1)
proof cases
  case (opens k h u)
  then show ?thesis using assms(2) by auto
next
  case (advances k d p)
  then show ?thesis using assms(2) by (cases "phase d") auto
next
  case (closes k d st q)
  then show ?thesis using assms(2) by (cases "phase d") auto
qed

lemma ended_contract_stays:
  "spec_step\<^sup>*\<^sup>* m m' \<Longrightarrow> m i = Some c \<Longrightarrow> is_terminal (phase c) \<Longrightarrow> m' i = Some c"
proof (induction rule: rtranclp_induct)
  case (step t u)
  then show ?case using spec_step_keeps_contract [of t u i c] by auto
qed simp

section \<open>One call, one contract\<close>

text \<open>
  What one committing call may do to one contract: open it queued, leave it alone, or move it along
  one edge, never touching the owner and the hold; closing fixes the charge.
\<close>

definition contract_step :: "contract option \<Rightarrow> contract option \<Rightarrow> bool" where
  "contract_step m m' \<longleftrightarrow>
     (case (m, m') of
        (None, None) \<Rightarrow> True
      | (None, Some c') \<Rightarrow> phase c' = S_QUEUED \<and> charged c' = 0 \<and> 0 \<le> held c'
      | (Some c, None) \<Rightarrow> False
      | (Some c, Some c') \<Rightarrow> c' = c \<or>
          owner c' = owner c \<and> held c' = held c \<and> edge (phase c) (phase c') \<and>
          (if is_terminal (phase c')
           then 0 \<le> charged c' \<and> charged c' \<le> held c \<and> (charged c' > 0 \<longrightarrow> phase c' = S_TERMINAL COMPLETED)
           else charged c' = charged c))"

lemma contract_step_same [simp]: "contract_step m m"
  by (simp add: contract_step_def split: option.splits)

lemma edge_irrefl [simp]: "\<not> edge p p"
  by (cases p) auto

lemma change_contract:
  assumes "session_change s s'" and ok: "life_ok s" and settled: "settled_ok s"
  shows "contract_step (contracts s i) (contracts s' i)"
  using assms(1)
proof cases
  case apart
  then show ?thesis by (simp add: contracts_def)
next
  case (created j r L k tx_now user d q)
  have "lookup s_id (s_id r) (sessions s) = None" using created(3) by (simp add: lookup_None_iff)
  then have "contracts s' = (contracts s)(s_id r \<mapsto> contract_of r)" "contracts s (s_id r) = None"
    by (auto simp: contracts_def created(5) split: option.splits)
  moreover have "phase (contract_of r) = S_QUEUED \<and> charged (contract_of r) = 0 \<and> 0 \<le> held (contract_of r)"
    using created(4) by (simp add: created(2) queued_row_def contract_of_def session_check_def)
  ultimately show ?thesis by (cases "i = s_id r") (simp_all add: contract_step_def)
next
  case (moved k r f)
  note kept = row_moves_kept [OF moved(2)]
  have "contracts s' = (contracts s)(k \<mapsto> (contract_of r)\<lparr>phase := s_state (f r)\<rparr>)"
    using contracts_update [OF kept(1) moved(1,4)] by (simp add: row_moves_contract [OF moved(2)])
  moreover have "contracts s k = Some (contract_of r)" by (simp add: contracts_def moved(1))
  ultimately show ?thesis using row_moves_edge [OF moved(2)] kept(5)
    by (cases "i = k") (auto simp: contract_step_def contract_of_def)
next
  case (ended k r st charge r0 lines j alloc L tx_now err billing)
  have "contracts s' = (contracts s)(k \<mapsto> (contract_of r)\<lparr>phase := S_TERMINAL st, charged := charge\<rparr>)"
    using contracts_update [OF _ ended(1,8)] by (simp add: contract_of_def ended_row_def)
  moreover have "contracts s k = Some (contract_of r)" by (simp add: contracts_def ended(1))
  moreover have "edge (s_state r) (S_TERMINAL st)"
    using row_ends_edge [OF ended(2)] lookup_SomeD [OF ended(1)] ok by (simp add: life_ok_def)
  ultimately show ?thesis using ended(2)
    by (cases "i = k") (simp_all add: contract_step_def contract_of_def row_ends_def)
next
  case (refunded k r j kind lines md x L)
  have "contracts s' = (contracts s)(k \<mapsto> contract_of (refunded_row r))"
    by (rule contracts_update [OF _ refunded(1,6)]) simp
  then have "contracts s' = contracts s" using refunded(1) by (auto simp: contracts_def contract_of_def)
  then show ?thesis by simp
qed

text \<open>Several closing changes make one step of each contract.\<close>

definition closes_contract :: "contract option \<Rightarrow> contract option \<Rightarrow> bool" where
  "closes_contract m m' \<longleftrightarrow> contract_step m m' \<and>
     rel_option (\<lambda>c c'. c' = c \<or> is_terminal (phase c')) m m'"

lemma closes_contract_trans:
  assumes "closes_contract a b" and "closes_contract b c"
  shows "closes_contract a c"
proof (cases b)
  case None
  then show ?thesis using assms by (simp add: closes_contract_def)
next
  case (Some y)
  show ?thesis
  proof (cases "is_terminal (phase y)")
    case True
    then obtain st where "phase y = S_TERMINAL st" by (auto simp: is_terminal_def split: session_state.splits)
    then have "c = b" using assms(2) Some by (cases c) (auto simp: closes_contract_def contract_step_def)
    then show ?thesis using assms(1) by simp
  next
    case False
    then have "a = b" using assms(1) Some by (cases a) (auto simp: closes_contract_def)
    then show ?thesis using assms(2) by simp
  qed
qed

lemma closing_contract:
  assumes "closing_change s s'" and "life_ok s" and "settled_ok s"
  shows "closes_contract (contracts s i) (contracts s' i)"
proof -
  have st: "contract_step (contracts s i) (contracts s' i)"
    using change_contract [OF _ assms(2,3)] assms(1) by (simp add: closing_change_def)
  have rel: "rel_option (\<lambda>r r'. s_state r' = s_state r \<or> is_terminal (s_state r'))
      (lookup s_id i (sessions s)) (lookup s_id i (sessions s'))"
    using assms(1) by (simp add: closing_change_def closing_def)
  then show ?thesis using st
    by (cases "lookup s_id i (sessions s)"; cases "lookup s_id i (sessions s')")
      (auto simp: closes_contract_def contracts_def contract_step_def contract_of_def)
qed

lemma closing_contracts:
  assumes "closing_change\<^sup>*\<^sup>* s s'" and "life_ok s" and "settled_ok s"
  shows "closes_contract (contracts s i) (contracts s' i)"
  using assms
proof (induction rule: rtranclp_induct)
  case base
  then show ?case by (cases "contracts s i") (simp_all add: closes_contract_def)
next
  case (step t u)
  then have "life_ok t \<and> settled_ok t" using changes_refine closing_changes by blast
  then have "closes_contract (contracts t i) (contracts u i)" using closing_contract step(2) by blast
  then show ?case using step closes_contract_trans by blast
qed

lemma step_contract:
  assumes "session_step s s'" and "funds_ok s" and "life_ok s"
  shows "contract_step (contracts s i) (contracts s' i)"
  using assms(1)
proof cases
  case call
  have ok: "settled_ok s" using assms(2) by (simp add: funds_ok_def)
  from call assms(2) show ?thesis
  proof (cases rule: session_call_changes)
    case one
    then show ?thesis using change_contract assms(3) ok by blast
  next
    case closing
    then show ?thesis using closing_contracts assms(3) ok by (auto simp: closes_contract_def)
  qed
next
  case other
  then show ?thesis by (simp add: contracts_def)
qed

section \<open>The life cycle and the held credits\<close>

text \<open>The demonstration session, call by call.\<close>

lemma demo_no_sessions: "no_sessions demo_quoted"
proof -
  have "heldAccount u \<noteq> ''lab:issuer''" for u by simp
  then have "\<forall>u. bal demo_ledger (heldAccount u) = 0" by (simp add: demo_ledger_bal)
  moreover have "hold_key i \<noteq> ''grant:demo''" "settle_key i \<noteq> ''grant:demo''" for i
    by (simp_all add: hold_key_def settle_key_def)
  moreover have "settlements demo_quoted = []" by (simp add: demo_quoted_def demo_db_def empty_db_def)
  ultimately show ?thesis by (simp add: no_sessions_def pools_apart_def session_keys_def demo_ledger_posted)
qed

lemma demo_step1: "session_step demo_quoted demo_queued"
  by (rule session_step.call [OF session_call.create [OF demo_create]])

lemma demo_step4: "session_step\<^sup>*\<^sup>* demo_quoted demo_running"
proof -
  have "session_step demo_queued demo_preparing" using demo_admit session_call.admit session_step.call by blast
  moreover have "session_step demo_preparing demo_authorized" using demo_authorize session_call.authorize session_step.call by blast
  moreover have "session_step demo_authorized demo_running" by (rule session_step.call [OF session_call.claim [OF demo_claim]])
  ultimately show ?thesis using demo_step1 by (meson converse_rtranclp_into_rtranclp r_into_rtranclp)
qed

lemma demo_step5: "session_step demo_running demo_settled"
  by (rule session_step.call [OF session_call.receipt [OF demo_settles [unfolded demo_receive_def]]])

lemma session_demo_steps: "session_step\<^sup>*\<^sup>* demo_quoted demo_settled"
  using demo_step4 demo_step5 by (rule rtranclp.rtrancl_into_rtrancl)

lemma demo_settled_row: "map s_state (sessions demo_settled) = [S_TERMINAL COMPLETED]"
  "bal (ledger demo_settled) (heldAccount ''a1'') = 0"
  using demo_receive_returns unfolding demo_settles by simp_all

lemma steps_keep_rows:
  assumes "no_sessions s0" and "session_step\<^sup>*\<^sup>* s0 s" and "session_step s s'" and "contracts s i \<noteq> None"
  shows "contracts s' i \<noteq> None"
proof -
  have "spec_step\<^sup>*\<^sup>* (contracts s) (contracts s')"
    using step_refines [OF assms(3)] reachable_life [OF assms(2,1)] by simp
  then show ?thesis
  proof (induction rule: rtranclp_induct)
    case (step t u)
    then show ?case using spec_step_keeps_contract [of t u i] by auto
  qed (use assms(4) in simp)
qed

text \<open>
  C1: the session API refines the abstract life cycle, call by call. In every reachable database, a
  committing call, or a transaction of another component, does to each session, seen from outside as a
  contract, one of three things: it opens it queued, uncharged, with a hold that is not negative; it leaves it
  exactly as it was; or it moves it along exactly one edge of the life cycle, keeping its owner and its hold. The
  edges lead forward from queued over preparing, authorized and running to cancelling or the end; none leaves a terminal
  state, only a running session completes, and a session that cancels never does. A contract that closes gets a charge within its hold,
  positive only when it completed; until then nothing is charged. No contract disappears.
\<close>

theorem sessions_refine_life_cycle:
  assumes "no_sessions s0" and "session_step\<^sup>*\<^sup>* s0 s" and "session_step s s'"
  shows "spec_step\<^sup>*\<^sup>* (contracts s) (contracts s') \<and>
    (\<forall>i c. contracts s i = Some c \<longrightarrow>
       (\<exists>c'. contracts s' i = Some c' \<and> owner c' = owner c \<and> held c' = held c \<and>
          (c' = c \<or> edge (phase c) (phase c') \<and>
             (if is_terminal (phase c')
              then 0 \<le> charged c' \<and> charged c' \<le> held c \<and> (charged c' > 0 \<longrightarrow> phase c' = S_TERMINAL COMPLETED)
              else charged c' = charged c)))) \<and>
    (\<forall>i c'. contracts s i = None \<and> contracts s' i = Some c' \<longrightarrow>
       phase c' = S_QUEUED \<and> charged c' = 0 \<and> 0 \<le> held c')"
proof -
  have ok: "funds_ok s" "life_ok s" using reachable_life [OF assms(2,1)] by simp_all
  have one: "contract_step (contracts s i) (contracts s' i)" for i by (rule step_contract [OF assms(3) ok])
  have "\<exists>c'. contracts s' i = Some c' \<and> owner c' = owner c \<and> held c' = held c \<and>
          (c' = c \<or> edge (phase c) (phase c') \<and>
             (if is_terminal (phase c')
              then 0 \<le> charged c' \<and> charged c' \<le> held c \<and> (charged c' > 0 \<longrightarrow> phase c' = S_TERMINAL COMPLETED)
              else charged c' = charged c))" if "contracts s i = Some c" for i c
    using one [of i] that by (cases "contracts s' i") (auto simp: contract_step_def)
  moreover have "phase c' = S_QUEUED \<and> charged c' = 0 \<and> 0 \<le> held c'"
    if "contracts s i = None" "contracts s' i = Some c'" for i c'
    using one [of i] that by (simp add: contract_step_def)
  moreover have "spec_step\<^sup>*\<^sup>* (contracts s) (contracts s')" using step_refines [OF assms(3) ok] by simp
  ultimately show ?thesis by blast
qed

text \<open>The receipt closes the running session of the demonstration, with its owner and hold.\<close>

theorem sessions_refine_life_cycle_witness:
  "\<exists>c'. contracts demo_settled ''s1'' = Some c' \<and> phase c' = S_TERMINAL COMPLETED \<and> owner c' = ''a1'' \<and>
     held c' = 4389 \<and> edge S_RUNNING (phase c')"
proof -
  have c: "contracts demo_running ''s1'' = Some (contract_of demo_running_row)"
    by (simp add: contracts_def demo_running_def demo_rows)
  have f: "phase (contract_of demo_running_row) = S_RUNNING" "owner (contract_of demo_running_row) = ''a1''"
    "held (contract_of demo_running_row) = 4389" by (simp_all add: contract_of_def demo_rows)
  obtain c' where c': "contracts demo_settled ''s1'' = Some c'" "owner c' = ''a1''" "held c' = 4389"
      "c' = contract_of demo_running_row \<or> edge S_RUNNING (phase c')"
    using sessions_refine_life_cycle [OF demo_no_sessions demo_step4 demo_step5] c f by metis
  obtain r where r: "sessions demo_settled = [r]" "s_state r = S_TERMINAL COMPLETED"
    using demo_settled_row(1) by auto
  then have "phase c' = S_TERMINAL COMPLETED"
    using c'(1) by (auto simp: contracts_def contract_of_def split: if_splits)
  then show ?thesis using c' by simp
qed

text \<open>
  C6: the row of a session is well typed by its state in every reachable database: a queued row
  has no node, attempt or deadline; a preparing one is placed on a node at an epoch, with an attempt and
  a deadline; an authorized one has its preparation id; a running or cancelling one its start; a
  live row is unpaid and held; a terminal one is finished and settled, refunded or disputed, and
  was charged only if it completed.
\<close>

theorem session_rows_typed:
  assumes "no_sessions s" and "session_step\<^sup>*\<^sup>* s s'"
  shows "\<forall>r \<in> set (sessions s'). row_typed r"
  using reachable_life [OF assms(2,1)] by (simp add: life_ok_def list_all_iff)

theorem session_rows_typed_witness:
  "sessions demo_running = [demo_running_row] \<and> row_typed demo_running_row"
  using session_rows_typed [OF demo_no_sessions demo_step4] by (simp add: demo_running_def)

text \<open>
  C8: a session that ended stays as it ended: in every later database it has the same owner,
  hold, terminal state and charge. No late receipt, second cancellation or reaper pass reopens it
  or charges it again.
\<close>

theorem ended_session_is_final:
  assumes "no_sessions s0" and "session_step\<^sup>*\<^sup>* s0 s" and "session_step\<^sup>*\<^sup>* s s'"
    and "lookup s_id i (sessions s) = Some r" and "is_terminal (s_state r)"
  shows "\<exists>r'. lookup s_id i (sessions s') = Some r' \<and> s_state r' = s_state r \<and>
    s_charged_microtu r' = s_charged_microtu r \<and> s_hold_microtu r' = s_hold_microtu r \<and>
    s_user_id r' = s_user_id r"
proof -
  have ok: "funds_ok s \<and> life_ok s" using reachable_life [OF assms(2,1)] by simp
  have "spec_step\<^sup>*\<^sup>* (contracts s) (contracts s')"
    using assms(3)
  proof (induction rule: rtranclp_induct)
    case (step t u)
    have "funds_ok t \<and> life_ok t"
      using reachable_life [OF rtranclp_trans [OF assms(2) step.hyps(1)] assms(1)] by simp
    then show ?case using step_refines [of t u] step by (meson rtranclp_trans)
  qed simp
  moreover have "contracts s i = Some (contract_of r)" by (simp add: contracts_def assms(4))
  ultimately have "contracts s' i = Some (contract_of r)"
    using ended_contract_stays assms(5) by (auto simp: contract_of_def)
  then show ?thesis by (auto simp: contracts_def contract_of_def)
qed

theorem ended_session_is_final_witness:
  "\<exists>r'. lookup s_id ''s1'' (sessions demo_settled) = Some r' \<and> s_state r' = S_TERMINAL COMPLETED"
proof -
  obtain r where r: "sessions demo_settled = [r]" "s_state r = S_TERMINAL COMPLETED"
    using demo_settled_row(1) by auto
  have "s_id r = ''s1''"
  proof -
    have "contracts demo_settled ''s1'' \<noteq> None"
      by (rule steps_keep_rows [OF demo_no_sessions demo_step4 demo_step5])
        (simp add: contracts_def demo_running_def demo_rows)
    then show ?thesis using r by (auto simp: contracts_def split: if_splits)
  qed
  then have "lookup s_id ''s1'' (sessions demo_settled) = Some r" using r by simp
  then show ?thesis
    using ended_session_is_final [OF demo_no_sessions session_demo_steps rtranclp.rtrancl_refl, of "''s1''" r] r(2)
    by simp
qed

text \<open>
  C3: the held account of every user carries, in every reachable database, exactly the holds of the
  user's sessions that have not ended: no credit is stuck there after an end, and none is missing
  while a session lives.
\<close>

theorem held_credits_exact:
  assumes "no_sessions s" and "session_step\<^sup>*\<^sup>* s s'"
  shows "bal (ledger s') (heldAccount u) =
    sum_list (map s_hold_microtu (filter (\<lambda>r. s_user_id r = u \<and> \<not> is_terminal (s_state r)) (sessions s')))"
proof -
  have "bal (ledger s') (heldAccount u) = held_total u s'"
    using reachable_funds [OF assms(2,1)] by (simp add: funds_ok_def)
  moreover have "sum_list (map (live_hold u) rs) =
      sum_list (map s_hold_microtu (filter (\<lambda>r. s_user_id r = u \<and> \<not> is_terminal (s_state r)) rs))" for rs
    by (induction rs) (auto simp: live_hold_def)
  ultimately show ?thesis by (simp add: held_total_def)
qed

theorem held_credits_exact_witness:
  "bal (ledger demo_running) (heldAccount ''a1'') = 4389"
  using held_credits_exact [OF demo_no_sessions demo_step4, of "''a1''"]
  by (simp add: demo_running_def demo_rows)

end
