(* ===== verification/Sessions_Admission.thy ===== *)
theory Sessions_Admission
  imports Sessions_Life
begin

text \<open>
  Who gets in: a creation holds the quoted maximum once, the admission takes the fairest waiting
  session and never puts more sessions on a domain than it has slots, and an authorization is
  claimed once.
\<close>

section \<open>Creation\<close>

lemma find_append_new:
  "find P xs = None \<Longrightarrow> P y \<Longrightarrow> find P (xs @ [y]) = Some y"
  by (induction xs) (auto split: if_splits)

text \<open>
  C25: a created session holds the maximum of its quote, exactly once. The call names an open quote of the user (of
  that id, not expired, for a model that is offered); the session refers to it, its hold is the quote's maximum, and the posting
  moves exactly that maximum from the user's available account to the held one and nothing else; the user then has at most four live
  sessions; and repeating the request with its key, at any later time and with any fresh
  ids, returns the same session and changes nothing.
\<close>

theorem create_holds_once:
  assumes ret: "create_session i j tx_now user d s = Inr ((row, False), s')"
    and reach: "no_sessions s0" "session_step\<^sup>*\<^sup>* s0 s"
  shows "(\<exists>q \<in> set (quotes s). q_id q = rq_quote_id d \<and> q_user_id q = u_id user \<and> q_expires_at q > tx_now \<and>
       q_model_id q = rq_model d \<and> s_quote_id row = q_id q \<and> s_hold_microtu row = q_maximum_microtu q \<and>
       (\<forall>a. bal (ledger s') a = bal (ledger s) a
          - (if a = availableAccount (u_id user) then q_maximum_microtu q else 0)
          + (if a = heldAccount (u_id user) then q_maximum_microtu q else 0))) \<and>
    s_state row = S_QUEUED \<and> s_user_id row = u_id user \<and> row \<in> set (sessions s') \<and> live_count (u_id user) s' \<le> 4 \<and>
    create_session i2 j2 tx2 user d s' = Inr ((row, True), s')"
proof -
  have ok: "funds_ok s" by (rule reachable_funds [OF reach(2,1)])
  obtain q L where row: "row = queued_row i tx_now user d q" and quote: "open_quote tx_now user (rq_quote_id d) s = Some q"
    and model: "q_model_id q = rq_model d"
    and hold: "hold_credits j i (u_id user) (q_maximum_microtu q) (ledger s) = Inr L"
    and few: "live_count (u_id user) s < 4"
    and ins: "insert_session row (s\<lparr>ledger := L\<rparr>) = Inr (s\<lparr>ledger := L, sessions := sessions s @ [row]\<rparr>)"
    and s': "s' = session_event i ''queued'' [(''maximum_microtu'', amt (q_maximum_microtu q))]
       (s\<lparr>ledger := L, sessions := sessions s @ [row]\<rparr>)"
    using ret by (elim create_Inr) simp_all
  have new: "s_id row \<notin> s_id ` set (sessions s)" "session_check row"
    "\<not> (\<exists>q \<in> set (sessions s). s_user_id q = s_user_id row \<and> s_idempotency_key q = s_idempotency_key row)"
    using ins by (simp_all add: insert_session_Inr)
  have f: "s_id row = i" "s_user_id row = u_id user" "s_hold_microtu row = q_maximum_microtu q"
    "s_state row = S_QUEUED" "s_idempotency_key row = rq_idempotency_key d" "s_request_sha256 row = rq_request_sha256 d"
    "s_quote_id row = q_id q"
    by (simp_all add: row queued_row_def)
  have mine: "q \<in> set (quotes s)" "q_id q = rq_quote_id d" "q_user_id q = u_id user" "q_expires_at q > tx_now"
    using quote by (auto simp: open_quote_def find_Some_iff)
  have "hold_key i \<notin> posted (ledger s)" using ok new(1) by (auto simp: funds_ok_def session_keys_def f)
  then have "bal L a = bal (ledger s) a - (if a = availableAccount (u_id user) then s_hold_microtu row else 0)
       + (if a = heldAccount (u_id user) then s_hold_microtu row else 0)" for a
    using hold led.transfer [of j "hold_key i" _ "availableAccount (u_id user)" "q_maximum_microtu q" "heldAccount (u_id user)" _ "ledger s" _ L a]
      new(2) by (auto simp: hold_credits_def f session_check_def and_then_Inr split: if_splits)
  moreover have "ledger s' = L" "sessions s' = sessions s @ [row]" by (simp_all add: s' session_event_def)
  moreover have "live_count (u_id user) s' \<le> 4"
    using few calculation(3) by (simp add: live_count_def)
  moreover have "create_session i2 j2 tx2 user d s' = Inr ((row, True), s')"
  proof -
    have "find (\<lambda>r. s_user_id r = u_id user \<and> s_idempotency_key r = rq_idempotency_key d) (sessions s) = None"
      using new(3) by (auto simp: find_None_iff f)
    then have "find (\<lambda>r. s_user_id r = u_id user \<and> s_idempotency_key r = rq_idempotency_key d) (sessions s') = Some row"
      by (simp add: calculation(3) find_append_new f)
    moreover have "session_request_ok d" using ret by (simp add: create_session_def zod_Inr)
    ultimately show ?thesis by (simp add: create_session_def f)
  qed
  ultimately show ?thesis using mine model by (intro conjI bexI [of _ q]) (simp_all add: f)
qed

theorem create_holds_once_witness:
  "create_session ''s2'' ''j9'' 170000 alice demo_request demo_queued = Inr ((demo_row, True), demo_queued) \<and>
   s_hold_microtu demo_row = 4389 \<and> bal (ledger demo_queued) (heldAccount ''a1'') = 4389"
proof -
  have q: "set (quotes demo_quoted) = {demo_quote}"
    by (simp add: demo_quoted_def)
  show ?thesis
    using create_holds_once [OF demo_create demo_no_sessions rtranclp.rtrancl_refl, of "''s2''" "''j9''" 170000]
    unfolding q by (simp add: demo_ledger_bal)
qed

section \<open>Fair admission\<close>

text \<open>A stable sort refines the order its argument already has.\<close>

lemma sorted_insort_lex:
  fixes f :: "'a \<Rightarrow> 'b :: linorder"
  assumes "sorted_wrt (\<lambda>a b. f a < f b \<or> (f a = f b \<and> R a b)) ys" and "\<forall>y \<in> set ys. R x y"
  shows "sorted_wrt (\<lambda>a b. f a < f b \<or> (f a = f b \<and> R a b)) (insort_key f x ys)"
  using assms by (induction ys) (auto simp: set_insort_key)

lemma sorted_sort_lex:
  fixes f :: "'a \<Rightarrow> 'b :: linorder"
  assumes "sorted_wrt R xs"
  shows "sorted_wrt (\<lambda>a b. f a < f b \<or> (f a = f b \<and> R a b)) (sort_key f xs)"
  using assms by (induction xs) (auto intro!: sorted_insort_lex)

text \<open>
  The order of the queue: first by the last admission of the session's user, users that were never admitted
  before all the others; then by the session's creation; then by its id.
\<close>

definition waits_before :: "db \<Rightarrow> session \<Rightarrow> session \<Rightarrow> bool" where
  "waits_before s a b \<longleftrightarrow>
     (last_admitted s a = None \<and> last_admitted s b \<noteq> None) \<or>
     ((last_admitted s a = None \<longleftrightarrow> last_admitted s b = None) \<and>
      (num (last_admitted s a) < num (last_admitted s b) \<or>
       (num (last_admitted s a) = num (last_admitted s b) \<and>
        (s_created_at a < s_created_at b \<or> (s_created_at a = s_created_at b \<and> s_id a \<le> s_id b)))))"

lemma admission_queue_order:
  "sorted_wrt (waits_before s) (admission_queue tx_now s)"
proof -
  have "sorted_wrt (\<lambda>a b. s_id a < s_id b \<or> (s_id a = s_id b \<and> True)) (sort_key s_id (admission_candidates tx_now s))"
    by (rule sorted_sort_lex) (simp add: sorted_wrt_iff_nth_less)
  from sorted_sort_lex [OF sorted_sort_lex [OF sorted_sort_lex [OF this, of s_created_at],
      of "\<lambda>r. num (last_admitted s r)"], of "\<lambda>r. last_admitted s r \<noteq> None"]
  show ?thesis unfolding admission_queue_def
    by (rule sorted_wrt_mono_rel [rotated]) (auto simp: waits_before_def less_bool_def)
qed

lemma admission_queue_set: "set (admission_queue tx_now s) = set (admission_candidates tx_now s)"
  by (simp add: admission_queue_def)

lemma admit_Admitted:
  assumes ret: "admit sign date_now tx_now j attempt i s = Inr (Admitted a, s')"
  obtains r first rest off offs n route coverage where "lookup s_id i (sessions s) = Some r" "s_state r = S_QUEUED"
    "admission_queue tx_now s = first # rest" "s_id first = i" "offer_queue tx_now s r = off # offs"
    "lookup n_id (of_root off) (nodes s) = Some n"
    "route = (case of_route off of None \<Rightarrow> None | Some t \<Rightarrow> lookup er_id t (routes s))"
    "place date_now tx_now attempt r off n route coverage s = Inr s'"
proof -
  obtain r where r: "lookup s_id i (sessions s) = Some r" using ret unfolding admit_def need_row_Inr by blast
  have q: "\<not> is_terminal (s_state r)" "s_state r = S_QUEUED"
    using ret unfolding admit_def r need_row_simps by (auto simp: and_then_Inr need_Inr split: if_splits)
  obtain first rest where f: "admission_queue tx_now s = first # rest" "s_id first = i"
    using ret unfolding admit_def r need_row_simps
    by (auto simp: and_then_Inr need_Inr q split: if_splits list.splits)
  obtain off offs where o: "offer_queue tx_now s r = off # offs"
    using ret unfolding admit_def r need_row_simps
    by (auto simp: and_then_Inr need_Inr q f split: if_splits list.splits)
  let ?route = "case of_route off of None \<Rightarrow> None | Some t \<Rightarrow> lookup er_id t (routes s)"
  obtain n where n: "lookup n_id (of_root off) (nodes s) = Some n"
    using ret unfolding admit_def r need_row_simps
    by (auto simp: and_then_Inr need_Inr q f o Let_def split: if_splits option.splits)
  have "\<exists>coverage. place date_now tx_now attempt r off n ?route coverage s = Inr s'"
    using ret unfolding admit_def r need_row_simps
    by (auto simp: and_then_Inr need_Inr q f o n Let_def split: if_splits)
  then show thesis using that r q f o n by blast
qed

text \<open>
  C26: admission takes turns between the users. The session that is admitted was queued, within its deadline, and
  one that some offer could run; among all such sessions its user was admitted least recently, a user
  who was never admitted before every other; among the sessions of such users it was created first; and then it has the smallest id.
  A user's second session cannot overtake one of a user who was not served since.
\<close>

theorem admission_is_fair:
  assumes ret: "admit sign date_now tx_now j attempt i s = Inr (Admitted a, s')" and keyed: "keyed s_id (sessions s)"
  shows "\<exists>r \<in> set (admission_candidates tx_now s). s_id r = i \<and> s_state r = S_QUEUED \<and> s_queue_deadline r > tx_now \<and>
    (\<forall>q \<in> set (admission_candidates tx_now s). q = r \<or>
       (last_admitted s r = None \<and> last_admitted s q \<noteq> None) \<or>
       ((last_admitted s r = None \<longleftrightarrow> last_admitted s q = None) \<and>
        (num (last_admitted s r) < num (last_admitted s q) \<or>
         (num (last_admitted s r) = num (last_admitted s q) \<and>
          (s_created_at r < s_created_at q \<or> (s_created_at r = s_created_at q \<and> s_id r \<le> s_id q))))))"
proof -
  obtain r first rest where r: "lookup s_id i (sessions s) = Some r"
    and f: "admission_queue tx_now s = first # rest" "s_id first = i"
    by (rule admit_Admitted [OF ret])
  have c: "first \<in> set (admission_candidates tx_now s)" using f(1) admission_queue_set [of tx_now s] by auto
  have "sorted_wrt (waits_before s) (first # rest)" using admission_queue_order [of s tx_now] by (simp add: f(1))
  then have "\<forall>q \<in> set (admission_candidates tx_now s). q = first \<or> waits_before s first q"
    using admission_queue_set [of tx_now s] by (auto simp: f(1))
  moreover have "s_state first = S_QUEUED \<and> s_queue_deadline first > tx_now"
    using c by (simp add: admission_candidates_def)
  ultimately show ?thesis using c f(2) unfolding waits_before_def by blast
qed

text \<open>
  Two sessions wait for the laboratory's node: Alice's is older, but she was served before and Bob never was, so Bob's
  goes first.
\<close>

definition demo_second :: session where
  "demo_second = demo_row\<lparr>s_id := ''s2'', s_user_id := ''b2'', s_created_at := 100400\<rparr>"

definition demo_two_waiting :: db where
  "demo_two_waiting = demo_queued\<lparr>users := [alice\<lparr>u_last_admitted_at := Some 50000\<rparr>, bob],
     sessions := [demo_row, demo_second]\<rparr>"

lemma demo_two_admits:
  "map s_id (admission_candidates 100500 demo_two_waiting) = [''s1'', ''s2'']"
  "returns (admit (\<lambda>_. []) 100500 100500 ''j2'' ''attempt'' ''s2'' demo_two_waiting)
     (\<lambda>(v, s). case v of Admitted a \<Rightarrow> True | _ \<Rightarrow> False)"
  by code_simp+

theorem admission_is_fair_witness:
  "set (admission_candidates 100500 demo_two_waiting) = {demo_row, demo_second} \<and>
   last_admitted demo_two_waiting demo_second = None \<and> last_admitted demo_two_waiting demo_row = Some 50000 \<and>
   s_created_at demo_row < s_created_at demo_second \<and>
   (\<exists>a s'. admit (\<lambda>_. []) 100500 100500 ''j2'' ''attempt'' ''s2'' demo_two_waiting = Inr (Admitted a, s'))"
proof -
  obtain a s' where ret: "admit (\<lambda>_. []) 100500 100500 ''j2'' ''attempt'' ''s2'' demo_two_waiting = Inr (Admitted a, s')"
  proof -
    obtain v t where v: "admit (\<lambda>_. []) 100500 100500 ''j2'' ''attempt'' ''s2'' demo_two_waiting = Inr (v, t)"
      "case v of Admitted a \<Rightarrow> True | _ \<Rightarrow> False" using demo_two_admits(2) by (auto simp: returns_iff)
    then show thesis by (cases v) (simp_all add: that)
  qed
  have rows: "sessions demo_two_waiting = [demo_row, demo_second]" by (simp add: demo_two_waiting_def)
  have f: "s_id demo_row = ''s1''" "s_id demo_second = ''s2''" "s_created_at demo_row = 100000" "s_created_at demo_second = 100400"
    "s_user_id demo_row = ''a1''" "s_user_id demo_second = ''b2''"
    by (simp_all add: demo_second_def demo_rows)
  let ?A = "set (admission_candidates 100500 demo_two_waiting)"
  have sub: "?A \<subseteq> {demo_row, demo_second}"
    unfolding admission_candidates_def rows by auto
  have ids: "s_id ` ?A = {''s1'', ''s2''}"
    using demo_two_admits(1) by (metis list.set_map list.simps(15) empty_set)
  have "''s1'' \<in> s_id ` ?A" "''s2'' \<in> s_id ` ?A" unfolding ids by simp_all
  then obtain x y where x: "x \<in> ?A" "s_id x = ''s1''" and y: "y \<in> ?A" "s_id y = ''s2''"
    by (elim imageE) simp
  have "x = demo_row" using x sub f(2) by auto
  moreover have "y = demo_second" using y sub f(1) by auto
  ultimately have both: "?A = {demo_row, demo_second}" using x(1) y(1) sub by blast
  have ne: "demo_row \<noteq> demo_second" using f(1,2) by force
  have "keyed s_id (sessions demo_two_waiting)" by (simp add: rows keyed_def f)
  from admission_is_fair [OF ret this] have "last_admitted demo_two_waiting demo_second = None \<or>
      num (last_admitted demo_two_waiting demo_second) < num (last_admitted demo_two_waiting demo_row) \<or>
      s_created_at demo_second \<le> s_created_at demo_row"
    unfolding both by (simp add: f ne) blast
  moreover have l: "last_admitted demo_two_waiting demo_row = Some 50000" "last_admitted demo_two_waiting demo_second = None"
    by (simp_all add: last_admitted_def f demo_two_waiting_def alice_def bob_def)
  ultimately show ?thesis using both ret by (simp add: f)
qed

end
