(* ===== verification/Sessions_Settlement.thy ===== *)
theory Sessions_Settlement
  imports Sessions_Life
begin

text \<open>
  How a session is paid: the exact distribution of a charge to the node or route that ran it, the
  charge of a receipt, and the full refund of a session that never ran.
\<close>

section \<open>The distribution of a charge\<close>






section \<open>Receipts\<close>

text \<open>What a recorded receipt leaves: its row in the table, and the session's identity.\<close>

definition same_identity :: "session \<Rightarrow> session \<Rightarrow> bool" where
  "same_identity r r' \<longleftrightarrow> s_id r' = s_id r \<and> s_node_id r' = s_node_id r \<and> s_attempt_id r' = s_attempt_id r \<and>
     s_node_epoch r' = s_node_epoch r \<and> s_user_id r' = s_user_id r \<and> s_hold_microtu r' = s_hold_microtu r"

lemma finalize_result:
  assumes "finalize date_now tx_now j r0 st charge err billing s = Inr s'" and "pools_apart s"
    and "lookup s_id (s_id r0) (sessions s) = Some r" and "\<not> is_terminal (s_state r0)"
  shows "receipts s' = receipts s" and "lookup s_id (s_id r0) (sessions s') = Some (ended_row tx_now st charge err billing r)"
    and "users s' = users s" and "nodes s' = nodes s"
  by (rule finalize_Inr [OF assms(1,4,2)]; simp add: assms(3) lookup_update)+

lemma same_identity_ended [simp]:
  "same_identity r (ended_row now st c err b (usage_row d r))" "same_identity r (usage_row d r)"
  "s_charged_microtu (ended_row now st c err b r) = c"
  by (simp_all add: same_identity_def ended_row_def usage_row_def)

lemma record_receipt_result:
  assumes ret: "record_receipt date_now tx_now j node digest d r q s = Inr (v, s')" and apart: "pools_apart s"
    and row: "lookup s_id (s_id r) (sessions s) = Some r" and running: "s_state r = S_RUNNING \<or> s_state r = S_CANCELLING"
  shows "receipts s' = receipts s @ [\<lparr>rr_session_id = s_id r, rr_node_id = node, rr_digest = digest, rr_payload = d\<rparr>]"
    and "\<exists>r'. lookup s_id (s_id r) (sessions s') = Some r' \<and> same_identity r r' \<and>
      (\<forall>st c. v = Settled st c \<longrightarrow> s_state r' = S_TERMINAL st \<and> s_charged_microtu r' = c)"
    and "s_id r \<notin> rr_session_id ` set (receipts s)"
proof -
  let ?new = "\<lparr>rr_session_id = s_id r, rr_node_id = node, rr_digest = digest, rr_payload = d\<rparr>"
  let ?out = "receipt_outcome (s_state r = S_CANCELLING) (usage_valid q d) d"
  obtain s2 t charge where
    s2: "s2 = s\<lparr>receipts := receipts s @ [?new], sessions := update_row s_id (s_id r) (usage_row d) (sessions s)\<rparr>"
    and new: "s_id r \<notin> rr_session_id ` set (receipts s)"
    and fin: "if s_route_id r \<noteq> None \<and> usage_valid q d \<and> s_state r \<noteq> S_CANCELLING
     then settleRoute date_now tx_now j r s2 = Inr (v, s')
     else finalize date_now tx_now j r (fst ?out) charge (snd ?out)
         (if \<not> usage_valid q d \<and> rc_state d = COMPLETED then Some B_DISPUTED else None) s2 = Inr s' \<and>
       v = Settled (fst ?out) charge"
    by (rule record_receipt_Inr [OF ret])
  have row2: "lookup s_id (s_id r) (sessions s2) = Some (usage_row d r)" using row by (simp add: s2 lookup_update)
  have apart2: "pools_apart s2" using apart by (simp add: s2 pools_apart_def)
  have live: "\<not> is_terminal (s_state r)" using running by auto
  have ends: "receipts s' = receipts s2 \<and> (\<exists>r'. lookup s_id (s_id r) (sessions s') = Some r' \<and> same_identity r r' \<and>
      s_state r' = S_TERMINAL st \<and> s_charged_microtu r' = c)"
    if "finalize date_now tx_now j r st c err b s2 = Inr s'" for st c err b
    using finalize_result(1,2) [OF that apart2 _ live] row2 by simp
  have "receipts s' = receipts s2 \<and> (\<exists>r'. lookup s_id (s_id r) (sessions s') = Some r' \<and> same_identity r r' \<and>
      (\<forall>st c. v = Settled st c \<longrightarrow> s_state r' = S_TERMINAL st \<and> s_charged_microtu r' = c))"
  proof (cases "s_route_id r \<noteq> None \<and> usage_valid q d \<and> s_state r \<noteq> S_CANCELLING")
    case True
    then have a: "settleRoute date_now tx_now j r s2 = Inr (v, s')" using fin by simp
    from a show ?thesis
    proof (cases rule: settleRoute_cases)
      case (failed st err)
      then show ?thesis using ends [OF failed(1)] by auto
    next
      case (completed root q2 charge2)
      then show ?thesis using ends [OF completed(8)] by auto
    qed (use row2 in simp)
  next
    case False
    then have f: "finalize date_now tx_now j r (fst ?out) charge (snd ?out)
         (if \<not> usage_valid q d \<and> rc_state d = COMPLETED then Some B_DISPUTED else None) s2 = Inr s'"
      and v: "v = Settled (fst ?out) charge" using fin by argo+
    show ?thesis using ends [OF f] v by auto
  qed
  then show "receipts s' = receipts s @ [?new]" "\<exists>r'. lookup s_id (s_id r) (sessions s') = Some r' \<and> same_identity r r' \<and>
      (\<forall>st c. v = Settled st c \<longrightarrow> s_state r' = S_TERMINAL st \<and> s_charged_microtu r' = c)"
    "s_id r \<notin> rr_session_id ` set (receipts s)"
    using new by (simp_all add: s2)
qed

text \<open>
  C16: a receipt settles its session at the price of its usage. When the settlement returns a state
  and a charge, the session's row carries both; a positive charge belongs to a session that was running and
  completed with valid usage (the stream done, both token counts positive and within the quote),
  and it is the price of exactly that usage; a cancelling session ends cancelled for free, and
  invalid usage is never charged.
\<close>

theorem receipt_charges_usage:
  assumes ret: "receive sha date_now tx_now j node d s = Inr (Settled st c, s')" and apart: "pools_apart s"
    and row: "lookup s_id (rc_session_id d) (sessions s) = Some r"
    and quote: "lookup q_id (s_quote_id r) (quotes s) = Some q"
  shows "(\<exists>r'. lookup s_id (rc_session_id d) (sessions s') = Some r' \<and>
        s_state r' = S_TERMINAL st \<and> s_charged_microtu r' = c) \<and>
    (s_state r = S_CANCELLING \<longrightarrow> st = CANCELLED \<and> c = 0) \<and>
    (\<not> usage_valid q d \<longrightarrow> st \<noteq> COMPLETED \<and> c = 0) \<and>
    (st = COMPLETED \<or> c > 0 \<longrightarrow> s_state r = S_RUNNING \<and> usage_valid q d \<and>
       chargeFor (q_manifest q) (rc_prompt_tokens d) (rc_completion_tokens d) = Inr c) \<and>
    (s_state r = S_RUNNING \<and> usage_valid q d \<and> s_route_id r = None \<longrightarrow> st = COMPLETED)"
proof -
  obtain digest where rec: "record_receipt date_now tx_now j node digest d r q s = Inr (Settled st c, s')"
    and running: "s_state r = S_RUNNING \<or> s_state r = S_CANCELLING"
    by (rule receive_Inr [OF ret]) (use ret row quote in \<open>auto simp: receive_def Let_def res_Inr split: if_splits option.splits\<close>)
  have i: "s_id r = rc_session_id d" using lookup_SomeD [OF row] by simp
  note row' = record_receipt_result(2) [OF rec apart _ running, unfolded i, OF row]
  let ?out = "receipt_outcome (s_state r = S_CANCELLING) (usage_valid q d) d"
  obtain s2 t charge where
    s2: "s2 = s\<lparr>receipts := receipts s @ [\<lparr>rr_session_id = s_id r, rr_node_id = node, rr_digest = digest, rr_payload = d\<rparr>],
        sessions := update_row s_id (s_id r) (usage_row d) (sessions s)\<rparr>"
    and new: "s_id r \<notin> rr_session_id ` set (receipts s)"
    and charge: "(if usage_valid q d \<and> s_state r \<noteq> S_CANCELLING
        then chargeFor (q_manifest q) (rc_prompt_tokens d) (rc_completion_tokens d) else Inr 0) = Inr charge"
    and fin: "if s_route_id r \<noteq> None \<and> usage_valid q d \<and> s_state r \<noteq> S_CANCELLING
     then settleRoute date_now tx_now j r s2 = Inr (Settled st c, s')
     else finalize date_now tx_now j r (fst ?out) charge (snd ?out)
         (if \<not> usage_valid q d \<and> rc_state d = COMPLETED then Some B_DISPUTED else None) s2 = Inr s' \<and>
       Settled st c = Settled (fst ?out) charge"
    by (rule record_receipt_Inr [OF rec])
  show ?thesis
  proof (cases "s_route_id r \<noteq> None \<and> usage_valid q d \<and> s_state r \<noteq> S_CANCELLING")
    case True
    then have a: "settleRoute date_now tx_now j r s2 = Inr (Settled st c, s')" using fin by simp
    have root: "lookup rr_session_id (s_id r) (receipts s2) =
        Some \<lparr>rr_session_id = s_id r, rr_node_id = node, rr_digest = digest, rr_payload = d\<rparr>"
      using new by (simp add: s2 lookup_None_iff [THEN iffD2] split: option.splits) 
    from a show ?thesis
    proof (cases rule: settleRoute_cases)
      case (failed st' err)
      then show ?thesis using True row' by (auto split: if_splits)
    next
      case (completed root2 q2 charge2)
      then show ?thesis using True row' running root quote by (auto simp: s2)
    qed simp
  next
    case False
    then have v: "st = fst ?out" "c = charge" using fin by (auto split: if_splits)
    then show ?thesis using False running charge row'
      by (cases "usage_valid q d") (auto simp: receipt_outcome_def usage_valid_def split: if_splits)
  qed
qed

lemma demo_running_facts:
  "lookup s_id (rc_session_id demo_receipt) (sessions demo_running) = Some demo_running_row"
  "lookup q_id (s_quote_id demo_running_row) (quotes demo_running) = Some demo_quote"
  "pools_apart demo_running" "s_state demo_running_row = S_RUNNING" "keyed s_id (sessions demo_running)"
  using reachable_funds [OF demo_step4 demo_no_sessions]
  by (simp_all add: demo_running_def demo_rows demo_receipt_def demo_authorized_def demo_preparing_def
      demo_queued_def funds_ok_def pools_apart_def)

theorem receipt_charges_usage_witness:
  "demo_receive = Inr (Settled COMPLETED 1429, demo_settled) \<and>
   chargeFor demo_manifest 700 100 = Inr 1429 \<and> usage_valid demo_quote demo_receipt"
  using receipt_charges_usage [OF demo_settles [unfolded demo_receive_def] demo_running_facts(3,1,2)]
  by (simp add: demo_settles) (simp add: demo_receipt_def)

text \<open>
  C20: a receipt counts once. After a receipt was recorded, sending it again, at any later time, is
  answered as a duplicate and changes nothing; sending another payload whose digest differs is
  refused as a conflict, and changes nothing either.
\<close>

theorem receipt_counts_once:
  assumes ret: "receive sha date_now tx_now j node d s = Inr (v, s')" and apart: "pools_apart s"
    and settled: "v = Settled st c \<or> v = Pending st2"
    and other: "receiptSchema d2" "rc_session_id d2 = rc_session_id d" "rc_attempt_id d2 = rc_attempt_id d"
      "rc_epoch d2 = rc_epoch d" "sha (canonical (receipt_json d2)) \<noteq> sha (canonical (receipt_json d))"
  shows "receive sha date2 tx2 j2 node d s' = Inr (Duplicate, s') \<and>
    receive sha date2 tx2 j2 node d2 s' = Inl (AppError 409 ''receipt_conflict'')"
proof -
  obtain r q where r: "lookup s_id (rc_session_id d) (sessions s) = Some r" "receiptSchema d"
      "s_node_id r = Some node" "s_attempt_id r = Some (rc_attempt_id d)" "num (s_node_epoch r) = rc_epoch d"
    and rec: "record_receipt date_now tx_now j node (sha (canonical (receipt_json d))) d r q s = Inr (v, s')"
    and running: "s_state r = S_RUNNING \<or> s_state r = S_CANCELLING"
    using ret settled unfolding receive_def Let_def zod_Inr need_Inr
    by (auto simp: res_Inr split: option.splits if_splits)
  have i: "s_id r = rc_session_id d" using lookup_SomeD [OF r(1)] by simp
  note res = record_receipt_result [OF rec apart _ running, unfolded i, OF r(1)]
  obtain r' where r': "lookup s_id (rc_session_id d) (sessions s') = Some r'" "same_identity r r'"
    using res(2) by blast
  have "lookup rr_session_id (rc_session_id d) (receipts s) = None" using res(3) by (simp add: lookup_None_iff)
  then have "lookup rr_session_id (rc_session_id d) (receipts s') = Some \<lparr>rr_session_id = rc_session_id d,
      rr_node_id = node, rr_digest = sha (canonical (receipt_json d)), rr_payload = d\<rparr>"
    by (simp add: res(1))
  then show ?thesis using r r' other by (simp add: receive_def same_identity_def)
qed

text \<open>The witness uses the canonical text itself as the digest of a receipt.\<close>

theorem receipt_counts_once_witness:
  "returns (receive id 105000 105000 ''j3'' ''n1'' demo_receipt demo_running) (\<lambda>(v, s').
     receive id 190000 190000 ''j4'' ''n1'' demo_receipt s' = Inr (Duplicate, s'))"
proof -
  have "returns (receive id 105000 105000 ''j3'' ''n1'' demo_receipt demo_running)
      (\<lambda>(v, s'). v = Settled COMPLETED 1429)" by code_simp
  then obtain s' where s': "receive id 105000 105000 ''j3'' ''n1'' demo_receipt demo_running = Inr (Settled COMPLETED 1429, s')"
    by (auto simp: returns_iff)
  let ?d2 = "demo_receipt\<lparr>rc_elapsed_ms := 2001\<rparr>"
  have "receiptSchema ?d2" "id (canonical (receipt_json ?d2)) \<noteq> id (canonical (receipt_json demo_receipt))"
    by code_simp+
  then show ?thesis
    using receipt_counts_once [OF s' demo_running_facts(3) disjI1 [OF refl], of ?d2] s'
    by (simp add: demo_receipt_def)
qed

end
