(* ===== verification/Sessions_Progress.thy ===== *)
theory Sessions_Progress
  imports Sessions_Settlement
begin

text \<open>
  What the session API gets done: a session that never ran can always be cancelled, with its whole
  hold returned, and the reaper ends every session whose deadline or node is gone.
\<close>

section \<open>A refund goes through\<close>

text \<open>
  The state a refund needs: the triggers of the session's row satisfied and, when there is a hold to return,
  the user's two accounts with room for it (a balance is a 64-bit column).
\<close>

definition room :: "uuid \<Rightarrow> ledger \<Rightarrow> bool" where
  "room u L \<longleftrightarrow> bal L (availableAccount u) + bal L (heldAccount u) \<le> MAX_AMOUNT"

definition refundable :: "db \<Rightarrow> session \<Rightarrow> bool" where
  "refundable s r \<longleftrightarrow> session_identity s r \<and>
     (s_hold_microtu r > 0 \<longrightarrow>
        accounts (ledger s) (heldAccount (s_user_id r)) \<noteq> None \<and>
        accounts (ledger s) (availableAccount (s_user_id r)) \<noteq> None \<and>
        0 \<le> bal (ledger s) (availableAccount (s_user_id r)) \<and> room (s_user_id r) (ledger s))"

lemma live_hold_nonneg: "session_check r \<Longrightarrow> 0 \<le> live_hold u r"
  by (simp add: live_hold_def session_check_def)

lemma held_total_ge:
  assumes "funds_ok s" and "r \<in> set (sessions s)" and "\<not> is_terminal (s_state r)"
  shows "s_hold_microtu r \<le> held_total (s_user_id r) s"
proof -
  have "\<forall>q \<in> set (sessions s). 0 \<le> live_hold (s_user_id r) q"
    using assms(1) live_hold_nonneg by (auto simp: funds_ok_def list_all_iff)
  moreover have "live_hold (s_user_id r) r = s_hold_microtu r" using assms(3) by (simp add: live_hold_def)
  ultimately show ?thesis using assms(2) unfolding held_total_def
    by (metis (no_types, lifting) image_iff list.set_map member_le_sum_list)
qed

lemma ended_row_check:
  assumes "session_check r" and "0 \<le> charge" and "charge \<le> s_hold_microtu r"
  shows "session_check (ended_row now st charge err billing r)"
  using assms by (simp add: session_check_def ended_row_def)

lemma ended_row_identity [simp]:
  "session_identity s (ended_row now st c err b r) = session_identity s r"
  "cooperation_kept r (ended_row now st c err b r)"
proof -
  have "s_quote_id (ended_row now st c err b r) = s_quote_id r"
    "s_cooperative_pool_id (ended_row now st c err b r) = s_cooperative_pool_id r"
    "s_cooperative_policy_sha256 (ended_row now st c err b r) = s_cooperative_policy_sha256 r"
    "s_coverage_lease_id (ended_row now st c err b r) = s_coverage_lease_id r"
    "s_coverage_terms_sha256 (ended_row now st c err b r) = s_coverage_terms_sha256 r"
    "s_route_id (ended_row now st c err b r) = s_route_id r" by (simp_all add: ended_row_def)
  then show "session_identity s (ended_row now st c err b r) = session_identity s r"
    "cooperation_kept r (ended_row now st c err b r)"
    unfolding session_identity_def cooperation_kept_def by (simp_all only: simp_thms)
qed

lemma refunded_row_identity: "session_identity s (refunded_row r) = session_identity s r"
proof -
  have "s_quote_id (refunded_row r) = s_quote_id r" "s_cooperative_pool_id (refunded_row r) = s_cooperative_pool_id r"
    "s_cooperative_policy_sha256 (refunded_row r) = s_cooperative_policy_sha256 r"
    "s_coverage_lease_id (refunded_row r) = s_coverage_lease_id r"
    "s_coverage_terms_sha256 (refunded_row r) = s_coverage_terms_sha256 r"
    "s_route_id (refunded_row r) = s_route_id r" by (simp_all add: refunded_row_def)
  then show ?thesis unfolding session_identity_def by (simp only: simp_thms)
qed

text \<open>Ending a live session without a charge.\<close>

lemma refund_succeeds:
  assumes ok: "funds_ok s" and row: "lookup s_id (s_id r) (sessions s) = Some r"
    and live: "\<not> is_terminal (s_state r)" and ref: "refundable s r" and j: "j \<notin> j_id ` set (journal (ledger s))"
  obtains s' L where "finalize date_now tx_now j r st 0 err billing s = Inr s'"
    "s' = session_event (s_id r) ''terminal''
      [(''state'', JStr (terminal_text st)), (''error_code'', opt_str err), (''charged_microtu'', amt 0)]
      (s\<lparr>ledger := L, sessions := update_row s_id (s_id r) (ended_row tx_now st 0 err billing) (sessions s)\<rparr>)"
    "dom (accounts L) = dom (accounts (ledger s))"
    "j_id ` set (journal L) \<subseteq> insert j (j_id ` set (journal (ledger s)))"
    "\<And>a. bal L a = bal (ledger s) a
       - (if a = heldAccount (s_user_id r) then s_hold_microtu r else 0)
       + (if a = availableAccount (s_user_id r) then s_hold_microtu r else 0)"
proof -
  let ?u = "s_user_id r" and ?h = "s_hold_microtu r"
  have r: "r \<in> set (sessions s)" using lookup_SomeD [OF row] by simp
  have check: "session_check r" using ok r by (simp add: funds_ok_def list_all_iff)
  have fresh: "settle_key (s_id r) \<notin> posted (ledger s)" using ok r live by (simp add: funds_ok_def)
  have held: "bal (ledger s) (heldAccount ?u) = held_total ?u s" using ok by (simp add: funds_ok_def)
  have hold: "0 \<le> ?h" "?h \<le> bal (ledger s) (heldAccount ?u)"
    using check held_total_ge [OF ok r live] by (simp_all add: session_check_def held)
  obtain L where L: "settle_credits j r st 0 [] None (ledger s) = Inr L"
    and dom: "dom (accounts L) = dom (accounts (ledger s))"
    and ids: "j_id ` set (journal L) \<subseteq> insert j (j_id ` set (journal (ledger s)))"
    and bals: "\<And>a. bal L a = bal (ledger s) a - (if a = heldAccount ?u then ?h else 0)
       + (if a = availableAccount ?u then ?h else 0)"
  proof (cases "?h > 0")
    case True
    have "\<exists>L'. post j (settle_key (s_id r)) ''REFUND'' [(heldAccount ?u, - ?h), (availableAccount ?u, ?h)]
        (settle_metadata r st 0 None) (ledger s) = Inr (j, L')"
      using ref hold True unfolding refundable_def room_def
      by (intro transfer_succeeds [OF fresh j]) simp_all
    then obtain L where L: "post j (settle_key (s_id r)) ''REFUND'' [(heldAccount ?u, - ?h), (availableAccount ?u, ?h)]
        (settle_metadata r st 0 None) (ledger s) = Inr (j, L)" ..
    show thesis
      by (rule that [of L])
        (use L True post_accounts(1) [OF L] post_ids [OF L] led.transfer [OF L fresh] in
          \<open>simp_all add: settle_credits_def payer_lines_def\<close>)
  next
    case False
    then show thesis using that [of "ledger s"] hold by (simp add: settle_credits_def subset_insertI)
  qed
  have "update_session (s_id r) (ended_row tx_now st 0 err billing) (s\<lparr>ledger := L\<rparr>) =
      Inr (s\<lparr>ledger := L, sessions := update_row s_id (s_id r) (ended_row tx_now st 0 err billing) (sessions s)\<rparr>)"
    using row ref ended_row_check [OF check _ hold(1)]
    by (simp add: update_session_def refundable_def)
  then show thesis using live L hold
    by (intro that [OF _ refl dom ids bals]) (simp add: finalize_def payout_def)
qed

lemma demo_queued_ledger:
  "bal (ledger demo_queued) (availableAccount ''a1'') = 995611" "bal (ledger demo_queued) (heldAccount ''a1'') = 4389"
  "''j5'' \<notin> j_id ` set (journal (ledger demo_queued))"
  "accounts (ledger demo_queued) (availableAccount ''a1'') \<noteq> None"
  "accounts (ledger demo_queued) (heldAccount ''a1'') \<noteq> None"
proof -
  have "bal (ledger demo_queued) (availableAccount ''a1'') = 995611 \<and>
      bal (ledger demo_queued) (heldAccount ''a1'') = 4389 \<and>
      ''j5'' \<notin> j_id ` set (journal (ledger demo_queued)) \<and>
      \<not> Option.is_none (accounts (ledger demo_queued) (availableAccount ''a1'')) \<and>
      \<not> Option.is_none (accounts (ledger demo_queued) (heldAccount ''a1''))" by code_simp
  then show "bal (ledger demo_queued) (availableAccount ''a1'') = 995611" "bal (ledger demo_queued) (heldAccount ''a1'') = 4389"
    "''j5'' \<notin> j_id ` set (journal (ledger demo_queued))"
    "accounts (ledger demo_queued) (availableAccount ''a1'') \<noteq> None"
    "accounts (ledger demo_queued) (heldAccount ''a1'') \<noteq> None"
    by (auto simp: Option.is_none_def)
qed

section \<open>Every live session can be refunded\<close>

text \<open>
  The program around the sessions, as far as a refund depends on it: every other transaction changes the ledger by
  creating accounts and posting, never makes a user's account an issuer, updates no quote and no window of a fund
  (both tables are only appended to), and keeps a route contract's route and terms.
\<close>

definition issuer_apart :: "ledger \<Rightarrow> bool" where
  "issuer_apart L \<longleftrightarrow> (\<forall>u acc. accounts L (availableAccount u) = Some acc \<longrightarrow> acc_kind acc \<noteq> LAB_ISSUER)"

definition context_grows :: "db \<Rightarrow> db \<Rightarrow> bool" where
  "context_grows s s' \<longleftrightarrow>
     (\<forall>k q. lookup q_id k (quotes s) = Some q \<longrightarrow> lookup q_id k (quotes s') = Some q) \<and>
     set (windows s) \<subseteq> set (windows s') \<and>
     (\<forall>k l. lookup rl_id k (rt_leases s) = Some l \<longrightarrow>
        (\<exists>l'. lookup rl_id k (rt_leases s') = Some l' \<and> rl_route_id l' = rl_route_id l \<and>
           rl_terms_sha256 l' = rl_terms_sha256 l))"

inductive system_step :: "db \<Rightarrow> db \<Rightarrow> bool" where
  session: "session_call s s' \<Longrightarrow> system_step s s'"
| beside: "session_step s s' \<Longrightarrow> sessions s' = sessions s \<Longrightarrow> ledger_step\<^sup>*\<^sup>* (ledger s) (ledger s') \<Longrightarrow>
    issuer_apart (ledger s') \<Longrightarrow> context_grows s s' \<Longrightarrow> system_step s s'"

definition new_system :: "db \<Rightarrow> bool" where
  "new_system s \<longleftrightarrow> no_sessions s \<and> ledger_ok (ledger s) \<and> issuer_apart (ledger s)"

lemma system_session_step: "system_step s s' \<Longrightarrow> session_step s s'"
  by (erule system_step.cases) (simp_all add: session_step.call)

lemma system_session_steps: "system_step\<^sup>*\<^sup>* s s' \<Longrightarrow> session_step\<^sup>*\<^sup>* s s'"
  by (rule rtranclp_mono [THEN predicate2D, rotated]) (auto dest: system_session_step)

text \<open>What the refund of each live session rests on.\<close>

definition backed :: "db \<Rightarrow> session \<Rightarrow> bool" where
  "backed s r \<longleftrightarrow> session_identity s r \<and>
     (s_hold_microtu r > 0 \<longrightarrow> accounts (ledger s) (heldAccount (s_user_id r)) \<noteq> None \<and>
        accounts (ledger s) (availableAccount (s_user_id r)) \<noteq> None)"

definition all_backed :: "db \<Rightarrow> bool" where
  "all_backed s \<longleftrightarrow> ledger_ok (ledger s) \<and> issuer_apart (ledger s) \<and>
     (\<forall>r \<in> set (sessions s). \<not> is_terminal (s_state r) \<longrightarrow> backed s r)"

text \<open>How the ledger of a session's call grows: by at most one posting.\<close>

definition one_posting :: "ledger \<Rightarrow> ledger \<Rightarrow> bool" where
  "one_posting L L' \<longleftrightarrow> L' = L \<or> (\<exists>j key kind es md x. post j key kind es md L = Inr (x, L'))"

lemma one_posting_post: "post j key kind es md L = Inr (x, L') \<Longrightarrow> one_posting L L'"
  unfolding one_posting_def by blast

lemma one_posting_same [simp]: "one_posting L L"
  by (simp add: one_posting_def)

lemma one_posting_keeps:
  assumes "one_posting L L'"
  shows "ledger_ok L \<Longrightarrow> ledger_ok L'" and "issuer_apart L \<Longrightarrow> issuer_apart L'"
    and "accounts L a \<noteq> None \<Longrightarrow> accounts L' a \<noteq> None"
proof -
  consider "L' = L" | j key kind es md x where "post j key kind es md L = Inr (x, L')"
    using assms unfolding one_posting_def by blast
  then have "(ledger_ok L \<longrightarrow> ledger_ok L') \<and> (issuer_apart L \<longrightarrow> issuer_apart L') \<and>
      (accounts L a \<noteq> None \<longrightarrow> accounts L' a \<noteq> None)"
  proof cases
    case 2
    have "issuer_apart L'" if apart: "issuer_apart L"
      unfolding issuer_apart_def
    proof (intro allI impI)
      fix u acc
      assume acc: "accounts L' (availableAccount u) = Some acc"
      then obtain old where old: "accounts L (availableAccount u) = Some old" using post_accounts(1) [OF 2] by blast
      then show "acc_kind acc \<noteq> LAB_ISSUER"
        using post_accounts(2) [OF 2 old] acc apart by (auto simp: issuer_apart_def)
    qed
    then show ?thesis using post_keeps_ledger_ok [OF _ 2] post_domain [OF 2] by blast
  qed auto
  then show "ledger_ok L \<Longrightarrow> ledger_ok L'" "issuer_apart L \<Longrightarrow> issuer_apart L'"
    "accounts L a \<noteq> None \<Longrightarrow> accounts L' a \<noteq> None" by blast+
qed

lemma hold_credits_accounts:
  assumes "hold_credits j i u hold L = Inr L'" and "hold_key i \<notin> posted L" and "hold > 0"
  shows "accounts L' (heldAccount u) \<noteq> None" and "accounts L' (availableAccount u) \<noteq> None"
proof -
  obtain md x where p: "post j (hold_key i) ''RESERVE'' [(availableAccount u, - hold), (heldAccount u, hold)] md L = Inr (x, L')"
    using assms(1,3) by (auto simp: hold_credits_def res_Inr split: if_splits)
  let ?ls = "posting_lines [(availableAccount u, - hold), (heldAccount u, hold)]"
  have "(heldAccount u, hold) \<in> set ?ls" "(availableAccount u, - hold) \<in> set ?ls"
    using assms(3) by (simp_all add: in_lines)
  then have "heldAccount u \<in> fst ` set ?ls" "availableAccount u \<in> fst ` set ?ls" by force+
  then show "accounts L' (heldAccount u) \<noteq> None" "accounts L' (availableAccount u) \<noteq> None"
    using post_fresh(6,7) [OF assms(2) p] by blast+
qed

lemma backed_keeps:
  assumes "backed s r" and "session_identity s' r" and "one_posting (ledger s) (ledger s')"
  shows "backed s' r"
  using assms one_posting_keeps(3) [OF assms(3)] by (auto simp: backed_def)

lemma change_keeps_backed:
  assumes "session_change s s'" and ok: "funds_ok s" and b: "all_backed s"
  shows "all_backed s'"
proof -
  have one: "one_posting (ledger s) (ledger s')"
    using assms(1)
  proof cases
    case (created j r L i tx_now user d q)
    then show ?thesis by (auto simp: hold_credits_def res_Inr one_posting_post split: if_splits)
  next
    case (ended i r st charge r0 lines j alloc L tx_now err billing)
    then show ?thesis by (auto simp: settle_credits_def res_Inr one_posting_post split: if_splits)
  next
    case (refunded i r j kind lines md x L)
    then show ?thesis by (auto intro: one_posting_post)
  qed simp_all
  have keep: "backed s' r" if "r \<in> set (sessions s)" "\<not> is_terminal (s_state r)" "same_context s s'" for r
    using backed_keeps [OF _ _ one] session_identity_cong [OF that(3)] b that(1,2)
    by (auto simp: all_backed_def backed_def)
  have "backed s' r" if q: "r \<in> set (sessions s')" "\<not> is_terminal (s_state r)" for r
    using assms(1)
  proof cases
    case apart
    then show ?thesis using keep q by simp
  next
    case (created j r1 L i tx_now user d p)
    show ?thesis
    proof (cases "r = r1")
      case True
      have "hold_key (s_id r1) \<notin> posted (ledger s)" using ok created(3) by (auto simp: funds_ok_def session_keys_def)
      then show ?thesis using hold_credits_accounts [OF created(1)] session_identity_cong [OF created(10)] created(8,11)
        by (simp add: backed_def True)
    next
      case False
      then show ?thesis using keep q created(5,10) by simp
    qed
  next
    case (moved i r1 f)
    have r1: "r1 \<in> set (sessions s)" "s_id r1 = i" using lookup_SomeD [OF moved(1)] by auto
    have keyed: "keyed s_id (sessions s)" using ok by (simp add: funds_ok_def)
    note kept = row_moves_kept [OF moved(2)]
    show ?thesis
    proof (cases "r = f r1")
      case True
      have "backed s' r1" using keep r1(1) kept(4) moved(9) by simp
      then show ?thesis using session_identity_cong [OF moved(9)] moved(10) kept(2,3) by (simp add: True backed_def)
    next
      case False
      then have "r \<in> set (sessions s)"
        using q(1) keyed_unique [OF keyed] r1 by (fastforce simp: moved(4) in_update_row)
      then show ?thesis using keep q(2) moved(9) by simp
    qed
  next
    case (ended i r1 st charge r0 lines j alloc L tx_now err billing)
    then show ?thesis using keep q by (auto simp: in_update_row)
  next
    case (refunded i r1 j kind lines md x L)
    obtain q0 where q0: "q0 \<in> set (sessions s)" "r = q0 \<or> r = refunded_row q0"
      using q(1) by (auto simp: refunded(6) in_update_row)
    then have "backed s' q0" using keep q(2) refunded(11) by auto
    moreover have "session_identity s' (refunded_row q0) = session_identity s' q0" by (rule refunded_row_identity)
    ultimately show ?thesis using q0(2) by (auto simp: backed_def)
  qed
  then show ?thesis using b one_posting_keeps(1,2) [OF one] by (simp add: all_backed_def)
qed

lemma context_grows_identity:
  assumes "context_grows s s'" and "session_identity s r"
  shows "session_identity s' r"
proof -
  obtain q where q: "lookup q_id (s_quote_id r) (quotes s) = Some q"
      "q_cooperative_pool_id q = s_cooperative_pool_id r" "q_cooperative_policy_sha256 q = s_cooperative_policy_sha256 r"
    using assms(2) by (auto simp: session_identity_def split: option.splits)
  have "\<exists>cw \<in> set (windows s'). cw_lease_id cw = l \<and> Some (cw_pool_id cw) = s_cooperative_pool_id r \<and>
          (case window_lease s' cw of None \<Rightarrow> False
           | Some rl \<Rightarrow> Some (rl_route_id rl) = s_route_id r \<and> Some (rl_terms_sha256 rl) = s_coverage_terms_sha256 r)"
    if l: "s_coverage_lease_id r = Some l" for l
  proof -
    obtain cw rl where cw: "cw \<in> set (windows s)" "cw_lease_id cw = l" "Some (cw_pool_id cw) = s_cooperative_pool_id r"
      "lookup rl_id (cw_lease_id cw) (rt_leases s) = Some rl" "Some (rl_route_id rl) = s_route_id r"
      "Some (rl_terms_sha256 rl) = s_coverage_terms_sha256 r"
      using assms(2) l by (auto simp: session_identity_def window_lease_def split: option.splits)
    obtain rl' where "lookup rl_id (cw_lease_id cw) (rt_leases s') = Some rl'" "rl_route_id rl' = rl_route_id rl"
      "rl_terms_sha256 rl' = rl_terms_sha256 rl"
      using assms(1) cw(4) unfolding context_grows_def by blast
    then show ?thesis using assms(1) cw by (intro bexI [of _ cw]) (auto simp: context_grows_def window_lease_def)
  qed
  moreover have "lookup q_id (s_quote_id r) (quotes s') = Some q" using assms(1) q(1) by (simp add: context_grows_def)
  ultimately show ?thesis using q(2,3) by (auto simp: session_identity_def split: option.splits)
qed

lemma ledger_steps_accounts:
  assumes "ledger_step\<^sup>*\<^sup>* L L'"
  shows "accounts L a \<noteq> None \<Longrightarrow> accounts L' a \<noteq> None" and "ledger_ok L \<Longrightarrow> ledger_ok L'"
proof -
  have "accounts u a \<noteq> None" if "ledger_step t u" "accounts t a \<noteq> None" for t u
    using that
  proof cases
    case (posting i key kind es md j)
    then show ?thesis using post_domain that(2) by blast
  qed (auto simp: createAccounts_def res_Inr insert_account_old)
  then show "accounts L a \<noteq> None \<Longrightarrow> accounts L' a \<noteq> None"
    using rtranclp_keeps [OF assms, of "\<lambda>L. accounts L a \<noteq> None"] by blast
  show "ledger_ok L \<Longrightarrow> ledger_ok L'" using rtranclp_keeps [OF assms, of ledger_ok] ledger_step_ok by blast
qed

lemma system_step_backed:
  assumes "system_step s s'" and ok: "funds_ok s" and b: "all_backed s"
  shows "all_backed s'"
  using assms(1)
proof cases
  case session
  have "session_change\<^sup>*\<^sup>* s s'" by (rule session_call_many [OF session ok])
  then have "funds_ok s' \<and> all_backed s'"
  proof (induction rule: rtranclp_induct)
    case (step t u)
    then show ?case using change_keeps_funds change_keeps_backed by blast
  qed (use ok b in simp)
  then show ?thesis ..
next
  case beside
  have "backed s' r" if "backed s r" for r
    using that context_grows_identity [OF beside(5)] ledger_steps_accounts(1) [OF beside(3)] by (auto simp: backed_def)
  then show ?thesis using b beside(2,4) ledger_steps_accounts(2) [OF beside(3)] by (simp add: all_backed_def)
qed

lemma reachable_system:
  assumes "system_step\<^sup>*\<^sup>* s0 s" and "new_system s0"
  shows "funds_ok s \<and> all_backed s"
  using assms(1)
proof (induction rule: rtranclp_induct)
  case base
  then show ?case using assms(2) no_sessions_funds [of s0] by (simp add: new_system_def all_backed_def no_sessions_def)
next
  case (step t u)
  then show ?case using system_step_backed session_step_funds system_session_step by blast
qed

lemma all_backed_refundable:
  assumes "all_backed s" and "r \<in> set (sessions s)" and "\<not> is_terminal (s_state r)" and "room (s_user_id r) (ledger s)"
  shows "refundable s r"
proof -
  let ?a = "availableAccount (s_user_id r)"
  have ok: "ledger_ok (ledger s)" "issuer_apart (ledger s)" using assms(1) by (simp_all add: all_backed_def)
  have "0 \<le> bal (ledger s) ?a"
  proof (cases "accounts (ledger s) ?a")
    case (Some acc)
    then have "acc_kind acc \<noteq> LAB_ISSUER" using ok(2) by (simp add: issuer_apart_def)
    then have "0 \<le> acc_balance acc" using ok(1) Some unfolding ledger_ok_def by blast
    then show ?thesis using Some by (simp add: bal_def)
  qed (simp add: bal_def)
  then show ?thesis using assms by (auto simp: all_backed_def backed_def refundable_def)
qed

text \<open>The demonstration laboratory is a new system.\<close>

lemma demo_new_system: "new_system demo_quoted"
proof -
  let ?L = "createAccounts ''b2'' (createAccounts ''a1'' initial_ledger)"
  have ok: "ledger_ok ?L" by (intro createAccounts_ok initial_ledger_ok)
  have base: "issuer_apart initial_ledger"
    by (auto simp: issuer_apart_def initial_ledger_def insert_account_def availableAccount_def split: option.splits if_splits)
  have "issuer_apart (insert_account a own k L)" if "issuer_apart L" "k \<noteq> LAB_ISSUER" for a own k L
    using that by (auto simp: issuer_apart_def insert_account_def split: option.splits if_splits)
  then have apart: "issuer_apart ?L" using base by (simp add: createAccounts_def)
  have "ledger_ok demo_ledger \<and> issuer_apart demo_ledger"
  proof (cases "post ''j0'' ''grant:demo'' ''LAB_GRANT''
      [(''lab:issuer'', - 1000000), (availableAccount ''a1'', 1000000)] [] ?L")
    case (Inl e)
    then have "demo_ledger = initial_ledger" by (simp only: demo_ledger_def sum.case)
    then show ?thesis using base initial_ledger_ok by simp
  next
    case (Inr x)
    obtain j L where x: "x = (j, L)" by fastforce
    have "demo_ledger = L" using Inr unfolding x by (simp only: demo_ledger_def sum.case prod.case)
    then show ?thesis
      using post_keeps_ledger_ok [OF ok Inr [unfolded x]] one_posting_keeps(2) [OF one_posting_post [OF Inr [unfolded x]] apart]
      by simp
  qed
  then show ?thesis using demo_no_sessions
    by (simp add: new_system_def demo_quoted_def demo_db_def)
qed

lemma demo_system_step: "system_step demo_quoted demo_queued"
  by (rule system_step.session [OF session_call.create [OF demo_create]])

section \<open>Cancellation\<close>

text \<open>
  C22: a session that has not been claimed can be cancelled, and costs nothing. In every database that the
  program reaches from a new one, if the user's two balances together fit the 64-bit column of a balance and the
  journal's id is fresh, the call returns, the session is cancelled with no charge, its whole hold goes
  from the user's held account back to the available one, and no other account moves. That the accounts exist, that the hold is
  there, that its posting is not a replay and that the row's triggers pass is not assumed: it holds in every such database.
\<close>

theorem cancel_before_claim_refunds:
  assumes reach: "new_system s0" "system_step\<^sup>*\<^sup>* s0 s"
    and r: "lookup s_id i (sessions s) = Some r" "s_user_id r = u_id user"
    and unclaimed: "s_state r \<in> {S_QUEUED, S_PREPARING, S_AUTHORIZED}"
    and room: "bal (ledger s) (availableAccount (u_id user)) + bal (ledger s) (heldAccount (u_id user)) \<le> MAX_AMOUNT"
    and j: "j \<notin> j_id ` set (journal (ledger s))"
  shows "\<exists>s'. cancel_session date_now tx_now j user i s = Inr (S_TERMINAL CANCELLED, s') \<and>
    (\<exists>r'. lookup s_id i (sessions s') = Some r' \<and> s_state r' = S_TERMINAL CANCELLED \<and>
       s_charged_microtu r' = 0 \<and> s_billing_state r' = B_REFUNDED) \<and>
    (\<forall>a. bal (ledger s') a = bal (ledger s) a
       - (if a = heldAccount (u_id user) then s_hold_microtu r else 0)
       + (if a = availableAccount (u_id user) then s_hold_microtu r else 0))"
proof -
  have ok: "funds_ok s" and backed: "all_backed s" using reachable_system [OF reach(2,1)] by simp_all
  have i: "s_id r = i" using lookup_SomeD [OF r(1)] by simp
  have live: "\<not> is_terminal (s_state r)" using unclaimed by auto
  have ref: "refundable s r"
    by (rule all_backed_refundable [OF backed _ live]) (use lookup_SomeD [OF r(1)] room r(2) in \<open>simp_all add: room_def\<close>)
  have mine: "find (\<lambda>q. s_id q = i \<and> s_user_id q = u_id user) (sessions s) = Some r"
  proof -
    have "find (\<lambda>q. s_id q = i \<and> s_user_id q = u_id user) qs = Some r"
      if "lookup s_id i qs = Some r" for qs using that r(2) by (induction qs) (auto split: if_splits)
    then show ?thesis using r(1) .
  qed
  obtain s' L where fin: "finalize date_now tx_now j r CANCELLED 0 (Some ''cancelled'') None s = Inr s'"
    and s': "s' = session_event (s_id r) ''terminal'' [(''state'', JStr (terminal_text CANCELLED)),
        (''error_code'', opt_str (Some ''cancelled'')), (''charged_microtu'', amt 0)]
      (s\<lparr>ledger := L, sessions := update_row s_id (s_id r) (ended_row tx_now CANCELLED 0 (Some ''cancelled'') None) (sessions s)\<rparr>)"
    and bals: "\<And>a. bal L a = bal (ledger s) a - (if a = heldAccount (s_user_id r) then s_hold_microtu r else 0)
       + (if a = availableAccount (s_user_id r) then s_hold_microtu r else 0)"
    using refund_succeeds [OF ok _ live ref j] r(1) i by metis
  have "cancel_session date_now tx_now j user i s = Inr (S_TERMINAL CANCELLED, s')"
    using fin live unclaimed by (auto simp: cancel_session_def mine)
  moreover have "lookup s_id i (sessions s') = Some (ended_row tx_now CANCELLED 0 (Some ''cancelled'') None r)"
    using r(1) by (simp add: s' session_event_def lookup_update i)
  ultimately show ?thesis using bals r(2) by (simp add: s' session_event_def) (simp add: ended_row_def)
qed

theorem cancel_before_claim_refunds_witness:
  "\<exists>s'. cancel_session 110000 110000 ''j5'' alice ''s1'' demo_queued = Inr (S_TERMINAL CANCELLED, s') \<and>
    bal (ledger s') (availableAccount ''a1'') = 1000000"
proof -
  have r: "lookup s_id ''s1'' (sessions demo_queued) = Some demo_row" "s_user_id demo_row = u_id alice"
    "s_state demo_row = S_QUEUED" "s_hold_microtu demo_row = 4389"
    by (simp_all add: demo_queued_def demo_rows)
  show ?thesis
    using cancel_before_claim_refunds [OF demo_new_system r_into_rtranclp [of system_step, OF demo_system_step] r(1,2) _ _
        demo_queued_ledger(3), of 110000 110000] r(3,4) demo_queued_ledger(1,2) by (fastforce simp: MAX_AMOUNT_def)
qed

section \<open>The reaper\<close>

definition reap_ready :: "db \<Rightarrow> bool" where
  "reap_ready s \<longleftrightarrow> funds_ok s \<and> (\<forall>r \<in> set (sessions s). \<not> is_terminal (s_state r) \<longrightarrow> refundable s r)"

text \<open>How the reaper ends a row.\<close>

definition reaped :: "session \<Rightarrow> session \<Rightarrow> bool" where
  "reaped r r' \<longleftrightarrow> s_state r' = S_TERMINAL (if s_state r = S_CANCELLING then CANCELLED else INTERRUPTED) \<and>
     s_charged_microtu r' = 0 \<and> s_billing_state r' = B_REFUNDED \<and> s_user_id r' = s_user_id r"

text \<open>What the end of a row returns: its hold, from the user's held account to the available one.\<close>

definition hold_back :: "string \<Rightarrow> session \<Rightarrow> int" where
  "hold_back a r = (if a = availableAccount (s_user_id r) then s_hold_microtu r else 0) -
     (if a = heldAccount (s_user_id r) then s_hold_microtu r else 0)"

lemma reap_one_succeeds:
  assumes ready: "reap_ready s" and row: "lookup s_id (s_id r) (sessions s) = Some r"
    and live: "\<not> is_terminal (s_state r)" and j: "j \<notin> j_id ` set (journal (ledger s))"
  obtains s' where "reap_one date_now tx_now (j, r) s = Inr s'" "reap_ready s'"
    "\<exists>r'. lookup s_id (s_id r) (sessions s') = Some r' \<and> reaped r r'"
    "\<forall>k. k \<noteq> s_id r \<longrightarrow> lookup s_id k (sessions s') = lookup s_id k (sessions s)"
    "j_id ` set (journal (ledger s')) \<subseteq> insert j (j_id ` set (journal (ledger s)))"
    "\<forall>a. bal (ledger s') a = bal (ledger s) a + hold_back a r"
proof -
  let ?st = "if s_state r = S_CANCELLING then CANCELLED else INTERRUPTED"
  let ?err = "Some (if s_state r = S_QUEUED then ''queue_timeout'' else ''execution_interrupted'')"
  have ok: "funds_ok s" using ready by (simp add: reap_ready_def)
  have r: "r \<in> set (sessions s)" using lookup_SomeD [OF row] by simp
  have ref: "refundable s r" using ready r live by (simp add: reap_ready_def)
  obtain s' L where fin: "finalize date_now tx_now j r ?st 0 ?err None s = Inr s'"
    and s': "s' = session_event (s_id r) ''terminal'' [(''state'', JStr (terminal_text ?st)),
        (''error_code'', opt_str ?err), (''charged_microtu'', amt 0)]
      (s\<lparr>ledger := L, sessions := update_row s_id (s_id r) (ended_row tx_now ?st 0 ?err None) (sessions s)\<rparr>)"
    and dom: "dom (accounts L) = dom (accounts (ledger s))"
    and ids: "j_id ` set (journal L) \<subseteq> insert j (j_id ` set (journal (ledger s)))"
    and bals: "\<And>a. bal L a = bal (ledger s) a - (if a = heldAccount (s_user_id r) then s_hold_microtu r else 0)
       + (if a = availableAccount (s_user_id r) then s_hold_microtu r else 0)"
    using refund_succeeds [OF ok row live ref j] by metis
  have "pools_apart s" using ok by (simp add: funds_ok_def)
  then have "session_change s s'"
    by (intro closing_change_change [OF finalize_change [OF fin row]]) (auto simp: row_ends_def)
  then have ok': "funds_ok s'" by (rule change_keeps_funds [OF _ ok])
  have hold: "0 \<le> s_hold_microtu r"
    using ok r by (auto simp: funds_ok_def list_all_iff session_check_def)
  have "refundable s' q" if q: "q \<in> set (sessions s')" "\<not> is_terminal (s_state q)" for q
  proof -
    have "q \<in> set (sessions s)" using q by (auto simp: s' session_event_def in_update_row)
    then have "refundable s q" using ready q(2) by (simp add: reap_ready_def)
    moreover have "accounts L a \<noteq> None \<longleftrightarrow> accounts (ledger s) a \<noteq> None" for a
      using dom by (auto simp: dom_def set_eq_iff)
    moreover have "session_identity s' q = session_identity s q"
      by (rule session_identity_cong) (simp add: s' session_event_def)
    moreover have "ledger s' = L" by (simp add: s' session_event_def)
    ultimately show ?thesis using hold by (auto simp: refundable_def room_def bals)
  qed
  then have ready': "reap_ready s'" using ok' by (simp add: reap_ready_def)
  have row': "lookup s_id (s_id r) (sessions s') = Some (ended_row tx_now ?st 0 ?err None r)"
    using row by (simp add: s' session_event_def lookup_update)
  show thesis
    by (rule that [of s'])
      (use fin ready' row' ids in \<open>auto simp: reap_one_def s' session_event_def lookup_update reaped_def ended_row_def
        bals hold_back_def\<close>)
qed

lemma reap_loop_succeeds:
  assumes "reap_ready s" and "\<forall>(j, r) \<in> set xs. lookup s_id (s_id r) (sessions s) = Some r \<and> \<not> is_terminal (s_state r)"
    and "distinct (map (s_id \<circ> snd) xs)" and "distinct (map fst xs)"
    and "\<forall>(j, r) \<in> set xs. j \<notin> j_id ` set (journal (ledger s))"
  shows "\<exists>s'. each (reap_one date_now tx_now) xs s = Inr s' \<and>
    (\<forall>(j, r) \<in> set xs. \<exists>r'. lookup s_id (s_id r) (sessions s') = Some r' \<and> reaped r r') \<and>
    (\<forall>k. k \<notin> (s_id \<circ> snd) ` set xs \<longrightarrow> lookup s_id k (sessions s') = lookup s_id k (sessions s)) \<and>
    (\<forall>a. bal (ledger s') a = bal (ledger s) a + sum_list (map (\<lambda>(j, r). hold_back a r) xs))"
  using assms
proof (induction xs arbitrary: s)
  case (Cons x xs)
  obtain j r where x: "x = (j, r)" by fastforce
  have row: "lookup s_id (s_id r) (sessions s) = Some r" "\<not> is_terminal (s_state r)"
    "j \<notin> j_id ` set (journal (ledger s))" using Cons.prems(2,5) by (auto simp: x)
  obtain t where t: "reap_one date_now tx_now (j, r) s = Inr t" "reap_ready t"
    "\<exists>r'. lookup s_id (s_id r) (sessions t) = Some r' \<and> reaped r r'"
    "\<forall>k. k \<noteq> s_id r \<longrightarrow> lookup s_id k (sessions t) = lookup s_id k (sessions s)"
    "j_id ` set (journal (ledger t)) \<subseteq> insert j (j_id ` set (journal (ledger s)))"
    "\<forall>a. bal (ledger t) a = bal (ledger s) a + hold_back a r"
    by (rule reap_one_succeeds [OF Cons.prems(1) row])
  have other: "s_id q \<noteq> s_id r" "k \<noteq> j" if "(k, q) \<in> set xs" for k q
    using Cons.prems(3,4) that by (force simp: x)+
  have "\<exists>s'. each (reap_one date_now tx_now) xs t = Inr s' \<and>
    (\<forall>(j, r) \<in> set xs. \<exists>r'. lookup s_id (s_id r) (sessions s') = Some r' \<and> reaped r r') \<and>
    (\<forall>k. k \<notin> (s_id \<circ> snd) ` set xs \<longrightarrow> lookup s_id k (sessions s') = lookup s_id k (sessions t)) \<and>
    (\<forall>a. bal (ledger s') a = bal (ledger t) a + sum_list (map (\<lambda>(j, r). hold_back a r) xs))"
  proof (rule Cons.IH [OF t(2)])
    show "\<forall>(k, q) \<in> set xs. lookup s_id (s_id q) (sessions t) = Some q \<and> \<not> is_terminal (s_state q)"
      using Cons.prems(2) t(4) other by (auto simp: x)
    show "distinct (map (s_id \<circ> snd) xs)" "distinct (map fst xs)"
      using Cons.prems(3,4) by (simp_all add: comp_def)
    show "\<forall>(k, q) \<in> set xs. k \<notin> j_id ` set (journal (ledger t))"
    proof
      fix p
      assume p: "p \<in> set xs"
      obtain k q where k: "p = (k, q)" by fastforce
      have "k \<notin> j_id ` set (journal (ledger s))" "k \<noteq> j" using Cons.prems(5) other(2) p by (auto simp: k)
      then have "k \<notin> j_id ` set (journal (ledger t))" using t(5) by blast
      then show "case p of (k, q) \<Rightarrow> k \<notin> j_id ` set (journal (ledger t))" by (simp add: k)
    qed
  qed
  then obtain s' where s': "each (reap_one date_now tx_now) xs t = Inr s'"
    "\<forall>(j, r) \<in> set xs. \<exists>r'. lookup s_id (s_id r) (sessions s') = Some r' \<and> reaped r r'"
    "\<forall>k. k \<notin> (s_id \<circ> snd) ` set xs \<longrightarrow> lookup s_id k (sessions s') = lookup s_id k (sessions t)"
    "\<forall>a. bal (ledger s') a = bal (ledger t) a + sum_list (map (\<lambda>(j, r). hold_back a r) xs)" by blast
  have "s_id r \<notin> (s_id \<circ> snd) ` set xs" using other by force
  then have "\<exists>r'. lookup s_id (s_id r) (sessions s') = Some r' \<and> reaped r r'" using s'(3) t(3) by simp
  moreover have "each (reap_one date_now tx_now) (x # xs) s = Inr s'" using s'(1) t(1) by (simp add: x)
  moreover have "lookup s_id k (sessions s') = lookup s_id k (sessions s)" if "k \<notin> (s_id \<circ> snd) ` set (x # xs)" for k
    using s'(3) t(4) that by (simp add: x)
  ultimately show ?case using s'(2,4) t(6) by (intro exI [of _ s']) (simp add: x)
qed simp

text \<open>
  C23: the reaper ends what is over and gives the credits back. In every database that the program reaches from a new one, if
  each user's two balances together fit the 64-bit column of a balance and the journal ids are fresh, one pass returns;
  every session it selected (queued past its deadline, placed past its execution deadline, or on a node or account
  that was fenced) is then interrupted, or cancelled if it was being cancelled, uncharged and refunded; every account moves by exactly
  the holds of those sessions, from their users' held accounts to the available ones; when at most a hundred were due,
  no live session is still due; and a session that was not due is unchanged.
\<close>

theorem reaper_ends_expired:
  assumes reach: "new_system s0" "system_step\<^sup>*\<^sup>* s0 s"
    and room: "\<forall>u. bal (ledger s) (availableAccount u) + bal (ledger s) (heldAccount u) \<le> MAX_AMOUNT"
    and js: "inj js" "\<forall>n. js n \<notin> j_id ` set (journal (ledger s))"
  shows "\<exists>s'. reap date_now tx_now js s = Inr ((), s') \<and>
    (\<forall>r \<in> set (expired_sessions tx_now s). \<exists>r'. lookup s_id (s_id r) (sessions s') = Some r' \<and> reaped r r') \<and>
    (\<forall>a. bal (ledger s') a = bal (ledger s) a + sum_list (map
       (\<lambda>r. (if a = availableAccount (s_user_id r) then s_hold_microtu r else 0) -
            (if a = heldAccount (s_user_id r) then s_hold_microtu r else 0)) (expired_sessions tx_now s))) \<and>
    (\<forall>r \<in> set (sessions s). expired tx_now s r \<and> length (filter (expired tx_now s) (sessions s)) \<le> 100 \<longrightarrow>
       r \<in> set (expired_sessions tx_now s)) \<and>
    (\<forall>r \<in> set (sessions s). \<not> expired tx_now s r \<longrightarrow> lookup s_id (s_id r) (sessions s') = Some r)"
proof -
  have ready: "reap_ready s"
    using reachable_system [OF reach(2,1)] all_backed_refundable [of s] room by (simp add: reap_ready_def room_def)
  let ?rows = "expired_sessions tx_now s"
  let ?xs = "zip (map js [0..<length ?rows]) ?rows"
  have keyed: "keyed s_id (sessions s)" using ready by (simp add: reap_ready_def funds_ok_def)
  note rows = expired_rows [OF keyed, of tx_now]
  have snds: "map (s_id \<circ> snd) ?xs = map s_id ?rows" "map fst ?xs = map js [0..<length ?rows]"
    by (simp_all flip: map_map)
  have d1: "distinct (map (s_id \<circ> snd) ?xs)" unfolding snds by (rule rows(2))
  have d2: "distinct (map fst ?xs)" unfolding snds
    by (simp add: distinct_map inj_on_subset [OF js(1)])
  have live: "\<not> is_terminal (s_state r)" if "r \<in> set ?rows" for r
    using rows(1) that unfolding expired_def by blast
  have a: "\<forall>(j, r) \<in> set ?xs. lookup s_id (s_id r) (sessions s) = Some r \<and> \<not> is_terminal (s_state r)"
  proof (intro ballI, clarify)
    fix j r
    assume "(j, r) \<in> set ?xs"
    then have "r \<in> set ?rows" by (rule set_zip_rightD)
    then show "lookup s_id (s_id r) (sessions s) = Some r \<and> \<not> is_terminal (s_state r)"
      using rows(1) live by blast
  qed
  have b: "\<forall>(j, r) \<in> set ?xs. j \<notin> j_id ` set (journal (ledger s))"
  proof
    fix p
    assume p: "p \<in> set ?xs"
    obtain k r where k: "p = (k, r)" by fastforce
    with p obtain n where "k = js n" by (auto dest!: set_zip_leftD)
    then show "case p of (j, r) \<Rightarrow> j \<notin> j_id ` set (journal (ledger s))" using js(2) k by simp
  qed
  obtain t where t: "each (reap_one date_now tx_now) ?xs s = Inr t"
    "\<forall>(j, r) \<in> set ?xs. \<exists>r'. lookup s_id (s_id r) (sessions t) = Some r' \<and> reaped r r'"
    "\<forall>k. k \<notin> (s_id \<circ> snd) ` set ?xs \<longrightarrow> lookup s_id k (sessions t) = lookup s_id k (sessions s)"
    "\<forall>a. bal (ledger t) a = bal (ledger s) a + sum_list (map (\<lambda>(j, r). hold_back a r) ?xs)"
    using reap_loop_succeeds [OF ready a d1 d2 b, of date_now tx_now] by blast
  have set: "(s_id \<circ> snd) ` set ?xs = s_id ` set ?rows" using snds(1) by (metis list.set_map)
  have each: "\<exists>r'. lookup s_id (s_id r) (sessions t) = Some r' \<and> reaped r r'" if r: "r \<in> set ?rows" for r
  proof -
    obtain n where "n < length ?rows" "?rows ! n = r" using r by (auto simp: in_set_conv_nth)
    then have "(js n, r) \<in> set ?xs" by (auto simp: set_zip intro!: exI [of _ n])
    then show ?thesis using t(2) by blast
  qed
  have rest: "lookup s_id (s_id r) (sessions t) = Some r" if "r \<in> set (sessions s)" "\<not> expired tx_now s r" for r
  proof -
    have "s_id r \<notin> s_id ` set ?rows"
      using rows(1) that keyed_lookup [OF keyed that(1)] by force
    then show ?thesis using t(3) keyed_lookup [OF keyed that(1)] unfolding set by simp
  qed
  have "reap date_now tx_now js s = Inr ((), clean_up tx_now t)" by (simp add: reap_def t(1))
  moreover have "sessions (clean_up tx_now t) = sessions t" "ledger (clean_up tx_now t) = ledger t"
    by (simp_all add: clean_up_def)
  moreover have "map (\<lambda>(j, r). hold_back a r) ?xs = map (hold_back a) ?rows" for a
  proof -
    have "map (\<lambda>(j, r). hold_back a r) ps = map (hold_back a) (map snd ps)" for ps :: "(uuid \<times> session) list"
      by (induction ps) auto
    moreover have "map snd ?xs = ?rows" by simp
    ultimately show ?thesis by metis
  qed
  then have "\<forall>a. bal (ledger t) a = bal (ledger s) a + sum_list (map
       (\<lambda>r. (if a = availableAccount (s_user_id r) then s_hold_microtu r else 0) -
            (if a = heldAccount (s_user_id r) then s_hold_microtu r else 0)) ?rows)"
    using t(4) by (simp add: hold_back_def [abs_def])
  ultimately show ?thesis using each rest
    by (intro exI [of _ "clean_up tx_now t"]) (auto simp: expired_sessions_def)
qed

text \<open>The demonstration session waits past its deadline and is reaped.\<close>

theorem reaper_ends_expired_witness:
  "\<exists>s' r'. reap 230000 230000 (\<lambda>n. ''reap'' @ show_nat n) demo_queued = Inr ((), s') \<and>
    lookup s_id ''s1'' (sessions s') = Some r' \<and> s_state r' = S_TERMINAL INTERRUPTED \<and> s_charged_microtu r' = 0 \<and>
    bal (ledger s') (availableAccount ''a1'') = 1000000 \<and> bal (ledger s') (heldAccount ''a1'') = 0"
proof -
  let ?js = "\<lambda>n. ''reap'' @ show_nat n"
  have rows: "sessions demo_queued = [demo_row]" by (simp add: demo_queued_def)
  have f: "s_id demo_row = ''s1''" "s_state demo_row = S_QUEUED" "s_queue_deadline demo_row = 220000"
    "s_user_id demo_row = ''a1''" "s_hold_microtu demo_row = 4389"
    by (simp_all add: demo_rows)
  have room: "\<forall>u. bal (ledger demo_queued) (availableAccount u) + bal (ledger demo_queued) (heldAccount u) \<le> MAX_AMOUNT"
  proof
    fix u
    have "funds_ok demo_queued"
      using reachable_system [OF r_into_rtranclp [of system_step, OF demo_system_step] demo_new_system] by simp
    then have held: "bal (ledger demo_queued) (heldAccount u) = (if u = ''a1'' then 4389 else 0)"
      by (simp add: funds_ok_def held_total_def rows live_hold_def f)
    have "bal (ledger demo_queued) (availableAccount u) \<le> 995611"
    proof (cases "u = ''a1''")
      case False
      have "hold_key ''s1'' \<notin> posted demo_ledger" by (simp add: demo_ledger_posted hold_key_def)
      moreover obtain x L where p: "demo_hold_post = Inr (x, L)" using demo_hold_returns by (auto simp: returns_iff)
      ultimately have "bal L (availableAccount u) = bal demo_ledger (availableAccount u)"
        using led.untouched [OF p [unfolded demo_hold_post_def], of "availableAccount u"] False by simp
      then show ?thesis using False
        by (simp add: demo_queued_def ledger_after_def p demo_ledger_bal availableAccount_def)
    qed (simp add: demo_queued_ledger)
    then show "bal (ledger demo_queued) (availableAccount u) + bal (ledger demo_queued) (heldAccount u) \<le> MAX_AMOUNT"
      by (simp add: held MAX_AMOUNT_def demo_queued_ledger(1))
  qed
  have "list_all (\<lambda>j. take 1 (j_id j) = ''j'') (journal (ledger demo_queued))" by code_simp
  then have "\<forall>i \<in> j_id ` set (journal (ledger demo_queued)). take 1 i = ''j''" by (simp add: list_all_iff)
  moreover have "take 1 (?js n) \<noteq> ''j''" for n by simp
  ultimately have fresh: "\<forall>n. ?js n \<notin> j_id ` set (journal (ledger demo_queued))" by metis
  have inj: "inj ?js" by (simp add: inj_on_def show_nat_inj)
  have e: "expired 230000 demo_queued demo_row" by (simp add: expired_def f)
  have due: "expired_sessions 230000 demo_queued = [demo_row]"
    by (simp add: expired_sessions_def rows e)
  obtain s' where s': "reap 230000 230000 ?js demo_queued = Inr ((), s')"
    "\<exists>r'. lookup s_id (s_id demo_row) (sessions s') = Some r' \<and> reaped demo_row r'"
    "\<forall>a. bal (ledger s') a = bal (ledger demo_queued) a + ((if a = availableAccount ''a1'' then 4389 else 0) -
            (if a = heldAccount ''a1'' then 4389 else 0))"
    using reaper_ends_expired [OF demo_new_system r_into_rtranclp [of system_step, OF demo_system_step] room inj fresh,
      of 230000 230000] by (auto simp: due f)
  then show ?thesis using f demo_queued_ledger(1,2) by (auto simp: reaped_def)
qed

end
