(* ===== verification/Sessions_Refund.thy ===== *)
theory Sessions_Refund
  imports Sessions_Settlement
begin

text \<open>
  A session paid through a cooperative fund and refunded later: the settlement of \<open>sessions.ts\<close> with the
  allocation of \<open>cooperative.ts\<close>, and the exact refund that reverses it, possibly much later.
\<close>

text \<open>What a settlement through a fund posts and records: the three lines carry the row's amounts.\<close>

lemma finalize_cooperative:
  assumes fin: "finalize date_now tx_now j r st charge err billing s0 = Inr s1"
    and live: "\<not> is_terminal (s_state r)" and charge: "charge > 0" and pool: "s_cooperative_pool_id r = Some k"
    and fresh: "settle_key (s_id r) \<notin> posted (ledger s0)"
  obtains p cs where "lookup cp_id k (pools s0) = Some p" "cs_pool_id cs = k" "cs_charge_microtu cs = charge"
    "lookup cs_session_id (s_id r) (settlements s1) = Some cs"
    "\<forall>a. bal (ledger s1) a = bal (ledger s0) a
       - (if a = heldAccount (s_user_id r) then s_hold_microtu r else 0)
       + (if a = availableAccount (s_user_id r) then s_hold_microtu r - charge else 0)
       + entry_sum a [(cp_working_account p, cs_working_microtu cs), (cp_reserve_account p, cs_reserve_microtu cs),
           (cp_burn_account p, cs_burned_microtu cs)]"
proof -
  obtain lines alloc t L s2 where c: "0 \<le> charge \<and> charge \<le> s_hold_microtu r"
    and p: "payout date_now tx_now r charge s0 = Inr ((lines, alloc), t)"
    and L: "settle_credits j r st charge lines alloc (ledger t) = Inr L"
    and u: "update_session (s_id r) (ended_row tx_now st charge err billing) (t\<lparr>ledger := L\<rparr>) = Inr s2"
    and s1: "s1 = session_event (s_id r) ''terminal''
      [(''state'', JStr (terminal_text st)), (''error_code'', opt_str err), (''charged_microtu'', amt charge)] s2"
    using fin live unfolding finalize_def by (auto simp: res_Inr)
  obtain alloc' where rec: "recycleSettlement date_now tx_now r charge s0 = Inr ((lines, alloc'), t)"
    using p charge pool unfolding payout_def by (auto simp: res_Inr)
  obtain fund a where lines: "lines = [(cp_working_account fund, rec_floor a + rec_working a),
      (cp_reserve_account fund, rec_reserve a), (cp_burn_account fund, rec_burned a)]"
    and t: "t = s0\<lparr>settlements := settlements s0 @ [settlement_row r fund charge a]\<rparr>"
    and k: "lookup cp_id (case s_cooperative_pool_id r of None \<Rightarrow> [] | Some i \<Rightarrow> i) (pools s0) = Some fund"
    and new: "s_id r \<notin> cs_session_id ` set (settlements s0)"
    by (rule recycleSettlement_Inr [OF rec])
  let ?cs = "settlement_row r fund charge a"
  have "settlements s1 = settlements s0 @ [?cs]"
    using update_session_Inr(1) [OF u] by (simp add: s1 session_event_def t)
  then have row: "lookup cs_session_id (s_id r) (settlements s1) = Some ?cs"
    using new by (simp add: lookup_None_iff [THEN iffD2])
  have led: "ledger s1 = L" "ledger t = ledger s0"
    using update_session_Inr(1) [OF u] by (simp_all add: s1 session_event_def t)
  have hold: "s_hold_microtu r > 0" using c charge by simp
  obtain md x kind where "post j (settle_key (s_id r)) kind (payer_lines r charge @ lines) md (ledger s0) = Inr (x, L)"
    using L hold by (auto simp: settle_credits_def led(2) and_then_Inr)
  note m = led.moves [OF fresh this]
  have f: "lookup cp_id k (pools s0) = Some fund" using k pool by simp
  show thesis
  proof (rule that [OF f _ _ row])
    show "cs_pool_id ?cs = k" using lookup_SomeD [OF f] by (simp add: settlement_row_def)
    show "\<forall>b. bal (ledger s1) b = bal (ledger s0) b
       - (if b = heldAccount (s_user_id r) then s_hold_microtu r else 0)
       + (if b = availableAccount (s_user_id r) then s_hold_microtu r - charge else 0)
       + entry_sum b [(cp_working_account fund, cs_working_microtu ?cs), (cp_reserve_account fund, cs_reserve_microtu ?cs),
           (cp_burn_account fund, cs_burned_microtu ?cs)]"
      using m by (simp add: led(1) payer_lines_def lines)
  qed simp
qed

text \<open>
  C37: a refund reverses a cooperative settlement exactly. Take the end of a session that a fund's settlement charges, and a
  refund of the session in any later database, in which the settlement's row, the session's user and the fund's three
  accounts are still those of the settlement (the first is an immutable table, the others are never updated).
  What the two postings do to any account adds up to returning the whole hold: the user's held account loses the hold and the
  available one gains all of it, as if nothing had been charged, and every other account, the fund's working, reserve and
  burn accounts among them, is back by exactly what the settlement gave it. The session is marked refunded, and a
  second refund returns the stored row and moves nothing.
\<close>

theorem refund_reverses_settlement:
  assumes fin: "finalize date_now tx_now j r st charge err billing s0 = Inr s1"
    and live: "\<not> is_terminal (s_state r)" and charge: "charge > 0" and pool: "s_cooperative_pool_id r = Some k"
    and fresh: "settle_key (s_id r) \<notin> posted (ledger s0)"
    and settled: "lookup cs_session_id (s_id r) (settlements s) = lookup cs_session_id (s_id r) (settlements s1)"
    and user: "lookup s_id (s_id r) (sessions s) = Some r'" "s_user_id r' = s_user_id r"
    and fund: "lookup cp_id k (pools s0) = Some p0" "lookup cp_id k (pools s) = Some p"
      "cp_working_account p = cp_working_account p0" "cp_reserve_account p = cp_reserve_account p0"
      "cp_burn_account p = cp_burn_account p0"
    and ret: "refund j2 admin (s_id r) reason s = Inr (row, s')"
    and once: "lookup cf_session_id (s_id r) (refunds s) = None" "refund_key (s_id r) \<notin> posted (ledger s)"
  shows "(\<forall>a. (bal (ledger s1) a - bal (ledger s0) a) + (bal (ledger s') a - bal (ledger s) a) =
      (if a = availableAccount (s_user_id r) then s_hold_microtu r else 0) -
      (if a = heldAccount (s_user_id r) then s_hold_microtu r else 0)) \<and>
    (\<exists>q. lookup s_id (s_id r) (sessions s') = Some q \<and> s_billing_state q = B_REFUNDED) \<and>
    refund j3 admin (s_id r) reason s' = Inr (row, s')"
proof -
  obtain p1 cs where p1: "lookup cp_id k (pools s0) = Some p1" and cs: "cs_pool_id cs = k" "cs_charge_microtu cs = charge"
    and row: "lookup cs_session_id (s_id r) (settlements s1) = Some cs"
    and eff: "\<forall>a. bal (ledger s1) a = bal (ledger s0) a
       - (if a = heldAccount (s_user_id r) then s_hold_microtu r else 0)
       + (if a = availableAccount (s_user_id r) then s_hold_microtu r - charge else 0)
       + entry_sum a [(cp_working_account p1, cs_working_microtu cs), (cp_reserve_account p1, cs_reserve_microtu cs),
           (cp_burn_account p1, cs_burned_microtu cs)]"
    by (rule finalize_cooperative [OF fin live charge pool fresh])
  have row': "lookup cs_session_id (s_id r) (settlements s) = Some cs" using settled row by simp
  from ret show ?thesis
  proof (cases rule: refund_Inr)
    case replayed
    then show ?thesis using once by simp
  next
    case (posted q cs2 p2 j' md L es)
    have same: "q = r'" "cs2 = cs" "p2 = p" using posted(1,2,4) user(1) row' cs(1) fund(2) by simp_all
    have undone: "bal L a = bal (ledger s) a + entry_sum a [(cp_working_account p1, - cs_working_microtu cs),
        (cp_reserve_account p1, - cs_reserve_microtu cs), (cp_burn_account p1, - cs_burned_microtu cs)]
        + (if a = availableAccount (s_user_id r) then charge else 0)" for a
      using led.moves [OF once(2) posted(5), of a] fund p1 user(2) cs(2) by (simp add: same)
    have "(bal (ledger s1) a - bal (ledger s0) a) + (bal (ledger s') a - bal (ledger s) a) =
      (if a = availableAccount (s_user_id r) then s_hold_microtu r else 0) -
      (if a = heldAccount (s_user_id r) then s_hold_microtu r else 0)" for a
      using spec [OF eff, of a] undone [of a] by (simp add: posted(7))
    moreover have "\<exists>q. lookup s_id (s_id r) (sessions s') = Some q \<and> s_billing_state q = B_REFUNDED"
      using user(1) by (simp add: posted(7) lookup_update refunded_row_def)
    moreover have "refund j3 admin (s_id r) reason s' = Inr (row, s')"
    proof -
      have "cf_session_id row = s_id r" "u_role admin = Admin" "reason_ok reason"
        using ret once(1) unfolding refund_def by (auto simp: res_Inr Let_def locked_def)
      then show ?thesis using user(1) row' once(1) by (simp add: refund_def posted(7) lookup_update)
    qed
    ultimately show ?thesis by blast
  qed
qed

text \<open>
  The demonstration: a fund one group short of its targets receives a charge of 1000 out of a hold of 1500, which fills the
  reserve by 300 and the working account by 500 and burns 200.
\<close>

definition fund_session :: session where
  "fund_session = \<lparr>s_id = ''s1'', s_user_id = ''a1'', s_quote_id = ''q1'', s_model_id = ''lab-model'',
     s_manifest_sha256 = [], s_idempotency_key = [], s_request_sha256 = [], s_request_bytes = 1,
     s_state = S_RUNNING, s_billing_state = B_HELD, s_hold_microtu = 1500, s_charged_microtu = 0,
     s_node_id = None, s_resource_domain_id = None, s_attempt_id = None, s_node_epoch = None, s_prepare_id = None,
     s_queue_deadline = 0, s_execution_deadline = None, s_error_code = None, s_prompt_tokens = None,
     s_completion_tokens = None, s_elapsed_ms = None, s_created_at = 0, s_started_at = None, s_finished_at = None,
     s_route_id = Some ''r1'', s_route_sha256 = Some ''rh'', s_cooperative_pool_id = Some ''p1'',
     s_cooperative_policy_sha256 = Some ''ph'', s_coverage_lease_id = Some ''l1'', s_coverage_terms_sha256 = Some ''th''\<rparr>"

definition fund_quote :: quote where
  "fund_quote = demo_quote\<lparr>q_cooperative_pool_id := Some ''p1'', q_cooperative_policy_sha256 := Some ''ph''\<rparr>"

definition fund_window :: cooperative_window where
  "fund_window = \<lparr>cw_lease_id = ''l1'', cw_pool_id = ''p1'', cw_group_key = ''core'', cw_funding_source = From_WORKING,
     cw_incident_id = None, cw_coverage_kind = ESSENTIAL\<rparr>"

definition fund_lease :: route_lease where
  "fund_lease = \<lparr>rl_id = ''l1'', rl_sponsor_id = ''a1'', rl_route_id = ''r1'', rl_route_sha256 = ''rh'',
     rl_manifest_sha256 = [], rl_terms_sha256 = ''th'', rl_cooperative = None, rl_purpose = REQUESTED, rl_reason = [],
     rl_idempotency_key = [], rl_request_sha256 = [], rl_escrow_account = [], rl_state = L_COMPLETED,
     rl_duration_seconds = 60, rl_rate_microtu_per_second = 1, rl_budget_microtu = 60, rl_paid_microtu = 60,
     rl_joint_ready_ms = 0, rl_sample_ms = None, rl_sample_ready = False, rl_started_ms = None, rl_ends_ms = None,
     rl_offer_expires_at = 0, rl_created_at = 0, rl_finished_at = None\<rparr>"

definition fund_ledger :: ledger where
  "fund_ledger = \<lparr>accounts = [''w'' \<mapsto> \<lparr>acc_owner = None, acc_kind = COOP_WORKING, acc_balance = 85900\<rparr>,
     ''r'' \<mapsto> \<lparr>acc_owner = None, acc_kind = COOP_CORE_RESERVE, acc_balance = 258900\<rparr>,
     ''b'' \<mapsto> \<lparr>acc_owner = None, acc_kind = COOP_BURN, acc_balance = 0\<rparr>,
     heldAccount ''a1'' \<mapsto> \<lparr>acc_owner = Some ''a1'', acc_kind = HELD, acc_balance = 1500\<rparr>,
     availableAccount ''a1'' \<mapsto> \<lparr>acc_owner = Some ''a1'', acc_kind = AVAILABLE, acc_balance = 0\<rparr>], journal = []\<rparr>"

definition fund_running :: db where
  "fund_running = empty_db\<lparr>ledger := fund_ledger, sessions := [fund_session], quotes := [fund_quote],
     windows := [fund_window], rt_leases := [fund_lease], pools := [demo_pool],
     pool_groups := [\<lparr>cg_pool_id = ''p1'', cg_group_key = ''core'', cg_model_id = ''lab-model'',
       cg_rate_microtu_per_second = 1, cg_duration_seconds = 60\<rparr>]\<rparr>"

definition fund_settle :: "db result" where
  "fund_settle = finalize 105000 105000 ''j3'' fund_session COMPLETED 1000 None None fund_running"

definition fund_refund :: "db \<Rightarrow> (cooperative_refund \<times> db) result" where
  "fund_refund s = refund ''j4'' overseer ''s1'' ''the answer was not delivered'' s"

lemma fund_split:
  "settlement_split (cooperativeSnapshot 105000 105000 fund_running demo_pool) 1000 =
     \<lparr>rec_floor = 0, rec_reserve = 300, rec_working = 500, rec_burned = 200\<rparr>"
proof -
  let ?s = "cooperativeSnapshot 105000 105000 fund_running demo_pool"
  have ids: "heldAccount ''a1'' \<noteq> ''w''" "heldAccount ''a1'' \<noteq> ''r''" "availableAccount ''a1'' \<noteq> ''w''" "availableAccount ''a1'' \<noteq> ''r''"
    by (simp_all add: heldAccount_def availableAccount_def)
  have g: "map (\<lambda>g. cg_rate_microtu_per_second (gs_group g)) (snapshot_groups 105000 fund_running ''p1'') = [1]"
    "map gs_held (snapshot_groups 105000 fund_running ''p1'') = [0]"
    by (simp_all add: snapshot_groups_def fund_running_def group_held_def window_lease_def fund_window_def fund_lease_def lease_funded_def)
  have "bal (ledger fund_running) ''w'' = 85900" "bal (ledger fund_running) ''r'' = 258900"
    using ids by (simp_all add: fund_running_def fund_ledger_def bal_def)
  then have "sn_working ?s = 85900" "sn_reserve ?s = 258900" "sn_floor ?s = 21600" "sn_working_target ?s = 86400"
    "sn_reserve_target ?s = 259200"
    using g by (simp_all add: cooperativeSnapshot_def Let_def demo_pool_def gap_def)
  then show ?thesis by (simp add: settlement_split_def recycle_def Let_def gap_def)
qed

text \<open>A posting of small amounts between accounts with funds goes through.\<close>

lemma small_post:
  assumes "key \<notin> posted L" and "i \<notin> j_id ` set (journal L)"
    and "2 \<le> length (posting_lines es)" and "sum_list (map snd es) = 0"
    and "\<forall>a \<in> fst ` set es. accounts L a \<noteq> None \<and> \<bar>entry_sum a es\<bar> \<le> 1000000 \<and>
      0 \<le> bal L a + entry_sum a es \<and> bal L a + entry_sum a es \<le> 1000000"
  shows "\<exists>L'. post i key kind es md L = Inr (i, L')"
proof (rule post_succeeds [OF assms(1-4)], clarify)
  fix a v
  assume "(a, v) \<in> set (posting_lines es)"
  then have v: "v = entry_sum a es" "v \<noteq> 0" by (simp_all add: in_lines)
  then have "a \<in> fst ` set es" using entry_sum_none [of a es] by auto
  then have "accounts L a \<noteq> None \<and> \<bar>v\<bar> \<le> 1000000 \<and> 0 \<le> bal L a + v \<and> bal L a + v \<le> 1000000"
    using assms(5) v(1) by blast
  then show "v \<le> MAX_AMOUNT \<and> - MAX_AMOUNT \<le> v \<and>
      (\<exists>acc. accounts L a = Some acc \<and> (acc_kind acc = LAB_ISSUER \<or> 0 \<le> acc_balance acc + v) \<and>
        acc_balance acc + v \<le> MAX_AMOUNT \<and> - MAX_AMOUNT - 1 \<le> acc_balance acc + v)"
    by (auto simp: bal_def MAX_AMOUNT_def)
qed

abbreviation fund_accounts :: "string list" where
  "fund_accounts \<equiv> [heldAccount ''a1'', availableAccount ''a1'', ''w'', ''r'', ''b'']"

lemma fund_ids [simp]:
  "availableAccount ''a1'' \<noteq> ''w''" "availableAccount ''a1'' \<noteq> ''r''" "availableAccount ''a1'' \<noteq> ''b''"
  "heldAccount ''a1'' \<noteq> ''w''" "heldAccount ''a1'' \<noteq> ''r''" "heldAccount ''a1'' \<noteq> ''b''"
  "''w'' \<noteq> availableAccount ''a1''" "''r'' \<noteq> availableAccount ''a1''" "''b'' \<noteq> availableAccount ''a1''"
  "''w'' \<noteq> heldAccount ''a1''" "''r'' \<noteq> heldAccount ''a1''" "''b'' \<noteq> heldAccount ''a1''"
  by (simp_all add: heldAccount_def availableAccount_def)

lemma fund_ledger_bal:
  "bal fund_ledger (heldAccount ''a1'') = 1500" "bal fund_ledger (availableAccount ''a1'') = 0"
  "bal fund_ledger ''w'' = 85900" "bal fund_ledger ''r'' = 258900" "bal fund_ledger ''b'' = 0"
  "\<forall>a \<in> set fund_accounts. accounts fund_ledger a \<noteq> None" "posted fund_ledger = {}" "journal fund_ledger = []"
  by (simp_all add: fund_ledger_def bal_def posted_def)

definition fund_settlement :: cooperative_settlement where
  "fund_settlement = settlement_row fund_session demo_pool 1000
     \<lparr>rec_floor = 0, rec_reserve = 300, rec_working = 500, rec_burned = 200\<rparr>"

lemma fund_settles:
  obtains s1 where "fund_settle = Inr s1" "settlements s1 = [fund_settlement]" "refunds s1 = []"
    "sessions s1 = [ended_row 105000 COMPLETED 1000 None None fund_session]" "pools s1 = [demo_pool]"
    "quotes s1 = [fund_quote]" "windows s1 = [fund_window]" "rt_leases s1 = [fund_lease]"
    "posted (ledger s1) = {settle_key ''s1''}" "j_id ` set (journal (ledger s1)) \<subseteq> {''j3''}"
    "\<forall>a \<in> set fund_accounts. accounts (ledger s1) a \<noteq> None"
    "bal (ledger s1) (availableAccount ''a1'') = 500" "bal (ledger s1) ''w'' = 86400" "bal (ledger s1) ''r'' = 259200"
    "bal (ledger s1) ''b'' = 200"
proof -
  let ?lines = "[(''w'', 500), (''r'', 300), (''b'', 200)] :: (string \<times> int) list"
  let ?es = "payer_lines fund_session 1000 @ ?lines"
  obtain alloc where rec: "recycleSettlement 105000 105000 fund_session 1000 fund_running =
      Inr ((?lines, alloc), fund_running\<lparr>settlements := [fund_settlement]\<rparr>)"
  proof -
    have p: "lookup cp_id ''p1'' (pools fund_running) = Some demo_pool" "settlements fund_running = []"
      by (simp_all add: fund_running_def demo_pool_def empty_db_def)
    have f: "s_cooperative_pool_id fund_session = Some ''p1''" "s_cooperative_policy_sha256 fund_session = Some ''ph''"
      "s_coverage_lease_id fund_session = Some ''l1''" by (simp_all add: fund_session_def)
    have d: "cp_policy_sha256 demo_pool = ''ph''" "cp_working_account demo_pool = ''w''"
      "cp_reserve_account demo_pool = ''r''" "cp_burn_account demo_pool = ''b''" by (simp_all add: demo_pool_def)
    have "settlement_check fund_settlement" by (simp add: settlement_check_def fund_settlement_def)
    then have "insert_settlement fund_settlement fund_running = Inr (fund_running\<lparr>settlements := [fund_settlement]\<rparr>)"
      by (simp add: insert_settlement_def insert_row_def p(2))
    then have "recycleSettlement 105000 105000 fund_session 1000 fund_running =
      Inr ((?lines, allocation_json demo_pool (cooperativeSnapshot 105000 105000 fund_running demo_pool)
        \<lparr>rec_floor = 0, rec_reserve = 300, rec_working = 500, rec_burned = 200\<rparr>), fund_running\<lparr>settlements := [fund_settlement]\<rparr>)"
      by (simp add: recycleSettlement_def locked_def f p(1) d fund_split Let_def flip: fund_settlement_def)
    then show thesis by (rule that)
  qed
  have es: "?es = [(heldAccount ''a1'', - 1500), (availableAccount ''a1'', 500), (''w'', 500), (''r'', 300), (''b'', 200)]"
    by (simp add: payer_lines_def fund_session_def)
  have two: "2 \<le> length (posting_lines ?es)"
    by (simp add: es posting_lines_def del: length_sort)
  have "\<exists>L. post ''j3'' (settle_key ''s1'') ''SETTLE'' ?es (settle_metadata fund_session COMPLETED 1000 (Some alloc)) fund_ledger = Inr (''j3'', L)"
    by (rule small_post [OF _ _ two]) (use fund_ledger_bal in \<open>simp_all add: es\<close>)
  then obtain L where L: "post ''j3'' (settle_key ''s1'') ''SETTLE'' ?es (settle_metadata fund_session COMPLETED 1000 (Some alloc)) fund_ledger = Inr (''j3'', L)" ..
  have f: "s_id fund_session = ''s1''" "s_hold_microtu fund_session = 1500" "s_cooperative_pool_id fund_session = Some ''p1''"
    "\<not> is_terminal (s_state fund_session)" by (simp_all add: fund_session_def)
  have led: "ledger fund_running = fund_ledger" by (simp add: fund_running_def)
  let ?row = "ended_row 105000 COMPLETED 1000 None None fund_session"
  let ?t = "fund_running\<lparr>settlements := [fund_settlement], ledger := L\<rparr>"
  have "update_session ''s1'' (ended_row 105000 COMPLETED 1000 None None) ?t = Inr (?t\<lparr>sessions := [?row]\<rparr>)"
    by (simp add: update_session_def session_identity_def cooperation_kept_def session_check_def window_lease_def update_row_def
        fund_running_def fund_session_def fund_quote_def fund_window_def fund_lease_def ended_row_def)
  then have s1: "fund_settle = Inr (session_event ''s1'' ''terminal''
      [(''state'', JStr (terminal_text COMPLETED)), (''error_code'', opt_str None), (''charged_microtu'', amt 1000)]
      (?t\<lparr>sessions := [?row]\<rparr>))"
    using L by (simp add: fund_settle_def finalize_def f payout_def rec settle_credits_def led)
  have m: "bal L a = bal fund_ledger a + entry_sum a ?es" for a
    using led.moves [OF _ L, of a] by (simp add: fund_ledger_bal)
  have "bal L (availableAccount ''a1'') = 500" "bal L ''w'' = 86400" "bal L ''r'' = 259200" "bal L ''b'' = 200"
    by (simp_all add: m es fund_ledger_bal)
  moreover have "posted L = {settle_key ''s1''}" "j_id ` set (journal L) \<subseteq> {''j3''}"
    using post_posted [OF L] post_ids [OF L] by (simp_all add: fund_ledger_bal)
  moreover have "\<forall>a \<in> set fund_accounts. accounts L a \<noteq> None"
    using post_domain [OF L] fund_ledger_bal(6) by blast
  moreover have "refunds fund_running = []" "pools fund_running = [demo_pool]" "quotes fund_running = [fund_quote]"
    "windows fund_running = [fund_window]" "rt_leases fund_running = [fund_lease]"
    by (simp_all add: fund_running_def empty_db_def)
  ultimately show thesis by (intro that [OF s1]) (simp_all add: session_event_def)
qed

lemma fund_refunds:
  assumes s1: "fund_settle = Inr s1"
  shows "\<exists>row s'. fund_refund s1 = Inr (row, s')"
proof -
  obtain s where s: "fund_settle = Inr s" "settlements s = [fund_settlement]" "refunds s = []"
    "sessions s = [ended_row 105000 COMPLETED 1000 None None fund_session]" "pools s = [demo_pool]"
    "quotes s = [fund_quote]" "windows s = [fund_window]" "rt_leases s = [fund_lease]"
    "posted (ledger s) = {settle_key ''s1''}" "j_id ` set (journal (ledger s)) \<subseteq> {''j3''}"
    "\<forall>a \<in> set fund_accounts. accounts (ledger s) a \<noteq> None"
    "bal (ledger s) (availableAccount ''a1'') = 500" "bal (ledger s) ''w'' = 86400" "bal (ledger s) ''r'' = 259200"
    "bal (ledger s) ''b'' = 200" by (rule fund_settles)
  let ?es = "[(''w'', - 500), (''r'', - 300), (''b'', - 200), (availableAccount ''a1'', 1000)] :: (string \<times> int) list"
  have two: "2 \<le> length (posting_lines ?es)"
    by (simp add: posting_lines_def del: length_sort)
  have "refund_key ''s1'' \<notin> posted (ledger s)" by (simp add: s(9) refund_key_def settle_key_def)
  moreover have "''j4'' \<notin> j_id ` set (journal (ledger s))" using s(10) by auto
  ultimately have post: "\<exists>L. post ''j4'' (refund_key ''s1'') kind ?es md (ledger s) = Inr (''j4'', L)" for kind md
    by (rule small_post [OF _ _ two]) (use s(11-15) in simp_all)
  have f: "s_id fund_session = ''s1''" "s_user_id fund_session = ''a1''" by (simp_all add: fund_session_def)
  have c: "cs_session_id fund_settlement = ''s1''" "cs_pool_id fund_settlement = ''p1''" "cs_charge_microtu fund_settlement = 1000"
    "cs_working_microtu fund_settlement = 500" "cs_reserve_microtu fund_settlement = 300" "cs_burned_microtu fund_settlement = 200"
    by (simp_all add: fund_settlement_def settlement_row_def fund_session_def demo_pool_def)
  have d: "cp_id demo_pool = ''p1''" "cp_working_account demo_pool = ''w''"
      "cp_reserve_account demo_pool = ''r''" "cp_burn_account demo_pool = ''b''" by (simp_all add: demo_pool_def)
  have u: "\<exists>t. update_session ''s1'' refunded_row (s\<lparr>ledger := L, refunds := rs\<rparr>) = Inr t" for L rs
    by (simp add: update_session_def s(4,6-8) session_identity_def cooperation_kept_def session_check_def window_lease_def
        refunded_row_def fund_session_def fund_quote_def fund_window_def fund_lease_def ended_row_def)
  have r: "reason_ok ''the answer was not delivered''" by code_simp
  have a: "u_role overseer = Admin" by (simp add: overseer_def)
  let ?md = "[(''session_id'', JStr ''s1''), (''pool_id'', JStr ''p1''), (''reason'', JStr (trim ''the answer was not delivered'')),
              (''source'', JStr ''EXACT_ORIGINAL_DESTINATIONS''),
              (''burn_reversal_microtu'', amt 200), (''issuance_microtu'', JStr ''0'')]"
  obtain L where "post ''j4'' (refund_key ''s1'') ''COOPERATIVE_CONSUMPTION_REFUND'' ?es ?md (ledger s) = Inr (''j4'', L)"
    using post by blast
  moreover obtain t where "update_session ''s1'' refunded_row (s\<lparr>ledger := L, refunds := [\<lparr>cf_session_id = ''s1'',
      cf_actor_id = u_id overseer, cf_reason = trim ''the answer was not delivered'', cf_journal_id = ''j4''\<rparr>]\<rparr>) = Inr t" using u by blast
  ultimately have "\<exists>row s'. fund_refund s = Inr (row, s')"
    by (simp add: fund_refund_def refund_def r a s(2,3,4,5) f c d locked_def insert_row_def Let_def)
  moreover have "s1 = s" using s1 s(1) by (metis sum.inject(2))
  ultimately show ?thesis by simp
qed

theorem refund_reverses_settlement_witness:
  "\<exists>s1 row s'. fund_settle = Inr s1 \<and> fund_refund s1 = Inr (row, s') \<and>
     bal (ledger s') (availableAccount ''a1'') = 1500 \<and> bal (ledger s') ''w'' = 85900 \<and>
     bal (ledger s') ''r'' = 258900 \<and> bal (ledger s') ''b'' = 0"
proof -
  obtain s1 where s1: "fund_settle = Inr s1" "settlements s1 = [fund_settlement]" "refunds s1 = []"
    "sessions s1 = [ended_row 105000 COMPLETED 1000 None None fund_session]" "pools s1 = [demo_pool]"
    "posted (ledger s1) = {settle_key ''s1''}" by (rule fund_settles)
  obtain row s' where s': "fund_refund s1 = Inr (row, s')" using fund_refunds [OF s1(1)] by blast
  have f: "s_id fund_session = ''s1''" "s_user_id fund_session = ''a1''" "s_hold_microtu fund_session = 1500"
    "\<not> is_terminal (s_state fund_session)" "s_cooperative_pool_id fund_session = Some ''p1''"
    by (simp_all add: fund_session_def)
  have q: "lookup s_id (s_id fund_session) (sessions s1) = Some (ended_row 105000 COMPLETED 1000 None None fund_session)"
    "s_user_id (ended_row 105000 COMPLETED 1000 None None fund_session) = s_user_id fund_session"
    by (simp_all add: s1(4))
  have p: "lookup cp_id ''p1'' (pools fund_running) = Some demo_pool" "lookup cp_id ''p1'' (pools s1) = Some demo_pool"
    by (simp_all add: fund_running_def s1(5) demo_pool_def)
  have fresh: "settle_key (s_id fund_session) \<notin> posted (ledger fund_running)"
    by (simp add: fund_running_def fund_ledger_bal)
  have once: "lookup cf_session_id (s_id fund_session) (refunds s1) = None" "refund_key (s_id fund_session) \<notin> posted (ledger s1)"
    by (simp_all add: s1(3,6) refund_key_def settle_key_def)
  have "\<forall>a. (bal (ledger s1) a - bal (ledger fund_running) a) + (bal (ledger s') a - bal (ledger s1) a) =
      (if a = availableAccount ''a1'' then 1500 else 0) - (if a = heldAccount ''a1'' then 1500 else 0)"
    using refund_reverses_settlement [OF s1(1) [unfolded fund_settle_def] f(4) _ f(5) fresh refl q p refl refl refl
      s' [unfolded fund_refund_def, folded f(1)] once] f by simp
  then have b: "bal (ledger s') a = bal fund_ledger a + (if a = availableAccount ''a1'' then 1500 else 0) -
      (if a = heldAccount ''a1'' then 1500 else 0)" for a
    by (simp add: fund_running_def algebra_simps)
  have "bal (ledger s') (availableAccount ''a1'') = 1500 \<and> bal (ledger s') ''w'' = 85900 \<and>
     bal (ledger s') ''r'' = 258900 \<and> bal (ledger s') ''b'' = 0"
    by (simp add: b fund_ledger_bal)
  then show ?thesis using s1(1) s' by blast
qed

end
