(* ===== verification/Transactions.thy ===== *)
theory Transactions
  imports Demo
begin

text \<open>
  \<open>Database.transaction\<close> of \<open>apps/control-api/src/db.ts\<close>: the work runs in a serializable transaction
  and is tried again, up to five times, when the database reports a serialization failure or a
  deadlock. An attempt gets a database of its own: between two attempts other transactions commit.
\<close>

section \<open>The loop\<close>

text \<open>
  One attempt as the client sees it: the work threw (the transaction is rolled back), or \<open>COMMIT\<close>
  failed with an SQLSTATE, or the value was committed.
\<close>

datatype 'a attempt = Threw error | Commit_failed string | Committed 'a

definition retryable :: "error \<Rightarrow> bool" where
  "retryable e \<longleftrightarrow> e = DbError ''40001'' \<or> e = DbError ''40P01''"

definition attempt_error :: "'a attempt \<Rightarrow> error option" where
  "attempt_error a = (case a of Threw e \<Rightarrow> Some e | Commit_failed c \<Rightarrow> Some (DbError c) | Committed v \<Rightarrow> None)"

text \<open>
  The turns of the \<open>for\<close> loop from \<open>attempt\<close> on: the result, and how many attempts were made. The
  loop leaves by \<open>return\<close> or \<open>throw\<close> before \<open>attempt\<close> reaches 5, so the last line is not reached.
\<close>

function transaction_from :: "(nat \<Rightarrow> 'a attempt) \<Rightarrow> nat \<Rightarrow> ('a result \<times> nat) option" where
  "transaction_from run k =
     (if k < 5 then
        (case run k of
           Committed v \<Rightarrow> Some (Inr v, k + 1)
         | _ \<Rightarrow>
             (case attempt_error (run k) of
                None \<Rightarrow> None
              | Some e \<Rightarrow>
                  if k = 4 \<or> \<not> retryable e then Some (Inl e, k + 1) else transaction_from run (k + 1)))
      else None)"
  by pat_completeness auto
termination by (relation "measure (\<lambda>(run, k). 5 - k)") auto

declare transaction_from.simps [simp del]

definition transaction :: "(nat \<Rightarrow> 'a attempt) \<Rightarrow> ('a result \<times> nat) option" where
  "transaction run = transaction_from run 0"

text \<open>The pause before the next attempt, in milliseconds.\<close>

definition backoff :: "nat \<Rightarrow> nat" where "backoff k = 10 + k * 20"

section \<open>Attempts on a database\<close>

text \<open>
  The \<open>k\<close>-th attempt of a handler on the database \<open>dbs k\<close> that its transaction sees, when the commit
  fails with the code \<open>fails k\<close> or goes through.
\<close>

definition attempt_on :: "'a handler \<Rightarrow> (nat \<Rightarrow> db) \<Rightarrow> (nat \<Rightarrow> string option) \<Rightarrow> nat \<Rightarrow> ('a \<times> db) attempt" where
  "attempt_on work dbs fails k =
     (case work (dbs k) of
        Inl e \<Rightarrow> Threw e
      | Inr r \<Rightarrow> (case fails k of Some c \<Rightarrow> Commit_failed c | None \<Rightarrow> Committed r))"

lemma transaction_from_ends:
  assumes "k < 5"
  shows "\<exists>r n. transaction_from run k = Some (r, n) \<and> k < n \<and> n \<le> 5 \<and>
    (\<forall>j. k \<le> j \<and> j < n - 1 \<longrightarrow> (\<exists>e. attempt_error (run j) = Some e \<and> retryable e)) \<and>
    (case run (n - 1) of Committed v \<Rightarrow> r = Inr v
     | _ \<Rightarrow> \<exists>e. attempt_error (run (n - 1)) = Some e \<and> r = Inl e \<and> (retryable e \<longrightarrow> n = 5))"
  using assms
proof (induction "5 - k" arbitrary: k)
  case 0
  then show ?case by simp
next
  case (Suc x)
  show ?case
  proof (cases "attempt_error (run k)")
    case None
    then obtain v where v: "run k = Committed v" by (auto simp: attempt_error_def split: attempt.splits)
    have "transaction_from run k = Some (Inr v, k + 1)"
      by (subst transaction_from.simps) (use Suc.prems v in simp)
    with v Suc.prems show ?thesis by auto
  next
    case (Some e)
    then have run: "(case run k of Committed v \<Rightarrow> a v | _ \<Rightarrow> b) = b" for a :: "'a \<Rightarrow> 'c" and b
      by (auto simp: attempt_error_def split: attempt.splits)
    show ?thesis
    proof (cases "k = 4 \<or> \<not> retryable e")
      case True
      then have "transaction_from run k = Some (Inl e, k + 1)"
        by (subst transaction_from.simps) (use Suc.prems Some in \<open>auto simp: attempt_error_def split: attempt.splits\<close>)
      with True Some Suc.prems show ?thesis
        by (auto simp: attempt_error_def split: attempt.splits)
    next
      case False
      then have step: "transaction_from run k = transaction_from run (k + 1)"
        by (subst transaction_from.simps) (use Suc.prems Some in \<open>auto simp: attempt_error_def split: attempt.splits\<close>)
      have "x = 5 - (k + 1)" "k + 1 < 5" using Suc False by auto
      from Suc.hyps(1) [OF this] obtain r n where IH: "transaction_from run (k + 1) = Some (r, n)" "k + 1 < n" "n \<le> 5"
          "\<forall>j. k + 1 \<le> j \<and> j < n - 1 \<longrightarrow> (\<exists>e. attempt_error (run j) = Some e \<and> retryable e)"
          "(case run (n - 1) of Committed v \<Rightarrow> r = Inr v
            | _ \<Rightarrow> \<exists>e. attempt_error (run (n - 1)) = Some e \<and> r = Inl e \<and> (retryable e \<longrightarrow> n = 5))" by blast
      have "\<forall>j. k \<le> j \<and> j < n - 1 \<longrightarrow> (\<exists>e. attempt_error (run j) = Some e \<and> retryable e)"
      proof (intro allI impI)
        fix j assume "k \<le> j \<and> j < n - 1"
        then show "\<exists>e. attempt_error (run j) = Some e \<and> retryable e"
          using IH(4) Some False by (cases "j = k") auto
      qed
      with IH(1,2,3,5) step show ?thesis by (intro exI [of _ r] exI [of _ n]) simp
    qed
  qed
qed

text \<open>
  C27: a transaction always ends, after one to five attempts, and takes effect at most once. Its
  result is that of its last attempt: the value that this attempt alone committed, computed on the
  database that this attempt saw, or the error it failed with. Every earlier attempt failed with a
  serialization failure or a deadlock, and no other error is tried again.
\<close>

theorem transaction_commits_once:
  "\<exists>r n. transaction (attempt_on work dbs fails) = Some (r, n) \<and> 1 \<le> n \<and> n \<le> 5 \<and>
     (\<forall>k < n - 1. \<exists>e. attempt_error (attempt_on work dbs fails k) = Some e \<and> retryable e) \<and>
     (case r of
        Inr v \<Rightarrow> work (dbs (n - 1)) = Inr v \<and> fails (n - 1) = None
      | Inl e \<Rightarrow> (work (dbs (n - 1)) = Inl e \<or> (\<exists>c. fails (n - 1) = Some c \<and> e = DbError c)) \<and>
          (retryable e \<longrightarrow> n = 5))"
proof -
  obtain r n where T: "transaction_from (attempt_on work dbs fails) 0 = Some (r, n)" "0 < n" "n \<le> 5"
      "\<forall>j. 0 \<le> j \<and> j < n - 1 \<longrightarrow> (\<exists>e. attempt_error (attempt_on work dbs fails j) = Some e \<and> retryable e)"
      "(case attempt_on work dbs fails (n - 1) of Committed v \<Rightarrow> r = Inr v
        | _ \<Rightarrow> \<exists>e. attempt_error (attempt_on work dbs fails (n - 1)) = Some e \<and> r = Inl e \<and> (retryable e \<longrightarrow> n = 5))"
    using transaction_from_ends [of 0 "attempt_on work dbs fails"] by auto
  have "case r of
        Inr v \<Rightarrow> work (dbs (n - 1)) = Inr v \<and> fails (n - 1) = None
      | Inl e \<Rightarrow> (work (dbs (n - 1)) = Inl e \<or> (\<exists>c. fails (n - 1) = Some c \<and> e = DbError c)) \<and>
          (retryable e \<longrightarrow> n = 5)"
    using T(5) by (auto simp: attempt_on_def attempt_error_def split: sum.splits option.splits attempt.splits)
  with T(1-4) show ?thesis by (intro exI [of _ r] exI [of _ n]) (simp add: transaction_def)
qed

text \<open>Two conflicts, then a commit: the third attempt counts.\<close>

definition twice_in_conflict :: "nat \<Rightarrow> string option" where
  "twice_in_conflict k = (if k < 2 then Some ''40001'' else None)"

definition idle :: "unit handler" where "idle s = Inr ((), s)"

theorem transaction_commits_once_witness:
  "transaction (attempt_on idle (\<lambda>k. demo_db) twice_in_conflict) = Some (Inr ((), demo_db), 3)"
proof -
  let ?a = "attempt_on idle (\<lambda>k. demo_db) twice_in_conflict"
  obtain r n where T: "transaction ?a = Some (r, n)" "1 \<le> n" "n \<le> 5"
      "\<forall>k < n - 1. \<exists>e. attempt_error (?a k) = Some e \<and> retryable e"
      "case r of Inr v \<Rightarrow> idle demo_db = Inr v \<and> twice_in_conflict (n - 1) = None
        | Inl e \<Rightarrow> (idle demo_db = Inl e \<or> (\<exists>c. twice_in_conflict (n - 1) = Some c \<and> e = DbError c)) \<and>
            (retryable e \<longrightarrow> n = 5)"
    using transaction_commits_once [of idle "\<lambda>k. demo_db" twice_in_conflict] by auto
  have e: "attempt_error (?a k) \<noteq> None \<longleftrightarrow> k < 2" for k
    by (simp add: attempt_on_def attempt_error_def idle_def twice_in_conflict_def)
  have n: "n \<le> 3"
  proof (rule ccontr)
    assume "\<not> n \<le> 3"
    then have "2 < n - 1" by simp
    with T(4) obtain c where "attempt_error (?a 2) = Some c" by blast
    with e [of 2] show False by simp
  qed
  have "n \<noteq> 5" using n by simp
  with T(5) have "twice_in_conflict (n - 1) = None" "r = Inr ((), demo_db)"
    by (auto simp: idle_def twice_in_conflict_def retryable_def split: sum.splits if_splits)
  moreover from this(1) n have "n = 3" by (auto simp: twice_in_conflict_def split: if_splits)
  ultimately show ?thesis using T(1) by simp
qed

end
