(* ===== verification/Spec2Isabelle.thy ===== *)
theory Spec2Isabelle
  imports Auth Auth_Life Availability Availability_Progress Canonical Clock Contracts
    Cooperative Demo Economics Escrow Expansion_Life Funds Funds_Demo Funds_Life Ledger
    Market Metered Node_Life Nodes Offers Prelude Renewals Renewals_Demo Renewals_Life
    Renewals_Spend Route_Leases Route_Leases_Demo Route_Leases_Life Route_Leases_Money
    Routes Routes_Life Schema Security Sessions Sessions_Admission Sessions_Demo
    Sessions_Life Sessions_Money Sessions_Progress Sessions_Refund Sessions_Settlement
    Transactions
begin

text \<open>
  A verification development for Network AI (Dev-Encrypted/Network_AI): a control plane, written in
  TypeScript over PostgreSQL, that lets members of a private laboratory offer their machines for
  inference and be paid in test units (1 TU = 1000000 micro-TU).

  \<^bold>\<open>The program.\<close> The control API (\<open>src/apps/control-api/src\<close>) holds one database. A quoted
  \<^emph>\<open>session\<close> (\<open>sessions.ts\<close>) holds the most it can cost, waits to be admitted to a node or to a
  route of nodes (the offers of \<open>infra/migrations/005\<close> and \<open>capacity.ts\<close>), is authorized, claimed,
  and settled from the receipts of the nodes. Money moves only through \<open>ledger.ts\<close>. Sponsors buy
  readiness of one node (\<open>availability.ts\<close>) or of a complete route (\<open>route-availability.ts\<close>)
  through an escrow that pays per observed interval. Cooperative funds (\<open>cooperative.ts\<close>) recycle a
  part of each charge to keep declared coverage funded, and buy windows of readiness by hand or, within
  signed limits, by a timer (\<open>renewals.ts\<close>, \<open>economics.ts\<close>).

  \<^bold>\<open>The model.\<close> A handler that runs in a transaction is a function to \<open>error + ('a \<times> db)\<close>
  (Prelude): \<open>Inl\<close> rolls the transaction back, \<open>Inr\<close> commits; \<open>commit\<close> is that transaction
  boundary. A table is a list of rows (\<open>Schema\<close>), in insertion order; a constraint or trigger of
  \<open>infra/migrations\<close> is a check of the insert or update that it guards and fails with its SQLSTATE.
  Identifiers that the code draws at random (\<open>randomUUID\<close>) and the clocks it reads enter as
  arguments, \<open>tx_now\<close> being SQL's \<open>now()\<close>; SHA-256 and the other cryptographic functions are
  parameters. Amounts are JavaScript bigints, so \<open>int\<close>; their division truncates (\<open>sdiv\<close>).
  Transactions are serialized, the isolation that the code's row locks give to the rows they touch.

  \<^bold>\<open>The theories.\<close>
  \<^item> Prelude, Contracts, Canonical, Security, Clock: errors and tables; \<open>packages/contracts\<close>; the
    canonical JSON that is hashed and signed; capabilities; dates.
  \<^item> Schema: the database. Ledger: \<open>post\<close>, accounts and the journal triggers; conservation,
    idempotency and the refusal of overdrafts. Escrow: the \<open>funded_contract\<close> locale, the contract of
    an escrow that is opened, paid from and refunded, interpreted by both kinds of lease.
  \<^item> Offers: what can run a session now, \<open>capacity.ts\<close> and the two views.
  \<^item> Availability, Availability_Progress: contracts on a node, their invariant, what is paid and the
    progress of \<open>reconcile\<close>.
  \<^item> Cooperative: allocation of a charge to a fund and its reversal, with the triggers of the sessions
    table, which a refund updates too. Funds: plans, contributions,
    windows and their incidents. Funds_Life: no plan counts capacity twice, and a window takes its
    price from the account it may take it from; Funds_Demo evaluates one.
  \<^item> Economics: declared parties, affiliations and operating support, and the gates of an expansion
    (\<open>economics.ts\<close>); Expansion_Life: the demand it counts is funded, each entry with the own
    affiliation of its consumer, and independent. Renewals: the
    authorizations, mandates and the timer's attempt (\<open>renewals.ts\<close>). Metered: the contract of grants
    that are used up, a locale that authorizations and mandates interpret. Renewals_Life: limits and
    revocations hold in every reachable database; Renewals_Spend: what one renewal spends;
    Renewals_Demo evaluates one.
  \<^item> Sessions and Sessions_*: the session API. Sessions_Money has the step relation (\<open>session_call\<close>: the
    ten calls of the API and \<open>refund\<close>, the only other writer of the table) and carries the invariant;
    Sessions_Life the abstract life cycle and the refinement of every call to edges of it;
    Sessions_Settlement the settlement; Sessions_Refund the refund of a cooperative settlement, which
    cancels its postings; Sessions_Progress cancellation and the reaper, which get through in every
    database that \<open>system_step\<close> reaches; Sessions_Admission holds and the queue.
  \<^item> Route_Leases, Route_Leases_Money, Route_Leases_Life: contracts on a route.
  \<^item> Transactions: the retry loop of \<open>db.ts\<close>.
  \<^item> Auth, Auth_Life: users, logins and API keys (\<open>auth.ts\<close>); who can be authenticated.
  \<^item> Nodes, Node_Life: registration, signed requests, epochs, heartbeats (\<open>nodes.ts\<close>).
  \<^item> Market: models, quotes, grants, domains and invitations (\<open>market.ts\<close>).
  \<^item> Routes, Routes_Life: proposal, consent and qualification of routes (\<open>routes.ts\<close>).
  \<^item> Demo, Sessions_Demo, Route_Leases_Demo: concrete databases for the witnesses.

  \<^bold>\<open>How the properties speak of time.\<close> Each component has a step relation of its operations, with a
  step for everything that other components do to other tables, and its properties hold in every
  database reachable by these steps; some carry labels (a login, a consent) that the property counts.
  The step of the others is as free as the tables' ownership allows: it may post to any account, write any key and
  change any row but those that only the component's own operations write (\<open>beside_leases\<close> for node
  leases, the rule \<open>other\<close> of \<open>session_step\<close> for sessions). Properties that say a call returns also
  assume that journal ids are fresh and that balances fit the 64-bit column of the database.

  \<^bold>\<open>Bounds.\<close> No definition uses fuel. Loops of the code run over lists of rows and are structural,
  the retry loop counts to five; the limits of the code's queries (100 rows per pass of the reaper and of \<open>reconcile\<close>) are \<open>take\<close>s.

  \<^bold>\<open>Not modelled.\<close> The web application, the HTTP controller and configuration, the contributor's
  local scripts, the Rust crates and the laboratory scripts; listings made for the web page; the
  query for the flow of a day in \<open>expansionFacts\<close>, whose row is an argument because the dates of
  journal rows, settlements and refunds are not columns of the model; the database's own concurrency beyond serial transactions.
\<close>

end
